(* ===== verification/Prelude.thy ===== *)
theory Prelude
  imports Complex_Main "HOL-Library.Log_Nat"
begin

text \<open>
  Shared vocabulary of the development: the errors the NestJS handlers throw, JSON values as the
  services store them in \<^verbatim>\<open>jsonb\<close> columns, the row operations of a TypeORM repository over
  a table kept as a list, the JavaScript string functions the sources call, and the lemma
  collections and generic lemmas every component uses.
\<close>

named_theorems row_simps \<open>equations of the row operations on a table\<close>
named_theorems handler_defs \<open>definitions of the handlers, unfolded by the branch proofs\<close>

section \<open>Errors and results\<close>

text \<open>
  \<open>http_error\<close> has one constructor per exception class of \<^verbatim>\<open>@nestjs/common\<close> the modelled
  code throws; \<open>Server_Error\<close> is a plain \<^verbatim>\<open>Error\<close>, which the framework answers with 500.
\<close>

datatype http_error =
    Not_Found string
  | Bad_Request string
  | Conflict_Err string
  | Forbidden_Err string
  | Unauthorized_Err string
  | Unprocessable_Err string
  | Too_Many_Requests string
  | Service_Unavailable string
  | Server_Error string

primrec http_status :: "http_error \<Rightarrow> int" where
  "http_status (Not_Found m) = 404"
| "http_status (Bad_Request m) = 400"
| "http_status (Conflict_Err m) = 409"
| "http_status (Forbidden_Err m) = 403"
| "http_status (Unauthorized_Err m) = 401"
| "http_status (Unprocessable_Err m) = 422"
| "http_status (Too_Many_Requests m) = 429"
| "http_status (Service_Unavailable m) = 503"
| "http_status (Server_Error m) = 500"

type_synonym 'a result = "http_error + 'a"

definition is_ok :: "'a result \<Rightarrow> bool" where
  "is_ok r = (case r of Inl _ \<Rightarrow> False | Inr _ \<Rightarrow> True)"

lemma is_ok_simps [simp]: "is_ok (Inr a)" "\<not> is_ok (Inl e)"
  by (simp_all add: is_ok_def)

section \<open>JSON values\<close>

datatype json =
    JNull
  | JBool bool
  | JNum rat
  | JStr string
  | JArr "json list"
  | JObj "(string \<times> json) list"

type_synonym metadata = "(string \<times> json) list"

text \<open>
  Setting one property of an object keeps the position of an existing key and appends a new
  one, as JavaScript property assignment does; a spread of \<open>b\<close> over \<open>a\<close> sets them in turn.
\<close>

fun obj_set :: "metadata \<Rightarrow> string \<Rightarrow> json \<Rightarrow> metadata" where
  "obj_set [] k v = [(k, v)]"
| "obj_set ((k', v') # m) k v = (if k' = k then (k, v) # m else (k', v') # obj_set m k v)"

definition obj_spread :: "metadata \<Rightarrow> metadata \<Rightarrow> metadata" where
  "obj_spread a b = fold (\<lambda>(k, v) m. obj_set m k v) b a"

lemma map_of_obj_set [simp]: "map_of (obj_set m k v) = (map_of m)(k \<mapsto> v)"
  by (induction m k v rule: obj_set.induct) (auto simp: fun_eq_iff)

lemma obj_spread_simps [simp]:
  "obj_spread a [] = a"
  "obj_spread a ((k, v) # b) = obj_spread (obj_set a k v) b"
  by (simp_all add: obj_spread_def)

definition json_of_opt :: "('a \<Rightarrow> json) \<Rightarrow> 'a option \<Rightarrow> json" where
  "json_of_opt f x = (case x of None \<Rightarrow> JNull | Some a \<Rightarrow> f a)"

section \<open>Tables and the row operations of a repository\<close>

text \<open>
  A table is the list of its rows. \<^verbatim>\<open>findOne\<close> without an order returns some matching row:
  the model takes the first one, and the theorems quantify over every list, hence over every
  order. \<^verbatim>\<open>update(where, patch)\<close> patches every matching row and reports how many it
  affected; \<^verbatim>\<open>save\<close> of a new entity appends it.
\<close>

definition find_where :: "('a \<Rightarrow> bool) \<Rightarrow> 'a list \<Rightarrow> 'a option" where
  "find_where p rows = List.find p rows"

definition exists_where :: "('a \<Rightarrow> bool) \<Rightarrow> 'a list \<Rightarrow> bool" where
  "exists_where p rows = list_ex p rows"

definition update_where :: "('a \<Rightarrow> bool) \<Rightarrow> ('a \<Rightarrow> 'a) \<Rightarrow> 'a list \<Rightarrow> 'a list" where
  "update_where p f rows = map (\<lambda>r. if p r then f r else r) rows"

definition affected :: "('a \<Rightarrow> bool) \<Rightarrow> 'a list \<Rightarrow> nat" where
  "affected p rows = length (filter p rows)"

definition insert_row :: "'a \<Rightarrow> 'a list \<Rightarrow> 'a list" where
  "insert_row r rows = rows @ [r]"

definition delete_where :: "('a \<Rightarrow> bool) \<Rightarrow> 'a list \<Rightarrow> 'a list" where
  "delete_where p rows = filter (\<lambda>r. \<not> p r) rows"

text \<open>\<^verbatim>\<open>order: { created_at: 'DESC' }\<close>: the first of the matching rows with the greatest key.\<close>

fun latest :: "('a \<Rightarrow> int) \<Rightarrow> 'a list \<Rightarrow> 'a option" where
  "latest key [] = None"
| "latest key (r # rows) =
     (case latest key rows of
        None \<Rightarrow> Some r
      | Some r' \<Rightarrow> if key r' \<le> key r then Some r else Some r')"

definition find_latest :: "('a \<Rightarrow> int) \<Rightarrow> ('a \<Rightarrow> bool) \<Rightarrow> 'a list \<Rightarrow> 'a option" where
  "find_latest key p rows = latest key (filter p rows)"

lemma find_where_Some: "find_where p rows = Some r \<Longrightarrow> r \<in> set rows \<and> p r"
  by (auto simp: find_where_def find_Some_iff)

lemma find_where_None: "find_where p rows = None \<longleftrightarrow> (\<forall>r\<in>set rows. \<not> p r)"
  by (auto simp: find_where_def find_None_iff)

lemma find_where_ex: "r \<in> set rows \<Longrightarrow> p r \<Longrightarrow> \<exists>r'. find_where p rows = Some r'"
  using find_where_None [of p rows] by (cases "find_where p rows") auto

lemma find_where_simps [row_simps, simp]:
  "find_where p [] = None"
  "find_where p (r # rows) = (if p r then Some r else find_where p rows)"
  by (simp_all add: find_where_def)

lemma find_where_append [row_simps]:
  "find_where p (xs @ ys) = (case find_where p xs of None \<Rightarrow> find_where p ys | Some r \<Rightarrow> Some r)"
  by (induction xs) auto

lemma exists_where_iff [row_simps]: "exists_where p rows \<longleftrightarrow> (\<exists>r\<in>set rows. p r)"
  by (auto simp: exists_where_def list_ex_iff)

lemma exists_where_simps [simp]:
  "\<not> exists_where p []"
  "exists_where p (r # rows) \<longleftrightarrow> p r \<or> exists_where p rows"
  by (simp_all add: exists_where_def)

lemma update_where_simps [simp]:
  "update_where p f [] = []"
  "update_where p f (r # rows) = (if p r then f r else r) # update_where p f rows"
  by (simp_all add: update_where_def)

lemma set_update_where [row_simps]:
  "set (update_where p f rows) = (\<lambda>r. if p r then f r else r) ` set rows"
  by (simp add: update_where_def)

lemma map_update_where [row_simps]:
  "(\<And>r. p r \<Longrightarrow> g (f r) = g r) \<Longrightarrow> map g (update_where p f rows) = map g rows"
  by (simp add: update_where_def)

lemma update_where_none: "(\<And>r. r \<in> set rows \<Longrightarrow> \<not> p r) \<Longrightarrow> update_where p f rows = rows"
  by (simp add: update_where_def map_idI)

lemma affected_simps [simp]:
  "affected p [] = 0"
  "affected p (r # rows) = (if p r then Suc (affected p rows) else affected p rows)"
  by (simp_all add: affected_def)

lemma affected_pos: "affected p rows > 0 \<longleftrightarrow> (\<exists>r\<in>set rows. p r)"
  by (auto simp: affected_def filter_empty_conv)

lemma set_insert_row [row_simps]: "set (insert_row r rows) = insert r (set rows)"
  by (simp add: insert_row_def)

lemma set_delete_where [row_simps]: "set (delete_where p rows) = {r \<in> set rows. \<not> p r}"
  by (auto simp: delete_where_def)

lemma latest_None [simp]: "latest key rows = None \<longleftrightarrow> rows = []"
  by (cases rows) (auto split: option.splits)

lemma latest_Some:
  "latest key rows = Some r \<Longrightarrow> r \<in> set rows \<and> (\<forall>r'\<in>set rows. key r' \<le> key r)"
proof (induction rows arbitrary: r)
  case Nil
  then show ?case by simp
next
  case (Cons a rows)
  then show ?case by (cases "latest key rows") (fastforce split: if_splits)+
qed

lemma find_latest_Some:
  "find_latest key p rows = Some r \<Longrightarrow>
     r \<in> set rows \<and> p r \<and> (\<forall>r'\<in>set rows. p r' \<longrightarrow> key r' \<le> key r)"
  by (auto simp: find_latest_def dest: latest_Some)

lemma find_latest_None: "find_latest key p rows = None \<longleftrightarrow> (\<forall>r\<in>set rows. \<not> p r)"
  by (auto simp: find_latest_def filter_empty_conv)

text \<open>A table with a primary key: at most one row per key.\<close>

definition keyed :: "('a \<Rightarrow> 'k) \<Rightarrow> 'a list \<Rightarrow> bool" where
  "keyed key rows = distinct (map key rows)"

lemma keyed_inj: "keyed key rows \<Longrightarrow> r \<in> set rows \<Longrightarrow> r' \<in> set rows \<Longrightarrow> key r = key r' \<Longrightarrow> r = r'"
  by (auto simp: keyed_def distinct_map dest: inj_onD)

lemma keyed_update_where:
  "keyed key rows \<Longrightarrow> (\<And>r. p r \<Longrightarrow> key (f r) = key r) \<Longrightarrow> keyed key (update_where p f rows)"
  by (simp add: keyed_def map_update_where)

lemma keyed_insert_row:
  "keyed key (insert_row r rows) \<longleftrightarrow> keyed key rows \<and> key r \<notin> key ` set rows"
  by (auto simp: keyed_def insert_row_def)

lemma keyed_delete_where: "keyed key rows \<Longrightarrow> keyed key (delete_where p rows)"
  by (auto simp: keyed_def delete_where_def distinct_map inj_on_def)

lemma keyed_find_where:
  "keyed key rows \<Longrightarrow> r \<in> set rows \<Longrightarrow> find_where (\<lambda>x. key x = key r) rows = Some r"
  by (induction rows) (auto simp: keyed_def)

lemma keyed_find_where_iff:
  "keyed key rows \<Longrightarrow> find_where (\<lambda>x. key x = k) rows = Some r \<longleftrightarrow> r \<in> set rows \<and> key r = k"
  using keyed_find_where [of key rows r] find_where_Some [of "\<lambda>x. key x = k" rows r] by auto

section \<open>JavaScript strings\<close>

text \<open>
  Strings are lists of characters; the sources' inputs this development reads (dates, keys,
  identifiers) are ASCII.
\<close>

definition js_space :: "char \<Rightarrow> bool" where
  "js_space c \<longleftrightarrow> c \<in> {CHR '' '', CHR 0x09, CHR 0x0A, CHR 0x0B, CHR 0x0C, CHR 0x0D}"

definition js_trim :: "string \<Rightarrow> string" where
  "js_trim s = rev (dropWhile js_space (rev (dropWhile js_space s)))"

definition is_digit :: "char \<Rightarrow> bool" where
  "is_digit c \<longleftrightarrow> (48::nat) \<le> of_char c \<and> of_char c \<le> (57::nat)"

definition digit_val :: "char \<Rightarrow> nat" where
  "digit_val c = of_char c - 48"

definition digits_val :: "string \<Rightarrow> nat" where
  "digits_val s = fold (\<lambda>c n. 10 * n + digit_val c) s 0"

definition js_lower_char :: "char \<Rightarrow> char" where
  "js_lower_char c =
     (if (65::nat) \<le> of_char c \<and> of_char c \<le> (90::nat) then char_of (of_char c + (32::nat)) else c)"

definition js_upper_char :: "char \<Rightarrow> char" where
  "js_upper_char c =
     (if (97::nat) \<le> of_char c \<and> of_char c \<le> (122::nat) then char_of (of_char c - (32::nat)) else c)"

definition js_lower :: "string \<Rightarrow> string" where
  "js_lower s = map js_lower_char s"

definition js_upper :: "string \<Rightarrow> string" where
  "js_upper s = map js_upper_char s"

fun nat_str :: "nat \<Rightarrow> string" where
  "nat_str n = (if n < 10 then [char_of (48 + n)] else nat_str (n div 10) @ [char_of (48 + n mod 10)])"

declare nat_str.simps [simp del]

definition pad_start :: "nat \<Rightarrow> char \<Rightarrow> string \<Rightarrow> string" where
  "pad_start w c s = replicate (w - length s) c @ s"

lemma length_pad_start [simp]: "length (pad_start w c s) = max w (length s)"
  by (simp add: pad_start_def)

lemma digits_val_append: "digits_val (s @ t) = digits_val s * 10 ^ length t + digits_val t"
proof -
  have acc: "fold (\<lambda>c n. 10 * n + digit_val c) t a = a * 10 ^ length t + digits_val t" for a
  proof (induction t arbitrary: a rule: rev_induct)
    case Nil
    show ?case by (simp add: digits_val_def)
  next
    case (snoc c t)
    have "fold (\<lambda>c n. 10 * n + digit_val c) (t @ [c]) a
        = 10 * (a * 10 ^ length t + digits_val t) + digit_val c"
      by (simp add: snoc)
    moreover have "digits_val (t @ [c]) = 10 * digits_val t + digit_val c"
      by (simp add: digits_val_def)
    ultimately show ?case by simp
  qed
  have "digits_val (s @ t) = fold (\<lambda>c n. 10 * n + digit_val c) t (digits_val s)"
    by (simp add: digits_val_def)
  then show ?thesis by (simp only: acc)
qed

lemma digits_val_Nil [simp]: "digits_val [] = 0"
  by (simp add: digits_val_def)

lemma digits_val_single [simp]: "digits_val [c] = digit_val c"
  by (simp add: digits_val_def)

lemma digits_val_Cons: "digits_val (c # s) = digit_val c * 10 ^ length s + digits_val s"
  using digits_val_append [of "[c]" s] by simp

lemma digit_val_char_of [simp]: "n < 10 \<Longrightarrow> digit_val (char_of (48 + n)) = n"
  by (simp add: digit_val_def)

lemma is_digit_char_of [simp]: "n < 10 \<Longrightarrow> is_digit (char_of (48 + n :: nat))"
  by (simp add: is_digit_def)

lemma is_digit_bounds: "is_digit c \<Longrightarrow> digit_val c < 10"
  by (auto simp: is_digit_def digit_val_def)

lemma digits_val_bound: "list_all is_digit s \<Longrightarrow> digits_val s < 10 ^ length s"
proof (induction s)
  case Nil
  show ?case by simp
next
  case (Cons c s)
  then have "digit_val c \<le> 9" and "digits_val s < 10 ^ length s"
    using is_digit_bounds [of c] by auto
  then have "digit_val c * 10 ^ length s + digits_val s < 9 * 10 ^ length s + 10 ^ length s"
    by (meson add_le_less_mono mult_le_mono1)
  then show ?case by (simp add: digits_val_Cons)
qed

lemma digits_val_nat_str: "digits_val (nat_str n) = n"
proof (induction n rule: nat_str.induct)
  case (1 n)
  then show ?case
    by (subst nat_str.simps) (auto simp: digits_val_append)
qed

lemma all_digits_nat_str: "list_all is_digit (nat_str n)"
proof (induction n rule: nat_str.induct)
  case (1 n)
  then show ?case by (subst nat_str.simps) auto
qed

lemma digits_val_zeros [simp]: "digits_val (replicate n (CHR ''0'')) = 0"
  by (induction n) (auto simp: digits_val_Cons digit_val_def)

lemma digits_val_pad_start: "digits_val (pad_start w (CHR ''0'') s) = digits_val s"
  by (simp add: pad_start_def digits_val_append)

lemma all_digits_pad_start:
  "list_all is_digit s \<Longrightarrow> list_all is_digit (pad_start w (CHR ''0'') s)"
  by (auto simp: pad_start_def list_all_iff is_digit_def)

lemma length_nat_str: "0 < k \<Longrightarrow> length (nat_str n) \<le> k \<longleftrightarrow> n < 10 ^ k"
proof (induction n arbitrary: k rule: nat_str.induct)
  case (1 n)
  show ?case
  proof (cases "n < 10")
    case True
    have "(10::nat) ^ 1 \<le> 10 ^ k" using 1(2) by (intro power_increasing) auto
    with True 1(2) show ?thesis by (subst nat_str.simps) auto
  next
    case False
    show ?thesis
    proof (cases "k = 1")
      case True
      have "nat_str (n div 10) \<noteq> []" by (subst nat_str.simps) simp
      with True False show ?thesis by (subst nat_str.simps) auto
    next
      case k: False
      with 1(2) obtain j where j: "k = Suc j" "0 < j" by (cases k) auto
      have "length (nat_str (n div 10)) \<le> j \<longleftrightarrow> n div 10 < 10 ^ j"
        using 1(1) False j by blast
      with False j show ?thesis by (subst nat_str.simps) (auto simp: div_less_iff_less_mult algebra_simps)
    qed
  qed
qed

end
