(* ===== verification/JsNumber.thy ===== *)
theory JsNumber
  imports Prelude
begin

text \<open>
  JavaScript numbers. A finite number is an IEEE-754 binary64 value; it is represented by the
  rational it denotes, and every arithmetic operator rounds its exact result to the nearest
  53-bit significand, ties to even (\<open>fl\<close>). The exponent is unbounded: the amounts, rates and
  hours the sources compute with stay far from overflow and from the subnormal range.

  \<open>num\<close> reads a \<^verbatim>\<open>decimal(18,2)\<close> column (the driver hands the decimal text to
  \<open>Number\<close>, which rounds correctly) and \<open>col2\<close> writes one (PostgreSQL rounds a numeric to the
  column's scale, ties away from zero). Columns are kept as whole cents.
\<close>

section \<open>Rounding to binary64\<close>

definition ilog2 :: "rat \<Rightarrow> int" where
  "ilog2 x = (let (p, q) = quotient_of x; e = bitlen p - bitlen q
              in if 2 powi e \<le> x then e else e - 1)"

definition rne :: "rat \<Rightarrow> int" where
  "rne y = (let f = \<lfloor>y\<rfloor>; r = y - of_int f
            in if r < 1 / 2 then f else if r > 1 / 2 then f + 1
               else if even f then f else f + 1)"

definition fl :: "rat \<Rightarrow> rat" where
  "fl x = (if x = 0 then 0
           else let u = 2 powi (ilog2 \<bar>x\<bar> - 52) in of_int (rne (x / u)) * u)"

lemma powi2_pos: "(0::rat) < 2 powi e"
  by simp

lemma bitlen_powi:
  assumes "0 < p"
  shows "2 powi (bitlen p - 1) \<le> (of_int p :: rat)" and "(of_int p :: rat) < 2 powi bitlen p"
proof -
  have b: "2 ^ nat (bitlen p - 1) \<le> p \<and> p < 2 ^ nat (bitlen p)"
    using assms by (rule bitlen_bounds)
  have pos: "0 < bitlen p"
    using assms bitlen_nonneg [of p] bitlen_eq_zero_iff [of p] by linarith
  have "(of_int (2 ^ nat (bitlen p - 1)) :: rat) \<le> of_int p" using b by (simp only: of_int_le_iff)
  then show "2 powi (bitlen p - 1) \<le> (of_int p :: rat)"
    using pos by (simp add: power_int_def)
  have "(of_int p :: rat) < of_int (2 ^ nat (bitlen p))" using b by (simp only: of_int_less_iff)
  then show "(of_int p :: rat) < 2 powi bitlen p"
    using pos by (simp add: power_int_def)
qed

lemma ilog2_bounds:
  assumes "0 < x"
  shows "2 powi ilog2 x \<le> x" and "x < 2 powi (ilog2 x + 1)"
proof -
  obtain p q where pq: "quotient_of x = (p, q)" by (cases "quotient_of x")
  then have q: "0 < q" and x: "x = of_int p / of_int q"
    using quotient_of_denom_pos quotient_of_div by auto
  with assms have p: "0 < p"
    by (metis of_int_0_less_iff zero_less_divide_iff divide_pos_pos order.asym)
  let ?e = "bitlen p - bitlen q"
  have hi: "x < 2 powi (?e + 1)"
  proof -
    have "of_int p / of_int q < (2 powi bitlen p :: rat) / of_int q"
      using bitlen_powi(2) [OF p] q by (intro divide_strict_right_mono) auto
    also have "\<dots> \<le> 2 powi bitlen p / 2 powi (bitlen q - 1)"
      using bitlen_powi(1) [OF q] q by (intro divide_left_mono mult_pos_pos) auto
    also have "\<dots> = 2 powi (?e + 1)"
      by (simp add: power_int_diff [symmetric] algebra_simps)
    finally show ?thesis by (simp add: x)
  qed
  have lo: "2 powi (?e - 1) \<le> x"
  proof -
    have "(2 powi (?e - 1) :: rat) = 2 powi (bitlen p - 1) / 2 powi bitlen q"
      by (simp add: power_int_diff [symmetric] algebra_simps)
    also have "\<dots> \<le> of_int p / 2 powi bitlen q"
      using bitlen_powi(1) [OF p] by (intro divide_right_mono) auto
    also have "\<dots> \<le> of_int p / of_int q"
      using bitlen_powi(2) [OF q] p q by (intro divide_left_mono mult_pos_pos) auto
    finally show ?thesis by (simp add: x)
  qed
  show "2 powi ilog2 x \<le> x" and "x < 2 powi (ilog2 x + 1)"
    using lo hi by (auto simp: ilog2_def pq Let_def)
qed

lemma rne_err: "\<bar>of_int (rne y) - y\<bar> \<le> 1 / 2"
  using floor_correct [of y] unfolding rne_def Let_def by (simp; linarith)

lemma rne_of_int [simp]: "rne (of_int k) = k"
  by (simp add: rne_def)

lemma fl_0 [simp]: "fl 0 = 0"
  by (simp add: fl_def)

text \<open>The relative error of one rounding is at most half a unit in the last place.\<close>

lemma fl_err: "\<bar>fl x - x\<bar> \<le> \<bar>x\<bar> / 2 ^ 53"
proof (cases "x = 0")
  case True
  then show ?thesis by simp
next
  case False
  define u :: rat where "u = 2 powi (ilog2 \<bar>x\<bar> - 52)"
  have u: "0 < u" by (simp add: u_def)
  have "2 powi ilog2 \<bar>x\<bar> \<le> \<bar>x\<bar>" using False by (intro ilog2_bounds) simp
  then have "2 powi ilog2 \<bar>x\<bar> / 2 ^ 52 \<le> \<bar>x\<bar> / 2 ^ 52" by (rule divide_right_mono) simp
  moreover have "u = 2 powi ilog2 \<bar>x\<bar> / 2 powi 52" unfolding u_def by (rule power_int_diff) simp
  then have "u = 2 powi ilog2 \<bar>x\<bar> / 2 ^ 52" by (simp only: power_int_numeral)
  ultimately have ux: "u \<le> \<bar>x\<bar> / 2 ^ 52" by simp
  have "fl x - x = u * (of_int (rne (x / u)) - x / u)"
    using False u by (simp add: fl_def Let_def u_def [symmetric] field_simps)
  then have "\<bar>fl x - x\<bar> = u * \<bar>of_int (rne (x / u)) - x / u\<bar>"
    using u by (simp add: abs_mult)
  also have "\<dots> \<le> u * (1 / 2)"
    using u rne_err by (intro mult_left_mono) auto
  also have "\<dots> \<le> \<bar>x\<bar> / 2 ^ 53"
    using ux by simp
  finally show ?thesis .
qed

lemma fl_of_int: "\<bar>k\<bar> < 2 ^ 53 \<Longrightarrow> fl (of_int k) = of_int k"
proof (cases "k = 0")
  case False
  assume k: "\<bar>k\<bar> < 2 ^ 53"
  let ?e = "ilog2 \<bar>of_int k\<bar>"
  have "2 powi ?e \<le> \<bar>of_int k :: rat\<bar>" using False by (intro ilog2_bounds) simp
  also have "\<bar>of_int k :: rat\<bar> < 2 powi 53"
  proof -
    have "(of_int \<bar>k\<bar> :: rat) < of_int (2 ^ 53)" using k by (simp only: of_int_less_iff)
    then show ?thesis by (simp add: power_int_def)
  qed
  finally have lt: "(2 powi ?e :: rat) < 2 powi 53" .
  have "?e < 53"
  proof (rule ccontr)
    assume "\<not> ?e < 53"
    then have "(2 powi 53 :: rat) \<le> 2 powi ?e" by (intro power_int_increasing) auto
    with lt show False by simp
  qed
  then have n: "(2 powi (?e - 52) :: rat) = 1 / 2 ^ nat (52 - ?e)"
    by (simp add: power_int_def nat_diff_distrib field_simps split: if_splits)
  have "fl (of_int k) = of_int (rne (of_int (k * 2 ^ nat (52 - ?e)))) / 2 ^ nat (52 - ?e)"
    using False by (simp add: fl_def Let_def n)
  also have "\<dots> = of_int k" by (simp only: rne_of_int) simp
  finally show ?thesis .
qed simp

section \<open>The operators and library functions of the sources\<close>

definition js_add :: "rat \<Rightarrow> rat \<Rightarrow> rat" where "js_add x y = fl (x + y)"
definition js_sub :: "rat \<Rightarrow> rat \<Rightarrow> rat" where "js_sub x y = fl (x - y)"
definition js_mul :: "rat \<Rightarrow> rat \<Rightarrow> rat" where "js_mul x y = fl (x * y)"
definition js_div :: "rat \<Rightarrow> rat \<Rightarrow> rat" where "js_div x y = fl (x / y)"

text \<open>\<^verbatim>\<open>Math.round\<close>: the nearest integer, ties towards plus infinity.\<close>

definition math_round :: "rat \<Rightarrow> int" where
  "math_round x = \<lfloor>x + 1 / 2\<rfloor>"

definition js_epsilon :: rat where
  "js_epsilon = 1 / 2 ^ 52"

text \<open>\<^verbatim>\<open>Math.round(x * 100) / 100\<close>.\<close>

definition round2 :: "rat \<Rightarrow> rat" where
  "round2 x = js_div (of_int (math_round (js_mul x 100))) 100"

definition num :: "int \<Rightarrow> rat" where
  "num c = fl (of_int c / 100)"

definition col2 :: "rat \<Rightarrow> int" where
  "col2 x = (if 0 \<le> x then \<lfloor>100 * x + 1 / 2\<rfloor> else \<lceil>100 * x - 1 / 2\<rceil>)"

text \<open>
  \<^verbatim>\<open>Number(text)\<close>, \<open>None\<close> when the result is not finite: surrounding space is dropped, the
  empty string is 0, then a decimal literal with an optional sign, or a \<^verbatim>\<open>0x\<close>, \<^verbatim>\<open>0o\<close> or
  \<^verbatim>\<open>0b\<close> literal without one.
\<close>

definition parse_exponent :: "string \<Rightarrow> int option" where
  "parse_exponent s =
     (case s of
        [] \<Rightarrow> Some 0
      | e # r \<Rightarrow>
          let (neg, ds) = (case r of
                [] \<Rightarrow> (False, [])
              | c # r' \<Rightarrow> if c = CHR ''-'' then (True, r') else if c = CHR ''+'' then (False, r')
                          else (False, c # r'))
          in if ds \<noteq> [] \<and> list_all is_digit ds
             then Some (if neg then - int (digits_val ds) else int (digits_val ds)) else None)"

definition parse_decimal :: "string \<Rightarrow> rat option" where
  "parse_decimal s =
     (let not_e = (\<lambda>c. c \<noteq> CHR ''e'' \<and> c \<noteq> CHR ''E'');
          mant = takeWhile not_e s;
          ip = takeWhile (\<lambda>c. c \<noteq> CHR ''.'') mant;
          fp = drop 1 (dropWhile (\<lambda>c. c \<noteq> CHR ''.'') mant)
      in if ip @ fp \<noteq> [] \<and> list_all is_digit (ip @ fp)
         then (case parse_exponent (dropWhile not_e s) of
                 None \<Rightarrow> None
               | Some e \<Rightarrow> Some (fl (of_nat (digits_val (ip @ fp)) * 10 powi (e - int (length fp)))))
         else None)"

definition radix_digit :: "char \<Rightarrow> nat option" where
  "radix_digit c =
     (let n = of_char (js_lower_char c) :: nat
      in if is_digit c then Some (digit_val c)
         else if 97 \<le> n \<and> n \<le> 102 then Some (n - 87) else None)"

definition parse_radix :: "nat \<Rightarrow> string \<Rightarrow> rat option" where
  "parse_radix r s =
     (if s \<noteq> [] \<and> list_all (\<lambda>c. case radix_digit c of None \<Rightarrow> False | Some d \<Rightarrow> d < r) s
      then Some (fl (of_nat (fold (\<lambda>c n. r * n + the (radix_digit c)) s 0))) else None)"

definition js_number :: "string \<Rightarrow> rat option" where
  "js_number text =
     (let t = js_trim text; p = js_lower (take 2 t)
      in if t = [] then Some 0
         else if p = ''0x'' then parse_radix 16 (drop 2 t)
         else if p = ''0o'' then parse_radix 8 (drop 2 t)
         else if p = ''0b'' then parse_radix 2 (drop 2 t)
         else if hd t = CHR ''-'' then map_option uminus (parse_decimal (tl t))
         else if hd t = CHR ''+'' then parse_decimal (tl t)
         else parse_decimal t)"

lemmas js_arith_defs = js_add_def js_sub_def js_mul_def js_div_def

section \<open>Arithmetic on cents\<close>

text \<open>
  The interface the money code relies on: a rounding function with the relative error of
  binary64. \<open>near x k d\<close> says that the number \<open>x\<close> is within \<open>d\<close> cents of \<open>k\<close> cents. Up to
  \<open>2 ^ 43\<close> cents (about 88 billion dirhams) a rounding moves a number by at most a 512th of a
  cent, so a chain of a few operations on cent amounts stays close enough to be recovered
  exactly by the roundings to two decimals.
\<close>

definition near :: "rat \<Rightarrow> int \<Rightarrow> rat \<Rightarrow> bool" where
  "near x k d \<longleftrightarrow> 100 * x \<le> of_int k + d \<and> of_int k \<le> 100 * x + d"

locale binary64_rounding =
  fixes rnd :: "rat \<Rightarrow> rat"
  assumes rnd_err: "\<bar>rnd x - x\<bar> \<le> \<bar>x\<bar> / 2 ^ 53"
begin

lemma rnd_bounds: "rnd x \<le> x + \<bar>x\<bar> / 2 ^ 53" "x - \<bar>x\<bar> / 2 ^ 53 \<le> rnd x"
  using rnd_err [of x] by (simp_all only: abs_le_iff, linarith+)

lemma rnd_small: "\<bar>x\<bar> \<le> 2 ^ 44 \<Longrightarrow> rnd x \<le> x + 1 / 512 \<and> x - 1 / 512 \<le> rnd x"
  using rnd_bounds [of x] by simp

lemma near_bound:
  assumes "near x k d" and "d \<le> 1" and "\<bar>k\<bar> \<le> 2 ^ 43"
  shows "\<bar>100 * x\<bar> \<le> 2 ^ 43 + 1"
proof -
  have "k \<le> 2 ^ 43" and "- (2 ^ 43) \<le> k" using assms(3) by (auto simp only: abs_le_iff)
  then have "(of_int k :: rat) \<le> of_int (2 ^ 43)" and "(of_int (- (2 ^ 43)) :: rat) \<le> of_int k"
    by (simp_all only: of_int_le_iff)
  with assms(1,2) show ?thesis by (simp add: near_def abs_le_iff)
qed

lemma rnd_near:
  assumes "near x k d" and "d \<le> 1" and "\<bar>k\<bar> \<le> 2 ^ 43"
  shows "near (rnd x) k (d + 1 / 512)"
proof -
  have "100 * (\<bar>x\<bar> / 2 ^ 53) \<le> 1 / 512"
    using near_bound [OF assms] by (simp add: abs_mult)
  then show ?thesis
    using rnd_bounds [of x] assms(1) by (simp add: near_def)
qed

lemma rnd_nonneg: "0 \<le> x \<Longrightarrow> 0 \<le> rnd x"
  using rnd_bounds(2) [of x] by simp

lemma rnd_pos: "0 < x \<Longrightarrow> 0 < rnd x"
  using rnd_bounds(2) [of x] by simp

lemma rnd_of_hundred:
  assumes "near x k d" and "d \<le> 1 / 4" and "\<bar>k\<bar> \<le> 2 ^ 43"
  shows "rnd (x * 100) < of_int k + 1 / 2 \<and> of_int k - 1 / 2 < rnd (x * 100)"
proof -
  have "\<bar>x * 100\<bar> \<le> 2 ^ 44"
    using near_bound [OF assms(1) _ assms(3)] assms(2) by (simp add: mult.commute)
  then show ?thesis using rnd_small [of "x * 100"] assms(1,2) by (simp add: near_def mult.commute)
qed

end

interpretation b64: binary64_rounding fl
  by unfold_locales (rule fl_err)

lemma near_num [simp]: "\<bar>k\<bar> \<le> 2 ^ 43 \<Longrightarrow> near (num k) k (1 / 512)"
  using b64.rnd_near [of "of_int k / 100" k 0] by (simp add: num_def near_def)

lemma near_mono: "near x k d \<Longrightarrow> d \<le> d' \<Longrightarrow> near x k d'"
  by (simp add: near_def)

lemma near_add: "near x a d \<Longrightarrow> near y b d' \<Longrightarrow> near (x + y) (a + b) (d + d')"
  by (simp add: near_def)

lemma near_diff: "near x a d \<Longrightarrow> near y b d' \<Longrightarrow> near (x - y) (a - b) (d + d')"
  by (simp add: near_def)

lemma near_js_add:
  assumes "near x a d" and "near y b d'" and "d + d' \<le> 1" and "\<bar>a + b\<bar> \<le> 2 ^ 43"
  shows "near (js_add x y) (a + b) (d + d' + 1 / 512)"
  unfolding js_add_def using near_add [OF assms(1,2)] assms(3,4) by (rule b64.rnd_near)

lemma near_js_sub:
  assumes "near x a d" and "near y b d'" and "d + d' \<le> 1" and "\<bar>a - b\<bar> \<le> 2 ^ 43"
  shows "near (js_sub x y) (a - b) (d + d' + 1 / 512)"
  unfolding js_sub_def using near_diff [OF assms(1,2)] assms(3,4) by (rule b64.rnd_near)

lemma floor_unique': "of_int k \<le> x \<Longrightarrow> x < of_int k + 1 \<Longrightarrow> \<lfloor>x :: rat\<rfloor> = k"
  by (rule floor_unique)

lemma math_round_close: "x < of_int k + 1 / 2 \<Longrightarrow> of_int k - 1 / 2 \<le> x \<Longrightarrow> math_round x = k"
  unfolding math_round_def by (rule floor_unique') linarith+

lemma math_round_of_int [simp]: "math_round (of_int k) = k"
  by (simp add: math_round_close)

lemma math_round_bounds: "of_int (math_round x) \<le> x + 1 / 2" "x - 1 / 2 < of_int (math_round x)"
  using floor_correct [of "x + 1 / 2"] unfolding math_round_def by linarith+

lemma math_round_mono: "x \<le> y \<Longrightarrow> math_round x \<le> math_round y"
  unfolding math_round_def by (rule floor_mono) simp

lemma col2_near: "near x k d \<Longrightarrow> d < 1 / 2 \<Longrightarrow> col2 x = k"
  unfolding col2_def near_def
  by (cases "0 \<le> x") (simp_all only: if_True if_False, (intro floor_unique ceiling_unique; linarith)+)

lemma col2_num [simp]: "\<bar>k\<bar> \<le> 2 ^ 43 \<Longrightarrow> col2 (num k) = k"
  by (rule col2_near [OF near_num]) auto

text \<open>Rounding to two decimals recovers the cents of any number close to a cent amount.\<close>

lemma round2_near:
  assumes "near x k d" and "d \<le> 1 / 4" and "\<bar>k\<bar> \<le> 2 ^ 43"
  shows "round2 x = num k"
proof -
  have "math_round (js_mul x 100) = k"
    unfolding js_mul_def using b64.rnd_of_hundred [OF assms] by (intro math_round_close) auto
  then show ?thesis by (simp add: round2_def num_def js_div_def)
qed

lemma round2_num [simp]: "\<bar>k\<bar> \<le> 2 ^ 43 \<Longrightarrow> round2 (num k) = num k"
  by (rule round2_near [OF near_num]) auto

lemma round2_cents: "\<exists>k. round2 x = num k \<and> k = math_round (js_mul x 100)"
  by (simp add: round2_def num_def js_div_def)

lemma num_0 [simp]: "num 0 = 0"
  by (simp add: num_def)

lemma num_nonneg: "0 \<le> k \<Longrightarrow> 0 \<le> num k"
  unfolding num_def by (rule b64.rnd_nonneg) simp

lemma num_pos: "0 < k \<Longrightarrow> 0 < num k"
  unfolding num_def by (rule b64.rnd_pos) simp

lemma num_inj:
  assumes "\<bar>j\<bar> \<le> 2 ^ 43" and "\<bar>k\<bar> \<le> 2 ^ 43" and "num j = num k"
  shows "j = k"
  by (metis assms col2_num)

end
