(* ===== verification/StaysData.thy ===== *)
theory StaysData
  imports Prelude
begin

text \<open>
  The tables of the stays service: one record per TypeORM entity, with the entity's columns in
  their order (\<^verbatim>\<open>updated_at\<close> columns, which no modelled operation reads, are left out), a
  datatype per enumerated column with the values the source lists, and \<open>stays_db\<close>, the state
  every handler of the development threads. Identifiers are strings, a \<^verbatim>\<open>decimal(18,2)\<close>
  column is an integer of cents, a \<^verbatim>\<open>date\<close> column a day number and a \<^verbatim>\<open>timestamptz\<close>
  column an integer of milliseconds; other decimals are the text the driver returns. The one-to-one and one-to-many relations of a listing that
  the queries load with it are fields of its record.
\<close>

type_synonym uuid = string
type_synonym cents = int
type_synonym day = int
type_synonym time = int

section \<open>Listings\<close>

datatype cancellation_policy = FLEXIBLE | MODERATE | STRICT

datatype listing_type = APARTMENT | HOTEL | RIAD | VILLA | HOSTEL

datatype booking_model =
  ENTIRE_PROPERTY | PRIVATE_ROOM | MULTI_UNIT | ROOM_TYPES | DORM_BEDS | PRIVATE_ROOMS
  | DORM_AND_PRIVATE | BOTH

datatype listing_status = DRAFT | SUBMITTED | APPROVED | REJECTED | LIVE | PAUSED

datatype media_kind = PHOTO | VIDEO | WALKTHROUGH

datatype pets_policy = PETS_ALLOWED | DOGS_CATS | PETS_NO

datatype smoking_policy = SMOKING_ALLOWED | SMOKING_NOT_ALLOWED

record listing_rules =
  lr_pets_policy :: "pets_policy option"
  lr_smoking_policy :: "smoking_policy option"
  lr_quiet_hours :: bool
  lr_couples_welcome :: bool
  lr_max_guests :: int
  lr_amenities :: "string list"
  lr_extra_rules_text :: "string option"
  lr_cancellation_policy :: cancellation_policy

record rate_plan =
  rp_currency :: string
  rp_base_price :: cents
  rp_weekend_price :: "cents option"
  rp_deposit_policy_text :: "string option"

record check_in_contact =
  cc_full_name :: string
  cc_phone_encrypted :: string
  cc_role :: string
  cc_access_instructions :: "string option"
  cc_wifi_ssid :: "string option"
  cc_wifi_password :: "string option"

record listing_media =
  lm_id :: uuid
  lm_kind :: media_kind
  lm_asset_id :: uuid
  lm_sort_order :: int
  lm_is_required :: bool
  lm_category :: "string option"
  lm_unit_type_id :: "uuid option"
  lm_is_cover :: bool

record listing =
  ls_id :: uuid
  ls_host_user_id :: uuid
  ls_title :: string
  ls_listing_type :: listing_type
  ls_booking_model :: "booking_model option"
  ls_city :: string
  ls_country :: string
  ls_neighborhood :: "string option"
  ls_building_name :: "string option"
  ls_address_encrypted :: "string option"
  ls_geo_lat :: "string option"
  ls_geo_lng :: "string option"
  ls_status :: listing_status
  ls_paused_from_status :: "listing_status option"
  ls_checkin_time :: string
  ls_checkout_time :: string
  ls_description :: "string option"
  ls_instant_booking :: bool
  ls_archived_at :: "time option"
  ls_avg_rating :: "cents option"
  ls_review_count :: int
  ls_rules :: "listing_rules option"
  ls_media :: "listing_media list"
  ls_rate_plan :: "rate_plan option"
  ls_check_in_contact :: "check_in_contact option"

record host_profile =
  hp_user_id :: uuid
  hp_full_name :: "string option"

section \<open>Bookings, payments and the ledger\<close>

datatype booking_status =
  INITIATED | PAYMENT_PENDING | CONFIRMED | CHECKED_IN | COMPLETED
  | CANCELLED_BY_GUEST | CANCELLED_BY_HOST | EXPIRED

record booking =
  bk_id :: uuid
  bk_booking_reference :: string
  bk_listing_id :: uuid
  bk_guest_user_id :: uuid
  bk_status :: booking_status
  bk_checkin_date :: day
  bk_checkout_date :: day
  bk_guest_count :: int
  bk_total_subtotal :: cents
  bk_guest_fee :: cents
  bk_host_fee :: cents
  bk_total_paid :: "cents option"
  bk_payout_amount :: "cents option"
  bk_currency :: string
  bk_idempotency_key :: "string option"
  bk_payment_intent_id :: "string option"
  bk_created_at :: time
  bk_confirmed_at :: "time option"
  bk_completed_at :: "time option"
  bk_paid_at :: "time option"

record occupant =
  oc_booking_id :: uuid
  oc_full_name :: string
  oc_id_number :: "string option"
  oc_is_primary :: bool
  oc_phone :: "string option"
  oc_email :: "string option"
  oc_gender :: "string option"
  oc_id_document_front_asset_id :: "string option"
  oc_id_document_back_asset_id :: "string option"

datatype ledger_type = GUEST_PAYMENT | HOST_PAYOUT | PLATFORM_FEE | REFUND

datatype ledger_status = L_PENDING | L_SETTLED | L_FAILED

record ledger_entry =
  le_id :: uuid
  le_booking_id :: uuid
  le_type :: ledger_type
  le_amount :: cents
  le_currency :: string
  le_status :: ledger_status
  le_metadata :: metadata
  le_created_at :: time

datatype intent_status = I_PENDING | I_SUCCEEDED | I_FAILED | I_CANCELLED

record payment_intent =
  pi_id :: uuid
  pi_booking_id :: uuid
  pi_provider :: string
  pi_provider_intent_id :: "string option"
  pi_amount :: cents
  pi_currency :: string
  pi_status :: intent_status
  pi_idempotency_key :: "string option"
  pi_metadata :: metadata
  pi_created_at :: time

datatype block_source = B_HOST | B_ADMIN | B_BOOKING | B_ICAL

record availability_block =
  ab_listing_id :: uuid
  ab_date :: day
  ab_is_blocked :: bool
  ab_source :: "block_source option"
  ab_external_calendar_id :: "uuid option"

record listing_review =
  rv_listing_id :: uuid
  rv_booking_id :: uuid
  rv_guest_user_id :: uuid
  rv_rating :: rat
  rv_status :: string
  rv_created_at :: time

section \<open>Conversations\<close>

datatype messaging_state = ACTIVE | LOCKED | READ_ONLY | ARCHIVED

datatype participant_visibility = V_ACTIVE | V_ARCHIVED | V_DELETED

datatype notification_level = N_ALL | N_IMPORTANT | N_MUTED

record conversation =
  cv_id :: uuid
  cv_booking_id :: "uuid option"
  cv_type :: string
  cv_messaging_state :: messaging_state
  cv_guest_visibility :: participant_visibility
  cv_host_visibility :: participant_visibility
  cv_conversation_version :: int
  cv_snapshot_version :: int
  cv_attachment_version :: int
  cv_reservation_snapshot :: metadata
  cv_listing_id :: "uuid option"
  cv_host_user_id :: "uuid option"
  cv_guest_user_id :: "uuid option"
  cv_last_message_id :: "uuid option"
  cv_last_message_sequence :: int
  cv_last_message_preview :: "string option"
  cv_last_message_at :: "time option"
  cv_guest_last_read_at :: "time option"
  cv_host_last_read_at :: "time option"
  cv_guest_last_read_message_id :: "uuid option"
  cv_host_last_read_message_id :: "uuid option"
  cv_unread_guest :: int
  cv_unread_host :: int
  cv_notification_level_guest :: notification_level
  cv_notification_level_host :: notification_level
  cv_blocked_by_guest :: bool
  cv_blocked_by_host :: bool
  cv_locked_at :: "time option"
  cv_read_only_at :: "time option"
  cv_archived_at :: "time option"
  cv_post_stay_ends_at :: "time option"
  cv_auto_archive_disabled :: bool
  cv_auto_archive_disabled_reason :: "string option"
  cv_archive_reason :: "string option"

datatype message_type =
  M_TEXT | M_SYSTEM_EVENT | M_SYSTEM_NOTICE | M_SYSTEM_INTERNAL | M_PROPERTY_CARD
  | M_BOOKING_CARD | M_CHECKIN_CARD | M_WIFI_CARD | M_LOCATION_CARD | M_REVIEW_CARD
  | M_PAYMENT_CARD | M_IMAGE | M_FILE | M_VIDEO | M_VOICE | M_LOCATION | M_SYSTEM | M_CARD
  | M_CUSTOM

datatype message_status = S_PENDING | S_PERSISTED | S_DELIVERED | S_READ | S_FAILED

record message =
  mg_id :: uuid
  mg_conversation_id :: uuid
  mg_conversation_sequence :: int
  mg_sender_id :: "uuid option"
  mg_type :: message_type
  mg_body :: "string option"
  mg_metadata :: metadata
  mg_status :: message_status
  mg_sent_at :: "time option"
  mg_delivered_at :: "time option"
  mg_read_at :: "time option"
  mg_is_system :: bool
  mg_client_message_id :: "uuid option"
  mg_deleted_at :: "time option"
  mg_created_at :: time

datatype outbox_status = O_PENDING | O_PROCESSING | O_DONE | O_FAILED

record outbox_row =
  ob_id :: uuid
  ob_event_type :: string
  ob_payload :: metadata
  ob_status :: outbox_status
  ob_attempts :: nat
  ob_next_retry_at :: time
  ob_created_at :: time
  ob_processed_at :: "time option"

section \<open>Settings, audit trail and events\<close>

record platform_settings =
  ps_guest_fee_pct :: int
  ps_host_fee_pct :: int
  ps_updated_by :: "uuid option"

text \<open>\<^verbatim>\<open>FeeRates\<close>: the rates as fractions and as display percentages.\<close>

record fee_rates =
  guest_fee_pct :: rat
  host_fee_pct :: rat
  guest_fee_percent :: rat
  host_fee_percent :: rat
  total_commission_percent :: rat

record audit_entry =
  al_actor_user_id :: "uuid option"
  al_actor_role :: "string option"
  al_entity_type :: string
  al_entity_id :: "string option"
  al_action :: string
  al_metadata :: metadata
  al_ip :: "string option"
  al_user_agent :: "string option"

record domain_event =
  ev_type :: string
  ev_source :: string
  ev_payload :: metadata

section \<open>The state of the service\<close>

text \<open>
  \<open>fee_cache\<close> is the process memory of the platform settings service (the cached rates and when
  they were read); \<open>alerts\<close> are the keys and reasons handed to the alerting service. These two,
  \<open>settings\<close>, \<open>audit_logs\<close> and \<open>events\<close> are not part of a database transaction of the handlers:
  the settings and audit services write on their own connection, and events and alerts leave the
  process. \<open>rollback\<close> is what an aborted transaction leaves: the tables of before, and the rest
  of after.
\<close>

record stays_db =
  listings :: "listing list"
  bookings :: "booking list"
  occupants :: "occupant list"
  ledger :: "ledger_entry list"
  intents :: "payment_intent list"
  blocks :: "availability_block list"
  reviews :: "listing_review list"
  host_profiles :: "host_profile list"
  ref_counters :: "int \<rightharpoonup> nat"
  settings :: "platform_settings option"
  conversations :: "conversation list"
  messages :: "message list"
  outbox :: "outbox_row list"
  audit_logs :: "audit_entry list"
  events :: "domain_event list"
  alerts :: "(string \<times> string) list"
  fee_cache :: "(fee_rates \<times> time) option"

definition rollback :: "stays_db \<Rightarrow> stays_db \<Rightarrow> stays_db" where
  "rollback before after =
     before\<lparr>settings := settings after, audit_logs := audit_logs after, events := events after,
       alerts := alerts after, fee_cache := fee_cache after\<rparr>"

definition transaction ::
    "(stays_db \<Rightarrow> 'a result \<times> stays_db) \<Rightarrow> stays_db \<Rightarrow> 'a result \<times> stays_db" where
  "transaction body db =
     (let (r, db') = body db
      in case r of Inl e \<Rightarrow> (Inl e, rollback db db') | Inr a \<Rightarrow> (Inr a, db'))"

definition publish :: "string \<Rightarrow> metadata \<Rightarrow> stays_db \<Rightarrow> stays_db" where
  "publish ty payload db =
     db\<lparr>events := events db @ [\<lparr>ev_type = ty, ev_source = ''stays'', ev_payload = payload\<rparr>]\<rparr>"

text \<open>\<^verbatim>\<open>StaysAuditService.log\<close> with the parameters its callers pass.\<close>

definition audit_log ::
    "uuid option \<Rightarrow> string option \<Rightarrow> string \<Rightarrow> string option \<Rightarrow> string \<Rightarrow> metadata \<Rightarrow> string option
     \<Rightarrow> string option \<Rightarrow> stays_db \<Rightarrow> stays_db" where
  "audit_log actorUserId actorRole entityType entityId action metadata ip userAgent db =
     db\<lparr>audit_logs := insert_row
       \<lparr>al_actor_user_id = actorUserId, al_actor_role = actorRole, al_entity_type = entityType,
        al_entity_id = entityId, al_action = action, al_metadata = metadata, al_ip = ip,
        al_user_agent = userAgent\<rparr> (audit_logs db)\<rparr>"

definition find_listing :: "uuid \<Rightarrow> stays_db \<Rightarrow> listing option" where
  "find_listing i db = find_where (\<lambda>l. ls_id l = i) (listings db)"

definition find_booking :: "uuid \<Rightarrow> stays_db \<Rightarrow> booking option" where
  "find_booking i db = find_where (\<lambda>b. bk_id b = i) (bookings db)"

definition find_intent :: "uuid \<Rightarrow> stays_db \<Rightarrow> payment_intent option" where
  "find_intent i db = find_where (\<lambda>p. pi_id p = i) (intents db)"

definition update_booking :: "uuid \<Rightarrow> (booking \<Rightarrow> booking) \<Rightarrow> stays_db \<Rightarrow> stays_db" where
  "update_booking i f db = db\<lparr>bookings := update_where (\<lambda>b. bk_id b = i) f (bookings db)\<rparr>"

definition update_intent :: "uuid \<Rightarrow> (payment_intent \<Rightarrow> payment_intent) \<Rightarrow> stays_db \<Rightarrow> stays_db" where
  "update_intent i f db = db\<lparr>intents := update_where (\<lambda>p. pi_id p = i) f (intents db)\<rparr>"

section \<open>Frame lemmas\<close>

text \<open>What the writers of the audit trail and of the event bus leave alone.\<close>

lemma publish_frame [simp]:
  "listings (publish t p db) = listings db" "bookings (publish t p db) = bookings db"
  "occupants (publish t p db) = occupants db" "ledger (publish t p db) = ledger db"
  "intents (publish t p db) = intents db" "blocks (publish t p db) = blocks db"
  "reviews (publish t p db) = reviews db"
  "host_profiles (publish t p db) = host_profiles db" "ref_counters (publish t p db) = ref_counters db"
  "settings (publish t p db) = settings db" "conversations (publish t p db) = conversations db"
  "messages (publish t p db) = messages db" "outbox (publish t p db) = outbox db"
  "audit_logs (publish t p db) = audit_logs db" "alerts (publish t p db) = alerts db"
  "fee_cache (publish t p db) = fee_cache db"
  by (simp_all add: publish_def)

lemma audit_frame [simp]:
  "listings (audit_log a b c d e f g h db) = listings db"
  "bookings (audit_log a b c d e f g h db) = bookings db"
  "occupants (audit_log a b c d e f g h db) = occupants db"
  "ledger (audit_log a b c d e f g h db) = ledger db"
  "intents (audit_log a b c d e f g h db) = intents db"
  "blocks (audit_log a b c d e f g h db) = blocks db"
  "reviews (audit_log a b c d e f g h db) = reviews db"
  "host_profiles (audit_log a b c d e f g h db) = host_profiles db"
  "ref_counters (audit_log a b c d e f g h db) = ref_counters db"
  "settings (audit_log a b c d e f g h db) = settings db"
  "conversations (audit_log a b c d e f g h db) = conversations db"
  "messages (audit_log a b c d e f g h db) = messages db"
  "outbox (audit_log a b c d e f g h db) = outbox db"
  "events (audit_log a b c d e f g h db) = events db"
  "alerts (audit_log a b c d e f g h db) = alerts db"
  "fee_cache (audit_log a b c d e f g h db) = fee_cache db"
  by (simp_all add: audit_log_def)

lemma rollback_frame [simp]:
  "listings (rollback b a) = listings b" "bookings (rollback b a) = bookings b"
  "occupants (rollback b a) = occupants b" "ledger (rollback b a) = ledger b"
  "intents (rollback b a) = intents b" "blocks (rollback b a) = blocks b"
  "reviews (rollback b a) = reviews b"
  "host_profiles (rollback b a) = host_profiles b" "ref_counters (rollback b a) = ref_counters b"
  "settings (rollback b a) = settings a" "conversations (rollback b a) = conversations b"
  "messages (rollback b a) = messages b" "outbox (rollback b a) = outbox b"
  "audit_logs (rollback b a) = audit_logs a" "events (rollback b a) = events a"
  "alerts (rollback b a) = alerts a" "fee_cache (rollback b a) = fee_cache a"
  by (simp_all add: rollback_def)

lemma update_booking_frame [simp]:
  "listings (update_booking i f db) = listings db" "occupants (update_booking i f db) = occupants db"
  "ledger (update_booking i f db) = ledger db" "intents (update_booking i f db) = intents db"
  "blocks (update_booking i f db) = blocks db" "reviews (update_booking i f db) = reviews db"
  "host_profiles (update_booking i f db) = host_profiles db"
  "conversations (update_booking i f db) = conversations db"
  "messages (update_booking i f db) = messages db" "outbox (update_booking i f db) = outbox db"
  "settings (update_booking i f db) = settings db"
  "ref_counters (update_booking i f db) = ref_counters db"
  "audit_logs (update_booking i f db) = audit_logs db" "events (update_booking i f db) = events db"
  "alerts (update_booking i f db) = alerts db" "fee_cache (update_booking i f db) = fee_cache db"
  by (simp_all add: update_booking_def)

lemma update_intent_frame [simp]:
  "listings (update_intent i f db) = listings db" "occupants (update_intent i f db) = occupants db"
  "ledger (update_intent i f db) = ledger db" "bookings (update_intent i f db) = bookings db"
  "blocks (update_intent i f db) = blocks db" "reviews (update_intent i f db) = reviews db"
  "host_profiles (update_intent i f db) = host_profiles db"
  "conversations (update_intent i f db) = conversations db"
  "messages (update_intent i f db) = messages db" "outbox (update_intent i f db) = outbox db"
  "settings (update_intent i f db) = settings db"
  "ref_counters (update_intent i f db) = ref_counters db"
  "audit_logs (update_intent i f db) = audit_logs db" "events (update_intent i f db) = events db"
  "alerts (update_intent i f db) = alerts db" "fee_cache (update_intent i f db) = fee_cache db"
  by (simp_all add: update_intent_def)

lemma transaction_cases:
  assumes "transaction body db = (r, db')"
  obtains (commit) a where "r = Inr a" "body db = (Inr a, db')"
    | (abort) e db1 where "r = Inl e" "body db = (Inl e, db1)" "db' = rollback db db1"
  using assms by (auto simp: transaction_def Let_def split: prod.splits sum.splits)

text \<open>\<open>core_same\<close>: the tables of bookings, money, calendar and listings are untouched.\<close>

definition core_same :: "stays_db \<Rightarrow> stays_db \<Rightarrow> bool" where
  "core_same db db' \<longleftrightarrow>
     bookings db' = bookings db \<and> ledger db' = ledger db \<and> intents db' = intents db \<and>
     blocks db' = blocks db \<and> listings db' = listings db"

lemma core_same_refl [simp]: "core_same db db"
  by (simp add: core_same_def)

lemma core_same_trans: "core_same a b \<Longrightarrow> core_same b c \<Longrightarrow> core_same a c"
  by (simp add: core_same_def)

lemma core_same_rollback [simp]: "core_same db (rollback db db')"
  by (simp add: core_same_def)

lemma core_same_publish [simp]: "core_same db (publish ty p db') \<longleftrightarrow> core_same db db'"
  by (simp add: core_same_def publish_def)

lemma transaction_core: "(\<And>d. core_same d (snd (body d))) \<Longrightarrow> core_same db (snd (transaction body db))"
  by (auto simp: transaction_def Let_def split: prod.splits sum.splits) (metis snd_conv)

section \<open>Sample rows for the witnesses\<close>

definition no_rows :: stays_db where
  "no_rows = \<lparr>listings = [], bookings = [], occupants = [], ledger = [], intents = [], blocks = [],
     reviews = [], host_profiles = [], ref_counters = Map.empty, settings = None, conversations = [],
     messages = [], outbox = [], audit_logs = [], events = [], alerts = [], fee_cache = None\<rparr>"

definition sample_booking :: "uuid \<Rightarrow> booking_status \<Rightarrow> booking" where
  "sample_booking i st =
     \<lparr>bk_id = i, bk_booking_reference = ''NST-2024-000001'', bk_listing_id = ''l1'', bk_guest_user_id = ''g1'',
      bk_status = st, bk_checkin_date = 19875, bk_checkout_date = 19878, bk_guest_count = 2,
      bk_total_subtotal = 60000, bk_guest_fee = 6000, bk_host_fee = 3000, bk_total_paid = Some 66000,
      bk_payout_amount = Some 57000, bk_currency = ''MAD'', bk_idempotency_key = None,
      bk_payment_intent_id = None, bk_created_at = 1717000000000, bk_confirmed_at = None,
      bk_completed_at = None, bk_paid_at = None\<rparr>"

definition sample_listing :: listing where
  "sample_listing =
     \<lparr>ls_id = ''l1'', ls_host_user_id = ''h1'', ls_title = ''Riad'', ls_listing_type = RIAD,
      ls_booking_model = None, ls_city = ''Fes'', ls_country = ''MA'', ls_neighborhood = None,
      ls_building_name = None, ls_address_encrypted = None, ls_geo_lat = None, ls_geo_lng = None,
      ls_status = LIVE, ls_paused_from_status = None, ls_checkin_time = ''15:00'', ls_checkout_time = ''11:00'',
      ls_description = None, ls_instant_booking = True, ls_archived_at = None, ls_avg_rating = None,
      ls_review_count = 0, ls_rules = None, ls_media = [],
      ls_rate_plan = Some \<lparr>rp_currency = ''MAD'', rp_base_price = 20000, rp_weekend_price = None,
        rp_deposit_policy_text = None\<rparr>, ls_check_in_contact = None\<rparr>"

definition sample_conversation :: "uuid \<Rightarrow> uuid \<Rightarrow> conversation" where
  "sample_conversation i b =
     \<lparr>cv_id = i, cv_booking_id = Some b, cv_type = ''BOOKING'', cv_messaging_state = ACTIVE,
      cv_guest_visibility = V_ACTIVE, cv_host_visibility = V_ACTIVE, cv_conversation_version = 1,
      cv_snapshot_version = 1, cv_attachment_version = 1, cv_reservation_snapshot = [],
      cv_listing_id = Some ''l1'', cv_host_user_id = Some ''h1'', cv_guest_user_id = Some ''g1'',
      cv_last_message_id = None, cv_last_message_sequence = 0, cv_last_message_preview = None,
      cv_last_message_at = None,
      cv_guest_last_read_at = None, cv_host_last_read_at = None, cv_guest_last_read_message_id = None,
      cv_host_last_read_message_id = None, cv_unread_guest = 0, cv_unread_host = 0,
      cv_notification_level_guest = N_ALL, cv_notification_level_host = N_ALL,
      cv_blocked_by_guest = False, cv_blocked_by_host = False, cv_locked_at = None,
      cv_read_only_at = None, cv_archived_at = None, cv_post_stay_ends_at = None,
      cv_auto_archive_disabled = False, cv_auto_archive_disabled_reason = None,
      cv_archive_reason = None\<rparr>"

end
