(* ===== verification/PlatformFees.thy ===== *)
theory PlatformFees
  imports JsNumber StaysData
begin

text \<open>
  \<^verbatim>\<open>platform-settings.service.ts\<close> (the fee rates, their cache and the fee computation),
  \<^verbatim>\<open>financial-integrity.ts\<close> (positive and rounded money) and the ledger check of
  \<^verbatim>\<open>financial-observability.ts\<close>. The lemmas follow the cents through the binary64 arithmetic:
  what the code stores for a booking balances to the cent.
\<close>

section \<open>The environment\<close>

type_synonym env = "string \<Rightarrow> string option"

definition envPct :: "env \<Rightarrow> string \<Rightarrow> rat \<Rightarrow> rat" where
  "envPct env name fallback =
     (case env name of
        None \<Rightarrow> fallback
      | Some raw \<Rightarrow> if raw = [] then fallback
                   else (case js_number raw of None \<Rightarrow> fallback | Some n \<Rightarrow> n))"

definition envTtlMs :: "env \<Rightarrow> string \<Rightarrow> rat \<Rightarrow> rat" where
  "envTtlMs env name fallback =
     (case env name of
        None \<Rightarrow> fallback
      | Some raw \<Rightarrow> if raw = [] then fallback
                   else (case js_number raw of
                           None \<Rightarrow> fallback
                         | Some n \<Rightarrow> if n \<ge> 0 then n else fallback))"

definition default_guest :: "env \<Rightarrow> rat" where
  "default_guest env = envPct env ''STAYS_GUEST_FEE_PCT'' (fl (5 / 100))"

definition default_host :: "env \<Rightarrow> rat" where
  "default_host env = envPct env ''STAYS_HOST_FEE_PCT'' (fl (5 / 100))"

definition fee_cache_ttl_ms :: "env \<Rightarrow> rat" where
  "fee_cache_ttl_ms env = envTtlMs env ''STAYS_FEE_CACHE_TTL_MS'' 30000"

section \<open>Rates and fees\<close>

text \<open>A \<^verbatim>\<open>decimal(6,4)\<close> column is an integer of ten-thousandths.\<close>

definition pct_num :: "int \<Rightarrow> rat" where
  "pct_num k = fl (of_int k / 10000)"

definition col4 :: "rat \<Rightarrow> int" where
  "col4 x = (if 0 \<le> x then \<lfloor>10000 * x + 1 / 2\<rfloor> else \<lceil>10000 * x - 1 / 2\<rceil>)"

definition toRates :: "rat \<Rightarrow> rat \<Rightarrow> fee_rates" where
  "toRates guest host =
     \<lparr>guest_fee_pct = guest,
      host_fee_pct = host,
      guest_fee_percent = js_div (of_int (math_round (js_mul guest 1000))) 10,
      host_fee_percent = js_div (of_int (math_round (js_mul host 1000))) 10,
      total_commission_percent = js_div (of_int (math_round (js_mul (js_add guest host) 1000))) 10\<rparr>"

record fee_breakdown =
  guestFee :: rat
  hostFee :: rat
  totalPaid :: rat
  payoutAmount :: rat

definition feesFromRates :: "rat \<Rightarrow> rat \<Rightarrow> rat \<Rightarrow> fee_breakdown" where
  "feesFromRates subtotal gpct hpct =
     (let gf = round2 (js_mul subtotal gpct);
          hf = round2 (js_mul subtotal hpct)
      in \<lparr>guestFee = gf, hostFee = hf, totalPaid = js_add subtotal gf,
          payoutAmount = js_sub subtotal hf\<rparr>)"

definition isCacheFresh :: "env \<Rightarrow> time \<Rightarrow> stays_db \<Rightarrow> bool" where
  "isCacheFresh env now db =
     (case fee_cache db of
        None \<Rightarrow> False
      | Some (_, cached_at) \<Rightarrow> of_int (now - cached_at) < fee_cache_ttl_ms env)"

definition ensureRow :: "env \<Rightarrow> stays_db \<Rightarrow> stays_db" where
  "ensureRow env db =
     (case settings db of
        Some _ \<Rightarrow> db
      | None \<Rightarrow> db\<lparr>settings := Some \<lparr>ps_guest_fee_pct = col4 (default_guest env),
                  ps_host_fee_pct = col4 (default_host env), ps_updated_by = None\<rparr>\<rparr>)"

text \<open>\<^verbatim>\<open>findOneOrFail\<close> cannot fail here: \<open>ensureRow\<close> has just made the row exist.\<close>

definition refreshCache :: "env \<Rightarrow> time \<Rightarrow> stays_db \<Rightarrow> fee_rates result \<times> stays_db" where
  "refreshCache env now db =
     (let db1 = ensureRow env db
      in case settings db1 of
           None \<Rightarrow> (Inl (Server_Error ''EntityNotFoundError''), db1)
         | Some row \<Rightarrow>
             let rates = toRates (pct_num (ps_guest_fee_pct row)) (pct_num (ps_host_fee_pct row))
             in (Inr rates, db1\<lparr>fee_cache := Some (rates, now)\<rparr>))"

definition onModuleInit :: "env \<Rightarrow> time \<Rightarrow> stays_db \<Rightarrow> stays_db" where
  "onModuleInit env now db = snd (refreshCache env now (ensureRow env db))"

definition getFeeRates :: "env \<Rightarrow> time \<Rightarrow> stays_db \<Rightarrow> fee_rates" where
  "getFeeRates env now db =
     (case fee_cache db of
        Some (rates, _) \<Rightarrow> rates
      | None \<Rightarrow> toRates (default_guest env) (default_host env))"

definition getFeeRatesAsync :: "env \<Rightarrow> time \<Rightarrow> stays_db \<Rightarrow> fee_rates result \<times> stays_db" where
  "getFeeRatesAsync env now db =
     (case fee_cache db of
        Some (rates, _) \<Rightarrow> if isCacheFresh env now db then (Inr rates, db) else refreshCache env now db
      | None \<Rightarrow> refreshCache env now db)"

definition getAuthoritativeFeeRates :: "env \<Rightarrow> time \<Rightarrow> stays_db \<Rightarrow> fee_rates result \<times> stays_db" where
  "getAuthoritativeFeeRates env now db = refreshCache env now db"

definition calculateFees :: "env \<Rightarrow> time \<Rightarrow> rat \<Rightarrow> stays_db \<Rightarrow> fee_breakdown" where
  "calculateFees env now subtotal db =
     (let r = getFeeRates env now db in feesFromRates subtotal (guest_fee_pct r) (host_fee_pct r))"

definition calculateFeesAuthoritative ::
    "env \<Rightarrow> time \<Rightarrow> rat \<Rightarrow> stays_db \<Rightarrow> fee_breakdown result \<times> stays_db" where
  "calculateFeesAuthoritative env now subtotal db =
     (case getAuthoritativeFeeRates env now db of
        (Inl e, db1) \<Rightarrow> (Inl e, db1)
      | (Inr r, db1) \<Rightarrow> (Inr (feesFromRates subtotal (guest_fee_pct r) (host_fee_pct r)), db1))"

text \<open>\<^verbatim>\<open>UpdateFeeSettingsDto\<close>: both fractions lie between 0 and 0.5.\<close>

definition update_fee_dto_ok :: "rat \<Rightarrow> rat \<Rightarrow> bool" where
  "update_fee_dto_ok g h \<longleftrightarrow> 0 \<le> g \<and> g \<le> 1 / 2 \<and> 0 \<le> h \<and> h \<le> 1 / 2"

definition updateFeeRates ::
    "env \<Rightarrow> time \<Rightarrow> rat \<Rightarrow> rat \<Rightarrow> uuid option \<Rightarrow> stays_db \<Rightarrow> fee_rates result \<times> stays_db" where
  "updateFeeRates env now guestFeePct hostFeePct updatedBy db =
     (let db1 = ensureRow env db;
          db2 = db1\<lparr>settings := map_option (\<lambda>row. row\<lparr>ps_guest_fee_pct := col4 guestFeePct,
                  ps_host_fee_pct := col4 hostFeePct, ps_updated_by := updatedBy\<rparr>) (settings db1)\<rparr>
      in refreshCache env now db2)"

section \<open>financial-integrity.ts\<close>

definition assertPositiveMoney :: "rat \<Rightarrow> string \<Rightarrow> rat result" where
  "assertPositiveMoney amount label =
     (if amount \<le> 0 then Inl (Server_Error (label @ '' must be greater than zero'')) else Inr amount)"

definition roundMoney :: "rat \<Rightarrow> rat" where
  "roundMoney amount = js_div (of_int (math_round (js_mul (js_add amount js_epsilon) 100))) 100"

definition lockIntentAmount :: "rat \<Rightarrow> rat option \<Rightarrow> rat result" where
  "lockIntentAmount bookingTotalPaid clientOverride =
     (case assertPositiveMoney bookingTotalPaid ''booking total'' of
        Inl e \<Rightarrow> Inl e
      | Inr locked \<Rightarrow>
          if clientOverride \<noteq> None \<and> the clientOverride \<noteq> locked
          then Inl (Server_Error ''Client amount override is not allowed'')
          else Inr (roundMoney locked))"

section \<open>financial-observability.ts\<close>

definition ledger_eps :: rat where
  "ledger_eps = fl (2 / 100)"

text \<open>\<open>Inl\<close> carries the reason of a violated invariant.\<close>

definition checkConfirmationLedgerInvariant ::
    "rat \<Rightarrow> rat \<Rightarrow> rat \<Rightarrow> rat \<Rightarrow> rat \<Rightarrow> string + unit" where
  "checkConfirmationLedgerInvariant guestPayment platformFee hostPayout gFee hFee =
     (let feeSum = round2 (js_add gFee hFee);
          rhs = round2 (js_add hostPayout platformFee)
      in if \<bar>js_sub feeSum (round2 platformFee)\<bar> > ledger_eps
         then Inl ''PLATFORM_FEE_MUST_EQUAL_GUEST_FEE_PLUS_HOST_FEE''
         else if \<bar>js_sub (round2 guestPayment) rhs\<bar> > ledger_eps
         then Inl ''GUEST_PAYMENT_MUST_EQUAL_HOST_PAYOUT_PLUS_PLATFORM_FEE''
         else Inr ())"

definition reportFinancialInvariantViolation :: "string \<Rightarrow> stays_db \<Rightarrow> stays_db" where
  "reportFinancialInvariantViolation reason db =
     db\<lparr>alerts := alerts db @ [(''FINANCIAL_INVARIANT_VIOLATION'', reason)]\<rparr>"

section \<open>Cents through the arithmetic\<close>

text \<open>The subtotal of a booking, \<^verbatim>\<open>basePrice * nights\<close>, is the exact product up to a 128th of a cent.\<close>

lemma num_err: "0 \<le> k \<Longrightarrow> 100 * num k \<le> of_int k + of_int k / 2 ^ 53 \<and>
    of_int k \<le> 100 * num k + of_int k / 2 ^ 53"
  using b64.rnd_bounds [of "of_int k / 100"] by (simp add: num_def)

lemma near_subtotal:
  assumes "0 \<le> b" and "0 \<le> n" and "b * n \<le> 2 ^ 43"
  shows "near (js_mul (num b) (of_int n)) (b * n) (1 / 256)"
proof -
  have n: "(0::rat) \<le> of_int n" using assms(2) by simp
  have "of_int n * (100 * num b) \<le> of_int n * (of_int b + of_int b / 2 ^ 53)"
    and "of_int n * of_int b \<le> of_int n * (100 * num b + of_int b / 2 ^ 53)"
    using num_err [OF assms(1)] n by (intro mult_left_mono; simp)+
  moreover have "(of_int (b * n) :: rat) \<le> of_int (2 ^ 43)" using assms(3) by (simp only: of_int_le_iff)
  then have "of_int n * of_int b / 2 ^ 53 \<le> (1 / 1024 :: rat)" by (simp add: mult.commute)
  ultimately have "near (num b * of_int n) (b * n) (1 / 1024)"
    by (simp add: near_def algebra_simps)
  moreover have "\<bar>b * n\<bar> \<le> 2 ^ 43" using assms by simp
  ultimately have "near (fl (num b * of_int n)) (b * n) (1 / 1024 + 1 / 512)"
    by (intro b64.rnd_near) auto
  then show ?thesis unfolding js_mul_def by (rule near_mono) simp
qed

definition fee_cents :: "rat \<Rightarrow> rat \<Rightarrow> int" where
  "fee_cents subtotal pct = math_round (js_mul (js_mul subtotal pct) 100)"

lemma round2_fee: "round2 (js_mul subtotal pct) = num (fee_cents subtotal pct)"
  by (simp add: fee_cents_def round2_def num_def js_div_def)

text \<open>A fee is the rate times the subtotal, to the nearest cent up to a 64th of a cent.\<close>

lemma fee_close_wide:
  assumes "near x s (1 / 128)" and "0 \<le> s" and "s \<le> 2 ^ 42" and "0 \<le> pct" and "pct \<le> 1"
    and "0 \<le> x"
  shows "of_int (fee_cents x pct) \<le> of_int s * pct + 1 / 2 + 1 / 64"
    and "of_int s * pct - 1 / 2 - 1 / 64 \<le> of_int (fee_cents x pct)"
proof -
  have xs: "100 * x \<le> of_int s + 1 / 128" "of_int s \<le> 100 * x + 1 / 128"
    using assms(1) by (auto simp: near_def)
  have "(of_int s :: rat) \<le> of_int (2 ^ 42)" using assms(3) by (simp only: of_int_le_iff)
  then have S: "(of_int s :: rat) \<le> 2 ^ 42" by simp
  have q0: "0 \<le> x * pct" using assms(4,6) by simp
  have q1: "x * pct \<le> x" using assms(4-6) by (simp add: mult_left_le)
  define y where "y = fl (x * pct)"
  have yb: "y \<le> x * pct + x * pct / 2 ^ 53" "x * pct - x * pct / 2 ^ 53 \<le> y"
    using b64.rnd_bounds [of "x * pct"] q0 by (simp_all add: y_def)
  have xb: "100 * x \<le> 2 ^ 43" using xs S by simp
  have y0: "0 \<le> y" unfolding y_def using q0 by (rule b64.rnd_nonneg)
  have q2: "100 * (x * pct) \<le> 2 ^ 43" using q1 xb by linarith
  then have e: "100 * (x * pct / 2 ^ 53) \<le> 1 / 512" by simp
  have "y * 100 \<le> 100 * (x * pct) + 1 / 512" using yb(1) e by linarith
  then have "y * 100 \<le> 2 ^ 43 + 1 / 512" using q2 by linarith
  also have "\<dots> \<le> (2 ^ 44 :: rat)" by simp
  finally have "y * 100 \<le> 2 ^ 44" .
  then have z: "fl (y * 100) \<le> y * 100 + 1 / 512" "y * 100 - 1 / 512 \<le> fl (y * 100)"
    using b64.rnd_small [of "y * 100"] y0 by simp_all
  have p1: "100 * x * pct \<le> (of_int s + 1 / 128) * pct" and p2: "of_int s * pct \<le> (100 * x + 1 / 128) * pct"
    using xs assms(4) by (intro mult_right_mono; simp)+
  have w: "100 * (x * pct) \<le> of_int s * pct + 1 / 128" "of_int s * pct \<le> 100 * (x * pct) + 1 / 128"
    using p1 p2 assms(5) by (simp_all add: algebra_simps)
  note r = math_round_bounds [of "fl (y * 100)"]
  show "of_int (fee_cents x pct) \<le> of_int s * pct + 1 / 2 + 1 / 64"
    unfolding fee_cents_def js_mul_def y_def [symmetric] using r z w yb e by linarith
  show "of_int s * pct - 1 / 2 - 1 / 64 \<le> of_int (fee_cents x pct)"
    unfolding fee_cents_def js_mul_def y_def [symmetric] using r z w yb e by linarith
qed

lemma fee_close:
  assumes "near x s (1 / 256)" and "0 \<le> s" and "s \<le> 2 ^ 42" and "0 \<le> pct" and "pct \<le> 1"
    and "0 \<le> x"
  shows "of_int (fee_cents x pct) \<le> of_int s * pct + 1 / 2 + 1 / 64"
    and "of_int s * pct - 1 / 2 - 1 / 64 \<le> of_int (fee_cents x pct)"
  using fee_close_wide [OF near_mono [OF assms(1)] assms(2-)] by simp_all

lemma fee_bounds:
  assumes "near x s (1 / 256)" and "0 \<le> s" and "s \<le> 2 ^ 42" and "0 \<le> pct" and "pct \<le> 1 / 2"
    and "0 \<le> x"
  shows "0 \<le> fee_cents x pct" and "fee_cents x pct \<le> s"
proof -
  have c: "of_int (fee_cents x pct) \<le> of_int s * pct + 1 / 2 + 1 / 64"
    "of_int s * pct - 1 / 2 - 1 / 64 \<le> of_int (fee_cents x pct)"
    using fee_close [OF assms(1-4) _ assms(6)] assms(5) by auto
  have sp: "of_int s * pct \<le> of_int s * (1 / 2)" "0 \<le> of_int s * pct"
    using assms(2,4,5) by (intro mult_left_mono mult_nonneg_nonneg; simp)+
  have "(-1 :: rat) < of_int (fee_cents x pct)" using c sp by simp
  then have "(of_int (- 1) :: rat) < of_int (fee_cents x pct)" by simp
  then show "0 \<le> fee_cents x pct" unfolding of_int_less_iff by simp
  have "2 * of_int (fee_cents x pct) < (of_int s + 2 :: rat)" using c sp by simp
  then have "(of_int (2 * fee_cents x pct) :: rat) < of_int (s + 2)" by simp
  then have "2 * fee_cents x pct < s + 2" unfolding of_int_less_iff .
  with assms(2) show "fee_cents x pct \<le> s" by linarith
qed

lemma num_mul_nonneg: "0 \<le> b \<Longrightarrow> 0 \<le> n \<Longrightarrow> 0 \<le> js_mul (num b) (of_int n)"
  unfolding js_mul_def by (intro b64.rnd_nonneg mult_nonneg_nonneg) (simp_all add: num_nonneg)

text \<open>
  The amounts a booking of \<open>n\<close> nights at \<open>b\<close> cents stores, as cents. \<open>booking_amounts\<close> is the
  specification the arithmetic refines.
\<close>

record booking_amounts =
  a_subtotal :: cents
  a_guest_fee :: cents
  a_host_fee :: cents
  a_total_paid :: cents
  a_payout :: cents

definition stored_amounts :: "rat \<Rightarrow> fee_breakdown \<Rightarrow> booking_amounts" where
  "stored_amounts subtotal f =
     \<lparr>a_subtotal = col2 subtotal, a_guest_fee = col2 (guestFee f), a_host_fee = col2 (hostFee f),
      a_total_paid = col2 (totalPaid f), a_payout = col2 (payoutAmount f)\<rparr>"

definition balanced :: "booking_amounts \<Rightarrow> bool" where
  "balanced a \<longleftrightarrow>
     0 \<le> a_guest_fee a \<and> a_guest_fee a \<le> a_subtotal a \<and>
     0 \<le> a_host_fee a \<and> a_host_fee a \<le> a_subtotal a \<and>
     a_total_paid a = a_subtotal a + a_guest_fee a \<and>
     a_payout a = a_subtotal a - a_host_fee a \<and>
     a_total_paid a = a_payout a + (a_guest_fee a + a_host_fee a)"

lemma stored_amounts_spec:
  assumes "0 \<le> b" and "0 \<le> n" and "b * n \<le> 2 ^ 42"
    and g: "0 \<le> g" "g \<le> 1 / 2" and h: "0 \<le> h" "h \<le> 1 / 2"
  defines "x \<equiv> js_mul (num b) (of_int n)"
  shows "stored_amounts x (feesFromRates x g h) =
    \<lparr>a_subtotal = b * n, a_guest_fee = fee_cents x g, a_host_fee = fee_cents x h,
     a_total_paid = b * n + fee_cents x g, a_payout = b * n - fee_cents x h\<rparr>"
    and "0 \<le> fee_cents x g" "fee_cents x g \<le> b * n" "0 \<le> fee_cents x h" "fee_cents x h \<le> b * n"
proof -
  have x: "near x (b * n) (1 / 256)" unfolding x_def using assms(1-3) by (intro near_subtotal) auto
  have s0: "0 \<le> b * n" using assms(1,2) by simp
  have x0: "0 \<le> x" unfolding x_def using assms(1,2) by (rule num_mul_nonneg)
  note fg = fee_bounds [OF x s0 assms(3) g x0] and fh = fee_bounds [OF x s0 assms(3) h x0]
  show "0 \<le> fee_cents x g" "fee_cents x g \<le> b * n" "0 \<le> fee_cents x h" "fee_cents x h \<le> b * n"
    using fg fh by auto
  have ng: "near (num (fee_cents x g)) (fee_cents x g) (1 / 512)"
    and nh: "near (num (fee_cents x h)) (fee_cents x h) (1 / 512)"
    using fg fh assms(3) by (auto intro!: near_num)
  have "near (js_add x (num (fee_cents x g))) (b * n + fee_cents x g) (1 / 256 + 1 / 512 + 1 / 512)"
    using x ng fg s0 assms(3) by (intro near_js_add) auto
  then have t: "col2 (js_add x (num (fee_cents x g))) = b * n + fee_cents x g"
    by (rule col2_near) simp
  have "near (js_sub x (num (fee_cents x h))) (b * n - fee_cents x h) (1 / 256 + 1 / 512 + 1 / 512)"
    using x nh fh s0 assms(3) by (intro near_js_sub) auto
  then have p: "col2 (js_sub x (num (fee_cents x h))) = b * n - fee_cents x h"
    by (rule col2_near) simp
  have "col2 x = b * n" using x by (rule col2_near) simp
  moreover have "col2 (num (fee_cents x g)) = fee_cents x g" "col2 (num (fee_cents x h)) = fee_cents x h"
    using fg fh assms(3) by auto
  ultimately show "stored_amounts x (feesFromRates x g h) =
    \<lparr>a_subtotal = b * n, a_guest_fee = fee_cents x g, a_host_fee = fee_cents x h,
     a_total_paid = b * n + fee_cents x g, a_payout = b * n - fee_cents x h\<rparr>"
    by (simp add: stored_amounts_def feesFromRates_def Let_def round2_fee t p)
qed

lemma stored_balanced:
  assumes "0 \<le> b" and "0 \<le> n" and "b * n \<le> 2 ^ 42"
    and "0 \<le> g" "g \<le> 1 / 2" and "0 \<le> h" "h \<le> 1 / 2"
  shows "balanced (stored_amounts (js_mul (num b) (of_int n))
    (feesFromRates (js_mul (num b) (of_int n)) g h))"
  using stored_amounts_spec [OF assms] by (simp add: balanced_def)

section \<open>The ledger check accepts balanced cents\<close>

lemma ledger_eps_nonneg: "0 \<le> ledger_eps"
  unfolding ledger_eps_def by (rule b64.rnd_nonneg) simp

lemma round2_js_add_num:
  assumes "\<bar>j\<bar> \<le> 2 ^ 43" "\<bar>k\<bar> \<le> 2 ^ 43" "\<bar>j + k\<bar> \<le> 2 ^ 43"
  shows "round2 (js_add (num j) (num k)) = num (j + k)"
proof -
  have "near (js_add (num j) (num k)) (j + k) (1 / 512 + 1 / 512 + 1 / 512)"
    using assms by (intro near_js_add near_num) auto
  then show ?thesis by (rule round2_near) (use assms(3) in auto)
qed

lemma js_sub_self [simp]: "js_sub x x = 0"
  by (simp add: js_sub_def)

lemma check_balanced:
  assumes "0 \<le> guest_fee" "0 \<le> host_fee" "0 \<le> payout" "payout + (guest_fee + host_fee) \<le> 2 ^ 43"
  shows "checkConfirmationLedgerInvariant (num (payout + (guest_fee + host_fee)))
    (js_add (num guest_fee) (num host_fee)) (num payout) (num guest_fee) (num host_fee) = Inr ()"
proof -
  have f: "near (js_add (num guest_fee) (num host_fee)) (guest_fee + host_fee) (1 / 512 + 1 / 512 + 1 / 512)"
    using assms by (intro near_js_add near_num) auto
  then have "round2 (js_add (num guest_fee) (num host_fee)) = num (guest_fee + host_fee)"
    by (rule round2_near) (use assms in auto)
  moreover have "near (js_add (num payout) (js_add (num guest_fee) (num host_fee)))
      (payout + (guest_fee + host_fee)) (1 / 512 + (1 / 512 + 1 / 512 + 1 / 512) + 1 / 512)"
    using assms f by (intro near_js_add near_num) auto
  then have "round2 (js_add (num payout) (js_add (num guest_fee) (num host_fee))) =
      num (payout + (guest_fee + host_fee))"
    by (rule round2_near) (use assms in auto)
  moreover have "round2 (num (payout + (guest_fee + host_fee))) = num (payout + (guest_fee + host_fee))"
    using assms by simp
  ultimately show ?thesis
    using ledger_eps_nonneg by (simp add: checkConfirmationLedgerInvariant_def Let_def not_less)
qed

text \<open>Conversely, amounts the check accepts balance to two cents, the tolerance \<^verbatim>\<open>EPS\<close>.\<close>

lemma near_js_add_num:
  assumes "\<bar>j\<bar> \<le> 2 ^ 43" "\<bar>k\<bar> \<le> 2 ^ 43" "\<bar>j + k\<bar> \<le> 2 ^ 43"
  shows "near (js_add (num j) (num k)) (j + k) (3 / 512)"
  using near_js_add [OF near_num near_num, of j k] assms by simp

lemma ledger_eps_le: "100 * ledger_eps \<le> 2 + 1 / 512"
  using b64.rnd_bounds(1) [of "2 / 100"] by (simp add: ledger_eps_def)

lemma abs_le_ledger_eps:
  assumes "\<bar>js_sub (num j) (num k)\<bar> \<le> ledger_eps" and "\<bar>j\<bar> \<le> 2 ^ 42" "\<bar>k\<bar> \<le> 2 ^ 42"
  shows "\<bar>j - k\<bar> \<le> 2"
proof -
  have b: "\<bar>j\<bar> \<le> 2 ^ 43" "\<bar>k\<bar> \<le> 2 ^ 43" "\<bar>j - k\<bar> \<le> 2 ^ 43" using assms(2,3) by (simp_all add: abs_le_iff)
  have "near (js_sub (num j) (num k)) (j - k) (1 / 512 + 1 / 512 + 1 / 512)"
    using b by (intro near_js_sub near_num) auto
  then have n: "of_int (j - k) \<le> 100 * js_sub (num j) (num k) + 3 / 512"
    "100 * js_sub (num j) (num k) \<le> of_int (j - k) + 3 / 512"
    by (simp_all add: near_def)
  have e: "js_sub (num j) (num k) \<le> ledger_eps" "- js_sub (num j) (num k) \<le> ledger_eps"
    using assms(1) by (simp_all only: abs_le_iff)
  have "(of_int (j - k) :: rat) < of_int 3" "(of_int (- 3) :: rat) < of_int (j - k)"
    using n e ledger_eps_le by linarith+
  then have "j - k < 3" "- 3 < j - k" unfolding of_int_less_iff by simp_all
  then show ?thesis by simp
qed

lemma check_two_cents:
  assumes "checkConfirmationLedgerInvariant (num g) (js_add (num gf) (num hf)) (num po) (num gf) (num hf) = Inr ()"
    and "\<bar>g\<bar> \<le> 2 ^ 40" "\<bar>gf\<bar> \<le> 2 ^ 40" "\<bar>hf\<bar> \<le> 2 ^ 40" "\<bar>po\<bar> \<le> 2 ^ 40"
  shows "\<bar>g - (po + (gf + hf))\<bar> \<le> 2"
proof -
  have b: "\<bar>gf + hf\<bar> \<le> 2 ^ 41" "\<bar>po + (gf + hf)\<bar> \<le> 2 ^ 42"
    using assms(3-5) by (simp_all add: abs_le_iff)
  have f: "near (js_add (num gf) (num hf)) (gf + hf) (3 / 512)"
    using assms(3,4) b by (intro near_js_add_num) auto
  have "near (js_add (num po) (js_add (num gf) (num hf))) (po + (gf + hf)) (1 / 512 + 3 / 512 + 1 / 512)"
    using assms(5) b f by (intro near_js_add near_num) auto
  then have r: "round2 (js_add (num po) (js_add (num gf) (num hf))) = num (po + (gf + hf))"
    by (rule round2_near) (use b in auto)
  have "\<bar>js_sub (round2 (num g)) (round2 (js_add (num po) (js_add (num gf) (num hf))))\<bar> \<le> ledger_eps"
    using assms(1) by (auto simp: checkConfirmationLedgerInvariant_def Let_def split: if_splits)
  then have "\<bar>js_sub (num g) (num (po + (gf + hf)))\<bar> \<le> ledger_eps"
    using r assms(2) by simp
  then show ?thesis by (rule abs_le_ledger_eps) (use assms(2) b in auto)
qed

section \<open>Rounded money\<close>

lemma roundMoney_num:
  assumes "\<bar>k\<bar> \<le> 2 ^ 43"
  shows "roundMoney (num k) = num k"
proof -
  have e: "near js_epsilon 0 (1 / 512)" by (simp add: near_def js_epsilon_def)
  have "near (js_add (num k) js_epsilon) (k + 0) (1 / 512 + 1 / 512 + 1 / 512)"
    using near_num [OF assms] e by (rule near_js_add) (use assms in auto)
  then have "round2 (js_add (num k) js_epsilon) = num k"
    by (intro round2_near) (use assms in auto)
  then show ?thesis by (simp add: roundMoney_def round2_def)
qed

lemma lockIntentAmount_num:
  assumes "0 < k" and "k \<le> 2 ^ 43"
  shows "lockIntentAmount (num k) None = Inr (num k)"
  using assms num_pos [OF assms(1)] roundMoney_num [of k]
  by (simp add: lockIntentAmount_def assertPositiveMoney_def)

section \<open>Settings\<close>

lemma ensureRow_some: "\<exists>row. settings (ensureRow env db) = Some row"
  by (cases "settings db") (auto simp: ensureRow_def)

lemma ensureRow_frame [simp]:
  "listings (ensureRow env db) = listings db" "bookings (ensureRow env db) = bookings db"
  "occupants (ensureRow env db) = occupants db" "ledger (ensureRow env db) = ledger db"
  "intents (ensureRow env db) = intents db" "blocks (ensureRow env db) = blocks db"
  "reviews (ensureRow env db) = reviews db" "host_profiles (ensureRow env db) = host_profiles db"
  "ref_counters (ensureRow env db) = ref_counters db"
  "conversations (ensureRow env db) = conversations db" "messages (ensureRow env db) = messages db"
  "outbox (ensureRow env db) = outbox db" "audit_logs (ensureRow env db) = audit_logs db"
  "events (ensureRow env db) = events db"
  by (simp_all add: ensureRow_def split: option.splits)

lemma refreshCache_eq:
  obtains row where "settings (ensureRow env db) = Some row"
    and "refreshCache env now db =
      (Inr (toRates (pct_num (ps_guest_fee_pct row)) (pct_num (ps_host_fee_pct row))),
       (ensureRow env db)\<lparr>fee_cache := Some (toRates (pct_num (ps_guest_fee_pct row))
          (pct_num (ps_host_fee_pct row)), now)\<rparr>)"
proof -
  obtain row where row: "settings (ensureRow env db) = Some row" using ensureRow_some by blast
  show ?thesis by (rule that [OF row]) (simp add: refreshCache_def Let_def row)
qed

lemma calculateFeesAuthoritative_eq:
  obtains row where "settings (ensureRow env db) = Some row"
    and "calculateFeesAuthoritative env now x db =
      (Inr (feesFromRates x (pct_num (ps_guest_fee_pct row)) (pct_num (ps_host_fee_pct row))),
       (ensureRow env db)\<lparr>fee_cache := Some (toRates (pct_num (ps_guest_fee_pct row))
          (pct_num (ps_host_fee_pct row)), now)\<rparr>)"
proof (rule refreshCache_eq [of env db now])
  fix row
  assume row: "settings (ensureRow env db) = Some row"
    and eq: "refreshCache env now db =
      (Inr (toRates (pct_num (ps_guest_fee_pct row)) (pct_num (ps_host_fee_pct row))),
       (ensureRow env db)\<lparr>fee_cache := Some (toRates (pct_num (ps_guest_fee_pct row))
          (pct_num (ps_host_fee_pct row)), now)\<rparr>)"
  have r: "guest_fee_pct (toRates a b) = a" "host_fee_pct (toRates a b) = b" for a b
    by (simp_all add: toRates_def)
  show thesis
    by (rule that [OF row])
      (simp only: calculateFeesAuthoritative_def getAuthoritativeFeeRates_def eq prod.case sum.case r)
qed

lemma pct_num_bounds:
  assumes "0 \<le> k" and "k \<le> 5000"
  shows "0 \<le> pct_num k" and "pct_num k \<le> 1 / 2"
    and "pct_num k \<le> of_int k / 10000 + 1 / 2 ^ 53" and "of_int k / 10000 - 1 / 2 ^ 53 \<le> pct_num k"
proof -
  have "of_int k \<le> (5000 :: rat)" "(0 :: rat) \<le> of_int k" using assms by simp_all
  moreover have "pct_num k \<le> of_int k / 10000 + \<bar>of_int k / 10000\<bar> / 2 ^ 53"
    "of_int k / 10000 - \<bar>of_int k / 10000\<bar> / 2 ^ 53 \<le> pct_num k"
    unfolding pct_num_def by (rule b64.rnd_bounds)+
  ultimately show u: "pct_num k \<le> of_int k / 10000 + 1 / 2 ^ 53" and "of_int k / 10000 - 1 / 2 ^ 53 \<le> pct_num k"
    by (simp_all add: abs_if split: if_splits)
  show "0 \<le> pct_num k" unfolding pct_num_def by (rule b64.rnd_nonneg) (use assms in simp)
  show "pct_num k \<le> 1 / 2"
  proof (cases "k = 5000")
    case True
    have "pct_num 5000 = 1 / 2" by code_simp
    then show ?thesis using True by simp
  next
    case False
    then have "k \<le> 4999" using assms by simp
    then have "of_int k \<le> (4999 :: rat)" by (simp only: of_int_le_numeral_iff)
    then show ?thesis using u by simp
  qed
qed

text \<open>A fee at a stored rate is that rate of the subtotal, to the nearest cent up to a 32nd of a cent.\<close>

lemma stored_fee_close:
  assumes "0 \<le> b" "0 \<le> n" "b * n \<le> 2 ^ 42" and "0 \<le> k" "k \<le> 5000"
  shows "\<bar>of_int (fee_cents (js_mul (num b) (of_int n)) (pct_num k)) - of_int (b * n * k) / 10000\<bar> \<le> (1 / 2 + 1 / 32 :: rat)"
proof -
  define s where "s = b * n"
  let ?x = "js_mul (num b) (of_int n)"
  have x: "near ?x s (1 / 256)" "0 \<le> ?x" and s: "0 \<le> s" "s \<le> 2 ^ 42"
    unfolding s_def using assms(1-3) by (auto intro: near_subtotal num_mul_nonneg)
  note p = pct_num_bounds [OF assms(4,5)]
  have q: "pct_num k \<le> 1" using p(2) by simp
  note f = fee_close [OF x(1) s p(1) q x(2)]
  have "(of_int s :: rat) \<le> of_int (2 ^ 42)" using s(2) by (simp only: of_int_le_iff)
  then have s': "(of_int s :: rat) \<le> 2 ^ 42" "(0 :: rat) \<le> of_int s" using s(1) by simp_all
  have m: "of_int s * pct_num k \<le> of_int s * (of_int k / 10000 + 1 / 2 ^ 53)"
    "of_int s * (of_int k / 10000 - 1 / 2 ^ 53) \<le> of_int s * pct_num k"
    using p(3,4) s'(2) by (auto intro: mult_left_mono)
  define t where "t = (of_int s * of_int k / 10000 :: rat)"
  define F where "F = (of_int (fee_cents ?x (pct_num k)) :: rat)"
  define u where "u = of_int s * pct_num k"
  have "u \<le> t + of_int s / 2 ^ 53" "t - of_int s / 2 ^ 53 \<le> u"
    using m by (simp_all add: u_def t_def distrib_left right_diff_distrib)
  moreover have "(of_int s :: rat) / 2 ^ 53 \<le> 1 / 64" using s'(1) by simp
  moreover have "F \<le> u + 1 / 2 + 1 / 64" "u - 1 / 2 - 1 / 64 \<le> F" using f by (simp_all only: F_def u_def)
  ultimately have "\<bar>F - t\<bar> \<le> 1 / 2 + 1 / 32" by linarith
  then show ?thesis by (simp only: F_def t_def s_def of_int_mult)
qed

section \<open>Properties\<close>

text \<open>
  C15: what \<open>createBooking\<close> stores is exact to the cent although it is computed in binary floating
  point. For a base price of \<open>b\<close> cents over \<open>n\<close> nights and rates of \<open>kg\<close> and \<open>kh\<close> ten-thousandths the
  stored subtotal is \<open>b * n\<close>, the total is the subtotal plus the guest fee, the payout is the subtotal
  minus the host fee, and each fee lies between zero and the subtotal and is the rate of the subtotal to
  the nearest cent (up to a 32nd of a cent).
\<close>

theorem stored_fees_exact:
  assumes "0 \<le> b" "0 \<le> n" "b * n \<le> 2 ^ 42" and "0 \<le> kg" "kg \<le> 5000" and "0 \<le> kh" "kh \<le> 5000"
  defines "x \<equiv> js_mul (num b) (of_int n)"
  defines "f \<equiv> feesFromRates x (pct_num kg) (pct_num kh)"
  shows "col2 x = b * n \<and>
    col2 (totalPaid f) = b * n + col2 (guestFee f) \<and> col2 (payoutAmount f) = b * n - col2 (hostFee f) \<and>
    0 \<le> col2 (guestFee f) \<and> col2 (guestFee f) \<le> b * n \<and> 0 \<le> col2 (hostFee f) \<and> col2 (hostFee f) \<le> b * n \<and>
    \<bar>of_int (col2 (guestFee f)) - of_int (b * n * kg) / 10000\<bar> \<le> (1 / 2 + 1 / 32 :: rat) \<and>
    \<bar>of_int (col2 (hostFee f)) - of_int (b * n * kh) / 10000\<bar> \<le> (1 / 2 + 1 / 32 :: rat)"
proof -
  note g = pct_num_bounds(1,2) [OF assms(4,5)] and h = pct_num_bounds(1,2) [OF assms(6,7)]
  note s = stored_amounts_spec [OF assms(1-3) g h, folded x_def, folded f_def]
  note c = stored_fee_close [OF assms(1-3), folded x_def]
  have "col2 x = b * n" "col2 (guestFee f) = fee_cents x (pct_num kg)" "col2 (hostFee f) = fee_cents x (pct_num kh)"
    "col2 (totalPaid f) = b * n + fee_cents x (pct_num kg)" "col2 (payoutAmount f) = b * n - fee_cents x (pct_num kh)"
    using s(1) by (simp_all add: stored_amounts_def)
  then show ?thesis using s(2-5) c [OF assms(4,5)] c [OF assms(6,7)] by (simp only: simp_thms)
qed

theorem stored_fees_exact_witness:
  "col2 (totalPaid (feesFromRates (js_mul (num 19990) (of_int 3)) (pct_num 1000) (pct_num 500)))
     = 59970 + col2 (guestFee (feesFromRates (js_mul (num 19990) (of_int 3)) (pct_num 1000) (pct_num 500)))"
  using stored_fees_exact [of 19990 3 1000 500] by simp

text \<open>
  The check before a confirmation writes the ledger. Amounts that balance to the cent are accepted,
  and whatever is accepted balances to within two cents.
\<close>

theorem ledger_check_two_sided:
  assumes "0 \<le> g" "g \<le> 2 ^ 40" "0 \<le> gf" "gf \<le> 2 ^ 40" "0 \<le> hf" "hf \<le> 2 ^ 40" "0 \<le> po" "po \<le> 2 ^ 40"
  defines "ok \<equiv> checkConfirmationLedgerInvariant (num g) (js_add (num gf) (num hf)) (num po) (num gf) (num hf) = Inr ()"
  shows "(g = po + (gf + hf) \<longrightarrow> ok) \<and> (ok \<longrightarrow> \<bar>g - (po + (gf + hf))\<bar> \<le> 2)"
  using check_balanced [of gf hf po] check_two_cents [of g gf hf po] assms by auto

theorem ledger_check_two_sided_witness:
  "checkConfirmationLedgerInvariant (num 65967) (js_add (num 5997) (num 2999)) (num 56971) (num 5997) (num 2999) = Inr ()"
  using ledger_check_two_sided [of 65967 5997 2999 56971] by simp

text \<open>
  The amount locked for a payment intent is the stored total, exactly, for every positive total; a
  client that names any other amount is refused, and so is a total that is not positive.
\<close>

theorem lock_intent_amount:
  assumes "k \<le> 2 ^ 43"
  shows "(0 < k \<longrightarrow> lockIntentAmount (num k) None = Inr (num k) \<and> lockIntentAmount (num k) (Some (num k)) = Inr (num k)) \<and>
    (0 < k \<longrightarrow> y \<noteq> num k \<longrightarrow> lockIntentAmount (num k) (Some y) = Inl (Server_Error ''Client amount override is not allowed'')) \<and>
    (k \<le> 0 \<longrightarrow> lockIntentAmount (num k) ov = Inl (Server_Error ''booking total must be greater than zero''))"
proof -
  have "num k \<le> 0" if "k \<le> 0"
  proof -
    have "of_int k / 100 \<le> (0 :: rat)" using that by simp
    then show ?thesis using b64.rnd_bounds(1) [of "of_int k / 100"] unfolding num_def by (simp add: abs_if split: if_splits)
  qed
  then show ?thesis
    using assms lockIntentAmount_num [of k] num_pos [of k]
    by (auto simp: lockIntentAmount_def assertPositiveMoney_def not_le)
qed

theorem lock_intent_amount_witness:
  "lockIntentAmount (num 65967) (Some (num 65967)) = Inr (num 65967)"
  using lock_intent_amount [of 65967] by simp

end
