(* ===== verification/JsDate.thy ===== *)
theory JsDate
  imports Prelude
begin

text \<open>
  Calendar dates. The day arithmetic of ECMAScript's \<^verbatim>\<open>Date\<close> (\<open>MakeDay\<close>, \<open>YearFromTime\<close>,
  \<open>MonthFromTime\<close>, \<open>DateFromTime\<close>) on day numbers counted from 1970-01-01, the date helpers of
  \<^verbatim>\<open>booking-date.util.ts\<close>, the date strings of \<^verbatim>\<open>stays-availability.service.ts\<close> and the
  yearly booking reference. A \<^verbatim>\<open>date\<close> column and a local calendar \<^verbatim>\<open>Date\<close> are the day
  number of the calendar day they show; a timestamp is an integer of milliseconds.
\<close>

section \<open>Day arithmetic\<close>

definition leap :: "int \<Rightarrow> bool" where
  "leap y \<longleftrightarrow> y mod 4 = 0 \<and> (y mod 100 \<noteq> 0 \<or> y mod 400 = 0)"

definition day_from_year :: "int \<Rightarrow> int" where
  "day_from_year y = 365 * (y - 1970) + (y - 1969) div 4 - (y - 1901) div 100 + (y - 1601) div 400"

definition month_start :: "bool \<Rightarrow> int \<Rightarrow> int" where
  "month_start lp m =
     (if m \<le> 0 then 0 else if m = 1 then 31
      else (if lp then 1 else 0) +
        (if m = 2 then 59 else if m = 3 then 90 else if m = 4 then 120 else if m = 5 then 151
         else if m = 6 then 181 else if m = 7 then 212 else if m = 8 then 243
         else if m = 9 then 273 else if m = 10 then 304 else if m = 11 then 334 else 365))"

definition make_day :: "int \<Rightarrow> int \<Rightarrow> int \<Rightarrow> int" where
  "make_day year month date =
     (let ym = year + month div 12; mn = month mod 12
      in day_from_year ym + month_start (leap ym) mn + date - 1)"

text \<open>\<^verbatim>\<open>Date.UTC\<close> reads the years 0 to 99 as 1900 to 1999.\<close>

definition date_utc :: "int \<Rightarrow> int \<Rightarrow> int \<Rightarrow> int" where
  "date_utc year month date =
     make_day (if 0 \<le> year \<and> year \<le> 99 then 1900 + year else year) month date"

definition year_from_day :: "int \<Rightarrow> int" where
  "year_from_day n =
     (let y = 1970 + n * 400 div 146097
      in if day_from_year (y + 1) \<le> n then y + 1 else if day_from_year y \<le> n then y else y - 1)"

definition day_in_year :: "int \<Rightarrow> int" where
  "day_in_year n = n - day_from_year (year_from_day n)"

definition month_index :: "bool \<Rightarrow> int \<Rightarrow> int" where
  "month_index lp k =
     (let s = month_start lp
      in if k < s 1 then 0 else if k < s 2 then 1 else if k < s 3 then 2 else if k < s 4 then 3
         else if k < s 5 then 4 else if k < s 6 then 5 else if k < s 7 then 6 else if k < s 8 then 7
         else if k < s 9 then 8 else if k < s 10 then 9 else if k < s 11 then 10 else 11)"

definition month_from_day :: "int \<Rightarrow> int" where
  "month_from_day n = month_index (leap (year_from_day n)) (day_in_year n)"

definition date_from_day :: "int \<Rightarrow> int" where
  "date_from_day n =
     day_in_year n - month_start (leap (year_from_day n)) (month_from_day n) + 1"

definition month_length :: "int \<Rightarrow> int \<Rightarrow> int" where
  "month_length y m = month_start (leap y) (m + 1) - month_start (leap y) m"

lemma div_succ:
  fixes x k :: int
  assumes "0 < k"
  shows "(x + 1) div k = x div k + (if (x + 1) mod k = 0 then 1 else 0)"
proof -
  have e: "x + 1 = k * ((x + 1) div k) + (x + 1) mod k" by simp
  have b: "0 \<le> (x + 1) mod k" "(x + 1) mod k < k" using assms by simp_all
  show ?thesis
  proof (cases "(x + 1) mod k = 0")
    case True
    then have "x div k = (x + 1) div k - 1"
      using e assms by (intro int_div_pos_eq [where r = "k - 1"]) (auto simp: algebra_simps)
    with True show ?thesis by simp
  next
    case False
    then have "x div k = (x + 1) div k"
      using e b by (intro int_div_pos_eq [where r = "(x + 1) mod k - 1"]) linarith+
    with False show ?thesis by simp
  qed
qed

lemma day_from_year_Suc: "day_from_year (y + 1) = day_from_year y + (if leap y then 366 else 365)"
proof -
  have m: "(y - 1969 + 1) mod 4 = 0 \<longleftrightarrow> y mod 4 = 0" "(y - 1901 + 1) mod 100 = 0 \<longleftrightarrow> y mod 100 = 0"
    "(y - 1601 + 1) mod 400 = 0 \<longleftrightarrow> y mod 400 = 0"
    using mod_mult_self2 [of y 4 "- 492"] mod_mult_self2 [of y 100 "- 19"]
      mod_mult_self2 [of y 400 "- 4"] by simp_all
  have i: "y mod 100 = 0 \<longrightarrow> y mod 4 = 0" "y mod 400 = 0 \<longrightarrow> y mod 100 = 0"
    using dvd_trans [of 4 100 y] dvd_trans [of 100 400 y] by (auto simp: mod_eq_0_iff_dvd)
  have "day_from_year (y + 1) = 365 * (y - 1970) + 365 + (y - 1969 + 1) div 4
      - (y - 1901 + 1) div 100 + (y - 1601 + 1) div 400"
    by (simp add: day_from_year_def)
  then have "day_from_year (y + 1) = day_from_year y + 365 + (if y mod 4 = 0 then 1 else 0)
      - (if y mod 100 = 0 then 1 else 0) + (if y mod 400 = 0 then 1 else 0)"
    by (simp only: div_succ m day_from_year_def zero_less_numeral)
  then show ?thesis
    using i unfolding leap_def by (cases "y mod 4 = 0"; cases "y mod 100 = 0"; cases "y mod 400 = 0") simp_all
qed

lemma day_from_year_bounds:
  "400 * day_from_year y \<le> 146097 * y - 287810501"
  "146097 * y - 287811596 \<le> 400 * day_from_year y"
proof -
  define a b c where "a = (y - 1969) div 4" and "b = (y - 1901) div 100" and "c = (y - 1601) div 400"
  have "4 * a \<le> y - 1969" "y - 1969 \<le> 4 * a + 3" "100 * b \<le> y - 1901" "y - 1901 \<le> 100 * b + 99"
    "400 * c \<le> y - 1601" "y - 1601 \<le> 400 * c + 399"
    unfolding a_def b_def c_def by linarith+
  moreover have "day_from_year y = 365 * y - 719050 + a - b + c"
    by (simp add: day_from_year_def a_def b_def c_def)
  ultimately show "400 * day_from_year y \<le> 146097 * y - 287810501"
    "146097 * y - 287811596 \<le> 400 * day_from_year y"
    by simp_all
qed

lemma day_from_year_mono_lt: "y < z \<Longrightarrow> day_from_year y < day_from_year z"
proof (induction z rule: int_gr_induct [of y])
  case base
  then show ?case by (simp add: day_from_year_Suc)
next
  case (step z)
  then show ?case by (simp add: day_from_year_Suc)
qed

lemma day_from_year_mono: "y \<le> z \<Longrightarrow> day_from_year y \<le> day_from_year z"
  using day_from_year_mono_lt [of y z] by (cases "y = z") auto

lemma year_from_day_bounds:
  "day_from_year (year_from_day n) \<le> n" "n < day_from_year (year_from_day n + 1)"
proof -
  define y where "y = 1970 + n * 400 div 146097"
  have "n * 400 = 146097 * (y - 1970) + n * 400 mod 146097" by (simp add: y_def)
  moreover have "0 \<le> n * 400 mod 146097" "n * 400 mod 146097 < 146097" by simp_all
  ultimately have e: "146097 * (y - 1970) \<le> 400 * n" "400 * n < 146097 * (y - 1970) + 146097"
    by linarith+
  have lo: "day_from_year (y - 1) \<le> n"
    using e day_from_year_bounds(1) [of "y - 1"] by simp
  have hi: "n < day_from_year (y + 2)"
    using e day_from_year_bounds(2) [of "y + 2"] by simp
  show "day_from_year (year_from_day n) \<le> n" "n < day_from_year (year_from_day n + 1)"
    using lo hi unfolding year_from_day_def y_def [symmetric] Let_def by (auto simp: add.assoc)
qed

lemma year_from_day_unique:
  assumes "day_from_year y \<le> n" and "n < day_from_year (y + 1)"
  shows "year_from_day n = y"
proof (rule ccontr)
  assume "year_from_day n \<noteq> y"
  then consider "year_from_day n + 1 \<le> y" | "y + 1 \<le> year_from_day n" by linarith
  then show False
    using year_from_day_bounds [of n] assms day_from_year_mono [of "year_from_day n + 1" y]
      day_from_year_mono [of "y + 1" "year_from_day n"]
    by cases auto
qed

lemma month_cases:
  fixes m :: int
  assumes "0 \<le> m" and "m < 12"
  obtains "m = 0" | "m = 1" | "m = 2" | "m = 3" | "m = 4" | "m = 5" | "m = 6" | "m = 7" | "m = 8"
    | "m = 9" | "m = 10" | "m = 11"
  using assms by atomize_elim presburger

lemma month_start_nonneg: "0 \<le> month_start lp m"
  by (simp add: month_start_def)

lemma month_table:
  "month_start lp 0 = 0" "month_start lp 1 = 31" "month_start False 2 = 59"
  "month_start False 3 = 90" "month_start False 4 = 120" "month_start False 5 = 151"
  "month_start False 6 = 181" "month_start False 7 = 212" "month_start False 8 = 243"
  "month_start False 9 = 273" "month_start False 10 = 304" "month_start False 11 = 334"
  "month_start False 12 = 365" "month_start True 2 = 60"
  "month_start True 3 = 91" "month_start True 4 = 121" "month_start True 5 = 152"
  "month_start True 6 = 182" "month_start True 7 = 213" "month_start True 8 = 244"
  "month_start True 9 = 274" "month_start True 10 = 305" "month_start True 11 = 335"
  "month_start True 12 = 366"
  by (simp_all add: month_start_def)

lemma month_index_start:
  assumes "0 \<le> m" and "m < 12" and "month_start lp m \<le> k" and "k < month_start lp (m + 1)"
  shows "month_index lp k = m"
  using assms(1,2)
proof (cases m rule: month_cases)
qed (cases lp; use assms(3,4) in \<open>simp add: month_index_def Let_def month_table\<close>)+

lemma month_index_bounds:
  assumes "0 \<le> k" and "k < (if lp then 366 else 365)"
  shows "month_start lp (month_index lp k) \<le> k" and "k < month_start lp (month_index lp k + 1)"
  using assms by (cases lp; simp add: month_index_def Let_def month_table)+

lemma month_start_12: "0 \<le> m \<Longrightarrow> m < 12 \<Longrightarrow> month_start lp (m + 1) \<le> (if lp then 366 else 365)"
  by (simp add: month_start_def)

lemma year_from_day_ge: "day_from_year z \<le> n \<Longrightarrow> z \<le> year_from_day n"
  using year_from_day_bounds(2) [of n] day_from_year_mono [of "year_from_day n + 1" z] by linarith

text \<open>The calendar fields of a valid date are recovered from its day number.\<close>

lemma fields_of_make_day:
  assumes "0 \<le> m" and "m < 12" and "1 \<le> d" and "d \<le> month_length y m"
  shows "year_from_day (make_day y m d) = y"
    and "month_from_day (make_day y m d) = m"
    and "date_from_day (make_day y m d) = d"
proof -
  have md: "make_day y m d = day_from_year y + (month_start (leap y) m + d - 1)"
    using assms(1,2) by (simp add: make_day_def)
  have k: "0 \<le> month_start (leap y) m + d - 1 \<and>
      month_start (leap y) m + d - 1 < (if leap y then 366 else 365)"
    using assms month_start_nonneg [of "leap y" m] month_start_12 [of m "leap y"]
    by (auto simp: month_length_def)
  show y: "year_from_day (make_day y m d) = y"
    by (rule year_from_day_unique) (use k in \<open>auto simp: md day_from_year_Suc split: if_splits\<close>)
  then have diy: "day_in_year (make_day y m d) = month_start (leap y) m + d - 1"
    by (simp add: day_in_year_def md)
  show mo: "month_from_day (make_day y m d) = m"
    unfolding month_from_day_def diy y using assms
    by (intro month_index_start) (auto simp: month_length_def)
  show "date_from_day (make_day y m d) = d"
    by (simp add: date_from_day_def y diy mo)
qed

text \<open>Conversely the fields of a day number form a valid date that denotes it.\<close>

lemma fields_valid:
  shows "0 \<le> month_from_day n" and "month_from_day n < 12"
    and "1 \<le> date_from_day n" and "date_from_day n \<le> month_length (year_from_day n) (month_from_day n)"
    and "make_day (year_from_day n) (month_from_day n) (date_from_day n) = n"
proof -
  let ?y = "year_from_day n" and ?k = "day_in_year n"
  have k: "0 \<le> ?k" "?k < (if leap ?y then 366 else 365)"
    using year_from_day_bounds [of n] by (auto simp: day_in_year_def day_from_year_Suc)
  show m: "0 \<le> month_from_day n" "month_from_day n < 12"
    by (auto simp: month_from_day_def month_index_def Let_def)
  have "month_start (leap ?y) (month_from_day n) \<le> ?k \<and>
      ?k < month_start (leap ?y) (month_from_day n + 1)"
    unfolding month_from_day_def using month_index_bounds [OF k] by simp
  then show "1 \<le> date_from_day n" "date_from_day n \<le> month_length ?y (month_from_day n)"
    by (auto simp: date_from_day_def month_length_def)
  show "make_day ?y (month_from_day n) (date_from_day n) = n"
    using m by (simp add: make_day_def date_from_day_def day_in_year_def)
qed

lemma month_length_bounds: "0 \<le> m \<Longrightarrow> m < 12 \<Longrightarrow> 28 \<le> month_length y m \<and> month_length y m \<le> 31"
  by (cases m rule: month_cases) (auto simp: month_length_def month_start_def)

section \<open>booking-date.util.ts\<close>

record ymd =
  year :: int
  month :: int
  day :: int

text \<open>\<^verbatim>\<open>/^(\d{4})-(\d{2})-(\d{2})/\<close>: the three groups of a match at the start of the string.\<close>

definition match_ymd :: "string \<Rightarrow> (string \<times> string \<times> string) option" where
  "match_ymd s =
     (let y = take 4 s; m = take 2 (drop 5 s); d = take 2 (drop 8 s)
      in if length s \<ge> 10 \<and> list_all is_digit y \<and> s ! 4 = CHR ''-'' \<and> list_all is_digit m
           \<and> s ! 7 = CHR ''-'' \<and> list_all is_digit d
         then Some (y, m, d) else None)"

definition parseBookingYmd :: "string \<Rightarrow> ymd result" where
  "parseBookingYmd value =
     (case match_ymd (js_trim value) of
        None \<Rightarrow> Inl (Bad_Request ''Invalid date format. Use YYYY-MM-DD.'')
      | Some (ys, ms, ds) \<Rightarrow>
          let y = int (digits_val ys); m = int (digits_val ms); d = int (digits_val ds);
              probe = date_utc y (m - 1) d
          in if year_from_day probe \<noteq> y \<or> month_from_day probe \<noteq> m - 1 \<or> date_from_day probe \<noteq> d
             then Inl (Bad_Request ''Invalid date.'')
             else Inr \<lparr>year = y, month = m, day = d\<rparr>)"

text \<open>
  \<^verbatim>\<open>new Date(year, month - 1, day)\<close> is the local midnight of that calendar day; as a value
  for a \<^verbatim>\<open>date\<close> column it is the day itself.
\<close>

definition parseBookingDateOnly :: "string \<Rightarrow> int result" where
  "parseBookingDateOnly value =
     (case parseBookingYmd value of
        Inl e \<Rightarrow> Inl e
      | Inr v \<Rightarrow> Inr (date_utc (year v) (month v - 1) (day v)))"

definition ms_per_day :: int where
  "ms_per_day = 86400000"

definition bookingNightsBetween :: "string \<Rightarrow> string \<Rightarrow> int result" where
  "bookingNightsBetween checkin checkout =
     (case parseBookingYmd checkin of
        Inl e \<Rightarrow> Inl e
      | Inr a \<Rightarrow>
          (case parseBookingYmd checkout of
             Inl e \<Rightarrow> Inl e
           | Inr b \<Rightarrow>
               let ms = date_utc (year b) (month b - 1) (day b) * ms_per_day
                      - date_utc (year a) (month a - 1) (day a) * ms_per_day
               in Inr (sgn ms * (\<bar>ms\<bar> div ms_per_day))))"

definition assertMinOneNightStay :: "string \<Rightarrow> string \<Rightarrow> unit result" where
  "assertMinOneNightStay checkin checkout =
     (case bookingNightsBetween checkin checkout of
        Inl e \<Rightarrow> Inl e
      | Inr n \<Rightarrow>
          if n < 1
          then Inl (Bad_Request ''Check-out must be at least one night after check-in.'')
          else Inr ())"

definition valid_ymd :: "ymd \<Rightarrow> bool" where
  "valid_ymd v \<longleftrightarrow> 1 \<le> month v \<and> month v \<le> 12 \<and> 1 \<le> day v \<and> day v \<le> month_length (year v) (month v - 1)"

lemma digits2_bound: "list_all is_digit s \<Longrightarrow> length s = k \<Longrightarrow> int (digits_val s) < 10 ^ k"
  using digits_val_bound [of s] by (metis of_nat_less_iff of_nat_numeral of_nat_power)

lemma parseBookingYmd_valid:
  assumes "parseBookingYmd s = Inr v"
  shows "valid_ymd v" and "100 \<le> year v" and "year v \<le> 9999"
    and "year_from_day (date_utc (year v) (month v - 1) (day v)) = year v"
proof -
  obtain ys ms ds where m: "match_ymd (js_trim s) = Some (ys, ms, ds)"
    and v: "v = \<lparr>year = int (digits_val ys), month = int (digits_val ms), day = int (digits_val ds)\<rparr>"
    and f: "year_from_day (date_utc (year v) (month v - 1) (day v)) = year v"
      "month_from_day (date_utc (year v) (month v - 1) (day v)) = month v - 1"
      "date_from_day (date_utc (year v) (month v - 1) (day v)) = day v"
    using assms by (auto simp: parseBookingYmd_def Let_def split: option.splits if_splits)
  show "valid_ymd v"
    using fields_valid [of "date_utc (year v) (month v - 1) (day v)"] by (auto simp: valid_ymd_def f)
  show "year_from_day (date_utc (year v) (month v - 1) (day v)) = year v" by (rule f(1))
  have "int (digits_val ys) < 10 ^ 4" using m
    by (intro digits2_bound) (auto simp: match_ymd_def Let_def split: if_splits)
  then show "year v \<le> 9999" by (simp add: v)
  show "100 \<le> year v"
  proof (rule ccontr)
    assume "\<not> 100 \<le> year v"
    then have y: "0 \<le> year v" "year v \<le> 99" by (auto simp: v)
    have "day_from_year (1900 + year v) \<le> make_day (1900 + year v) (month v - 1) (day v)"
      using \<open>valid_ymd v\<close> month_start_nonneg [of "leap (1900 + year v)" "month v - 1"]
      by (simp add: make_day_def valid_ymd_def Let_def)
    then have "1900 + year v \<le> year_from_day (make_day (1900 + year v) (month v - 1) (day v))"
      by (rule year_from_day_ge)
    with f(1) y show False by (simp add: date_utc_def)
  qed
qed

lemma valid_ymd_accepted:
  assumes "valid_ymd v" and "100 \<le> year v"
  shows "year_from_day (date_utc (year v) (month v - 1) (day v)) = year v"
    and "month_from_day (date_utc (year v) (month v - 1) (day v)) = month v - 1"
    and "date_from_day (date_utc (year v) (month v - 1) (day v)) = day v"
  using assms fields_of_make_day [of "month v - 1" "day v" "year v"]
  by (auto simp: valid_ymd_def date_utc_def)

lemma parseBookingDateOnly_Inr:
  "parseBookingDateOnly s = Inr n \<longleftrightarrow>
     (\<exists>v. parseBookingYmd s = Inr v \<and> n = date_utc (year v) (month v - 1) (day v))"
  by (auto simp: parseBookingDateOnly_def split: sum.splits)

lemma parseBookingYmd_of_date:
  assumes "parseBookingYmd s = Inr v" and "n = date_utc (year v) (month v - 1) (day v)"
  shows "year v = year_from_day n" and "month v = month_from_day n + 1" and "day v = date_from_day n"
  using valid_ymd_accepted [OF parseBookingYmd_valid(1,2) [OF assms(1)]] assms(2) by simp_all

lemma trunc_div_exact: "sgn (k * ms_per_day) * (\<bar>k * ms_per_day\<bar> div ms_per_day) = k"
  by (simp add: ms_per_day_def sgn_mult abs_mult sgn_mult_abs)

lemma bookingNightsBetween_days:
  assumes "parseBookingDateOnly a = Inr m" and "parseBookingDateOnly b = Inr n"
  shows "bookingNightsBetween a b = Inr (n - m)"
  using assms trunc_div_exact [of "n - m"]
  by (auto simp: bookingNightsBetween_def parseBookingDateOnly_Inr Let_def algebra_simps)

lemma bookingNightsBetween_error:
  "bookingNightsBetween a b = Inr k \<Longrightarrow>
     \<exists>m n. parseBookingDateOnly a = Inr m \<and> parseBookingDateOnly b = Inr n \<and> k = n - m"
proof -
  assume k: "bookingNightsBetween a b = Inr k"
  then obtain v w where "parseBookingYmd a = Inr v" "parseBookingYmd b = Inr w"
    by (auto simp: bookingNightsBetween_def split: sum.splits)
  then have "parseBookingDateOnly a = Inr (date_utc (year v) (month v - 1) (day v))"
    "parseBookingDateOnly b = Inr (date_utc (year w) (month w - 1) (day w))"
    by (auto simp: parseBookingDateOnly_Inr)
  with k bookingNightsBetween_days show ?thesis by fastforce
qed

section \<open>Date strings\<close>

definition int_str :: "int \<Rightarrow> string" where
  "int_str i = (if i < 0 then CHR ''-'' # nat_str (nat (- i)) else nat_str (nat i))"

definition pad2 :: "int \<Rightarrow> string" where
  "pad2 i = pad_start 2 (CHR ''0'') (int_str i)"

definition formatLocalDate :: "int \<Rightarrow> string" where
  "formatLocalDate n =
     int_str (year_from_day n) @ ''-'' @ pad2 (month_from_day n + 1) @ ''-'' @ pad2 (date_from_day n)"

text \<open>
  \<open>toDateString\<close> on a string: the leading \<^verbatim>\<open>YYYY-MM-DD\<close> if there is one; otherwise what the
  engine's free-form \<^verbatim>\<open>Date\<close> parser makes of it (\<open>parse\<close>, implementation-defined), and failing
  that the part before the first \<^verbatim>\<open>T\<close>.
\<close>

definition toDateString :: "(string \<Rightarrow> int option) \<Rightarrow> string \<Rightarrow> string" where
  "toDateString parse d =
     (case match_ymd (js_trim d) of
        Some _ \<Rightarrow> take 10 (js_trim d)
      | None \<Rightarrow>
          (case parse d of
             Some n \<Rightarrow> formatLocalDate n
           | None \<Rightarrow> takeWhile (\<lambda>c. c \<noteq> CHR ''T'') d))"

definition addDays :: "string \<Rightarrow> int \<Rightarrow> string" where
  "addDays isoDate days =
     (case match_ymd isoDate of
        Some (ys, ms, ds) \<Rightarrow>
          if length isoDate = 10
          then formatLocalDate
                 (date_utc (int (digits_val ys)) (int (digits_val ms) - 1) (int (digits_val ds)) + days)
          else isoDate
      | None \<Rightarrow> isoDate)"

text \<open>JavaScript compares strings by code units, left to right.\<close>

fun js_less :: "string \<Rightarrow> string \<Rightarrow> bool" where
  "js_less s [] = False"
| "js_less [] (d # t) = True"
| "js_less (c # s) (d # t) =
     (if (of_char c :: nat) < of_char d then True
      else if (of_char d :: nat) < of_char c then False else js_less s t)"

definition iso_range :: "int \<Rightarrow> bool" where
  "iso_range n \<longleftrightarrow> 1000 \<le> year_from_day n \<and> year_from_day n \<le> 9999"

lemma digit_str_pad2:
  assumes "0 \<le> i" and "i < 100"
  shows "length (pad2 i) = 2" and "list_all is_digit (pad2 i)" and "digits_val (pad2 i) = nat i"
proof -
  have "length (nat_str (nat i)) \<le> 2" using assms length_nat_str [of 2 "nat i"] by simp
  then show "length (pad2 i) = 2" using assms by (simp add: pad2_def int_str_def)
  show "list_all is_digit (pad2 i)"
    using assms by (simp add: pad2_def int_str_def all_digits_pad_start all_digits_nat_str)
  show "digits_val (pad2 i) = nat i"
    using assms by (simp add: pad2_def int_str_def digits_val_pad_start digits_val_nat_str)
qed

lemma digit_str_year:
  assumes "1000 \<le> y" and "y \<le> 9999"
  shows "length (int_str y) = 4" and "list_all is_digit (int_str y)" and "digits_val (int_str y) = nat y"
proof -
  have "length (nat_str (nat y)) \<le> 4" "\<not> length (nat_str (nat y)) \<le> 3"
    using assms length_nat_str [of 4 "nat y"] length_nat_str [of 3 "nat y"] by auto
  then show "length (int_str y) = 4" using assms by (simp add: int_str_def)
qed (use assms in \<open>simp_all add: int_str_def all_digits_nat_str digits_val_nat_str\<close>)

lemma match_ymd_parts:
  assumes "length ys = 4" "list_all is_digit ys" "length ms = 2" "list_all is_digit ms"
    "length ds = 2" "list_all is_digit ds"
  shows "match_ymd (ys @ ''-'' @ ms @ ''-'' @ ds) = Some (ys, ms, ds)"
  using assms by (simp add: match_ymd_def nth_append)

lemma date_fields_range:
  "1 \<le> month_from_day n + 1" "month_from_day n + 1 \<le> 12" "1 \<le> date_from_day n" "date_from_day n \<le> 31"
  using fields_valid [of n] month_length_bounds [of "month_from_day n" "year_from_day n"] by auto

lemma match_formatLocalDate:
  assumes "iso_range n"
  shows "match_ymd (formatLocalDate n) =
    Some (int_str (year_from_day n), pad2 (month_from_day n + 1), pad2 (date_from_day n))"
  unfolding formatLocalDate_def
  using assms date_fields_range [of n]
  by (intro match_ymd_parts) (auto simp: iso_range_def digit_str_year digit_str_pad2)

lemma js_trim_digit_ends:
  assumes "s \<noteq> []" and "is_digit (hd s)" and "is_digit (last s)"
  shows "js_trim s = s"
proof -
  have nd: "is_digit c \<Longrightarrow> \<not> js_space c" for c
    by (auto simp: is_digit_def js_space_def)
  obtain c t where s: "s = c # t" using assms(1) by (cases s) auto
  then have "dropWhile js_space s = s" using assms(2) nd by simp
  moreover have "dropWhile js_space (rev s) = rev s"
    using assms(1,3) nd by (cases s rule: rev_cases) auto
  ultimately show ?thesis by (simp add: js_trim_def)
qed

lemma trim_formatLocalDate:
  assumes "iso_range n"
  shows "js_trim (formatLocalDate n) = formatLocalDate n"
proof (rule js_trim_digit_ends)
  have y: "length (int_str (year_from_day n)) = 4" "list_all is_digit (int_str (year_from_day n))"
    using assms by (auto simp: iso_range_def digit_str_year)
  have d: "length (pad2 (date_from_day n)) = 2" "list_all is_digit (pad2 (date_from_day n))"
    using date_fields_range [of n] by (auto simp: digit_str_pad2)
  show "formatLocalDate n \<noteq> []" by (simp add: formatLocalDate_def)
  show "is_digit (hd (formatLocalDate n))"
    using y by (cases "int_str (year_from_day n)") (auto simp: formatLocalDate_def)
  show "is_digit (last (formatLocalDate n))"
    using d by (cases "pad2 (date_from_day n)" rule: rev_cases) (auto simp: formatLocalDate_def)
qed

lemma year_from_day_mono: "m \<le> n \<Longrightarrow> year_from_day m \<le> year_from_day n"
  using year_from_day_bounds [of m] year_from_day_bounds [of n]
    day_from_year_mono [of "year_from_day n + 1" "year_from_day m"] by linarith

lemma iso_range_between: "iso_range a \<Longrightarrow> iso_range b \<Longrightarrow> a \<le> n \<Longrightarrow> n \<le> b \<Longrightarrow> iso_range n"
  unfolding iso_range_def using year_from_day_mono [of a n] year_from_day_mono [of n b] by linarith

lemma parse_formatLocalDate:
  assumes "iso_range n"
  shows "parseBookingDateOnly (formatLocalDate n) = Inr n"
proof -
  let ?v = "\<lparr>year = year_from_day n, month = month_from_day n + 1, day = date_from_day n\<rparr>"
  have dv: "int (digits_val (int_str (year_from_day n))) = year_from_day n"
    "int (digits_val (pad2 (month_from_day n + 1))) = month_from_day n + 1"
    "int (digits_val (pad2 (date_from_day n))) = date_from_day n"
    using assms date_fields_range [of n] by (simp_all add: iso_range_def digit_str_year digit_str_pad2)
  have n: "date_utc (year_from_day n) (month_from_day n) (date_from_day n) = n"
    using assms fields_valid(5) [of n] by (simp add: date_utc_def iso_range_def)
  have "parseBookingYmd (formatLocalDate n) = Inr ?v"
    by (simp add: parseBookingYmd_def trim_formatLocalDate match_formatLocalDate assms Let_def dv n)
  then show ?thesis by (simp add: parseBookingDateOnly_def n)
qed

lemma js_less_append:
  "length a = length b \<Longrightarrow> js_less (a @ s) (b @ t) \<longleftrightarrow> js_less a b \<or> (a = b \<and> js_less s t)"
proof (induction a b rule: list_induct2)
  case Nil
  show ?case by simp
next
  case (Cons x xs y ys)
  have "(of_char x :: nat) = of_char y \<longleftrightarrow> x = y" by simp
  with Cons show ?case by auto
qed

lemma js_less_digits:
  assumes "length a = length b" "list_all is_digit a" "list_all is_digit b"
  shows "(js_less a b \<longleftrightarrow> digits_val a < digits_val b) \<and> (a = b \<longleftrightarrow> digits_val a = digits_val b)"
  using assms
proof (induction a b rule: list_induct2)
  case Nil
  show ?case by simp
next
  case (Cons x xs y ys)
  let ?p = "10 ^ length ys"
  have IH: "(js_less xs ys \<longleftrightarrow> digits_val xs < digits_val ys) \<and> (xs = ys \<longleftrightarrow> digits_val xs = digits_val ys)"
    using Cons by simp
  have b: "digits_val xs < ?p" "digits_val ys < ?p"
    using Cons digits_val_bound [of xs] digits_val_bound [of ys] by auto
  have dx: "(of_char x :: nat) = digit_val x + 48" "(of_char y :: nat) = digit_val y + 48"
    using Cons.prems by (auto simp: digit_val_def is_digit_def)
  have eq: "x = y \<longleftrightarrow> digit_val x = digit_val y" using dx by (metis of_char_eq_iff)
  have v: "digits_val (x # xs) = digit_val x * ?p + digits_val xs"
    "digits_val (y # ys) = digit_val y * ?p + digits_val ys"
    using Cons.hyps by (simp_all add: digits_val_Cons)
  consider "digit_val x < digit_val y" | "digit_val x = digit_val y" | "digit_val y < digit_val x" by linarith
  then show ?case
  proof cases
    case 1
    then have "(digit_val x + 1) * ?p \<le> digit_val y * ?p" by (intro mult_right_mono) auto
    then have "digits_val (x # xs) < digits_val (y # ys)" using b v by (simp add: algebra_simps)
    with 1 eq dx show ?thesis by auto
  next
    case 2
    with IH eq dx v show ?thesis by simp
  next
    case 3
    then have "(digit_val y + 1) * ?p \<le> digit_val x * ?p" by (intro mult_right_mono) auto
    then have "digits_val (y # ys) < digits_val (x # xs)" using b v by (simp add: algebra_simps)
    with 3 eq dx show ?thesis by auto
  qed
qed

lemma month_start_mono: "m \<le> m' \<Longrightarrow> month_start lp m \<le> month_start lp m'"
proof (induction m' rule: int_ge_induct)
  case (step i)
  have "month_start lp i \<le> month_start lp (i + 1)" by (simp add: month_start_def)
  with step show ?case by linarith
qed simp

lemma day_in_year_bounds:
  "month_start (leap (year_from_day n)) (month_from_day n) \<le> day_in_year n"
  "day_in_year n < month_start (leap (year_from_day n)) (month_from_day n + 1)"
  using fields_valid(3,4) [of n] by (auto simp: date_from_day_def month_length_def)

lemma day_less_of_fields:
  assumes "year_from_day m < year_from_day n \<or> (year_from_day m = year_from_day n \<and>
    (month_from_day m < month_from_day n \<or>
     month_from_day m = month_from_day n \<and> date_from_day m < date_from_day n))"
  shows "m < n"
  using assms
proof (elim disjE conjE)
  assume "year_from_day m < year_from_day n"
  then show ?thesis
    using year_from_day_bounds [of m] year_from_day_bounds [of n]
      day_from_year_mono [of "year_from_day m + 1" "year_from_day n"] by linarith
next
  assume y: "year_from_day m = year_from_day n" and "month_from_day m < month_from_day n"
  then have "day_in_year m < day_in_year n"
    using day_in_year_bounds [of m] day_in_year_bounds [of n]
      month_start_mono [of "month_from_day m + 1" "month_from_day n" "leap (year_from_day n)"] by simp
  with y show ?thesis by (simp add: day_in_year_def)
next
  assume "year_from_day m = year_from_day n" "month_from_day m = month_from_day n"
    "date_from_day m < date_from_day n"
  then show ?thesis by (simp add: date_from_day_def day_in_year_def)
qed

lemma day_less_iff:
  "m < n \<longleftrightarrow> year_from_day m < year_from_day n \<or> (year_from_day m = year_from_day n \<and>
    (month_from_day m < month_from_day n \<or>
     month_from_day m = month_from_day n \<and> date_from_day m < date_from_day n))" (is "_ \<longleftrightarrow> ?lex m n")
proof -
  have "year_from_day m = year_from_day n \<Longrightarrow> month_from_day m = month_from_day n \<Longrightarrow>
      date_from_day m = date_from_day n \<Longrightarrow> m = n"
    by (metis fields_valid(5))
  moreover have "?lex m n \<or> ?lex n m \<or> year_from_day m = year_from_day n \<and>
      month_from_day m = month_from_day n \<and> date_from_day m = date_from_day n"
    using linorder_less_linear [of "year_from_day m" "year_from_day n"]
      linorder_less_linear [of "month_from_day m" "month_from_day n"]
      linorder_less_linear [of "date_from_day m" "date_from_day n"]
    by metis
  ultimately show ?thesis
    using day_less_of_fields [of m n] day_less_of_fields [of n m] order.asym [of m n] by blast
qed

lemma js_less_formatLocalDate:
  assumes "iso_range m" and "iso_range n"
  shows "js_less (formatLocalDate m) (formatLocalDate n) \<longleftrightarrow> m < n"
proof -
  let ?y = "\<lambda>n. int_str (year_from_day n)" and ?m = "\<lambda>n. pad2 (month_from_day n + 1)"
    and ?d = "\<lambda>n. pad2 (date_from_day n)"
  note len = digit_str_year digit_str_pad2 date_fields_range [of m] date_fields_range [of n]
  have y: "length (?y m) = length (?y n)"
    "js_less (?y m) (?y n) \<longleftrightarrow> year_from_day m < year_from_day n"
    "?y m = ?y n \<longleftrightarrow> year_from_day m = year_from_day n"
    using assms js_less_digits [of "?y m" "?y n"] by (auto simp: iso_range_def digit_str_year)
  have mo: "length (?m m) = length (?m n)"
    "js_less (?m m) (?m n) \<longleftrightarrow> month_from_day m < month_from_day n"
    "?m m = ?m n \<longleftrightarrow> month_from_day m = month_from_day n"
    using len js_less_digits [of "?m m" "?m n"] by auto
  have da: "js_less (?d m) (?d n) \<longleftrightarrow> date_from_day m < date_from_day n"
    using len js_less_digits [of "?d m" "?d n"] by auto
  have dash: "js_less (''-'' @ s) (''-'' @ t) \<longleftrightarrow> js_less s t" for s t by simp
  show ?thesis
    unfolding formatLocalDate_def js_less_append [OF y(1)] dash js_less_append [OF mo(1)] da y mo
    by (rule day_less_iff [symmetric])
qed

section \<open>booking-reference.util.ts\<close>

text \<open>
  \<open>stays_booking_ref_counters\<close> as a map from the year to its last sequence number. The upsert
  starts a year at 1 and increments it afterwards.
\<close>

definition booking_ref :: "int \<Rightarrow> nat \<Rightarrow> string" where
  "booking_ref yr seq = ''NST-'' @ int_str yr @ ''-'' @ pad_start 6 (CHR ''0'') (nat_str seq)"

definition allocateBookingReference :: "(int \<rightharpoonup> nat) \<Rightarrow> int \<Rightarrow> string \<times> (int \<rightharpoonup> nat)" where
  "allocateBookingReference counters at_time =
     (let yr = year_from_day (at_time div ms_per_day);
          last_seq = (case counters yr of None \<Rightarrow> 1 | Some n \<Rightarrow> n + 1)
      in (booking_ref yr last_seq, counters(yr \<mapsto> last_seq)))"

fun allocate_all :: "(int \<rightharpoonup> nat) \<Rightarrow> int list \<Rightarrow> string list" where
  "allocate_all counters [] = []"
| "allocate_all counters (t # ts) =
     (let (r, counters') = allocateBookingReference counters t in r # allocate_all counters' ts)"

lemma booking_ref_inj:
  assumes "1000 \<le> y" "y \<le> 9999" "1000 \<le> y'" "y' \<le> 9999" "booking_ref y n = booking_ref y' n'"
  shows "y = y' \<and> n = n'"
proof -
  have "length (int_str y) = length (int_str y')" using assms by (simp add: digit_str_year)
  with assms(5) have e: "int_str y = int_str y'"
    "pad_start 6 (CHR ''0'') (nat_str n) = pad_start 6 (CHR ''0'') (nat_str n')"
    by (simp_all add: booking_ref_def)
  have "digits_val (int_str y) = digits_val (int_str y')" using e by simp
  then have "y = y'" using assms by (simp add: digit_str_year)
  moreover have "digits_val (nat_str n) = digits_val (nat_str n')"
    using e(2) by (metis digits_val_pad_start)
  ultimately show ?thesis by (simp add: digits_val_nat_str)
qed

lemma allocate_all_fresh:
  assumes "\<forall>t\<in>set ts. iso_range (t div ms_per_day)" and "1000 \<le> y" "y \<le> 9999"
    and "n \<le> (case counters y of None \<Rightarrow> 0 | Some k \<Rightarrow> k)"
  shows "booking_ref y n \<notin> set (allocate_all counters ts)"
  using assms(1,4)
proof (induction ts arbitrary: counters)
  case Nil
  show ?case by simp
next
  case (Cons t ts)
  let ?y = "year_from_day (t div ms_per_day)"
  let ?s = "case counters ?y of None \<Rightarrow> 1 | Some k \<Rightarrow> k + 1"
  have ir: "1000 \<le> ?y" "?y \<le> 9999" using Cons.prems by (auto simp: iso_range_def)
  have "booking_ref y n \<noteq> booking_ref ?y ?s"
    using Cons.prems(2) by (auto split: option.splits dest!: booking_ref_inj [OF assms(2,3) ir])
  moreover have "booking_ref y n \<notin> set (allocate_all (counters(?y \<mapsto> ?s)) ts)"
    using Cons.prems by (intro Cons.IH) (auto split: option.splits)
  ultimately show ?case by (simp add: allocateBookingReference_def Let_def)
qed

section \<open>Properties\<close>

text \<open>
  The day a formatted date denotes is the day it was formatted from, and comparing two formatted
  dates as JavaScript strings compares the days.
\<close>

theorem date_text_faithful:
  assumes "iso_range m" and "iso_range n"
  shows "parseBookingDateOnly (formatLocalDate m) = Inr m \<and>
    (js_less (formatLocalDate m) (formatLocalDate n) \<longleftrightarrow> m < n)"
  using assms by (simp add: parse_formatLocalDate js_less_formatLocalDate)

theorem date_text_faithful_witness:
  "parseBookingDateOnly ''2024-06-01'' = Inr 19875 \<and> js_less ''2024-06-01'' ''2024-12-31''"
proof -
  have r: "iso_range 19875" "iso_range 20088" by code_simp+
  have f: "formatLocalDate 19875 = ''2024-06-01''" "formatLocalDate 20088 = ''2024-12-31''" by code_simp+
  show ?thesis using date_text_faithful [OF r] by (simp add: f)
qed

text \<open>
  For two well-formed dates the number of nights is the difference of the calendar days, and the
  guard of \<open>createBooking\<close> accepts exactly the stays with a check-out day after the check-in day.
\<close>

theorem nights_between_days:
  assumes "parseBookingDateOnly a = Inr m" and "parseBookingDateOnly b = Inr n"
  shows "bookingNightsBetween a b = Inr (n - m) \<and> (assertMinOneNightStay a b = Inr () \<longleftrightarrow> m < n)"
  using bookingNightsBetween_days [OF assms] by (simp add: assertMinOneNightStay_def)

theorem nights_between_days_witness:
  "bookingNightsBetween ''2024-02-28'' '' 2024-03-01T10:00'' = Inr 2 \<and>
   assertMinOneNightStay ''2024-02-28'' '' 2024-03-01T10:00'' = Inr ()"
proof -
  have p: "parseBookingDateOnly ''2024-02-28'' = Inr 19781" "parseBookingDateOnly '' 2024-03-01T10:00'' = Inr 19783"
    by code_simp+
  show ?thesis using nights_between_days [OF p] by simp
qed

text \<open>
  Whatever the counters hold, the references handed out by successive allocations are pairwise
  different, also across years and past the six padded digits.
\<close>

theorem booking_references_distinct:
  assumes "\<forall>t\<in>set ts. iso_range (t div ms_per_day)"
  shows "distinct (allocate_all counters ts)"
  using assms
proof (induction ts arbitrary: counters)
  case (Cons t ts)
  let ?y = "year_from_day (t div ms_per_day)"
  let ?s = "case counters ?y of None \<Rightarrow> 1 | Some k \<Rightarrow> k + 1"
  have "booking_ref ?y ?s \<notin> set (allocate_all (counters(?y \<mapsto> ?s)) ts)"
    using Cons.prems by (intro allocate_all_fresh) (auto simp: iso_range_def)
  then show ?case using Cons by (simp add: allocateBookingReference_def Let_def)
qed simp

theorem booking_references_distinct_witness:
  "allocate_all [2024 \<mapsto> 41] [1717200000000, 1717200000001] = [''NST-2024-000042'', ''NST-2024-000043'']
   \<and> distinct (allocate_all [2024 \<mapsto> 41] [1717200000000, 1717200000001])"
proof -
  have "\<forall>t\<in>set [1717200000000, 1717200000001]. iso_range (t div ms_per_day)" by code_simp
  note d = booking_references_distinct [OF this, of "[2024 \<mapsto> 41]"]
  show ?thesis by (rule conjI [OF _ d]) code_simp
qed

end
