(* ===== verification/Lifecycle.thy ===== *)
theory Lifecycle
  imports JsNumber JsDate PlatformFees
begin

text \<open>
  \<^verbatim>\<open>booking-lifecycle.service.ts\<close>: the lifecycle shown for a booking, computed from its
  status, its dates and the clock. The server's time zone is a constant offset \<open>off\<close> in
  milliseconds. An unreadable \<^verbatim>\<open>process.env\<close> number is \<open>None\<close> (\<^verbatim>\<open>NaN\<close>); a comparison with an
  invalid date is false.
\<close>

datatype lifecycle = LC_UPCOMING | LC_ACTIVE | LC_COMPLETED | LC_PENDING_PAYMENT | LC_CANCELLED | LC_EXPIRED

definition CANCELLED_STATUSES :: "booking_status list" where
  "CANCELLED_STATUSES = [CANCELLED_BY_GUEST, CANCELLED_BY_HOST]"

definition PAID_STAY_STATUSES :: "booking_status list" where
  "PAID_STAY_STATUSES = [CONFIRMED, CHECKED_IN, COMPLETED]"

definition PRE_CONFIRMATION_BOOKING_STATUSES :: "booking_status list" where
  "PRE_CONFIRMATION_BOOKING_STATUSES = [PAYMENT_PENDING, INITIATED]"

definition env_number :: "env \<Rightarrow> string \<Rightarrow> rat \<Rightarrow> rat option" where
  "env_number env name dflt = (case env name of None \<Rightarrow> Some dflt | Some raw \<Rightarrow> js_number raw)"

definition PAYMENT_PENDING_TTL_MINUTES :: "env \<Rightarrow> rat option" where
  "PAYMENT_PENDING_TTL_MINUTES env = env_number env ''STAYS_PAYMENT_PENDING_TTL_MINUTES'' 60"

definition COMPLAINT_WINDOW_DAYS :: "env \<Rightarrow> rat option" where
  "COMPLAINT_WINDOW_DAYS env = env_number env ''STAYS_COMPLAINT_WINDOW_DAYS'' 14"

text \<open>\<^verbatim>\<open>new Date(number)\<close>: the integer part, invalid beyond 8.64e15 milliseconds.\<close>

definition js_trunc :: "rat \<Rightarrow> int" where
  "js_trunc x = (if 0 \<le> x then \<lfloor>x\<rfloor> else \<lceil>x\<rceil>)"

definition time_clip :: "rat \<Rightarrow> time option" where
  "time_clip x = (if \<bar>x\<bar> > 8640000000000000 then None else Some (js_trunc x))"

definition local_day :: "int \<Rightarrow> time \<Rightarrow> day" where
  "local_day off t = (t + off) div ms_per_day"

definition startOfDay :: "int \<Rightarrow> time \<Rightarrow> time" where
  "startOfDay off t = local_day off t * ms_per_day - off"

text \<open>A \<^verbatim>\<open>date\<close> column arrives as \<^verbatim>\<open>YYYY-MM-DD\<close>, which \<^verbatim>\<open>new Date\<close> reads as midnight UTC.\<close>

definition parseDateOnly :: "int \<Rightarrow> day \<Rightarrow> time" where
  "parseDateOnly off d = startOfDay off (d * ms_per_day)"

definition getPaymentExpiresAt :: "env \<Rightarrow> time \<Rightarrow> time option" where
  "getPaymentExpiresAt env createdAt =
     (case PAYMENT_PENDING_TTL_MINUTES env of
        None \<Rightarrow> None
      | Some ttl \<Rightarrow> time_clip (js_add (of_int createdAt) (js_mul (js_mul ttl 60) 1000)))"

definition isPaymentExpired :: "env \<Rightarrow> time \<Rightarrow> booking \<Rightarrow> bool" where
  "isPaymentExpired env now b =
     (if bk_status b \<noteq> PAYMENT_PENDING \<and> bk_status b \<noteq> INITIATED then False
      else case getPaymentExpiresAt env (bk_created_at b) of None \<Rightarrow> False | Some t \<Rightarrow> t \<le> now)"

definition computeLifecycle :: "env \<Rightarrow> int \<Rightarrow> time \<Rightarrow> bool \<Rightarrow> booking \<Rightarrow> lifecycle" where
  "computeLifecycle env off now paymentExpired b =
     (let today = startOfDay off now;
          checkin = parseDateOnly off (bk_checkin_date b);
          checkout = parseDateOnly off (bk_checkout_date b)
      in if bk_status b = EXPIRED \<or> paymentExpired then LC_EXPIRED
         else if bk_status b \<in> set CANCELLED_STATUSES then LC_CANCELLED
         else if bk_status b = PAYMENT_PENDING \<or> bk_status b = INITIATED
         then (if isPaymentExpired env now b then LC_EXPIRED else LC_PENDING_PAYMENT)
         else if bk_status b = COMPLETED then LC_COMPLETED
         else if bk_status b \<in> set PAID_STAY_STATUSES \<and> today \<ge> checkout then LC_COMPLETED
         else if bk_status b \<in> set PAID_STAY_STATUSES \<and> today \<ge> checkin \<and> today < checkout
         then LC_ACTIVE
         else if bk_status b \<in> set PAID_STAY_STATUSES \<and> today < checkin then LC_UPCOMING
         else LC_CANCELLED)"

text \<open>\<open>host\<close> is the host of the listing loaded with the booking, if any.\<close>

definition canReview :: "env \<Rightarrow> int \<Rightarrow> time \<Rightarrow> bool \<Rightarrow> uuid option \<Rightarrow> booking \<Rightarrow> bool" where
  "canReview env off now paymentExpired host b =
     (if computeLifecycle env off now paymentExpired b \<noteq> LC_COMPLETED then False
      else case host of None \<Rightarrow> True | Some h \<Rightarrow> \<not> (h \<noteq> [] \<and> h = bk_guest_user_id b))"

definition complain_deadline :: "env \<Rightarrow> int \<Rightarrow> booking \<Rightarrow> time option" where
  "complain_deadline env off b =
     (case COMPLAINT_WINDOW_DAYS env of
        None \<Rightarrow> None
      | Some n \<Rightarrow>
          let d = local_day off (parseDateOnly off (bk_checkout_date b));
              dt = date_from_day d
          in Some ((d + (js_trunc (js_add (of_int dt) n) - dt)) * ms_per_day - off))"

definition canComplain :: "env \<Rightarrow> int \<Rightarrow> time \<Rightarrow> bool \<Rightarrow> booking \<Rightarrow> bool" where
  "canComplain env off now paymentExpired b =
     (let lc = computeLifecycle env off now paymentExpired b
      in if lc \<noteq> LC_COMPLETED \<and> lc \<noteq> LC_ACTIVE then False
         else case complain_deadline env off b of
                None \<Rightarrow> False
              | Some deadline \<Rightarrow> startOfDay off now \<le> deadline)"

definition canCancel :: "env \<Rightarrow> int \<Rightarrow> time \<Rightarrow> bool \<Rightarrow> booking \<Rightarrow> bool" where
  "canCancel env off now paymentExpired b =
     (let lc = computeLifecycle env off now paymentExpired b
      in if lc = LC_PENDING_PAYMENT then True else if lc = LC_UPCOMING then True else False)"

definition lifecycleBadgeColor :: "lifecycle \<Rightarrow> string" where
  "lifecycleBadgeColor lc =
     (case lc of
        LC_UPCOMING \<Rightarrow> ''blue''
      | LC_ACTIVE \<Rightarrow> ''green''
      | LC_PENDING_PAYMENT \<Rightarrow> ''orange''
      | LC_COMPLETED \<Rightarrow> ''gray''
      | LC_CANCELLED \<Rightarrow> ''red''
      | LC_EXPIRED \<Rightarrow> ''red'')"

section \<open>Days and dates\<close>

lemma startOfDay_le_iff: "startOfDay off t \<le> startOfDay off u \<longleftrightarrow> local_day off t \<le> local_day off u"
  by (simp add: startOfDay_def ms_per_day_def)

lemma startOfDay_less_iff: "startOfDay off t < startOfDay off u \<longleftrightarrow> local_day off t < local_day off u"
  by (simp add: startOfDay_def ms_per_day_def)

text \<open>East of Greenwich a date column denotes its own local day; west of it, the day before.\<close>

lemma local_day_east: "0 \<le> off \<Longrightarrow> off < ms_per_day \<Longrightarrow> local_day off (d * ms_per_day) = d"
  by (simp add: local_day_def ms_per_day_def)

lemma local_day_west: "- ms_per_day < off \<Longrightarrow> off < 0 \<Longrightarrow> local_day off (d * ms_per_day) = d - 1"
  unfolding local_day_def ms_per_day_def
  by (rule int_div_pos_eq [where r = "off + 86400000"]) (simp_all add: algebra_simps)

lemma local_day_start [simp]: "local_day off (startOfDay off t) = local_day off t"
  by (simp add: startOfDay_def) (simp add: local_day_def ms_per_day_def)

lemmas status_lists = CANCELLED_STATUSES_def PAID_STAY_STATUSES_def PRE_CONFIRMATION_BOOKING_STATUSES_def

text \<open>The lifecycle of a paid stay is a comparison of calendar days.\<close>

lemma computeLifecycle_paid:
  assumes "0 \<le> off" "off < ms_per_day" and "bk_status b = CONFIRMED \<or> bk_status b = CHECKED_IN"
  shows "computeLifecycle env off now False b =
    (if bk_checkout_date b \<le> local_day off now then LC_COMPLETED
     else if bk_checkin_date b \<le> local_day off now then LC_ACTIVE else LC_UPCOMING)"
  using assms
  by (auto simp: computeLifecycle_def Let_def parseDateOnly_def startOfDay_le_iff startOfDay_less_iff
      local_day_east status_lists)

lemma getPaymentExpiresAt_default:
  assumes "env ''STAYS_PAYMENT_PENDING_TTL_MINUTES'' = None" and "0 \<le> t" and "t \<le> 8000000000000000"
  shows "getPaymentExpiresAt env t = Some (t + 3600000)"
proof -
  have m: "js_mul (js_mul 60 60) 1000 = 3600000"
    using fl_of_int [of 3600] fl_of_int [of 3600000] by (simp add: js_mul_def)
  have "fl (of_int (t + 3600000)) = of_int (t + 3600000)" using assms(2,3) by (intro fl_of_int) simp
  then have a: "js_add (of_int t) 3600000 = of_int (t + 3600000)" by (simp add: js_add_def)
  have "(of_int t :: rat) \<le> of_int 8000000000000000" using assms(3) by (simp only: of_int_le_iff)
  then have "(of_int (t + 3600000) :: rat) \<le> 8640000000000000" by simp
  moreover have "(0 :: rat) \<le> of_int (t + 3600000)" using assms(2) by simp
  ultimately have c: "time_clip (of_int (t + 3600000)) = Some (t + 3600000)"
    by (simp only: time_clip_def js_trunc_def floor_of_int abs_of_nonneg if_True) simp
  show ?thesis
    using assms(1) by (simp only: getPaymentExpiresAt_def PAYMENT_PENDING_TTL_MINUTES_def
        env_number_def option.case m a c)
qed

section \<open>Properties\<close>

text \<open>
  At a server on or east of Greenwich the lifecycle of a paid stay is decided by calendar days
  alone, and so are the permissions: it can be cancelled strictly before the check-in day and reviewed
  (by a guest who is not the host) from the check-out day on.
\<close>

theorem lifecycle_by_days:
  assumes "0 \<le> off" "off < ms_per_day" and "bk_status b = CONFIRMED \<or> bk_status b = CHECKED_IN"
  shows "computeLifecycle env off now False b =
      (if bk_checkout_date b \<le> local_day off now then LC_COMPLETED
       else if bk_checkin_date b \<le> local_day off now then LC_ACTIVE else LC_UPCOMING) \<and>
    (bk_checkin_date b < bk_checkout_date b \<longrightarrow>
      (canCancel env off now False b \<longleftrightarrow> local_day off now < bk_checkin_date b) \<and>
      (canReview env off now False (Some h) b \<longleftrightarrow>
        bk_checkout_date b \<le> local_day off now \<and> (h = [] \<or> h \<noteq> bk_guest_user_id b)))"
  using computeLifecycle_paid [OF assms, of env now]
  by (auto simp: canCancel_def canReview_def Let_def)

text \<open>
  At a server west of Greenwich the date columns are read as the day before, so the same stay
  becomes active, and then completed, one calendar day early.
\<close>

theorem lifecycle_west_one_day_early:
  assumes "- ms_per_day < off" "off < 0" and "bk_status b = CONFIRMED \<or> bk_status b = CHECKED_IN"
  shows "computeLifecycle env off now False b =
      (if bk_checkout_date b - 1 \<le> local_day off now then LC_COMPLETED
       else if bk_checkin_date b - 1 \<le> local_day off now then LC_ACTIVE else LC_UPCOMING)"
  using assms
  by (auto simp: computeLifecycle_def Let_def parseDateOnly_def startOfDay_le_iff startOfDay_less_iff
      local_day_west status_lists)

theorem lifecycle_by_days_witness:
  "computeLifecycle (\<lambda>_. None) 3600000 1717200000000 False (sample_booking ''b1'' CONFIRMED) = LC_ACTIVE"
proof -
  have "local_day 3600000 1717200000000 = 19875" by code_simp
  then show ?thesis
    using lifecycle_by_days [of 3600000 "sample_booking ''b1'' CONFIRMED" "\<lambda>_. None" 1717200000000]
    by (simp add: sample_booking_def ms_per_day_def)
qed

theorem lifecycle_west_one_day_early_witness:
  "computeLifecycle (\<lambda>_. None) (- 18000000) 1717131600000 False (sample_booking ''b1'' CONFIRMED) = LC_ACTIVE
   \<and> local_day (- 18000000) 1717131600000 < bk_checkin_date (sample_booking ''b1'' CONFIRMED)"
proof -
  have d: "local_day (- 18000000) 1717131600000 = 19874" by code_simp
  show ?thesis
    using lifecycle_west_one_day_early [of "- 18000000" "sample_booking ''b1'' CONFIRMED" "\<lambda>_. None" 1717131600000]
    by (simp add: sample_booking_def ms_per_day_def d)
qed

end
