(* ===== verification/Timeline.thy ===== *)
theory Timeline
  imports Lifecycle
begin

text \<open>
  The booking conversation and its timeline: \<^verbatim>\<open>message-preview.util.ts\<close>,
  \<^verbatim>\<open>timeline-seeder.service.ts\<close>, \<^verbatim>\<open>outbox.service.ts\<close>, the display names of
  \<^verbatim>\<open>participant-presentation.service.ts\<close> and \<^verbatim>\<open>conversation-provision.service.ts\<close>. New
  row identifiers come from a generator \<open>gen\<close> (the database's uuid default), the clock is \<open>now\<close>,
  and the identity service's display names are a parameter. A property the source sets to
  \<^verbatim>\<open>undefined\<close> is absent from the stored JSON.
\<close>

section \<open>Optional text\<close>

definition truthy :: "string option \<Rightarrow> bool" where
  "truthy s \<longleftrightarrow> (case s of None \<Rightarrow> False | Some t \<Rightarrow> t \<noteq> [])"

definition or_else :: "'a option \<Rightarrow> 'a option \<Rightarrow> 'a option" where
  "or_else a b = (case a of None \<Rightarrow> b | Some x \<Rightarrow> Some x)"

definition trim_or_none :: "string option \<Rightarrow> string option" where
  "trim_or_none s = (case s of None \<Rightarrow> None | Some t \<Rightarrow> if js_trim t = [] then None else Some (js_trim t))"

definition json_string :: "json option \<Rightarrow> string option" where
  "json_string j = (case j of Some (JStr s) \<Rightarrow> Some s | _ \<Rightarrow> None)"

definition opt_field :: "string \<Rightarrow> string option \<Rightarrow> metadata" where
  "opt_field k v = (case v of None \<Rightarrow> [] | Some s \<Rightarrow> [(k, JStr s)])"

definition null_or_str :: "string option \<Rightarrow> json" where
  "null_or_str v = json_of_opt JStr v"

text \<open>\<^verbatim>\<open>String(Number(column))\<close> of a money column: no trailing zeros after the point.\<close>

definition cents_str :: "cents \<Rightarrow> string" where
  "cents_str k =
     (let a = nat \<bar>k\<bar>; w = nat_str (a div 100); f = a mod 100;
          frac = (if f = 0 then [] else if f mod 10 = 0 then ''.'' @ nat_str (f div 10)
                  else ''.'' @ pad_start 2 (CHR ''0'') (nat_str f))
      in (if k < 0 then ''-'' else []) @ w @ frac)"

section \<open>message-preview.util.ts\<close>

definition pickText :: "json option \<Rightarrow> string option" where
  "pickText v = trim_or_none (json_string v)"

definition sentMediaPreview :: "string \<Rightarrow> string option \<Rightarrow> string \<Rightarrow> string" where
  "sentMediaPreview mediaLabel senderLabel fallback =
     (if truthy senderLabel then the senderLabel @ '' sent a '' @ mediaLabel else fallback)"

definition resolveInboxSenderLabel ::
    "string option \<Rightarrow> string \<Rightarrow> string option \<Rightarrow> string option \<Rightarrow> string option \<Rightarrow> string option
     \<Rightarrow> string option \<Rightarrow> string option" where
  "resolveInboxSenderLabel senderId viewerUserId guestUserId hostUserId hostName guestName counterpart =
     (if \<not> truthy senderId then None
      else if senderId = Some viewerUserId then Some ''You''
      else if senderId = hostUserId then or_else hostName (or_else counterpart (Some ''Host''))
      else if senderId = guestUserId then or_else guestName (or_else counterpart (Some ''Guest''))
      else counterpart)"

datatype viewer_role = Guest_Role | Host_Role

definition readRoleViewTitle :: "metadata \<Rightarrow> viewer_role option \<Rightarrow> string option" where
  "readRoleViewTitle meta viewerRole =
     (let reviewed = (map_of meta ''reviewed'' = Some (JBool True));
          view = map_of meta (if viewerRole = Some Host_Role then ''hostView'' else ''guestView'');
          vtitle = (case view of Some (JObj fs) \<Rightarrow> pickText (map_of fs ''title'') | _ \<Rightarrow> None)
      in if vtitle \<noteq> None then vtitle
         else if viewerRole = Some Host_Role
         then Some (if reviewed then ''Guest reviewed successfully'' else ''Review request sent'')
         else if reviewed then Some ''Thanks for reviewing!''
         else or_else (pickText (map_of meta ''title'')) (Some ''Review your stay''))"

definition pick_first :: "string option list \<Rightarrow> string \<Rightarrow> string" where
  "pick_first cands dflt = (case fold (\<lambda>c acc. or_else acc c) cands None of None \<Rightarrow> dflt | Some s \<Rightarrow> s)"

definition middle_dot :: string where
  "middle_dot = [CHR 0xC2, CHR 0xB7]"

definition formatInboxPreview ::
    "message_type \<Rightarrow> string option \<Rightarrow> metadata \<Rightarrow> string option \<Rightarrow> viewer_role option \<Rightarrow> string" where
  "formatInboxPreview ty bodyText meta senderLabel viewerRole =
     (let body = trim_or_none bodyText; caption = pickText (map_of meta ''caption'');
          title = pickText (map_of meta ''title''); cardBody = pickText (map_of meta ''body'')
      in case ty of
           M_TEXT \<Rightarrow> pick_first [body] []
         | M_IMAGE \<Rightarrow> pick_first [caption] (sentMediaPreview ''photo'' senderLabel ''Photo'')
         | M_FILE \<Rightarrow>
             if caption \<noteq> None \<and> caption \<noteq> Some ''Voice message'' then the caption
             else if caption = Some ''Voice message''
             then sentMediaPreview ''voice message'' senderLabel ''Voice message''
             else sentMediaPreview ''file'' senderLabel ''File''
         | M_VIDEO \<Rightarrow> pick_first [caption] (sentMediaPreview ''video'' senderLabel ''Video'')
         | M_VOICE \<Rightarrow> sentMediaPreview ''voice message'' senderLabel ''Voice message''
         | M_LOCATION \<Rightarrow> pick_first [caption] (sentMediaPreview ''location'' senderLabel ''Location'')
         | M_SYSTEM_EVENT \<Rightarrow> pick_first [body, title] ''Booking update''
         | M_SYSTEM_NOTICE \<Rightarrow> pick_first [body, title] ''Notice''
         | M_BOOKING_CARD \<Rightarrow> pick_first [title, cardBody] ''Booking confirmed''
         | M_PROPERTY_CARD \<Rightarrow> pick_first [title, cardBody] ''Property details''
         | M_CHECKIN_CARD \<Rightarrow> pick_first [title, cardBody] ''Check-in details''
         | M_WIFI_CARD \<Rightarrow>
             pick_first [title]
               (case cardBody of
                  Some b \<Rightarrow> ''Wi-Fi '' @ middle_dot @ '' '' @ b
                | None \<Rightarrow> ''Wi-Fi details'')
         | M_LOCATION_CARD \<Rightarrow> pick_first [title, cardBody] ''Location''
         | M_REVIEW_CARD \<Rightarrow> pick_first [readRoleViewTitle meta viewerRole] ''Review your stay''
         | M_PAYMENT_CARD \<Rightarrow> pick_first [title, cardBody] ''Payment update''
         | _ \<Rightarrow> pick_first [title, cardBody, body] ''Message'')"

section \<open>timeline-seeder.service.ts\<close>

record reservation_snapshot =
  sn_listingTitle :: string
  sn_listingId :: uuid
  sn_coverMediaId :: "uuid option"
  sn_primaryPhotoUrl :: "string option"
  sn_addressDisplay :: string
  sn_city :: string
  sn_country :: string
  sn_checkinDate :: string
  sn_checkoutDate :: string
  sn_guestCount :: int
  sn_hostDisplayName :: "string option"
  sn_guestDisplayName :: "string option"
  sn_bookingReference :: string
  sn_listingReference :: uuid

definition snapshot_json :: "reservation_snapshot \<Rightarrow> metadata" where
  "snapshot_json s =
     [(''listingTitle'', JStr (sn_listingTitle s)), (''listingId'', JStr (sn_listingId s)),
      (''coverMediaId'', null_or_str (sn_coverMediaId s)),
      (''primaryPhotoUrl'', null_or_str (sn_primaryPhotoUrl s)),
      (''addressDisplay'', JStr (sn_addressDisplay s)), (''city'', JStr (sn_city s)),
      (''country'', JStr (sn_country s)), (''checkinDate'', JStr (sn_checkinDate s)),
      (''checkoutDate'', JStr (sn_checkoutDate s)), (''guestCount'', JNum (of_int (sn_guestCount s))),
      (''hostDisplayName'', null_or_str (sn_hostDisplayName s)),
      (''guestDisplayName'', null_or_str (sn_guestDisplayName s)),
      (''bookingReference'', JStr (sn_bookingReference s)),
      (''listingReference'', JStr (sn_listingReference s))]"

fun join_strings :: "string \<Rightarrow> string list \<Rightarrow> string" where
  "join_strings sep [] = []"
| "join_strings sep [s] = s"
| "join_strings sep (s # t # r) = s @ sep @ join_strings sep (t # r)"

definition cover_photo :: "listing \<Rightarrow> listing_media option" where
  "cover_photo l =
     or_else (find_where (\<lambda>m. lm_is_cover m \<and> lm_kind m = PHOTO) (ls_media l))
             (find_where (\<lambda>m. lm_kind m = PHOTO) (ls_media l))"

definition buildSnapshot :: "booking \<Rightarrow> listing \<Rightarrow> string option \<Rightarrow> string option \<Rightarrow> reservation_snapshot" where
  "buildSnapshot b l hostName guestName =
     (let cover = cover_photo l;
          parts = filter (\<lambda>s. s \<noteq> []) (List.map_filter id [ls_building_name l, ls_neighborhood l, Some (ls_city l)]);
          joined = join_strings '', '' parts
      in \<lparr>sn_listingTitle = ls_title l,
          sn_listingId = ls_id l,
          sn_coverMediaId = map_option lm_asset_id cover,
          sn_primaryPhotoUrl = map_option (\<lambda>m. ''/api/v1/stays/listings/'' @ ls_id l @ ''/media/'' @ lm_asset_id m) cover,
          sn_addressDisplay = (if joined = [] then ls_city l else joined),
          sn_city = ls_city l,
          sn_country = ls_country l,
          sn_checkinDate = take 10 (formatLocalDate (bk_checkin_date b)),
          sn_checkoutDate = take 10 (formatLocalDate (bk_checkout_date b)),
          sn_guestCount = bk_guest_count b,
          sn_hostDisplayName = hostName,
          sn_guestDisplayName = guestName,
          sn_bookingReference = bk_booking_reference b,
          sn_listingReference = ls_id l\<rparr>)"

definition card_head :: "string \<Rightarrow> metadata" where
  "card_head kind =
     [(''schemaVersion'', JNum 1), (''cardVersion'', JNum 1), (''presentationVersion'', JNum 1),
      (''kind'', JStr kind)]"

definition card_action :: "string \<Rightarrow> string \<Rightarrow> string \<Rightarrow> string \<Rightarrow> string \<Rightarrow> json" where
  "card_action i label ty key v =
     JObj [(''id'', JStr i), (''label'', JStr label), (''type'', JStr ty), (key, JStr v)]"

definition system_meta :: metadata where
  "system_meta =
     [(''source'', JStr ''SYSTEM''), (''schemaVersion'', JNum 1), (''cardVersion'', JNum 1),
      (''presentationVersion'', JNum 1), (''kind'', JStr ''system'')]"

definition en_dash :: string where
  "en_dash = [CHR 0xE2, CHR 0x80, CHR 0x93]"

definition bookingCard :: "reservation_snapshot \<Rightarrow> uuid option \<Rightarrow> metadata" where
  "bookingCard s bookingId =
     card_head ''booking'' @
     [(''title'', JStr (sn_listingTitle s)),
      (''body'', JStr (sn_checkinDate s @ '' '' @ en_dash @ '' '' @ sn_checkoutDate s @ '' '' @ middle_dot
                       @ '' '' @ int_str (sn_guestCount s) @ '' guests'')),
      (''source'', JStr ''SYSTEM'')] @
     opt_field ''bookingId'' bookingId @
     [(''actions'', JArr (if truthy bookingId
        then [card_action ''view_booking'' ''View booking'' ''deep_link'' ''url'' (''/bookings/'' @ the bookingId)]
        else []))]"

definition propertyCard :: "reservation_snapshot \<Rightarrow> listing \<Rightarrow> uuid option \<Rightarrow> metadata" where
  "propertyCard s l bookingId =
     (let mapsUrl = (case (ls_geo_lat l, ls_geo_lng l) of
            (Some lat, Some lng) \<Rightarrow> Some (''https://maps.google.com/?q='' @ lat @ '','' @ lng)
          | _ \<Rightarrow> None)
      in card_head ''property'' @
         [(''title'', JStr (sn_listingTitle s)), (''body'', JStr (sn_addressDisplay s)),
          (''source'', JStr ''SYSTEM''), (''coverMediaId'', null_or_str (sn_coverMediaId s)),
          (''listingId'', JStr (sn_listingId s))] @
         opt_field ''bookingId'' bookingId @
         [(''actions'', JArr
            ((if truthy bookingId
              then [card_action ''view_booking'' ''View booking'' ''deep_link'' ''url'' (''/bookings/'' @ the bookingId)]
              else []) @
             (case mapsUrl of
                Some u \<Rightarrow> [card_action ''open_maps'' ''Open in Maps'' ''external_maps'' ''url'' u]
              | None \<Rightarrow> [])))])"

definition checkinCard :: "reservation_snapshot \<Rightarrow> string \<Rightarrow> uuid option \<Rightarrow> metadata" where
  "checkinCard s instructions bookingId =
     card_head ''checkin'' @
     [(''title'', JStr ''Check-in details''), (''body'', JStr instructions), (''source'', JStr ''SYSTEM'')] @
     opt_field ''bookingId'' bookingId @
     [(''snapshot'', JObj [(''checkInTime'', JStr (sn_checkinDate s))]),
      (''actions'', JArr (if truthy bookingId
        then [card_action ''view_booking'' ''Directions'' ''OPEN_BOOKING'' ''url'' (''/bookings/'' @ the bookingId)]
        else []))]"

definition wifiCard :: "string \<Rightarrow> string option \<Rightarrow> metadata" where
  "wifiCard ssid password =
     card_head ''wifi'' @
     [(''title'', JStr ''WiFi''), (''body'', JStr ssid), (''source'', JStr ''SYSTEM''),
      (''snapshot'', JObj [(''ssid'', JStr ssid), (''password'', JStr (case password of None \<Rightarrow> [] | Some p \<Rightarrow> p))]),
      (''actions'', JArr (if truthy password
        then [card_action ''copy_wifi'' ''Copy password'' ''COPY'' ''value'' (the password)] else []))]"

record seed =
  sd_type :: message_type
  sd_body :: "string option"
  sd_metadata :: metadata

definition find_conversation :: "uuid \<Rightarrow> stays_db \<Rightarrow> conversation option" where
  "find_conversation i db = find_where (\<lambda>c. cv_id c = i) (conversations db)"

definition conversation_of_booking :: "uuid \<Rightarrow> stays_db \<Rightarrow> conversation option" where
  "conversation_of_booking i db = find_where (\<lambda>c. cv_booking_id c = Some i) (conversations db)"

definition update_conversation :: "uuid \<Rightarrow> (conversation \<Rightarrow> conversation) \<Rightarrow> stays_db \<Rightarrow> stays_db" where
  "update_conversation i f db = db\<lparr>conversations := update_where (\<lambda>c. cv_id c = i) f (conversations db)\<rparr>"

text \<open>\<^verbatim>\<open>COALESCE(MAX(conversation_sequence), 0)\<close> over the messages of a conversation.\<close>

definition max_sequence :: "uuid \<Rightarrow> stays_db \<Rightarrow> int" where
  "max_sequence i db =
     (case latest mg_conversation_sequence (filter (\<lambda>m. mg_conversation_id m = i) (messages db)) of
        None \<Rightarrow> 0 | Some m \<Rightarrow> mg_conversation_sequence m)"

definition next_sequence :: "conversation \<Rightarrow> stays_db \<Rightarrow> int" where
  "next_sequence locked db =
     (let storedSequence = cv_last_message_sequence locked;
          actualSequence = max_sequence (cv_id locked) db
      in (if storedSequence > actualSequence then storedSequence else actualSequence) + 1)"

definition message_row ::
    "uuid \<Rightarrow> time \<Rightarrow> conversation \<Rightarrow> int \<Rightarrow> seed \<Rightarrow> uuid option \<Rightarrow> uuid option \<Rightarrow> message" where
  "message_row new_id now locked nextSeq input senderId clientMessageId =
     \<lparr>mg_id = new_id, mg_conversation_id = cv_id locked, mg_conversation_sequence = nextSeq,
      mg_sender_id = senderId, mg_type = sd_type input, mg_body = sd_body input,
      mg_metadata = sd_metadata input, mg_status = S_PERSISTED, mg_sent_at = Some now,
      mg_delivered_at = None, mg_read_at = None,
      mg_is_system = (\<not> truthy senderId), mg_client_message_id = clientMessageId,
      mg_deleted_at = None, mg_created_at = now\<rparr>"

definition after_message ::
    "time \<Rightarrow> conversation \<Rightarrow> message \<Rightarrow> string option \<Rightarrow> conversation \<Rightarrow> conversation" where
  "after_message now locked saved senderDisplayName c =
     (let preview = formatInboxPreview (mg_type saved) (mg_body saved) (mg_metadata saved)
            senderDisplayName None;
          c1 = c\<lparr>cv_last_message_id := Some (mg_id saved),
            cv_last_message_sequence := mg_conversation_sequence saved,
            cv_last_message_preview := Some (take 200 preview), cv_last_message_at := Some now,
            cv_conversation_version := cv_conversation_version locked + 1\<rparr>
      in if mg_sender_id saved = None then c1
         else if mg_sender_id saved = cv_guest_user_id locked
         then c1\<lparr>cv_unread_host := cv_unread_host locked + 1\<rparr>
         else if mg_sender_id saved = cv_host_user_id locked
         then c1\<lparr>cv_unread_guest := cv_unread_guest locked + 1\<rparr>
         else c1)"

definition insertMessage ::
    "uuid \<Rightarrow> time \<Rightarrow> conversation \<Rightarrow> seed \<Rightarrow> uuid option \<Rightarrow> uuid option \<Rightarrow> string option \<Rightarrow> stays_db
     \<Rightarrow> message result \<times> stays_db" where
  "insertMessage new_id now conv input senderId clientMessageId senderDisplayName db =
     (case find_conversation (cv_id conv) db of
        None \<Rightarrow> (Inl (Server_Error ''Conversation not found''), db)
      | Some locked \<Rightarrow>
          let saved = message_row new_id now locked (next_sequence locked db) input senderId clientMessageId
          in (Inr saved,
              update_conversation (cv_id locked) (after_message now locked saved senderDisplayName)
                (db\<lparr>messages := insert_row saved (messages db)\<rparr>)))"

fun insert_seeds ::
    "(nat \<Rightarrow> uuid) \<Rightarrow> time \<Rightarrow> conversation \<Rightarrow> nat \<Rightarrow> seed list \<Rightarrow> stays_db \<Rightarrow> message list result \<times> stays_db" where
  "insert_seeds gen now conv k [] db = (Inr [], db)"
| "insert_seeds gen now conv k (sd # sds) db =
     (case insertMessage (gen k) now conv sd None None None db of
        (Inl e, db1) \<Rightarrow> (Inl e, db1)
      | (Inr m, db1) \<Rightarrow>
          (case insert_seeds gen now conv (Suc k) sds db1 of
             (Inl e, db2) \<Rightarrow> (Inl e, db2)
           | (Inr ms, db2) \<Rightarrow> (Inr (m # ms), db2)))"

definition confirmed_seeds :: "conversation \<Rightarrow> reservation_snapshot \<Rightarrow> listing \<Rightarrow> seed list" where
  "confirmed_seeds conv snapshot l =
     (let contact = ls_check_in_contact l; bid = cv_booking_id conv
      in [\<lparr>sd_type = M_SYSTEM_EVENT, sd_body = Some ''Booking confirmed'', sd_metadata = system_meta\<rparr>,
          \<lparr>sd_type = M_BOOKING_CARD, sd_body = None, sd_metadata = bookingCard snapshot bid\<rparr>,
          \<lparr>sd_type = M_PROPERTY_CARD, sd_body = None, sd_metadata = propertyCard snapshot l bid\<rparr>] @
         (case contact of
            None \<Rightarrow> []
          | Some c \<Rightarrow>
              (if truthy (cc_access_instructions c)
               then [\<lparr>sd_type = M_CHECKIN_CARD, sd_body = None,
                      sd_metadata = checkinCard snapshot (the (cc_access_instructions c)) bid\<rparr>] else []) @
              (if truthy (cc_wifi_ssid c)
               then [\<lparr>sd_type = M_WIFI_CARD, sd_body = None,
                      sd_metadata = wifiCard (the (cc_wifi_ssid c)) (cc_wifi_password c)\<rparr>] else [])))"

definition seedBookingConfirmed ::
    "(nat \<Rightarrow> uuid) \<Rightarrow> time \<Rightarrow> conversation \<Rightarrow> reservation_snapshot \<Rightarrow> listing \<Rightarrow> stays_db
     \<Rightarrow> message list result \<times> stays_db" where
  "seedBookingConfirmed gen now conv snapshot l db =
     insert_seeds gen now conv 1 (confirmed_seeds conv snapshot l) db"

definition review_action :: "uuid \<Rightarrow> json" where
  "review_action i =
     card_action ''leave_review'' ''Leave a review'' ''deep_link'' ''url'' (''/bookings/'' @ i @ ''/review'')"

definition checkout_seeds :: "conversation \<Rightarrow> booking \<Rightarrow> seed list" where
  "checkout_seeds conv b =
     (let snapshot = cv_reservation_snapshot conv;
          title = trim_or_none (json_string (map_of snapshot ''listingTitle''));
          reviewBody = (case title of
             Some t \<Rightarrow> ''How was your stay at '' @ t @ ''?'' | None \<Rightarrow> ''How was your stay?'')
      in [\<lparr>sd_type = M_SYSTEM_EVENT, sd_body = Some ''Checkout complete'', sd_metadata = system_meta\<rparr>,
          \<lparr>sd_type = M_REVIEW_CARD, sd_body = None, sd_metadata =
             card_head ''review'' @
             [(''title'', JStr ''Review your stay''), (''body'', JStr reviewBody),
              (''source'', JStr ''SYSTEM''), (''bookingId'', JStr (bk_id b))] @
             opt_field ''listingId''
               (or_else (json_string (map_of snapshot ''listingId'')) (cv_listing_id conv)) @
             [(''actions'', JArr [review_action (bk_id b)]),
              (''guestView'', JObj [(''title'', JStr ''Review your stay''), (''body'', JStr reviewBody),
                 (''actions'', JArr [review_action (bk_id b)])]),
              (''hostView'', JObj [(''title'', JStr ''Review request sent''),
                 (''body'', JStr ''Your guest can leave a review for this stay.''),
                 (''actions'', JArr [])])]\<rparr>])"

definition seedCheckoutComplete ::
    "(nat \<Rightarrow> uuid) \<Rightarrow> time \<Rightarrow> conversation \<Rightarrow> booking \<Rightarrow> stays_db \<Rightarrow> message list result \<times> stays_db" where
  "seedCheckoutComplete gen now conv b db = insert_seeds gen now conv 0 (checkout_seeds conv b) db"

definition seedConversationArchived ::
    "uuid \<Rightarrow> time \<Rightarrow> conversation \<Rightarrow> uuid option \<Rightarrow> stays_db \<Rightarrow> message result \<times> stays_db" where
  "seedConversationArchived new_id now conv bookingId db =
     insertMessage new_id now conv
       \<lparr>sd_type = M_SYSTEM_NOTICE, sd_body = Some ''This conversation has been archived.'',
        sd_metadata =
          card_head ''archive'' @
          [(''title'', JStr ''Stay completed''),
           (''body'', JStr ''This conversation has been archived. Need help with this reservation?''),
           (''source'', JStr ''SYSTEM'')] @
          opt_field ''bookingId'' bookingId @
          [(''actions'', JArr
             (card_action ''contact_support'' ''Contact Support'' ''deep_link'' ''url'' ''/contact?safety=1''
              # (if truthy bookingId
                 then [card_action ''view_booking'' ''View reservation'' ''deep_link'' ''url''
                        (''/bookings/'' @ the bookingId)]
                 else [])))]\<rparr> None None None db"

definition thanks_view :: "(string \<times> json) list" where
  "thanks_view = [(''title'', JStr ''Thanks for reviewing!''),
     (''body'', JStr ''Your feedback helps future travelers.''), (''actions'', JArr [])]"

definition markReviewCardSubmitted :: "uuid \<Rightarrow> stays_db \<Rightarrow> stays_db" where
  "markReviewCardSubmitted bookingId db =
     (case conversation_of_booking bookingId db of
        None \<Rightarrow> db
      | Some conv \<Rightarrow>
          (case find_latest mg_conversation_sequence
                  (\<lambda>m. mg_conversation_id m = cv_id conv \<and> mg_type m = M_REVIEW_CARD) (messages db) of
             None \<Rightarrow> db
           | Some reviewCard \<Rightarrow>
               let meta = mg_metadata reviewCard
               in if map_of meta ''reviewed'' = Some (JBool True) then db
                  else
                    let listingId = or_else (json_string (map_of meta ''listingId''))
                          (or_else (json_string (map_of (cv_reservation_snapshot conv) ''listingId''))
                            (cv_listing_id conv));
                        viewReviewUrl =
                          (if truthy listingId then Some (''/listings/'' @ the listingId @ ''#reviews'')
                           else if truthy (cv_booking_id conv)
                           then Some (''/bookings/'' @ the (cv_booking_id conv)) else None);
                        meta' = obj_spread meta
                          ((''reviewed'', JBool True) # thanks_view @
                           [(''guestView'', JObj thanks_view),
                            (''hostView'', JObj
                              [(''title'', JStr ''Guest reviewed successfully''),
                               (''body'', JStr ''Your guest shared feedback about their stay.''),
                               (''actions'', JArr (case viewReviewUrl of
                                  Some u \<Rightarrow> [card_action ''view_review'' ''View review'' ''deep_link'' ''url'' u]
                                | None \<Rightarrow> []))])])
                    in update_conversation (cv_id conv)
                         (\<lambda>c. c\<lparr>cv_conversation_version := cv_conversation_version conv + 1\<rparr>)
                         (db\<lparr>messages := update_where (\<lambda>m. mg_id m = mg_id reviewCard)
                            (\<lambda>m. m\<lparr>mg_metadata := meta'\<rparr>) (messages db)\<rparr>)))"

section \<open>outbox.service.ts\<close>

definition enqueue :: "uuid \<Rightarrow> time \<Rightarrow> string \<Rightarrow> metadata \<Rightarrow> stays_db \<Rightarrow> stays_db" where
  "enqueue new_id now eventType payload db =
     db\<lparr>outbox := insert_row \<lparr>ob_id = new_id, ob_event_type = eventType, ob_payload = payload,
       ob_status = O_PENDING, ob_attempts = 0, ob_next_retry_at = now, ob_created_at = now,
       ob_processed_at = None\<rparr> (outbox db)\<rparr>"

definition enqueueDirect :: "uuid \<Rightarrow> time \<Rightarrow> string \<Rightarrow> metadata \<Rightarrow> stays_db \<Rightarrow> stays_db" where
  "enqueueDirect new_id now eventType payload db = enqueue new_id now eventType payload db"

definition SNAPSHOT_REPAIR_REQUESTED :: string where
  "SNAPSHOT_REPAIR_REQUESTED = ''conversation.snapshot.repair.requested''"

section \<open>participant-presentation.service.ts\<close>

text \<open>\<open>identity_name\<close> is the identity service's answer to \<^verbatim>\<open>getDisplayName\<close>.\<close>

definition resolveHostDisplayName ::
    "(uuid \<Rightarrow> string option) \<Rightarrow> uuid \<Rightarrow> stays_db \<Rightarrow> string option" where
  "resolveHostDisplayName identity_name hostUserId db =
     (if js_trim hostUserId = [] then None
      else
        let fromProfile = (case find_where (\<lambda>p. hp_user_id p = hostUserId) (host_profiles db) of
              None \<Rightarrow> None | Some p \<Rightarrow> trim_or_none (hp_full_name p))
        in case fromProfile of Some n \<Rightarrow> Some n | None \<Rightarrow> identity_name hostUserId)"

definition primary_occupant :: "uuid \<Rightarrow> stays_db \<Rightarrow> occupant option" where
  "primary_occupant bookingId db =
     (let os = filter (\<lambda>oc. oc_booking_id oc = bookingId) (occupants db)
      in or_else (find_where oc_is_primary os) (find_where (\<lambda>_. True) os))"

definition resolveGuestDisplayName ::
    "(uuid \<Rightarrow> string option) \<Rightarrow> uuid \<Rightarrow> uuid option \<Rightarrow> stays_db \<Rightarrow> string option" where
  "resolveGuestDisplayName identity_name bookingId guestUserId db =
     (let from_identity = (if truthy guestUserId then identity_name (the guestUserId) else None)
      in if bookingId = [] then from_identity
         else case (case primary_occupant bookingId db of
                      None \<Rightarrow> None | Some oc \<Rightarrow> trim_or_none (Some (oc_full_name oc))) of
                Some n \<Rightarrow> Some n
              | None \<Rightarrow> from_identity)"

section \<open>conversation-provision.service.ts\<close>

definition MESSAGEABLE_BOOKING_STATUSES :: "booking_status list" where
  "MESSAGEABLE_BOOKING_STATUSES = [CONFIRMED, CHECKED_IN, COMPLETED]"

definition resolvePaymentProviderIntentId ::
    "uuid \<Rightarrow> string option \<Rightarrow> string option \<Rightarrow> string" where
  "resolvePaymentProviderIntentId bookingId providerIntentId paymentIntentId =
     (let candidate = js_trim (case or_else providerIntentId paymentIntentId of None \<Rightarrow> [] | Some s \<Rightarrow> s)
      in if candidate = [] then ''booking-'' @ bookingId else candidate)"

definition new_conversation :: "uuid \<Rightarrow> booking \<Rightarrow> listing \<Rightarrow> reservation_snapshot \<Rightarrow> conversation" where
  "new_conversation i b l snapshot =
     \<lparr>cv_id = i, cv_booking_id = Some (bk_id b), cv_type = ''BOOKING'', cv_messaging_state = ACTIVE,
      cv_guest_visibility = V_ACTIVE, cv_host_visibility = V_ACTIVE, cv_conversation_version = 1,
      cv_snapshot_version = 1, cv_attachment_version = 1,
      cv_reservation_snapshot = snapshot_json snapshot, cv_listing_id = Some (ls_id l),
      cv_host_user_id = Some (ls_host_user_id l), cv_guest_user_id = Some (bk_guest_user_id b),
      cv_last_message_id = None, cv_last_message_sequence = 0, cv_last_message_preview = None,
      cv_last_message_at = None,
      cv_guest_last_read_at = None, cv_host_last_read_at = None, cv_guest_last_read_message_id = None,
      cv_host_last_read_message_id = None, cv_unread_guest = 0, cv_unread_host = 0,
      cv_notification_level_guest = N_ALL, cv_notification_level_host = N_ALL,
      cv_blocked_by_guest = False, cv_blocked_by_host = False, cv_locked_at = None,
      cv_read_only_at = None, cv_archived_at = None, cv_post_stay_ends_at = None,
      cv_auto_archive_disabled = False, cv_auto_archive_disabled_reason = None,
      cv_archive_reason = None\<rparr>"

definition provisionWithinTransaction ::
    "(uuid \<Rightarrow> string option) \<Rightarrow> (nat \<Rightarrow> uuid) \<Rightarrow> time \<Rightarrow> booking \<Rightarrow> uuid \<Rightarrow> string option \<Rightarrow> string option
     \<Rightarrow> stays_db \<Rightarrow> conversation option result \<times> stays_db" where
  "provisionWithinTransaction identity_name gen now b listingId provider providerIntentId db =
     (case conversation_of_booking (bk_id b) db of
        Some existing \<Rightarrow> (Inr (Some existing), db)
      | None \<Rightarrow>
          (case find_listing listingId db of
             None \<Rightarrow> (Inr None, db)
           | Some l \<Rightarrow>
               if ls_host_user_id l = [] then (Inr None, db)
               else
                 let hostName = resolveHostDisplayName identity_name (ls_host_user_id l) db;
                     guestName = resolveGuestDisplayName identity_name (bk_id b) None db;
                     snapshot = buildSnapshot b l hostName guestName;
                     conv = new_conversation (gen 0) b l snapshot;
                     db1 = db\<lparr>conversations := insert_row conv (conversations db)\<rparr>
                 in (case seedBookingConfirmed gen now conv snapshot l db1 of
                       (Inl e, db2) \<Rightarrow> (Inl e, db2)
                     | (Inr _, db2) \<Rightarrow>
                         let total = cents_str (case bk_total_paid b of None \<Rightarrow> 0 | Some k \<Rightarrow> k);
                             db3 = enqueue (gen 6) now ''EVENTS.BOOKING_CONFIRMED''
                               [(''bookingId'', JStr (bk_id b)), (''listingId'', JStr (ls_id l)),
                                (''hostUserId'', JStr (ls_host_user_id l)),
                                (''guestUserId'', JStr (bk_guest_user_id b)), (''amount'', JStr total),
                                (''currency'', JStr (bk_currency b)), (''conversationId'', JStr (cv_id conv))]
                               db2;
                             db4 = enqueue (gen 7) now ''EVENTS.PAYMENT_SUCCEEDED''
                               [(''bookingId'', JStr (bk_id b)), (''guestUserId'', JStr (bk_guest_user_id b)),
                                (''provider'', JStr (case provider of None \<Rightarrow> ''payment'' | Some p \<Rightarrow> p)),
                                (''providerIntentId'', JStr (resolvePaymentProviderIntentId (bk_id b)
                                   providerIntentId (bk_payment_intent_id b))),
                                (''amount'', JStr total), (''currency'', JStr (bk_currency b))] db3
                         in (Inr (Some conv), db4))))"

definition ensureForBooking ::
    "(uuid \<Rightarrow> string option) \<Rightarrow> (nat \<Rightarrow> uuid) \<Rightarrow> time \<Rightarrow> uuid \<Rightarrow> uuid \<Rightarrow> stays_db
     \<Rightarrow> conversation result \<times> stays_db" where
  "ensureForBooking identity_name gen now bookingId userId db =
     (let body = (\<lambda>db.
            case conversation_of_booking bookingId db of
              Some existing \<Rightarrow>
                if cv_guest_user_id existing \<noteq> Some userId \<and> cv_host_user_id existing \<noteq> Some userId
                then (Inl (Forbidden_Err ''Not a participant on this booking''), db)
                else (Inr existing, enqueue (gen 8) now SNAPSHOT_REPAIR_REQUESTED
                        [(''conversationId'', JStr (cv_id existing))] db)
            | None \<Rightarrow>
                (case find_booking bookingId db of
                   None \<Rightarrow> (Inl (Not_Found ''Booking not found''), db)
                 | Some b \<Rightarrow>
                     let hostUserId = map_option ls_host_user_id (find_listing (bk_listing_id b) db)
                     in if bk_guest_user_id b \<noteq> userId \<and> hostUserId \<noteq> Some userId
                        then (Inl (Forbidden_Err ''Not a participant on this booking''), db)
                        else if bk_status b \<notin> set MESSAGEABLE_BOOKING_STATUSES
                        then (Inl (Bad_Request ''Messaging is available after the booking is confirmed''), db)
                        else (case provisionWithinTransaction identity_name gen now b (bk_listing_id b)
                                     (Some ''backfill'') (bk_payment_intent_id b) db of
                                (Inl e, db1) \<Rightarrow> (Inl e, db1)
                              | (Inr None, db1) \<Rightarrow>
                                  (Inl (Bad_Request ''Could not open conversation for this booking''), db1)
                              | (Inr (Some c), db1) \<Rightarrow> (Inr c, db1))))
      in case transaction body db of
           (Inl e, db1) \<Rightarrow> (Inl e, db1)
         | (Inr c, db1) \<Rightarrow>
             (Inr c, enqueueDirect (gen 9) now SNAPSHOT_REPAIR_REQUESTED
                [(''conversationId'', JStr (cv_id c))] db1))"

section \<open>What the messaging operations touch\<close>

definition messaging_only :: "stays_db \<Rightarrow> stays_db \<Rightarrow> bool" where
  "messaging_only db db' \<longleftrightarrow>
     listings db' = listings db \<and> bookings db' = bookings db \<and> occupants db' = occupants db \<and>
     ledger db' = ledger db \<and> intents db' = intents db \<and> blocks db' = blocks db \<and>
     reviews db' = reviews db \<and> host_profiles db' = host_profiles db \<and>
     ref_counters db' = ref_counters db \<and> settings db' = settings db \<and>
     audit_logs db' = audit_logs db \<and> events db' = events db \<and> alerts db' = alerts db \<and>
     fee_cache db' = fee_cache db"

lemma messaging_only_refl [simp]: "messaging_only db db"
  by (simp add: messaging_only_def)

lemma messaging_only_trans: "messaging_only a b \<Longrightarrow> messaging_only b c \<Longrightarrow> messaging_only a c"
  by (simp add: messaging_only_def)

lemma messaging_only_update [simp]:
  "messaging_only db (update_conversation i f db)"
  "messaging_only db (enqueue i t e p db)"
  "messaging_only db (db\<lparr>conversations := cs\<rparr>)"
  "messaging_only db (db\<lparr>messages := ms\<rparr>)"
  by (simp_all add: messaging_only_def update_conversation_def enqueue_def)

lemma enqueue_frame [simp]:
  "conversations (enqueue i t e p db) = conversations db" "messages (enqueue i t e p db) = messages db"
  by (simp_all add: enqueue_def)

lemma update_conversation_frame [simp]:
  "messages (update_conversation i f db) = messages db" "outbox (update_conversation i f db) = outbox db"
  by (simp_all add: update_conversation_def)

lemma max_sequence_ge:
  "m \<in> set (messages db) \<Longrightarrow> mg_conversation_id m = i \<Longrightarrow> mg_conversation_sequence m \<le> max_sequence i db"
  unfolding max_sequence_def
  by (auto split: option.splits simp: filter_empty_conv dest!: latest_Some)

section \<open>Message sequences\<close>

text \<open>
  \<open>sequence_key\<close> is the unique constraint of the message table. A new message always gets a
  number above every message of its conversation, whatever the stored counter says.
\<close>

definition sequence_key :: "message \<Rightarrow> uuid \<times> int" where
  "sequence_key m = (mg_conversation_id m, mg_conversation_sequence m)"

text \<open>\<open>appended conv tys db ms db'\<close>: the messages \<open>ms\<close> of types \<open>tys\<close> went to the end of the timeline.\<close>

definition above_all :: "uuid \<Rightarrow> message list \<Rightarrow> int \<Rightarrow> bool" where
  "above_all i rows n \<longleftrightarrow> (\<forall>m\<in>set rows. mg_conversation_id m = i \<longrightarrow> mg_conversation_sequence m < n)"

definition appended :: "uuid \<Rightarrow> message_type list \<Rightarrow> stays_db \<Rightarrow> message list \<Rightarrow> stays_db \<Rightarrow> bool" where
  "appended i tys db ms db' \<longleftrightarrow>
     messages db' = messages db @ ms \<and> map mg_type ms = tys \<and>
     sorted_wrt (\<lambda>a b. mg_conversation_sequence a < mg_conversation_sequence b) ms \<and>
     (\<forall>m\<in>set ms. mg_conversation_id m = i \<and> above_all i (messages db) (mg_conversation_sequence m)) \<and>
     outbox db' = outbox db \<and>
     map cv_id (conversations db') = map cv_id (conversations db) \<and>
     map cv_booking_id (conversations db') = map cv_booking_id (conversations db) \<and>
     messaging_only db db'"

lemma above_all_append [simp]: "above_all i (xs @ ys) n \<longleftrightarrow> above_all i xs n \<and> above_all i ys n"
  by (auto simp: above_all_def)

lemma appended_Nil [simp]: "appended i [] db [] db"
  by (simp add: appended_def)

lemma appended_Cons:
  "appended i [t] db [m] db1 \<Longrightarrow> appended i ts db1 ms db2 \<Longrightarrow> appended i (t # ts) db (m # ms) db2"
  unfolding appended_def by (auto simp: above_all_def messaging_only_def)

lemma next_sequence_above: "above_all (cv_id c) (messages db) (next_sequence c db)"
  using max_sequence_ge [of _ db "cv_id c"]
  by (fastforce simp: above_all_def next_sequence_def Let_def)

lemma after_message_id [simp]:
  "cv_id (after_message now l m nm c) = cv_id c" "cv_booking_id (after_message now l m nm c) = cv_booking_id c"
  by (simp_all add: after_message_def Let_def)

lemma find_conversation_id: "find_conversation i db = Some c \<Longrightarrow> cv_id c = i"
  unfolding find_conversation_def by (drule find_where_Some) simp

lemma find_conversation_ids: "i \<in> set (map cv_id (conversations db)) \<Longrightarrow> \<exists>c. find_conversation i db = Some c"
  by (cases "find_conversation i db") (auto simp: find_conversation_def find_where_None)

lemma map_update_conversation:
  assumes "\<And>c. g (f c) = g c"
  shows "map g (conversations (update_conversation i f db)) = map g (conversations db)"
  using assms by (simp add: update_conversation_def map_update_where)

lemma insertMessage_eq:
  assumes "find_conversation (cv_id conv) db = Some c"
  shows "insertMessage i now conv sd sid cid nm db =
    (Inr (message_row i now c (next_sequence c db) sd sid cid),
     update_conversation (cv_id c)
       (after_message now c (message_row i now c (next_sequence c db) sd sid cid) nm)
       (db\<lparr>messages := messages db @ [message_row i now c (next_sequence c db) sd sid cid]\<rparr>))"
  by (simp add: insertMessage_def assms Let_def insert_row_def)

lemma insertMessage_None:
  "find_conversation (cv_id conv) db = None \<Longrightarrow>
     insertMessage i now conv sd sid cid nm db = (Inl (Server_Error ''Conversation not found''), db)"
  by (simp add: insertMessage_def)

lemma insertMessage_appended:
  assumes "insertMessage i now conv sd sid cid nm db = (Inr m, db')"
  shows "appended (cv_id conv) [sd_type sd] db [m] db'"
proof (cases "find_conversation (cv_id conv) db")
  case None
  with assms show ?thesis by (simp add: insertMessage_None)
next
  case (Some c)
  note c = find_conversation_id [OF Some]
  have m: "m = message_row i now c (next_sequence c db) sd sid cid"
    and db': "db' = update_conversation (cv_id c) (after_message now c m nm)
      (db\<lparr>messages := messages db @ [m]\<rparr>)"
    using assms unfolding insertMessage_eq [OF Some] by auto
  have row: "mg_type m = sd_type sd" "mg_conversation_id m = cv_id conv"
    "mg_conversation_sequence m = next_sequence c db"
    by (simp_all add: m message_row_def c)
  have "messaging_only db db'"
    unfolding db' by (rule messaging_only_trans [of _ "db\<lparr>messages := messages db @ [m]\<rparr>"]) simp_all
  then show ?thesis
    using row next_sequence_above [of c db] unfolding c
    by (simp add: appended_def db' map_update_conversation)
qed

lemma insertMessage_ok:
  assumes "cv_id conv \<in> set (map cv_id (conversations db))"
  obtains m db' where "insertMessage i now conv sd sid cid nm db = (Inr m, db')"
  using find_conversation_ids [OF assms] insertMessage_eq by blast

lemma appended_keyed:
  assumes "appended i tys db ms db'" and "keyed sequence_key (messages db)"
  shows "keyed sequence_key (messages db')"
proof -
  have "distinct (map sequence_key ms)"
    using assms(1) unfolding appended_def distinct_conv_nth sorted_wrt_iff_nth_less
    by (auto simp: sequence_key_def) (metis less_irrefl linorder_neqE_nat)
  moreover have "sequence_key m \<noteq> sequence_key m'" if "m \<in> set ms" "m' \<in> set (messages db)" for m m'
    using assms(1) that unfolding appended_def above_all_def sequence_key_def by (metis less_irrefl prod.inject)
  ultimately show ?thesis
    using assms by (auto simp: keyed_def appended_def)
qed

lemma insert_seeds_ok:
  assumes "cv_id conv \<in> set (map cv_id (conversations db))"
  shows "\<exists>ms db'. insert_seeds gen now conv k sds db = (Inr ms, db') \<and>
    appended (cv_id conv) (map sd_type sds) db ms db'"
  using assms
proof (induction sds arbitrary: k db)
  case Nil
  then show ?case by simp
next
  case (Cons sd sds)
  obtain m db1 where m: "insertMessage (gen k) now conv sd None None None db = (Inr m, db1)"
    by (rule insertMessage_ok [OF Cons.prems])
  note a = insertMessage_appended [OF m]
  then have "cv_id conv \<in> set (map cv_id (conversations db1))" using Cons.prems unfolding appended_def by metis
  from Cons.IH [OF this] obtain ms db2 where ms: "insert_seeds gen now conv (Suc k) sds db1 = (Inr ms, db2)"
    "appended (cv_id conv) (map sd_type sds) db1 ms db2" by blast
  show ?case using m ms(1) appended_Cons [OF a ms(2)] by simp
qed

section \<open>One conversation per booking\<close>

definition one_conversation :: "stays_db \<Rightarrow> bool" where
  "one_conversation db \<longleftrightarrow> keyed id (filter (\<lambda>x. x \<noteq> None) (map cv_booking_id (conversations db)))"

lemma conversation_of_booking_None:
  "conversation_of_booking i db = None \<longleftrightarrow> Some i \<notin> set (map cv_booking_id (conversations db))"
  unfolding conversation_of_booking_def find_where_None by (auto; metis image_eqI)

text \<open>
  Provisioning either returns the conversation that exists, declines without touching anything,
  or adds one conversation with its seeded timeline and two outbox events. It never fails.
\<close>

lemma provision_cases:
  obtains (existing) c where "conversation_of_booking (bk_id b) db = Some c"
      "provisionWithinTransaction nm gen now b l p pid db = (Inr (Some c), db)"
    | (declined) "conversation_of_booking (bk_id b) db = None"
      "provisionWithinTransaction nm gen now b l p pid db = (Inr None, db)"
    | (created) c ms db2 where "conversation_of_booking (bk_id b) db = None" "cv_booking_id c = Some (bk_id b)"
      "cv_id c = gen 0" "cv_messaging_state c = ACTIVE" "fst (provisionWithinTransaction nm gen now b l p pid db) = Inr (Some c)"
      "appended (gen 0) (map mg_type ms) (db\<lparr>conversations := conversations db @ [c]\<rparr>) ms db2"
      "messages (snd (provisionWithinTransaction nm gen now b l p pid db)) = messages db2"
      "conversations (snd (provisionWithinTransaction nm gen now b l p pid db)) = conversations db2"
      "messaging_only db2 (snd (provisionWithinTransaction nm gen now b l p pid db))"
      "map ob_event_type (outbox (snd (provisionWithinTransaction nm gen now b l p pid db))) =
        map ob_event_type (outbox db) @ [''EVENTS.BOOKING_CONFIRMED'', ''EVENTS.PAYMENT_SUCCEEDED'']"
proof (cases "conversation_of_booking (bk_id b) db")
  case (Some c)
  then show ?thesis by (intro existing) (simp_all add: provisionWithinTransaction_def)
next
  case none: None
  show ?thesis
  proof (cases "find_listing l db = None \<or> (\<exists>x. find_listing l db = Some x \<and> ls_host_user_id x = [])")
    case True
    with none show ?thesis by (intro declined) (auto simp: provisionWithinTransaction_def)
  next
    case False
    then obtain x where x: "find_listing l db = Some x" "ls_host_user_id x \<noteq> []" by auto
    define sn where "sn = buildSnapshot b x (resolveHostDisplayName nm (ls_host_user_id x) db)
      (resolveGuestDisplayName nm (bk_id b) None db)"
    define c where "c = new_conversation (gen 0) b x sn"
    define db1 where "db1 = db\<lparr>conversations := conversations db @ [c]\<rparr>"
    have cid: "cv_id c = gen 0" "cv_booking_id c = Some (bk_id b)" "cv_messaging_state c = ACTIVE"
      by (simp_all add: c_def new_conversation_def)
    have "cv_id c \<in> set (map cv_id (conversations db1))" by (simp add: db1_def)
    then obtain ms db2 where ms: "insert_seeds gen now c 1 (confirmed_seeds c sn x) db1 = (Inr ms, db2)"
      "appended (cv_id c) (map sd_type (confirmed_seeds c sn x)) db1 ms db2"
      using insert_seeds_ok by blast
    define r where "r = provisionWithinTransaction nm gen now b l p pid db"
    obtain pl1 pl2 where r: "r = (Inr (Some c),
        enqueue (gen 7) now ''EVENTS.PAYMENT_SUCCEEDED'' pl2
          (enqueue (gen 6) now ''EVENTS.BOOKING_CONFIRMED'' pl1 db2))"
      using ms(1) by (simp add: r_def provisionWithinTransaction_def none x Let_def seedBookingConfirmed_def
          insert_row_def sn_def [symmetric] c_def [symmetric] db1_def [symmetric])
    have o: "outbox db2 = outbox db" and t: "map mg_type ms = map sd_type (confirmed_seeds c sn x)"
      using ms(2) by (simp_all add: appended_def db1_def)
    show ?thesis
    proof (rule created [OF none cid(2,1,3)])
      show "appended (gen 0) (map mg_type ms) (db\<lparr>conversations := conversations db @ [c]\<rparr>) ms db2"
        using ms(2) by (simp only: t cid db1_def)
      show "messaging_only db2 (snd (provisionWithinTransaction nm gen now b l p pid db))"
        unfolding r_def [symmetric] r snd_conv
        by (rule messaging_only_trans [OF messaging_only_update(2) messaging_only_update(2)])
    qed (simp_all only: r_def [symmetric] r fst_conv snd_conv enqueue_frame, simp add: enqueue_def insert_row_def o)
  qed
qed

lemma provision_ok: "\<exists>c. fst (provisionWithinTransaction nm gen now b l p pid db) = Inr c"
  by (cases rule: provision_cases [of b db nm gen now l p pid]) auto

lemma provision_frame: "messaging_only db (snd (provisionWithinTransaction nm gen now b l p pid db))"
proof (cases rule: provision_cases [of b db nm gen now l p pid])
  case (created c ms db2)
  have "messaging_only db db2"
    using created(6) by (simp add: appended_def messaging_only_def)
  then show ?thesis using created(9) by (rule messaging_only_trans)
qed auto

lemma provision_one_conversation:
  assumes "one_conversation db"
  shows "one_conversation (snd (provisionWithinTransaction nm gen now b l p pid db))"
proof (cases rule: provision_cases [of b db nm gen now l p pid])
  case (created c ms db2)
  have "map cv_booking_id (conversations db2) = map cv_booking_id (conversations db) @ [Some (bk_id b)]"
    using created(2,6) by (simp add: appended_def)
  moreover have "Some (bk_id b) \<notin> set (map cv_booking_id (conversations db))"
    using created(1) by (simp only: conversation_of_booking_None simp_thms)
  ultimately show ?thesis using assms by (simp add: one_conversation_def created(8) keyed_def)
qed (use assms in simp_all)

lemma provision_keyed:
  assumes "keyed sequence_key (messages db)"
  shows "keyed sequence_key (messages (snd (provisionWithinTransaction nm gen now b l p pid db)))"
proof (cases rule: provision_cases [of b db nm gen now l p pid])
  case (created c ms db2)
  then show ?thesis using appended_keyed [OF created(6)] assms by simp
qed (use assms in simp_all)

lemma find_where_map_key:
  assumes "map key xs = map key ys" and "map v xs = map v ys"
  shows "map_option v (find_where (\<lambda>c. key c = k) xs) = map_option v (find_where (\<lambda>c. key c = k) ys)"
  using assms
proof (induction xs arbitrary: ys)
  case (Cons x xs)
  then show ?case by (cases ys) auto
qed simp

lemma provisioned_found:
  assumes "provisionWithinTransaction nm gen now b l p pid db = (Inr (Some c), db')"
  obtains c' where "conversation_of_booking (bk_id b) db' = Some c'" and "cv_id c' = cv_id c"
    and "cv_booking_id c' = Some (bk_id b)"
proof -
  have "map_option cv_id (conversation_of_booking (bk_id b) db') = Some (cv_id c)"
  proof (cases rule: provision_cases [of b db nm gen now l p pid])
    case (created d ms db2)
    have d: "d = c" "conversations db' = conversations db2" using assms created(5,8) by simp_all
    have "map_option cv_id (conversation_of_booking (bk_id b) db') =
        map_option cv_id (find_where (\<lambda>c. cv_booking_id c = Some (bk_id b)) (conversations db @ [c]))"
      unfolding conversation_of_booking_def d(2)
      by (rule find_where_map_key) (use created(6) in \<open>simp_all add: appended_def d(1)\<close>)
    then show ?thesis
      using created(1,2) unfolding find_where_append conversation_of_booking_def d(1) by simp
  qed (use assms in simp_all)
  then obtain c' where c': "conversation_of_booking (bk_id b) db' = Some c'" "cv_id c' = cv_id c" by auto
  show thesis by (rule that [OF c']) (use find_where_Some [OF c'(1) [unfolded conversation_of_booking_def]] in simp)
qed

section \<open>Properties\<close>

text \<open>
  A message inserted into a conversation is appended with a sequence number above every other of
  that conversation, whatever the stored counter says, so that numbers never repeat.
\<close>

theorem message_sequence_fresh:
  assumes "insertMessage i now conv sd sid cid nm db = (Inr m, db')"
  shows "messages db' = messages db @ [m] \<and> mg_conversation_id m = cv_id conv \<and>
    (\<forall>x\<in>set (messages db). mg_conversation_id x = cv_id conv \<longrightarrow> mg_conversation_sequence x < mg_conversation_sequence m) \<and>
    (keyed sequence_key (messages db) \<longrightarrow> keyed sequence_key (messages db'))"
  using insertMessage_appended [OF assms] appended_keyed [OF insertMessage_appended [OF assms]]
  by (auto simp: appended_def above_all_def)

text \<open>
  Provisioning is idempotent. After a call that gave a conversation, any later call for the same
  booking, whatever identifiers, clock and payment it carries, finds that conversation and changes
  nothing; and no booking ever gets a second conversation.
\<close>

theorem provision_idempotent:
  assumes "provisionWithinTransaction nm gen now b l p pid db = (Inr (Some c), db')"
  shows "(\<exists>c'. cv_booking_id c' = Some (bk_id b) \<and> cv_id c' = cv_id c \<and>
      provisionWithinTransaction nm' gen' now' b l' p' pid' db' = (Inr (Some c'), db')) \<and>
    (one_conversation db \<longrightarrow> one_conversation db')"
proof -
  obtain c' where c': "conversation_of_booking (bk_id b) db' = Some c'" "cv_id c' = cv_id c"
    "cv_booking_id c' = Some (bk_id b)"
    using assms by (rule provisioned_found)
  have "provisionWithinTransaction nm' gen' now' b l' p' pid' db' = (Inr (Some c'), db')"
    by (simp add: provisionWithinTransaction_def c'(1))
  moreover have "one_conversation db \<longrightarrow> one_conversation db'"
    using provision_one_conversation [of db nm gen now b l p pid] assms by simp
  ultimately show ?thesis using c'(2,3) by blast
qed


definition sample_text :: seed where
  "sample_text = \<lparr>sd_type = M_TEXT, sd_body = Some ''hello'', sd_metadata = []\<rparr>"

theorem message_sequence_fresh_witness:
  "\<exists>m db'. insertMessage ''m1'' 5 (sample_conversation ''c1'' ''b1'') sample_text (Some ''g1'') None None
       (no_rows\<lparr>conversations := [sample_conversation ''c1'' ''b1'']\<rparr>) = (Inr m, db') \<and>
     messages db' = [m] \<and> keyed sequence_key (messages db')"
proof -
  obtain m db' where i: "insertMessage ''m1'' 5 (sample_conversation ''c1'' ''b1'') sample_text (Some ''g1'') None None
       (no_rows\<lparr>conversations := [sample_conversation ''c1'' ''b1'']\<rparr>) = (Inr m, db')"
    by (simp add: insertMessage_def find_conversation_def sample_conversation_def Let_def)
  show ?thesis
    using message_sequence_fresh [OF i] i by (auto simp: no_rows_def keyed_def)
qed

theorem provision_idempotent_witness:
  "\<exists>c c' db'. provisionWithinTransaction (\<lambda>_. None) (\<lambda>n. ''c'' @ replicate n (CHR ''x'')) 5 (sample_booking ''b1'' CONFIRMED)
       ''l1'' None None (no_rows\<lparr>listings := [sample_listing]\<rparr>) = (Inr (Some c), db') \<and>
     provisionWithinTransaction (\<lambda>_. None) (\<lambda>n. ''d'') 6 (sample_booking ''b1'' CONFIRMED) ''l1'' None None db' =
       (Inr (Some c'), db') \<and> cv_id c' = cv_id c"
proof -
  define gen where "gen = (\<lambda>n. ''c'' @ replicate n (CHR ''x''))"
  define db where "db = no_rows\<lparr>listings := [sample_listing]\<rparr>"
  obtain c db' where p: "provisionWithinTransaction (\<lambda>_. None) gen 5 (sample_booking ''b1'' CONFIRMED) ''l1'' None None db
      = (Inr (Some c), db')"
  proof (cases rule: provision_cases [of "sample_booking ''b1'' CONFIRMED" db "\<lambda>_. None" gen 5 "''l1''" None None])
    case declined
    then show ?thesis
      by (simp add: provisionWithinTransaction_def db_def no_rows_def sample_booking_def sample_listing_def
          find_listing_def conversation_of_booking_def Let_def split: prod.splits sum.splits)
  next
    case (created c ms db2)
    then show ?thesis
      using that by (cases "provisionWithinTransaction (\<lambda>_. None) gen 5 (sample_booking ''b1'' CONFIRMED) ''l1'' None None db") auto
  qed (use that in blast)
  show ?thesis
    using provision_idempotent [OF p, of "\<lambda>_. None" "\<lambda>n. ''d''" 6 "''l1''" None None] p
    unfolding gen_def db_def by blast
qed

end
