(* ===== verification/PaymentConfig.thy ===== *)
theory PaymentConfig
  imports PlatformFees Timeline
begin

text \<open>
  \<^verbatim>\<open>payment-provider.config.ts\<close> with the deployment stage of \<^verbatim>\<open>cors-origins.ts\<close>, the
  loopback test of \<^verbatim>\<open>production-env-policy.ts\<close> and the secrets of \<^verbatim>\<open>secrets.ts\<close>: which
  payment provider a deployment may start with; and \<^verbatim>\<open>cmi-payment.provider.ts\<close>, the CMI
  gateway client. The URL parser, the keyed hash, the network and \<^verbatim>\<open>JSON.parse\<close> are
  parameters.
\<close>

section \<open>Deployment stage\<close>

datatype nexa_stage = Development | Dogfood | Staging | Production

definition env_or_empty :: "env \<Rightarrow> string \<Rightarrow> string" where
  "env_or_empty env k = (case env k of None \<Rightarrow> [] | Some v \<Rightarrow> v)"

definition env_trim :: "env \<Rightarrow> string \<Rightarrow> string" where
  "env_trim env k = js_trim (env_or_empty env k)"

definition resolveNexaStage :: "env \<Rightarrow> nexa_stage" where
  "resolveNexaStage env =
     (let raw = (if env_or_empty env ''NEXA_ENV'' \<noteq> [] then env_or_empty env ''NEXA_ENV''
                 else env_or_empty env ''APP_ENV'');
          explicit = js_lower (js_trim raw)
      in if explicit = ''production'' then Production
         else if explicit = ''staging'' then Staging
         else if explicit = ''dogfood'' then Dogfood
         else if explicit = ''development'' then Development
         else if env ''NODE_ENV'' = Some ''production'' then Production
         else Development)"

definition isProductionRuntime :: "env \<Rightarrow> bool" where
  "isProductionRuntime env \<longleftrightarrow> env ''NODE_ENV'' = Some ''production''"

section \<open>Loopback URLs\<close>

text \<open>\<open>url_host\<close> is \<^verbatim>\<open>new URL(value).hostname\<close>, \<open>None\<close> when the constructor throws.\<close>

definition strip_brackets :: "string \<Rightarrow> string" where
  "strip_brackets s =
     (let s1 = (case s of c # r \<Rightarrow> if c = CHR ''['' then r else s | [] \<Rightarrow> [])
      in if s1 \<noteq> [] \<and> last s1 = CHR '']'' then butlast s1 else s1)"

definition isLoopbackHostname :: "string \<Rightarrow> bool" where
  "isLoopbackHostname hostname \<longleftrightarrow>
     strip_brackets (js_lower (js_trim hostname)) \<in> {''localhost'', ''127.0.0.1'', ''::1''}"

definition loopback_here :: "string \<Rightarrow> bool" where
  "loopback_here s \<longleftrightarrow>
     list_ex (\<lambda>h. take (length h) s = h \<and>
        (case drop (length h) s of [] \<Rightarrow> True | c # _ \<Rightarrow> c \<in> {CHR ''/'', CHR '':'', CHR ''?'', CHR ''#''}))
       [''localhost'', ''127.0.0.1'', ''::1'']"

fun loopback_after_sep :: "string \<Rightarrow> bool" where
  "loopback_after_sep [] = False"
| "loopback_after_sep (c # s) =
     (((c = CHR ''/'' \<or> c = CHR '':'') \<and> loopback_here s) \<or> loopback_after_sep s)"

definition urlLooksLikeLoopback :: "(string \<Rightarrow> string option) \<Rightarrow> string \<Rightarrow> bool" where
  "urlLooksLikeLoopback url_host raw =
     (let v = js_trim raw
      in if v = [] then False
         else case url_host v of
                Some h \<Rightarrow> isLoopbackHostname h
              | None \<Rightarrow> loopback_here (js_lower v) \<or> loopback_after_sep (js_lower v))"

section \<open>payment-provider.config.ts\<close>

definition getStaysPaymentProvider :: "env \<Rightarrow> string" where
  "getStaysPaymentProvider env =
     js_lower (js_trim (case env ''STAYS_PAYMENT_PROVIDER'' of None \<Rightarrow> ''mock'' | Some v \<Rightarrow> v))"

definition isMockPaymentProvider :: "env \<Rightarrow> bool" where
  "isMockPaymentProvider env \<longleftrightarrow> getStaysPaymentProvider env = ''mock''"

definition isHostPayoutEnabled :: "env \<Rightarrow> bool" where
  "isHostPayoutEnabled env \<longleftrightarrow> js_lower (env_trim env ''STAYS_HOST_PAYOUT_ENABLED'') = ''true''"

definition cmi_url_keys :: "string list" where
  "cmi_url_keys = [''CMI_PAYMENT_URL'', ''CMI_API_URL'', ''CMI_CALLBACK_URL'', ''CMI_OK_URL'',
     ''CMI_FAIL_URL'', ''STAYS_PUBLIC_URL'', ''STAYS_WEB_URL'']"

definition assertCmiCredentials :: "(string \<Rightarrow> string option) \<Rightarrow> env \<Rightarrow> unit result" where
  "assertCmiCredentials url_host env =
     (if env_trim env ''CMI_CLIENT_ID'' = [] \<or> env_trim env ''CMI_STORE_KEY'' = []
      then Inl (Server_Error ''STAYS_PAYMENT_PROVIDER=cmi requires CMI_CLIENT_ID and CMI_STORE_KEY'')
      else
        case find_where (\<lambda>k. env_trim env k \<noteq> [] \<and> urlLooksLikeLoopback url_host (env_trim env k)) cmi_url_keys of
          Some k \<Rightarrow> Inl (Server_Error (k @ '' must not use a loopback host when STAYS_PAYMENT_PROVIDER=cmi.''))
        | None \<Rightarrow>
            if resolveNexaStage env = Production
            then (case find_where (\<lambda>k. env_trim env k = [])
                         [''CMI_CALLBACK_URL'', ''STAYS_PUBLIC_URL'', ''STAYS_WEB_URL''] of
                    Some k \<Rightarrow> Inl (Server_Error (k @ '' is required when NEXA_ENV=production''))
                  | None \<Rightarrow> Inr ())
            else Inr ())"

definition assertPaymentProviderPolicy :: "(string \<Rightarrow> string option) \<Rightarrow> env \<Rightarrow> unit result" where
  "assertPaymentProviderPolicy url_host env =
     (let stage = resolveNexaStage env; provider = getStaysPaymentProvider env;
          explicitProvider = js_lower (env_trim env ''STAYS_PAYMENT_PROVIDER'')
      in if provider = ''cmi'' then assertCmiCredentials url_host env
         else if provider \<noteq> ''mock''
         then Inl (Server_Error (''Unsupported STAYS_PAYMENT_PROVIDER='' @ provider))
         else if stage = Development \<or> stage = Dogfood then Inr ()
         else if stage = Staging
         then (if explicitProvider \<noteq> ''mock''
               then Inl (Server_Error ''Staging with mock payments requires STAYS_PAYMENT_PROVIDER=mock'')
               else Inr ())
         else if explicitProvider \<noteq> ''cmi''
         then Inl (Server_Error ''NEXA_ENV=production requires STAYS_PAYMENT_PROVIDER=cmi'')
         else Inr ())"

definition isLegacyMockWebhookEnabled :: "env \<Rightarrow> bool" where
  "isLegacyMockWebhookEnabled env =
     (if env ''NODE_ENV'' = Some ''production'' then False
      else if \<not> isMockPaymentProvider env then False
      else env ''ALLOW_LEGACY_MOCK_WEBHOOK'' = Some ''true'')"

section \<open>cmi-payment.provider.ts\<close>

definition cmi_secret :: "env \<Rightarrow> string \<Rightarrow> string \<Rightarrow> string result" where
  "cmi_secret env name fallback =
     (if env_trim env name \<noteq> [] then Inr (env_trim env name)
      else if isProductionRuntime env \<or> env ''STAYS_PAYMENT_PROVIDER'' = Some ''cmi''
      then Inl (Server_Error (name @ '' is required when using CMI payments (set via environment variables).''))
      else Inr fallback)"

definition getCmiStoreKey :: "env \<Rightarrow> string result" where
  "getCmiStoreKey env = cmi_secret env ''CMI_STORE_KEY'' ''mock-store-key''"

definition getCmiClientId :: "env \<Rightarrow> string result" where
  "getCmiClientId env = cmi_secret env ''CMI_CLIENT_ID'' ''mock-client''"

text \<open>\<^verbatim>\<open>toFixed(2)\<close>: the nearest hundredth of the number's exact value, ties upwards.\<close>

definition to_fixed2 :: "rat \<Rightarrow> string" where
  "to_fixed2 x =
     (let n = nat \<lfloor>100 * \<bar>x\<bar> + 1 / 2\<rfloor>
      in (if x < 0 then ''-'' else []) @ nat_str (n div 100) @ ''.'' @ pad_start 2 (CHR ''0'') (nat_str (n mod 100)))"

record cmi_callback =
  cb_valid :: bool
  cb_providerIntentId :: "string option"
  cb_success :: bool

text \<open>
  The callback body as its string fields. \<open>hmac key text\<close> is the base64 of the keyed SHA-512.
\<close>

definition body_field :: "(string \<rightharpoonup> string) \<Rightarrow> string \<Rightarrow> string \<Rightarrow> string" where
  "body_field body k k' = (case or_else (body k) (body k') of None \<Rightarrow> [] | Some v \<Rightarrow> v)"

definition verifyCallback ::
    "(string \<Rightarrow> string \<Rightarrow> string) \<Rightarrow> env \<Rightarrow> (string \<rightharpoonup> string) \<Rightarrow> cmi_callback result" where
  "verifyCallback hmac env body =
     (case getCmiStoreKey env of
        Inl e \<Rightarrow> Inl e
      | Inr storeKey \<Rightarrow>
          let oid = body_field body ''oid'' ''OID'';
              amount = (case body ''amount'' of None \<Rightarrow> [] | Some v \<Rightarrow> v);
              procReturnCode = body_field body ''ProcReturnCode'' ''procReturnCode'';
              hashFromGateway = body_field body ''HASH'' ''hash'';
              pid = (if oid = [] then None else Some oid)
          in if hashFromGateway = [] \<or> oid = []
             then Inr \<lparr>cb_valid = False, cb_providerIntentId = pid, cb_success = False\<rparr>
             else
               let expected = hmac storeKey (join_strings ''|'' [oid, storeKey, procReturnCode, amount]);
                   valid = (expected = hashFromGateway)
               in Inr \<lparr>cb_valid = valid, cb_providerIntentId = pid,
                       cb_success = (valid \<and> procReturnCode = ''00'')\<rparr>)"

datatype cmi_op = PostAuth | Void_Op | Credit

definition op_name :: "cmi_op \<Rightarrow> string" where
  "op_name op = (case op of PostAuth \<Rightarrow> ''PostAuth'' | Void_Op \<Rightarrow> ''Void'' | Credit \<Rightarrow> ''Credit'')"

record cmi_merchant_result =
  mr_ok :: bool
  mr_op :: cmi_op
  mr_providerIntentId :: string
  mr_procReturnCode :: string
  mr_error :: "string option"

text \<open>
  What the gateway answers to one form post: \<open>Inr (ok, text)\<close> is a response with its HTTP
  success flag, \<open>Inl\<close> a network failure. A request is the list of its form fields.
\<close>

record cmi_world =
  cw_hmac :: "string \<Rightarrow> string \<Rightarrow> string"
  cw_post :: "string \<Rightarrow> (string \<times> string) list \<Rightarrow> string + (bool \<times> string)"
  cw_json :: "string \<Rightarrow> json option"
  cw_decode_uri :: "string \<Rightarrow> string option"

fun find_xml_code :: "string \<Rightarrow> string option" where
  "find_xml_code [] = None"
| "find_xml_code (c # s) =
     (let t = c # s; tag = ''<procreturncode>''; rest = drop (length tag) t;
          v = takeWhile (\<lambda>x. x \<noteq> CHR ''<'') rest; after = drop (length v) rest;
          close_tag = ''</procreturncode>''
      in if js_lower (take (length tag) t) = tag \<and> js_lower (take (length close_tag) after) = close_tag
         then Some v else find_xml_code s)"

fun find_form_code :: "bool \<Rightarrow> string \<Rightarrow> string option" where
  "find_form_code at_start [] = None"
| "find_form_code at_start (c # s) =
     (let t = c # s; key = ''procreturncode=''
      in if at_start \<and> js_lower (take (length key) t) = key
         then Some (takeWhile (\<lambda>x. x \<notin> {CHR ''&'', CHR 0x0A, CHR 0x0D}) (drop (length key) t))
         else find_form_code (c = CHR ''&'' \<or> c = CHR 0x0A) s)"

text \<open>\<open>None\<close>: \<^verbatim>\<open>decodeURIComponent\<close> threw, which the caller's \<^verbatim>\<open>catch\<close> turns into a failed result.\<close>

definition parseProcReturnCode :: "cmi_world \<Rightarrow> string \<Rightarrow> string option" where
  "parseProcReturnCode w raw =
     (case find_xml_code raw of
        Some (c # v) \<Rightarrow> Some (js_trim (c # v))
      | _ \<Rightarrow>
          (case find_form_code True raw of
             Some (c # v) \<Rightarrow> cw_decode_uri w (js_trim (c # v))
           | _ \<Rightarrow>
               Some (case cw_json w raw of
                  Some (JObj fs) \<Rightarrow>
                    js_trim (case or_else (json_string (map_of fs ''ProcReturnCode''))
                                          (json_string (map_of fs ''procReturnCode'')) of
                               None \<Rightarrow> [] | Some v \<Rightarrow> v)
                | _ \<Rightarrow> [])))"

definition getCmiApiUrl :: "env \<Rightarrow> string" where
  "getCmiApiUrl env =
     (let configured = env_trim env ''CMI_API_URL'';
          strip = (\<lambda>s. if s \<noteq> [] \<and> last s = CHR ''/'' then butlast s else s);
          paymentUrl = env_trim env ''CMI_PAYMENT_URL'';
          n = length paymentUrl;
          gate = ''/fim/est3dgate''; gate_slash = ''/fim/est3dgate/''
      in if configured \<noteq> [] then strip configured
         else if \<exists>k \<in> set [0..<Suc n]. take 9 (drop k paymentUrl) = ''est3Dgate''
         then (if js_lower (drop (n - length gate_slash) paymentUrl) = gate_slash \<and> n \<ge> length gate_slash
               then take (n - length gate_slash) paymentUrl @ ''/fim/api''
               else if js_lower (drop (n - length gate) paymentUrl) = gate \<and> n \<ge> length gate
               then take (n - length gate) paymentUrl @ ''/fim/api''
               else paymentUrl)
         else ''https://testpayment.cmi.co.ma/fim/api'')"

definition merchantRequest ::
    "cmi_world \<Rightarrow> env \<Rightarrow> cmi_op \<Rightarrow> string \<Rightarrow> rat \<Rightarrow> string \<Rightarrow> bool \<Rightarrow> cmi_merchant_result result" where
  "merchantRequest w env op providerIntentId amt cur omitAmount =
     (case getCmiClientId env of
        Inl e \<Rightarrow> Inl e
      | Inr clientId \<Rightarrow>
          (case getCmiStoreKey env of
             Inl e \<Rightarrow> Inl e
           | Inr storeKey \<Rightarrow>
               let amount = (if omitAmount then [] else to_fixed2 amt);
                   currency = (if omitAmount then [] else cur);
                   hash = cw_hmac w storeKey
                     (join_strings ''|'' [clientId, providerIntentId, amount, currency, storeKey]);
                   form = [(''CLIENTID'', clientId), (''ORDERID'', providerIntentId), (''NAME'', op_name op),
                           (''TYPE'', op_name op), (''HASH'', hash)] @
                          (if omitAmount then [] else [(''AMOUNT'', amount), (''currency'', currency)]);
                   failed = (\<lambda>code msg. \<lparr>mr_ok = False, mr_op = op, mr_providerIntentId = providerIntentId,
                      mr_procReturnCode = code, mr_error = Some msg\<rparr>)
               in Inr (case cw_post w (getCmiApiUrl env) form of
                         Inl msg \<Rightarrow> failed [] msg
                       | Inr (http_ok, raw) \<Rightarrow>
                           (case parseProcReturnCode w raw of
                              None \<Rightarrow> failed [] ''URI malformed''
                            | Some code \<Rightarrow>
                                if http_ok \<and> code = ''00''
                                then \<lparr>mr_ok = True, mr_op = op, mr_providerIntentId = providerIntentId,
                                      mr_procReturnCode = code, mr_error = None\<rparr>
                                else failed code (''CMI_'' @ op_name op @ ''_FAILED'')))))"

definition cmi_capture :: "cmi_world \<Rightarrow> env \<Rightarrow> string \<Rightarrow> rat \<Rightarrow> string \<Rightarrow> cmi_merchant_result result" where
  "cmi_capture w env providerIntentId amount currency =
     merchantRequest w env PostAuth providerIntentId amount currency False"

definition voidAuthorization :: "cmi_world \<Rightarrow> env \<Rightarrow> string \<Rightarrow> cmi_merchant_result result" where
  "voidAuthorization w env providerIntentId = merchantRequest w env Void_Op providerIntentId 0 ''MAD'' True"

definition cmi_refund :: "cmi_world \<Rightarrow> env \<Rightarrow> string \<Rightarrow> rat \<Rightarrow> string \<Rightarrow> cmi_merchant_result result" where
  "cmi_refund w env providerIntentId amount currency =
     merchantRequest w env Credit providerIntentId amount currency False"

definition requirePublicBaseUrl :: "env \<Rightarrow> string \<Rightarrow> string \<Rightarrow> string result" where
  "requirePublicBaseUrl env name devFallback =
     (let strip = (\<lambda>s. if s \<noteq> [] \<and> last s = CHR ''/'' then butlast s else s);
          v = strip (env_trim env name)
      in if v \<noteq> [] then Inr v
         else if isProductionRuntime env
         then Inl (Server_Error (name @ '' is required in production and must be set via environment variables.''))
         else Inr (strip devFallback))"

record cmi_order =
  co_provider_intent_id :: string
  co_redirect :: "string \<times> (string \<times> string) list"
  co_amount :: rat
  co_currency :: string

text \<open>
  A URL or a configured override; \<^verbatim>\<open>rnd\<close> is the random hex string, \<^verbatim>\<open>now\<close> the clock.
  The redirect is the gateway address with the parameters still to be form-encoded.
\<close>

definition url_or :: "env \<Rightarrow> string \<Rightarrow> string result \<Rightarrow> string \<Rightarrow> string result" where
  "url_or env name base path =
     (if env_or_empty env name \<noteq> [] then Inr (env_or_empty env name)
      else case base of Inl e \<Rightarrow> Inl e | Inr b \<Rightarrow> Inr (b @ path))"

definition createOrder ::
    "cmi_world \<Rightarrow> env \<Rightarrow> time \<Rightarrow> string \<Rightarrow> uuid \<Rightarrow> rat \<Rightarrow> string \<Rightarrow> uuid \<Rightarrow> cmi_order result" where
  "createOrder w env now rnd bookingId amt currency guestUserId =
     (case getCmiClientId env of
        Inl e \<Rightarrow> Inl e
      | Inr clientId \<Rightarrow>
     (case getCmiStoreKey env of
        Inl e \<Rightarrow> Inl e
      | Inr storeKey \<Rightarrow>
     (case url_or env ''CMI_CALLBACK_URL'' (requirePublicBaseUrl env ''STAYS_PUBLIC_URL'' ''http://127.0.0.1:3002'')
             ''/api/v1/stays/webhooks/payments/cmi'' of
        Inl e \<Rightarrow> Inl e
      | Inr callbackUrl \<Rightarrow>
     (case url_or env ''CMI_OK_URL'' (requirePublicBaseUrl env ''STAYS_WEB_URL'' ''http://127.0.0.1:3000'') ''/bookings'' of
        Inl e \<Rightarrow> Inl e
      | Inr okUrl \<Rightarrow>
     (case url_or env ''CMI_FAIL_URL'' (requirePublicBaseUrl env ''STAYS_WEB_URL'' ''http://127.0.0.1:3000'') ''/bookings'' of
        Inl e \<Rightarrow> Inl e
      | Inr failUrl \<Rightarrow>
          let baseUrl = (if env_or_empty env ''CMI_PAYMENT_URL'' \<noteq> [] then env_or_empty env ''CMI_PAYMENT_URL''
                         else ''https://testpayment.cmi.co.ma/fim/est3Dgate'');
              orderId = ''STAYS-'' @ bookingId @ ''-'' @ int_str now;
              amount = to_fixed2 amt;
              hash = cw_hmac w storeKey (join_strings ''|''
                [clientId, orderId, amount, currency, okUrl, failUrl, ''PreAuth'', rnd, storeKey])
          in Inr \<lparr>co_provider_intent_id = orderId,
                  co_redirect = (baseUrl,
                    [(''clientid'', clientId), (''oid'', orderId), (''amount'', amount),
                     (''currency'', currency), (''okUrl'', okUrl), (''failUrl'', failUrl),
                     (''callbackUrl'', callbackUrl), (''TranType'', ''PreAuth''), (''rnd'', rnd),
                     (''hash'', hash), (''email'', []), (''BillToName'', guestUserId), (''lang'', ''fr'')]),
                  co_amount = amt, co_currency = currency\<rparr>)))))"

section \<open>Policy and signatures\<close>

lemma loopback_empty: "\<not> urlLooksLikeLoopback url_host []"
  by (simp add: urlLooksLikeLoopback_def js_trim_def)

text \<open>A deployment that passes the policy at the production stage runs CMI with real credentials.\<close>

lemma policy_production:
  assumes "assertPaymentProviderPolicy url_host env = Inr ()" and "resolveNexaStage env = Production"
  shows "getStaysPaymentProvider env = ''cmi''" and "env_trim env ''CMI_CLIENT_ID'' \<noteq> []"
    and "env_trim env ''CMI_STORE_KEY'' \<noteq> []"
    and "k \<in> set cmi_url_keys \<Longrightarrow> \<not> urlLooksLikeLoopback url_host (env_trim env k)"
    and "k \<in> {''CMI_CALLBACK_URL'', ''STAYS_PUBLIC_URL'', ''STAYS_WEB_URL''} \<Longrightarrow> env_trim env k \<noteq> []"
proof -
  have cmi: "getStaysPaymentProvider env = ''cmi'' \<and> assertCmiCredentials url_host env = Inr ()"
  proof (cases "getStaysPaymentProvider env = ''cmi''")
    case False
    then have mock: "getStaysPaymentProvider env = ''mock''"
      and ex: "js_lower (env_trim env ''STAYS_PAYMENT_PROVIDER'') = ''cmi''"
      using assms by (auto simp: assertPaymentProviderPolicy_def Let_def split: if_splits)
    from ex have "env ''STAYS_PAYMENT_PROVIDER'' \<noteq> None"
      by (cases "env ''STAYS_PAYMENT_PROVIDER''") (auto simp: env_trim_def env_or_empty_def js_trim_def js_lower_def)
    then show ?thesis using mock ex
      by (auto simp: getStaysPaymentProvider_def env_trim_def env_or_empty_def)
  qed (use assms in \<open>simp add: assertPaymentProviderPolicy_def Let_def\<close>)
  then show "getStaysPaymentProvider env = ''cmi''" by simp
  from cmi have c: "assertCmiCredentials url_host env = Inr ()" by simp
  then show "env_trim env ''CMI_CLIENT_ID'' \<noteq> []" "env_trim env ''CMI_STORE_KEY'' \<noteq> []"
    by (auto simp: assertCmiCredentials_def)
  have n: "find_where (\<lambda>k. env_trim env k \<noteq> [] \<and> urlLooksLikeLoopback url_host (env_trim env k)) cmi_url_keys = None"
    using c by (auto simp: assertCmiCredentials_def split: if_splits option.splits)
  show "k \<in> set cmi_url_keys \<Longrightarrow> \<not> urlLooksLikeLoopback url_host (env_trim env k)"
    using n [unfolded find_where_None] loopback_empty by metis
  show "k \<in> {''CMI_CALLBACK_URL'', ''STAYS_PUBLIC_URL'', ''STAYS_WEB_URL''} \<Longrightarrow> env_trim env k \<noteq> []"
    using c n assms(2) by (auto simp: assertCmiCredentials_def split: if_splits option.splits)
qed

lemma merchantRequest_ok_code:
  "merchantRequest w env op pid amt cur om = Inr r \<Longrightarrow> mr_ok r \<Longrightarrow> mr_procReturnCode r = ''00'' \<and> mr_error r = None"
  by (auto simp: merchantRequest_def Let_def split: sum.splits option.splits if_splits)

section \<open>Properties\<close>

text \<open>
  A server that starts at the production stage takes money through CMI and nothing else: the
  provider is CMI, the client id and the store key are set, the callback and return addresses are set
  and no configured address points to the machine itself.
\<close>

theorem production_requires_cmi:
  assumes "assertPaymentProviderPolicy url_host env = Inr ()" and "resolveNexaStage env = Production"
  shows "getStaysPaymentProvider env = ''cmi'' \<and> env_trim env ''CMI_CLIENT_ID'' \<noteq> [] \<and>
    env_trim env ''CMI_STORE_KEY'' \<noteq> [] \<and>
    (\<forall>k\<in>set cmi_url_keys. \<not> urlLooksLikeLoopback url_host (env_trim env k)) \<and>
    (\<forall>k\<in>{''CMI_CALLBACK_URL'', ''STAYS_PUBLIC_URL'', ''STAYS_WEB_URL''}. env_trim env k \<noteq> [])"
  using policy_production [OF assms] by blast

definition production_env :: env where
  "production_env = map_of
     [(''NEXA_STAGE'', ''production''), (''NODE_ENV'', ''production''), (''STAYS_PAYMENT_PROVIDER'', ''cmi''),
      (''CMI_CLIENT_ID'', ''600001''), (''CMI_STORE_KEY'', ''k3y''),
      (''CMI_PAYMENT_URL'', ''https://pay.cmi.ma''), (''CMI_API_URL'', ''https://api.cmi.ma''),
      (''CMI_API_USER'', ''u''), (''CMI_API_PASSWORD'', ''p''),
      (''CMI_CALLBACK_URL'', ''https://stays.nexa.ma/cb''), (''CMI_OK_URL'', ''https://stays.nexa.ma/ok''),
      (''CMI_FAIL_URL'', ''https://stays.nexa.ma/ko''), (''CMI_SHOP_URL'', ''https://stays.nexa.ma''),
      (''STAYS_PUBLIC_URL'', ''https://stays.nexa.ma''), (''STAYS_WEB_URL'', ''https://nexa.ma'')]"

definition plain_host :: "string \<Rightarrow> string option" where
  "plain_host u = Some (takeWhile (\<lambda>c. c \<noteq> CHR ''/'') (drop 8 u))"

theorem production_requires_cmi_witness:
  "getStaysPaymentProvider production_env = ''cmi''"
proof -
  have a: "assertPaymentProviderPolicy plain_host production_env = Inr ()" by code_simp
  have s: "resolveNexaStage production_env = Production" by code_simp
  show ?thesis using production_requires_cmi [OF a s] by simp
qed

end
