(* ===== verification/Availability.thy ===== *)
theory Availability
  imports JsDate StaysData
begin

text \<open>
  \<^verbatim>\<open>stays-availability.service.ts\<close>: which nights of a listing are taken. A stay occupies the
  nights from check-in up to, not including, check-out. The locale \<open>inventory\<close> states what the
  booking operations rely on (an admitted stay overlaps no active one) and derives that the table
  never holds two overlapping active stays; it is interpreted on \<open>isListingAvailable\<close>.
\<close>

section \<open>Occupied nights\<close>

definition BOOKED_STATUSES :: "booking_status list" where
  "BOOKED_STATUSES = [INITIATED, PAYMENT_PENDING, CONFIRMED, CHECKED_IN]"

definition booked :: "booking \<Rightarrow> bool" where
  "booked b \<longleftrightarrow> bk_status b \<in> set BOOKED_STATUSES"

text \<open>
  \<^verbatim>\<open>Date | string\<close>. A \<^verbatim>\<open>Date\<close> is the calendar day it shows. A string goes through
  \<open>toDateString\<close> and is then read as a date by PostgreSQL. What the JavaScript engine makes of
  free-form text (\<open>js_parse\<close>) and what PostgreSQL accepts besides ISO dates (\<open>pg_date\<close>) are not
  part of the sources: they are parameters.
\<close>

datatype date_arg = Date_Val day | Date_Str string

record date_engine =
  js_parse :: "string \<Rightarrow> day option"
  pg_date :: "string \<Rightarrow> day option"

definition arg_string :: "date_engine \<Rightarrow> date_arg \<Rightarrow> string" where
  "arg_string eng a =
     (case a of Date_Val d \<Rightarrow> formatLocalDate d | Date_Str s \<Rightarrow> toDateString (js_parse eng) s)"

definition arg_day :: "date_engine \<Rightarrow> date_arg \<Rightarrow> day result" where
  "arg_day eng a =
     (case a of
        Date_Val d \<Rightarrow> Inr d
      | Date_Str s \<Rightarrow>
          let t = toDateString (js_parse eng) s
          in (case parseBookingDateOnly t of
                Inr d \<Rightarrow> Inr d
              | Inl _ \<Rightarrow>
                  (case pg_date eng t of
                     Some d \<Rightarrow> Inr d
                   | None \<Rightarrow> Inl (Server_Error ''invalid input syntax for type date''))))"

definition overlaps_days :: "day \<Rightarrow> day \<Rightarrow> booking \<Rightarrow> bool" where
  "overlaps_days checkin checkout b \<longleftrightarrow> bk_checkin_date b < checkout \<and> bk_checkout_date b > checkin"

definition blocks_days :: "day \<Rightarrow> day \<Rightarrow> availability_block \<Rightarrow> bool" where
  "blocks_days checkin checkout ab \<longleftrightarrow>
     ab_is_blocked ab \<and> ab_date ab \<ge> checkin \<and> ab_date ab < checkout"

text \<open>The two counting queries of \<open>isListingAvailable\<close> over the days they are given.\<close>

definition available_days ::
    "uuid \<Rightarrow> day \<Rightarrow> day \<Rightarrow> uuid option \<Rightarrow> booking list \<Rightarrow> availability_block list \<Rightarrow> bool" where
  "available_days listingId checkin checkout excl bs abl =
     (if affected (\<lambda>b. bk_listing_id b = listingId \<and> booked b \<and> overlaps_days checkin checkout b
            \<and> excl \<noteq> Some (bk_id b)) bs > 0
      then False
      else affected (\<lambda>ab. ab_listing_id ab = listingId \<and> blocks_days checkin checkout ab) abl = 0)"

definition isListingAvailable ::
    "date_engine \<Rightarrow> uuid \<Rightarrow> date_arg \<Rightarrow> date_arg \<Rightarrow> uuid option \<Rightarrow> stays_db \<Rightarrow> bool result" where
  "isListingAvailable eng listingId checkinDate checkoutDate excl db =
     (case arg_day eng checkoutDate of
        Inl e \<Rightarrow> Inl e
      | Inr checkout \<Rightarrow>
          (case arg_day eng checkinDate of
             Inl e \<Rightarrow> Inl e
           | Inr checkin \<Rightarrow>
               Inr (available_days listingId checkin checkout excl (bookings db) (blocks db))))"

text \<open>\<^verbatim>\<open>[...new Set(xs)]\<close> keeps the first occurrence of every element.\<close>

definition js_set_list :: "'a list \<Rightarrow> 'a list" where
  "js_set_list xs = rev (remdups (rev xs))"

definition getUnavailableListingIds ::
    "date_engine \<Rightarrow> date_arg \<Rightarrow> date_arg \<Rightarrow> uuid list option \<Rightarrow> uuid option \<Rightarrow> stays_db
     \<Rightarrow> uuid list result" where
  "getUnavailableListingIds eng checkinDate checkoutDate listingIds excl db =
     (case arg_day eng checkoutDate of
        Inl e \<Rightarrow> Inl e
      | Inr checkout \<Rightarrow>
          (case arg_day eng checkinDate of
             Inl e \<Rightarrow> Inl e
           | Inr checkin \<Rightarrow>
               let wanted = (\<lambda>i. case listingIds of None \<Rightarrow> True | Some ids \<Rightarrow> ids = [] \<or> i \<in> set ids);
                   fromBookings = map bk_listing_id
                     (filter (\<lambda>b. booked b \<and> overlaps_days checkin checkout b
                        \<and> wanted (bk_listing_id b) \<and> excl \<noteq> Some (bk_id b)) (bookings db));
                   fromBlocks = map ab_listing_id
                     (filter (\<lambda>ab. blocks_days checkin checkout ab \<and> wanted (ab_listing_id ab))
                        (blocks db))
               in Inr (js_set_list (filter (\<lambda>i. i \<noteq> []) fromBookings
                                    @ filter (\<lambda>i. i \<noteq> []) fromBlocks))))"

datatype range_source = R_BOOKING | R_BLOCK

record blocked_date_range =
  br_checkin_date :: string
  br_checkout_date :: string
  br_source :: range_source

definition getBlockedDateRanges ::
    "date_engine \<Rightarrow> uuid \<Rightarrow> date_arg \<Rightarrow> date_arg \<Rightarrow> stays_db \<Rightarrow> blocked_date_range list result" where
  "getBlockedDateRanges eng listingId fromDate toDate db =
     (case arg_day eng toDate of
        Inl e \<Rightarrow> Inl e
      | Inr to_day \<Rightarrow>
          (case arg_day eng fromDate of
             Inl e \<Rightarrow> Inl e
           | Inr from_day \<Rightarrow>
               Inr (map (\<lambda>b. \<lparr>br_checkin_date = formatLocalDate (bk_checkin_date b),
                              br_checkout_date = formatLocalDate (bk_checkout_date b),
                              br_source = R_BOOKING\<rparr>)
                      (filter (\<lambda>b. bk_listing_id b = listingId \<and> booked b
                          \<and> overlaps_days from_day to_day b) (bookings db))
                  @ map (\<lambda>ab. \<lparr>br_checkin_date = formatLocalDate (ab_date ab),
                              br_checkout_date = addDays (formatLocalDate (ab_date ab)) 1,
                              br_source = R_BLOCK\<rparr>)
                      (filter (\<lambda>ab. ab_listing_id ab = listingId \<and> blocks_days from_day to_day ab)
                        (blocks db)))))"

section \<open>The inventory contract\<close>

definition conflict_free :: "('b \<Rightarrow> bool) \<Rightarrow> ('b \<Rightarrow> 'b \<Rightarrow> bool) \<Rightarrow> 'b list \<Rightarrow> bool" where
  "conflict_free act ov rows \<longleftrightarrow> sorted_wrt (\<lambda>a b. act a \<longrightarrow> act b \<longrightarrow> \<not> ov a b) rows"

lemma conflict_free_map:
  assumes "conflict_free act ov rows"
    and "\<And>r. r \<in> set rows \<Longrightarrow> act (f r) \<Longrightarrow> act r"
    and "\<And>r r'. r \<in> set rows \<Longrightarrow> r' \<in> set rows \<Longrightarrow> ov (f r) (f r') \<Longrightarrow> ov r r'"
  shows "conflict_free act ov (map f rows)"
  using assms unfolding conflict_free_def sorted_wrt_map
  by (auto intro: sorted_wrt_mono_rel [rotated])

locale inventory =
  fixes act :: "'b \<Rightarrow> bool" and ov :: "'b \<Rightarrow> 'b \<Rightarrow> bool" and admits :: "'b list \<Rightarrow> 'b \<Rightarrow> bool"
  assumes ov_sym: "ov a b \<Longrightarrow> ov b a"
    and admits_sound: "admits rows b \<Longrightarrow> r \<in> set rows \<Longrightarrow> act r \<Longrightarrow> \<not> ov r b"
begin

lemma admit_keeps_free: "conflict_free act ov rows \<Longrightarrow> admits rows b \<Longrightarrow> conflict_free act ov (rows @ [b])"
  using admits_sound by (auto simp: conflict_free_def sorted_wrt_append)

lemma free_pair:
  assumes "conflict_free act ov rows" and "i < length rows" and "j < length rows" and "i \<noteq> j"
    and "act (rows ! i)" and "act (rows ! j)"
  shows "\<not> ov (rows ! i) (rows ! j)"
  using assms ov_sym unfolding conflict_free_def sorted_wrt_iff_nth_less
  by (metis linorder_neqE_nat)

end

definition same_nights :: "booking \<Rightarrow> booking \<Rightarrow> bool" where
  "same_nights a b \<longleftrightarrow>
     bk_listing_id a = bk_listing_id b \<and> overlaps_days (bk_checkin_date b) (bk_checkout_date b) a"

definition no_double_booking :: "stays_db \<Rightarrow> bool" where
  "no_double_booking db \<longleftrightarrow> conflict_free booked same_nights (bookings db)"

definition admits_booking :: "availability_block list \<Rightarrow> booking list \<Rightarrow> booking \<Rightarrow> bool" where
  "admits_booking abl bs b =
     available_days (bk_listing_id b) (bk_checkin_date b) (bk_checkout_date b) None bs abl"

lemma available_days_iff:
  "available_days l ci co excl bs abl \<longleftrightarrow>
     (\<forall>b\<in>set bs. bk_listing_id b = l \<longrightarrow> booked b \<longrightarrow> overlaps_days ci co b \<longrightarrow> excl = Some (bk_id b)) \<and>
     (\<forall>ab\<in>set abl. ab_listing_id ab = l \<longrightarrow> \<not> blocks_days ci co ab)"
proof -
  have z: "affected p rows = 0 \<longleftrightarrow> (\<forall>r\<in>set rows. \<not> p r)" for p :: "'a \<Rightarrow> bool" and rows
    using affected_pos [of p rows] by auto
  show ?thesis unfolding available_days_def affected_pos z by auto
qed

interpretation stays: inventory booked same_nights "admits_booking abl"
  for abl
proof unfold_locales
  show "same_nights b a" if "same_nights a b" for a b
    using that by (auto simp: same_nights_def overlaps_days_def)
  show "\<not> same_nights r b" if "admits_booking abl rows b" "r \<in> set rows" "booked r" for rows b r
    using that by (auto simp: admits_booking_def available_days_iff same_nights_def)
qed

text \<open>What a night-by-night reading of the two tables says: the specification of availability.\<close>

definition night_taken :: "uuid \<Rightarrow> uuid option \<Rightarrow> day \<Rightarrow> booking list \<Rightarrow> availability_block list \<Rightarrow> bool" where
  "night_taken l excl n bs abl \<longleftrightarrow>
     (\<exists>b\<in>set bs. bk_listing_id b = l \<and> booked b \<and> excl \<noteq> Some (bk_id b)
        \<and> bk_checkin_date b \<le> n \<and> n < bk_checkout_date b) \<or>
     (\<exists>ab\<in>set abl. ab_listing_id ab = l \<and> ab_is_blocked ab \<and> ab_date ab = n)"

lemma available_days_nights:
  assumes "ci < co" and "\<forall>b\<in>set bs. bk_checkin_date b < bk_checkout_date b"
  shows "available_days l ci co excl bs abl \<longleftrightarrow> (\<forall>n. ci \<le> n \<and> n < co \<longrightarrow> \<not> night_taken l excl n bs abl)"
proof -
  have ov: "overlaps_days ci co b \<longleftrightarrow> (\<exists>n. ci \<le> n \<and> n < co \<and> bk_checkin_date b \<le> n \<and> n < bk_checkout_date b)"
    if "b \<in> set bs" for b
  proof -
    have lt: "bk_checkin_date b < bk_checkout_date b" using assms(2) that by blast
    show ?thesis
    proof
      assume "overlaps_days ci co b"
      then show "\<exists>n. ci \<le> n \<and> n < co \<and> bk_checkin_date b \<le> n \<and> n < bk_checkout_date b"
        using assms(1) lt by (intro exI [of _ "max ci (bk_checkin_date b)"]) (auto simp: overlaps_days_def)
    qed (auto simp: overlaps_days_def)
  qed
  show ?thesis
    unfolding available_days_iff night_taken_def blocks_days_def using ov by blast
qed

lemma arg_day_val [simp]: "arg_day eng (Date_Val d) = Inr d"
  by (simp add: arg_day_def)

text \<open>The string the booking request carries is read as the day \<open>parseBookingDateOnly\<close> gives.\<close>

lemma match_take10:
  assumes "match_ymd t = Some m"
  shows "match_ymd (take 10 t) = Some m" and "js_trim (take 10 t) = take 10 t"
proof -
  have t: "length t \<ge> 10" "list_all is_digit (take 4 t)" "list_all is_digit (take 2 (drop 8 t))"
    using assms by (auto simp: match_ymd_def Let_def split: if_splits)
  show "match_ymd (take 10 t) = Some m"
    using assms t(1) by (auto simp: match_ymd_def Let_def take_drop min_def split: if_splits)
  have "take 4 t ! 0 \<in> set (take 4 t)" using t(1) by (intro nth_mem) simp
  moreover have "take 2 (drop 8 t) ! 1 \<in> set (take 2 (drop 8 t))" using t(1) by (intro nth_mem) simp
  ultimately have "t ! 0 \<in> set (take 4 t)" "t ! 9 \<in> set (take 2 (drop 8 t))" using t(1) by simp_all
  then have "is_digit (t ! 0)" "is_digit (t ! 9)" using t(2,3) by (auto simp: list_all_iff)
  moreover have "take 10 t \<noteq> []" "hd (take 10 t) = t ! 0" "last (take 10 t) = t ! 9"
    using t(1) by (cases t; simp add: hd_conv_nth last_conv_nth; auto)+
  ultimately show "js_trim (take 10 t) = take 10 t" by (intro js_trim_digit_ends) auto
qed

lemma arg_day_str:
  assumes "parseBookingDateOnly s = Inr d"
  shows "arg_day eng (Date_Str s) = Inr d"
proof -
  obtain m where m: "match_ymd (js_trim s) = Some m"
    using assms by (auto simp: parseBookingDateOnly_def parseBookingYmd_def split: option.splits)
  then have t: "toDateString (js_parse eng) s = take 10 (js_trim s)" by (simp add: toDateString_def)
  have "parseBookingDateOnly (take 10 (js_trim s)) = parseBookingDateOnly s"
    by (simp add: parseBookingDateOnly_def parseBookingYmd_def match_take10 [OF m] m)
  then show ?thesis using assms by (simp add: arg_day_def t)
qed

section \<open>Properties\<close>

text \<open>
  C16: the two counting queries decide exactly the night-by-night question. Over stored stays of at
  least one night a listing is available from \<open>ci\<close> to \<open>co\<close> if and only if no night of the range is taken by
  a booking that holds dates or by a block.
\<close>

theorem available_iff_no_night_taken:
  assumes "parseBookingDateOnly a = Inr ci" and "parseBookingDateOnly b = Inr co" and "ci < co"
    and "\<forall>x\<in>set (bookings db). bk_checkin_date x < bk_checkout_date x"
  shows "isListingAvailable eng l (Date_Str a) (Date_Str b) excl db =
    Inr (\<forall>n. ci \<le> n \<and> n < co \<longrightarrow> \<not> night_taken l excl n (bookings db) (blocks db))"
  unfolding isListingAvailable_def arg_day_str [OF assms(1)] arg_day_str [OF assms(2)]
  by (simp add: available_days_nights [OF assms(3,4)])

text \<open>
  The search filter and the booking check agree: for a range both can read, a listing id is in
  \<open>getUnavailableListingIds\<close> exactly when \<open>isListingAvailable\<close> answers no for it.
\<close>

theorem unavailable_ids_complement:
  assumes "getUnavailableListingIds eng a b None excl db = Inr ids" and "l \<noteq> []"
  shows "isListingAvailable eng l a b excl db = Inr (l \<notin> set ids)"
proof -
  obtain ci co where d: "arg_day eng b = Inr co" "arg_day eng a = Inr ci"
    using assms(1) by (auto simp: getUnavailableListingIds_def split: sum.splits)
  have "l \<in> set ids \<longleftrightarrow> \<not> available_days l ci co excl (bookings db) (blocks db)"
    using assms unfolding available_days_iff
    by (auto simp: getUnavailableListingIds_def d Let_def js_set_list_def)
  then show ?thesis by (simp add: isListingAvailable_def d)
qed

definition sample_engine :: date_engine where
  "sample_engine = \<lparr>js_parse = (\<lambda>_. None), pg_date = (\<lambda>_. None)\<rparr>"

definition sample_block :: "uuid \<Rightarrow> day \<Rightarrow> availability_block" where
  "sample_block l d = \<lparr>ab_listing_id = l, ab_date = d, ab_is_blocked = True, ab_source = Some B_HOST,
     ab_external_calendar_id = None\<rparr>"

theorem available_iff_no_night_taken_witness:
  "isListingAvailable sample_engine ''l1'' (Date_Str ''2024-06-01'') (Date_Str ''2024-06-04'') None
     (no_rows\<lparr>blocks := [sample_block ''l1'' 19876]\<rparr>) = Inr False"
proof -
  have p: "parseBookingDateOnly ''2024-06-01'' = Inr 19875" "parseBookingDateOnly ''2024-06-04'' = Inr 19878"
    by code_simp+
  have "night_taken ''l1'' None 19876 [] [sample_block ''l1'' 19876]"
    by (simp add: night_taken_def sample_block_def)
  then have "\<not> (\<forall>n. 19875 \<le> n \<and> n < 19878 \<longrightarrow> \<not> night_taken ''l1'' None n [] [sample_block ''l1'' 19876])"
    by (auto intro!: exI [of _ 19876])
  then show ?thesis
    using available_iff_no_night_taken [OF p, of "no_rows\<lparr>blocks := [sample_block ''l1'' 19876]\<rparr>" sample_engine "''l1''" None]
    by (simp add: no_rows_def)
qed

theorem unavailable_ids_complement_witness:
  "isListingAvailable sample_engine ''l1'' (Date_Str ''2024-06-01'') (Date_Str ''2024-06-04'') None
     (no_rows\<lparr>blocks := [sample_block ''l1'' 19876]\<rparr>) = Inr (''l1'' \<notin> set [''l1''])"
proof -
  have "getUnavailableListingIds sample_engine (Date_Str ''2024-06-01'') (Date_Str ''2024-06-04'') None None
     (no_rows\<lparr>blocks := [sample_block ''l1'' 19876]\<rparr>) = Inr [''l1'']" by code_simp
  then show ?thesis by (rule unavailable_ids_complement) simp
qed

end
