(* ===== verification/MessagingState.thy ===== *)
theory MessagingState
  imports Timeline
begin

text \<open>
  \<^verbatim>\<open>messaging-state.service.ts\<close> (how a booking's fate moves its conversation between ACTIVE,
  LOCKED and ARCHIVED), \<^verbatim>\<open>permissions.service.ts\<close> and \<^verbatim>\<open>rate-limit.service.ts\<close>. The
  locale \<open>window_limiter\<close> states what one limit check promises and derives the bound on every
  window of time; it is interpreted for the per-minute and the per-day limit.
\<close>

section \<open>messaging-state.service.ts\<close>

text \<open>
  \<open>clock_part\<close> is \<^verbatim>\<open>Number(part) || dflt\<close>: zero and unreadable text give the default.
  The date-time text is read in local time and is invalid outside the hours of a day.
\<close>

definition clock_part :: "string option \<Rightarrow> rat \<Rightarrow> rat" where
  "clock_part part dflt =
     (case part of
        None \<Rightarrow> dflt
      | Some p \<Rightarrow> (case js_number p of None \<Rightarrow> dflt | Some n \<Rightarrow> if n = 0 then dflt else n))"

definition split_clock :: "string \<Rightarrow> string \<times> string option" where
  "split_clock s =
     (let h = takeWhile (\<lambda>c. c \<noteq> CHR '':'') s; r = dropWhile (\<lambda>c. c \<noteq> CHR '':'') s
      in (h, if r = [] then None else Some (takeWhile (\<lambda>c. c \<noteq> CHR '':'') (tl r))))"

definition local_datetime :: "int \<Rightarrow> day \<Rightarrow> rat \<Rightarrow> rat \<Rightarrow> time option" where
  "local_datetime off d hours minutes =
     (if hours = of_int \<lfloor>hours\<rfloor> \<and> minutes = of_int \<lfloor>minutes\<rfloor> \<and> 0 \<le> minutes \<and>
         (0 \<le> hours \<and> hours \<le> 23 \<and> minutes \<le> 59 \<or> hours = 24 \<and> minutes = 0)
      then Some (d * ms_per_day + \<lfloor>hours\<rfloor> * 3600000 + \<lfloor>minutes\<rfloor> * 60000 - off)
      else None)"

definition parseCheckoutDateTime :: "int \<Rightarrow> day \<Rightarrow> string \<Rightarrow> time option" where
  "parseCheckoutDateTime off checkoutDate checkoutTime =
     (let (hourPart, minutePart) = split_clock checkoutTime
      in local_datetime off checkoutDate (clock_part (Some hourPart) 11) (clock_part minutePart 0))"

definition getPostStayGraceHours :: "env \<Rightarrow> rat" where
  "getPostStayGraceHours env =
     (case env_number env ''POST_STAY_GRACE_HOURS'' 72 of
        None \<Rightarrow> 72 | Some raw \<Rightarrow> if raw > 0 then raw else 72)"

definition computePostStayEndsAt :: "env \<Rightarrow> int \<Rightarrow> booking \<Rightarrow> listing option \<Rightarrow> time option" where
  "computePostStayEndsAt env off b l =
     (let checkoutAt = (case bk_completed_at b of
            Some t \<Rightarrow> Some t
          | None \<Rightarrow> parseCheckoutDateTime off (bk_checkout_date b)
                     (case l of None \<Rightarrow> ''11:00'' | Some x \<Rightarrow> ls_checkout_time x));
          graceMs = js_mul (js_mul (js_mul (getPostStayGraceHours env) 60) 60) 1000
      in case checkoutAt of None \<Rightarrow> None | Some t \<Rightarrow> time_clip (js_add (of_int t) graceMs))"

definition post_stay_row :: "time option \<Rightarrow> conversation \<Rightarrow> conversation \<Rightarrow> conversation" where
  "post_stay_row ends conv c =
     c\<lparr>cv_messaging_state := ACTIVE, cv_guest_visibility := V_ACTIVE, cv_host_visibility := V_ACTIVE,
       cv_post_stay_ends_at := ends, cv_archived_at := None, cv_read_only_at := None,
       cv_archive_reason := None, cv_conversation_version := cv_conversation_version conv + 1\<rparr>"

definition has_message :: "uuid \<Rightarrow> message_type \<Rightarrow> stays_db \<Rightarrow> bool" where
  "has_message i ty db = exists_where (\<lambda>m. mg_conversation_id m = i \<and> mg_type m = ty) (messages db)"

definition post_stay_body ::
    "(nat \<Rightarrow> uuid) \<Rightarrow> time \<Rightarrow> conversation \<Rightarrow> booking \<Rightarrow> time option \<Rightarrow> stays_db \<Rightarrow> unit result \<times> stays_db" where
  "post_stay_body gen now conv b ends db =
     (case (if has_message (cv_id conv) M_REVIEW_CARD db then (Inr [], db)
            else seedCheckoutComplete gen now conv b db) of
        (Inl e, db1) \<Rightarrow> (Inl e, db1)
      | (Inr _, db1) \<Rightarrow>
          if ends = None then (Inl (Server_Error ''Invalid time value''), db1)
          else (Inr (), update_conversation (cv_id conv) (post_stay_row ends conv) db1))"

definition enterPostStay ::
    "env \<Rightarrow> int \<Rightarrow> (nat \<Rightarrow> uuid) \<Rightarrow> time \<Rightarrow> uuid \<Rightarrow> stays_db \<Rightarrow> unit result \<times> stays_db" where
  "enterPostStay env off gen now bookingId db =
     (case (find_booking bookingId db, conversation_of_booking bookingId db) of
        (Some b, Some conv) \<Rightarrow>
          if bk_status b \<noteq> COMPLETED then (Inr (), db)
          else if cv_messaging_state conv = ACTIVE \<and> cv_post_stay_ends_at conv \<noteq> None then (Inr (), db)
          else
            let l = (if bk_listing_id b = [] then None else find_listing (bk_listing_id b) db)
            in transaction (post_stay_body gen now conv b (computePostStayEndsAt env off b l)) db
      | _ \<Rightarrow> (Inr (), db))"

definition archived_row :: "time \<Rightarrow> string \<Rightarrow> conversation \<Rightarrow> conversation \<Rightarrow> conversation" where
  "archived_row now reason conv c =
     c\<lparr>cv_messaging_state := ARCHIVED, cv_guest_visibility := V_ARCHIVED, cv_host_visibility := V_ARCHIVED,
       cv_archived_at := Some (case cv_archived_at conv of None \<Rightarrow> now | Some t \<Rightarrow> t),
       cv_read_only_at := Some (case cv_read_only_at conv of None \<Rightarrow> now | Some t \<Rightarrow> t),
       cv_archive_reason := Some reason, cv_conversation_version := cv_conversation_version conv + 1\<rparr>"

definition archive_body ::
    "uuid \<Rightarrow> time \<Rightarrow> conversation \<Rightarrow> uuid option \<Rightarrow> string \<Rightarrow> stays_db \<Rightarrow> unit result \<times> stays_db" where
  "archive_body new_id now conv bookingId reason db =
     (let finish = (\<lambda>db1. (Inr (), update_conversation (cv_id conv) (archived_row now reason conv) db1))
      in if has_message (cv_id conv) M_SYSTEM_NOTICE db then finish db
         else (case seedConversationArchived new_id now conv bookingId db of
                 (Inl e, db1) \<Rightarrow> (Inl e, db1)
               | (Inr _, db1) \<Rightarrow> finish db1))"

definition archived_event :: "conversation \<Rightarrow> booking option \<Rightarrow> listing option \<Rightarrow> metadata" where
  "archived_event conv b l =
     [(''bookingId'', JStr (the (cv_booking_id conv))),
      (''listingId'', JStr (case or_else (cv_listing_id conv) (map_option bk_listing_id b) of
         None \<Rightarrow> [] | Some i \<Rightarrow> i)),
      (''conversationId'', JStr (cv_id conv)), (''guestUserId'', JStr (the (cv_guest_user_id conv))),
      (''hostUserId'', JStr (the (cv_host_user_id conv)))] @
     opt_field ''listingTitle'' (map_option ls_title l)"

text \<open>The booking and the listing a conversation refers to, if they are set and found.\<close>

definition booking_of :: "conversation \<Rightarrow> stays_db \<Rightarrow> booking option" where
  "booking_of conv db =
     (if truthy (cv_booking_id conv) then find_booking (the (cv_booking_id conv)) db else None)"

definition listing_of :: "booking option \<Rightarrow> stays_db \<Rightarrow> listing option" where
  "listing_of b db =
     (case b of None \<Rightarrow> None
      | Some x \<Rightarrow> if bk_listing_id x = [] then None else find_listing (bk_listing_id x) db)"

definition archiveConversation ::
    "(nat \<Rightarrow> uuid) \<Rightarrow> time \<Rightarrow> uuid \<Rightarrow> string \<Rightarrow> stays_db \<Rightarrow> unit result \<times> stays_db" where
  "archiveConversation gen now conversationId reason db =
     (case find_conversation conversationId db of
        None \<Rightarrow> (Inr (), db)
      | Some conv \<Rightarrow>
          if cv_messaging_state conv = ARCHIVED then (Inr (), db)
          else
            let b = booking_of conv db; l = listing_of b db
            in case transaction (archive_body (gen 0) now conv
                       (or_else (map_option bk_id b) (cv_booking_id conv)) reason) db of
                 (Inl e, db2) \<Rightarrow> (Inl e, db2)
               | (Inr _, db2) \<Rightarrow>
                   (Inr (),
                    if truthy (cv_booking_id conv) \<and> truthy (cv_guest_user_id conv) \<and> truthy (cv_host_user_id conv)
                    then publish ''EVENTS.CONVERSATION_ARCHIVED'' (archived_event conv b l) db2
                    else db2))"

definition locked_row :: "time \<Rightarrow> conversation \<Rightarrow> conversation \<Rightarrow> conversation" where
  "locked_row now conv c =
     c\<lparr>cv_messaging_state := LOCKED,
       cv_locked_at := Some (case cv_locked_at conv of None \<Rightarrow> now | Some t \<Rightarrow> t),
       cv_conversation_version := cv_conversation_version conv + 1\<rparr>"

definition syncFromBooking ::
    "env \<Rightarrow> int \<Rightarrow> (nat \<Rightarrow> uuid) \<Rightarrow> time \<Rightarrow> uuid \<Rightarrow> stays_db \<Rightarrow> unit result \<times> stays_db" where
  "syncFromBooking env off gen now bookingId db =
     (case (find_booking bookingId db, conversation_of_booking bookingId db) of
        (Some b, Some conv) \<Rightarrow>
          if bk_status b = CANCELLED_BY_GUEST \<or> bk_status b = CANCELLED_BY_HOST
          then (Inr (), update_conversation (cv_id conv) (locked_row now conv) db)
          else if bk_status b = COMPLETED
          then (if cv_messaging_state conv = ARCHIVED then (Inr (), db)
                else if (case cv_post_stay_ends_at conv of None \<Rightarrow> False | Some t \<Rightarrow> t \<le> now)
                        \<and> \<not> cv_auto_archive_disabled conv
                then archiveConversation gen now (cv_id conv) ''AUTO'' db
                else enterPostStay env off gen now bookingId db)
          else (Inr (), db)
      | _ \<Rightarrow> (Inr (), db))"

definition reopened_row ::
    "time option \<Rightarrow> bool option \<Rightarrow> string option \<Rightarrow> conversation \<Rightarrow> conversation \<Rightarrow> conversation" where
  "reopened_row ends disableAutoArchive reason conv c =
     c\<lparr>cv_messaging_state := ACTIVE, cv_guest_visibility := V_ACTIVE, cv_host_visibility := V_ACTIVE,
       cv_archived_at := None, cv_read_only_at := None, cv_archive_reason := None,
       cv_post_stay_ends_at := ends, cv_auto_archive_disabled := (disableAutoArchive = Some True),
       cv_auto_archive_disabled_reason :=
         (if disableAutoArchive = Some True
          then Some (case reason of None \<Rightarrow> ''manual'' | Some r \<Rightarrow> r) else None),
       cv_conversation_version := cv_conversation_version conv + 1\<rparr>"

definition reopenConversation ::
    "env \<Rightarrow> int \<Rightarrow> uuid \<Rightarrow> string option \<Rightarrow> bool option \<Rightarrow> stays_db \<Rightarrow> conversation result \<times> stays_db" where
  "reopenConversation env off conversationId reason disableAutoArchive db =
     (case find_conversation conversationId db of
        None \<Rightarrow> (Inl (Not_Found ''Conversation not found''), db)
      | Some conv \<Rightarrow>
          let b = booking_of conv db;
              l = listing_of b db;
              recompute = ((case b of None \<Rightarrow> False | Some x \<Rightarrow> bk_status x = COMPLETED)
                           \<and> disableAutoArchive \<noteq> Some True);
              ends = (if recompute then computePostStayEndsAt env off (the b) l else cv_post_stay_ends_at conv)
          in if recompute \<and> ends = None then (Inl (Server_Error ''Invalid time value''), db)
             else
               let db1 = update_conversation (cv_id conv) (reopened_row ends disableAutoArchive reason conv) db
               in case find_conversation conversationId db1 of
                    None \<Rightarrow> (Inl (Not_Found ''Conversation not found''), db1)
                  | Some updated \<Rightarrow> (Inr updated, db1))"

definition due_for_archive :: "time \<Rightarrow> conversation \<Rightarrow> bool" where
  "due_for_archive now c \<longleftrightarrow>
     cv_type c = ''BOOKING'' \<and> cv_messaging_state c = ACTIVE \<and>
     (case cv_post_stay_ends_at c of None \<Rightarrow> False | Some t \<Rightarrow> t \<le> now) \<and> \<not> cv_auto_archive_disabled c"

fun archive_each :: "(nat \<Rightarrow> nat \<Rightarrow> uuid) \<Rightarrow> time \<Rightarrow> nat \<Rightarrow> conversation list \<Rightarrow> stays_db \<Rightarrow> stays_db" where
  "archive_each gen now k [] db = db"
| "archive_each gen now k (c # cs) db =
     archive_each gen now (Suc k) cs (snd (archiveConversation (gen k) now (cv_id c) ''AUTO'' db))"

definition archiveDueConversations :: "(nat \<Rightarrow> nat \<Rightarrow> uuid) \<Rightarrow> time \<Rightarrow> stays_db \<Rightarrow> nat \<times> stays_db" where
  "archiveDueConversations gen now db =
     (let due = filter (due_for_archive now) (conversations db)
      in (length due, archive_each gen now 0 due db))"

section \<open>permissions.service.ts\<close>

record conversation_permissions =
  canSend :: bool
  canUpload :: bool
  canCall :: bool
  canReport :: bool
  canBlock :: bool
  canReviewStay :: bool
  viewerRole :: viewer_role
  isReadOnly :: bool
  canArchive :: bool
  canDelete :: bool
  notificationLevel :: notification_level

definition denied :: conversation_permissions where
  "denied = \<lparr>canSend = False, canUpload = False, canCall = False, canReport = False, canBlock = False,
     canReviewStay = False, viewerRole = Guest_Role, isReadOnly = True, canArchive = False,
     canDelete = False, notificationLevel = N_ALL\<rparr>"

definition read_only_state :: "conversation \<Rightarrow> bool \<Rightarrow> bool" where
  "read_only_state c ticketClosed \<longleftrightarrow>
     cv_messaging_state c = READ_ONLY \<or> cv_messaging_state c = ARCHIVED \<or> cv_messaging_state c = LOCKED
     \<or> ticketClosed"

definition resolve :: "conversation \<Rightarrow> uuid \<Rightarrow> bool \<Rightarrow> bool \<Rightarrow> conversation_permissions" where
  "resolve c userId isAdmin ticketClosed =
     (let isGuest = (cv_guest_user_id c = Some userId);
          isHost = (cv_host_user_id c = Some userId);
          isSupportAdmin = (isAdmin \<and> cv_type c = ''SUPPORT'')
      in if \<not> isGuest \<and> \<not> isHost \<and> \<not> isSupportAdmin then denied
         else if isSupportAdmin \<and> \<not> isGuest \<and> \<not> isHost
         then let ro = read_only_state c ticketClosed
              in \<lparr>canSend = \<not> ro, canUpload = \<not> ro, canCall = False, canReport = False, canBlock = False,
                  canReviewStay = False, viewerRole = Host_Role, isReadOnly = ro, canArchive = False,
                  canDelete = False, notificationLevel = N_ALL\<rparr>
         else let blocked = (isGuest \<and> cv_blocked_by_host c \<or> isHost \<and> cv_blocked_by_guest c);
                  ro = (read_only_state c ticketClosed \<or> blocked)
              in \<lparr>canSend = \<not> ro \<and> \<not> blocked,
                  canUpload = \<not> ro \<and> \<not> blocked,
                  canCall = isGuest \<and> \<not> blocked \<and> cv_messaging_state c = ACTIVE,
                  canReport = \<not> blocked \<and> cv_type c \<noteq> ''SUPPORT'',
                  canBlock = \<not> blocked,
                  canReviewStay = isGuest \<and> cv_messaging_state c \<noteq> LOCKED,
                  viewerRole = (if isGuest then Guest_Role else Host_Role),
                  isReadOnly = ro, canArchive = True, canDelete = True,
                  notificationLevel = (if isGuest then cv_notification_level_guest c
                                       else cv_notification_level_host c)\<rparr>)"

definition isParticipant :: "conversation \<Rightarrow> uuid \<Rightarrow> bool \<Rightarrow> bool" where
  "isParticipant c userId isAdmin =
     (if cv_guest_user_id c = Some userId \<or> cv_host_user_id c = Some userId then True
      else isAdmin \<and> cv_type c = ''SUPPORT'')"

definition visibilityFor :: "conversation \<Rightarrow> uuid \<Rightarrow> participant_visibility" where
  "visibilityFor c userId =
     (if cv_guest_user_id c = Some userId then cv_guest_visibility c
      else if cv_host_user_id c = Some userId then cv_host_visibility c else V_DELETED)"

section \<open>rate-limit.service.ts\<close>

record rate_bucket =
  timestamps :: "time list"
  bodies :: "string \<rightharpoonup> time list"

type_synonym rate_buckets = "string \<rightharpoonup> rate_bucket"

definition perMinute :: nat where "perMinute = 10"
definition perDay :: nat where "perDay = 500"
definition identicalPerMinute :: nat where "identicalPerMinute = 5"

text \<open>The rejected call still leaves the pruned bucket behind.\<close>

definition check_bucket :: "time \<Rightarrow> string \<Rightarrow> rate_bucket \<Rightarrow> unit result \<times> rate_bucket" where
  "check_bucket now body bucket =
     (let pruned = bucket\<lparr>timestamps := filter (\<lambda>t. now - t < 86400000) (timestamps bucket)\<rparr>;
          lastMinute = filter (\<lambda>t. now - t < 60000) (timestamps pruned)
      in if length lastMinute \<ge> perMinute
         then (Inl (Too_Many_Requests ''Rate limit exceeded''), pruned)
         else if length (timestamps pruned) \<ge> perDay
         then (Inl (Too_Many_Requests ''Daily message limit exceeded''), pruned)
         else
           let normalized = js_lower (js_trim body);
               bodyTimes = (case bodies pruned normalized of None \<Rightarrow> [] | Some ts \<Rightarrow> ts);
               recentBodies = filter (\<lambda>t. now - t < 60000) bodyTimes
           in if length recentBodies \<ge> identicalPerMinute
              then (Inl (Too_Many_Requests ''Duplicate message limit exceeded''), pruned)
              else (Inr (), pruned\<lparr>bodies := (bodies pruned)(normalized \<mapsto> recentBodies @ [now]),
                       timestamps := timestamps pruned @ [now]\<rparr>))"

definition assertCanSend ::
    "time \<Rightarrow> uuid \<Rightarrow> uuid \<Rightarrow> string \<Rightarrow> rate_buckets \<Rightarrow> unit result \<times> rate_buckets" where
  "assertCanSend now userId conversationId body buckets =
     (let key = userId @ '':'' @ conversationId;
          bucket = (case buckets key of None \<Rightarrow> \<lparr>timestamps = [], bodies = Map.empty\<rparr> | Some b \<Rightarrow> b);
          (r, bucket') = check_bucket now body bucket
      in (r, buckets(key \<mapsto> bucket')))"

section \<open>Rate limits over time\<close>

text \<open>
  \<open>accepted_history admits h\<close>: the times \<open>h\<close>, in order, were each admitted after the ones before.
\<close>

inductive accepted_history :: "(time list \<Rightarrow> time \<Rightarrow> bool) \<Rightarrow> time list \<Rightarrow> bool"
  for admits :: "time list \<Rightarrow> time \<Rightarrow> bool" where
  empty: "accepted_history admits []"
| accept: "accepted_history admits h \<Longrightarrow> \<forall>t\<in>set h. t \<le> now \<Longrightarrow> admits h now \<Longrightarrow>
    accepted_history admits (h @ [now])"

locale window_limiter =
  fixes limit :: nat and win :: int and admits :: "time list \<Rightarrow> time \<Rightarrow> bool"
  assumes admits_few: "admits h now \<Longrightarrow> length (filter (\<lambda>t. now - t < win) h) < limit"
begin

lemma window_bound:
  "accepted_history admits h \<Longrightarrow> length (filter (\<lambda>t. w \<le> t \<and> t < w + win) h) \<le> limit"
proof (induction rule: accepted_history.induct)
  case (accept h now)
  show ?case
  proof (cases "w \<le> now \<and> now < w + win")
    case True
    have "filter (\<lambda>t. w \<le> t \<and> t < w + win) h =
        filter (\<lambda>t. w \<le> t \<and> t < w + win) (filter (\<lambda>t. now - t < win) h)"
      using True by (auto simp: filter_filter intro: filter_cong)
    then have "length (filter (\<lambda>t. w \<le> t \<and> t < w + win) h) \<le> length (filter (\<lambda>t. now - t < win) h)"
      by (metis length_filter_le)
    with admits_few [OF accept(3)] True show ?thesis by simp
  qed (use accept in auto)
qed simp

end

definition bucket_admits :: "time list \<Rightarrow> time \<Rightarrow> bool" where
  "bucket_admits h now \<longleftrightarrow>
     (\<exists>body bs. is_ok (fst (check_bucket now body \<lparr>timestamps = h, bodies = bs\<rparr>)))"

lemma check_bucket_ok:
  "is_ok (fst (check_bucket now body b)) \<longleftrightarrow>
     length (filter (\<lambda>t. now - t < 60000) (timestamps b)) < perMinute \<and>
     length (filter (\<lambda>t. now - t < 86400000) (timestamps b)) < perDay \<and>
     length (filter (\<lambda>t. now - t < 60000)
       (case bodies b (js_lower (js_trim body)) of None \<Rightarrow> [] | Some ts \<Rightarrow> ts)) < identicalPerMinute"
proof -
  have "filter (\<lambda>t. now - t < 60000) (filter (\<lambda>t. now - t < 86400000) (timestamps b)) =
      filter (\<lambda>t. now - t < 60000) (timestamps b)"
    by (auto simp: filter_filter intro: filter_cong)
  then show ?thesis by (auto simp: check_bucket_def Let_def)
qed

interpretation minute_limit: window_limiter perMinute 60000 bucket_admits
  by unfold_locales (auto simp: bucket_admits_def check_bucket_ok)

interpretation daily_limit: window_limiter perDay 86400000 bucket_admits
  by unfold_locales (auto simp: bucket_admits_def check_bucket_ok)

text \<open>The accepted times of a sequence of send attempts of one user in one conversation.\<close>

fun run_sends :: "(time \<times> string) list \<Rightarrow> rate_bucket \<Rightarrow> time list" where
  "run_sends [] b = []"
| "run_sends ((now, body) # cs) b =
     (case check_bucket now body b of
        (Inl _, b') \<Rightarrow> run_sends cs b'
      | (Inr _, b') \<Rightarrow> now # run_sends cs b')"

text \<open>A bucket that holds the last day of a history decides as the whole history would.\<close>

definition holds_last_day :: "time \<Rightarrow> time list \<Rightarrow> rate_bucket \<Rightarrow> bool" where
  "holds_last_day now h b \<longleftrightarrow>
     (\<forall>now'\<ge>now. filter (\<lambda>t. now' - t < 86400000) (timestamps b) = filter (\<lambda>t. now' - t < 86400000) h)"

lemma holds_last_day_mono: "holds_last_day now h b \<Longrightarrow> now \<le> now' \<Longrightarrow> holds_last_day now' h b"
  by (auto simp: holds_last_day_def)

lemma filter_refine: "(\<And>x. p x \<Longrightarrow> q x) \<Longrightarrow> filter q xs = filter q ys \<Longrightarrow> filter p xs = filter p ys"
  by (metis (mono_tags, lifting) filter_cong filter_filter)

lemma check_bucket_history:
  assumes "holds_last_day now h b" and "is_ok (fst (check_bucket now body b))"
  shows "bucket_admits h now"
proof -
  have day: "filter (\<lambda>t. now - t < 86400000) (timestamps b) = filter (\<lambda>t. now - t < 86400000) h"
    using assms(1) by (simp add: holds_last_day_def)
  have "filter (\<lambda>t. now - t < 60000) (timestamps b) = filter (\<lambda>t. now - t < 60000) h"
    by (rule filter_refine [OF _ day]) auto
  then have "is_ok (fst (check_bucket now body \<lparr>timestamps = h, bodies = bodies b\<rparr>))"
    using assms(2) day by (simp add: check_bucket_ok)
  then show ?thesis unfolding bucket_admits_def by blast
qed

lemma check_bucket_timestamps:
  "timestamps (snd (check_bucket now body b)) =
     filter (\<lambda>t. now - t < 86400000) (timestamps b) @ (if is_ok (fst (check_bucket now body b)) then [now] else [])"
  by (auto simp: check_bucket_def Let_def)

lemma check_bucket_holds:
  assumes "holds_last_day now h b"
  shows "holds_last_day now (if is_ok (fst (check_bucket now body b)) then h @ [now] else h)
    (snd (check_bucket now body b))"
proof -
  have "filter (\<lambda>t. now' - t < 86400000) (filter (\<lambda>t. now - t < 86400000) (timestamps b)) =
      filter (\<lambda>t. now' - t < 86400000) h" if "now \<le> now'" for now'
  proof -
    have "filter (\<lambda>t. now' - t < 86400000) (filter (\<lambda>t. now - t < 86400000) (timestamps b)) =
        filter (\<lambda>t. now' - t < 86400000) (timestamps b)"
      unfolding filter_filter using that by (intro filter_cong) auto
    with assms that show ?thesis by (simp only: holds_last_day_def)
  qed
  then show ?thesis by (auto simp: holds_last_day_def check_bucket_timestamps)
qed

lemma run_sends_history:
  assumes "sorted (map fst cs)" and "accepted_history bucket_admits h"
    and "\<forall>t\<in>set h. \<forall>c\<in>set cs. t \<le> fst c" and "cs = [] \<or> holds_last_day (fst (hd cs)) h b"
  shows "accepted_history bucket_admits (h @ run_sends cs b)"
  using assms
proof (induction cs arbitrary: h b)
  case Nil
  then show ?case by simp
next
  case (Cons c cs)
  obtain now body where c: "c = (now, body)" by (cases c)
  obtain r b' where r: "check_bucket now body b = (r, b')" by (cases "check_bucket now body b")
  have h: "holds_last_day now h b" using Cons.prems(4) c by simp
  define h' where "h' = (if is_ok r then h @ [now] else h)"
  have hd: "holds_last_day now h' b'" using check_bucket_holds [OF h, of body] r by (simp add: h'_def)
  have acc: "accepted_history bucket_admits h'"
    using Cons.prems(2,3) c check_bucket_history [OF h, of body] r
    by (auto simp: h'_def intro!: accepted_history.accept)
  have later: "now \<le> fst d" if "d \<in> set cs" for d using Cons.prems(1) c that by auto
  have "cs = [] \<or> holds_last_day (fst (hd cs)) h' b'"
    using hd later by (cases cs) (auto intro: holds_last_day_mono)
  moreover have "\<forall>t\<in>set h'. \<forall>d\<in>set cs. t \<le> fst d"
    using Cons.prems(3) later by (auto simp: h'_def)
  ultimately have "accepted_history bucket_admits (h' @ run_sends cs b')"
    using Cons.IH [of h' b'] Cons.prems(1) acc by simp
  then show ?case by (cases r) (auto simp: c r h'_def)
qed

definition empty_bucket :: rate_bucket where
  "empty_bucket = \<lparr>timestamps = [], bodies = Map.empty\<rparr>"

lemma run_sends_accepted:
  assumes "sorted (map fst cs)"
  shows "accepted_history bucket_admits (run_sends cs empty_bucket)"
  using run_sends_history [OF assms accepted_history.empty, of empty_bucket]
  by (simp add: empty_bucket_def holds_last_day_def)

section \<open>Permissions\<close>

lemma canSend_iff:
  "canSend (resolve c u adm ticket_closed) \<longleftrightarrow>
     isParticipant c u adm \<and> cv_messaging_state c = ACTIVE \<and> \<not> ticket_closed \<and>
     \<not> (cv_guest_user_id c = Some u \<and> cv_blocked_by_host c) \<and>
     \<not> (cv_host_user_id c = Some u \<and> cv_blocked_by_guest c)"
  by (cases "cv_messaging_state c")
    (auto simp: resolve_def isParticipant_def denied_def read_only_state_def Let_def)

section \<open>Conversation states\<close>

text \<open>\<open>others_kept i db db'\<close>: conversations other than \<open>i\<close> are rows of the earlier table.\<close>

definition others_kept :: "uuid \<Rightarrow> stays_db \<Rightarrow> stays_db \<Rightarrow> bool" where
  "others_kept i db db' \<longleftrightarrow>
     map cv_id (conversations db') = map cv_id (conversations db) \<and>
     (\<forall>c\<in>set (conversations db'). cv_id c \<noteq> i \<longrightarrow> c \<in> set (conversations db))"

lemma others_kept_refl [simp]: "others_kept i db db"
  by (simp add: others_kept_def)

lemma others_kept_trans: "others_kept i a b \<Longrightarrow> others_kept i b c \<Longrightarrow> others_kept i a c"
  by (auto simp: others_kept_def)

lemma others_kept_update:
  assumes "\<And>c. cv_id (f c) = cv_id c"
  shows "others_kept i db (update_conversation i f db)"
  unfolding others_kept_def using map_update_conversation [of cv_id f i db] assms
  by (auto simp: update_conversation_def set_update_where)

lemma others_kept_insertMessage:
  "insertMessage k now conv sd sid cid nm db = (r, db') \<Longrightarrow> others_kept (cv_id conv) db db'"
proof (cases "find_conversation (cv_id conv) db")
  case (Some c)
  assume "insertMessage k now conv sd sid cid nm db = (r, db')"
  then have "db' = update_conversation (cv_id conv)
      (after_message now c (message_row k now c (next_sequence c db) sd sid cid) nm)
      (db\<lparr>messages := messages db @ [message_row k now c (next_sequence c db) sd sid cid]\<rparr>)"
    unfolding insertMessage_eq [OF Some] find_conversation_id [OF Some] by simp
  then show ?thesis
    using others_kept_update [of "after_message now c (message_row k now c (next_sequence c db) sd sid cid) nm"
        "cv_id conv" "db\<lparr>messages := messages db @ [message_row k now c (next_sequence c db) sd sid cid]\<rparr>"]
    by (simp add: others_kept_def)
qed (simp add: insertMessage_None)

lemma update_conversation_all:
  assumes "\<And>c. cv_id (f c) = cv_id c" and "\<And>c. P (f c)"
  shows "\<forall>c\<in>set (conversations (update_conversation i f db)). cv_id c = i \<longrightarrow> P c"
  using assms by (auto simp: update_conversation_def set_update_where split: if_splits)

lemma row_ids [simp]:
  "cv_id (archived_row now rs conv c) = cv_id c" "cv_id (post_stay_row e conv c) = cv_id c"
  "cv_id (locked_row now conv c) = cv_id c" "cv_id (reopened_row e d r conv c) = cv_id c"
  by (simp_all add: archived_row_def post_stay_row_def locked_row_def reopened_row_def)

lemma row_states [simp]:
  "cv_messaging_state (archived_row now rs conv c) = ARCHIVED"
  "cv_messaging_state (post_stay_row e conv c) = ACTIVE"
  "cv_messaging_state (locked_row now conv c) = LOCKED"
  "cv_messaging_state (reopened_row e d r conv c) = ACTIVE"
  by (simp_all add: archived_row_def post_stay_row_def locked_row_def reopened_row_def)

lemma seedConversationArchived_ok:
  assumes "find_conversation (cv_id conv) db = Some c"
  obtains m db1 where "seedConversationArchived k now conv bid db = (Inr m, db1)"
    and "others_kept (cv_id conv) db db1" and "appended (cv_id conv) [M_SYSTEM_NOTICE] db [m] db1"
proof -
  obtain m db1 where r: "seedConversationArchived k now conv bid db = (Inr m, db1)"
    unfolding seedConversationArchived_def insertMessage_eq [OF assms] by blast
  show thesis
    by (rule that [OF r])
      (use r in \<open>auto simp: seedConversationArchived_def dest: others_kept_insertMessage insertMessage_appended\<close>)
qed

text \<open>Archiving a conversation that exists and is not archived yet succeeds.\<close>

lemma archive_body_ok:
  assumes "find_conversation (cv_id conv) db = Some c"
  obtains db1 where "archive_body k now conv bid rs db =
      (Inr (), update_conversation (cv_id conv) (archived_row now rs conv) db1)"
    and "others_kept (cv_id conv) db db1" and "messaging_only db db1"
proof (cases "has_message (cv_id conv) M_SYSTEM_NOTICE db")
  case True
  show ?thesis by (rule that [of db]) (simp_all add: archive_body_def True)
next
  case False
  obtain m db1 where "seedConversationArchived k now conv bid db = (Inr m, db1)"
    "others_kept (cv_id conv) db db1" "appended (cv_id conv) [M_SYSTEM_NOTICE] db [m] db1"
    by (rule seedConversationArchived_ok [OF assms])
  then show ?thesis by (intro that [of db1]) (simp_all add: archive_body_def False appended_def)
qed

lemma archiveConversation_effect:
  assumes "find_conversation i db = Some conv" and "cv_messaging_state conv \<noteq> ARCHIVED"
    and "archiveConversation gen now i rs db = (r, db')"
  shows "r = Inr ()" and "others_kept i db db'"
    and "\<forall>c\<in>set (conversations db'). cv_id c = i \<longrightarrow> cv_messaging_state c = ARCHIVED"
    and "bookings db' = bookings db"
proof -
  note i = find_conversation_id [OF assms(1)]
  define bid where "bid = or_else (map_option bk_id (booking_of conv db)) (cv_booking_id conv)"
  obtain db1 where body: "archive_body (gen 0) now conv bid rs db =
      (Inr (), update_conversation i (archived_row now rs conv) db1)"
    and kept: "others_kept i db db1" "messaging_only db db1"
    using archive_body_ok [of conv db conv "gen 0" now bid rs] assms(1) i by auto
  define db2 where "db2 = update_conversation i (archived_row now rs conv) db1"
  have tr: "transaction (archive_body (gen 0) now conv bid rs) db = (Inr (), db2)"
    by (simp add: transaction_def body db2_def)
  have eq: "r = Inr () \<and> (db' = db2 \<or> (\<exists>p. db' = publish ''EVENTS.CONVERSATION_ARCHIVED'' p db2))"
    using assms(3) by (auto simp: archiveConversation_def assms(1,2) Let_def tr bid_def [symmetric] split: if_splits)
  then show "r = Inr ()" by simp
  have conv: "conversations db' = conversations db2" and bk: "bookings db' = bookings db2" using eq by auto
  show "others_kept i db db'"
    using others_kept_trans [OF kept(1) others_kept_update [of "archived_row now rs conv" i db1]]
    by (simp add: others_kept_def conv db2_def)
  show "\<forall>c\<in>set (conversations db'). cv_id c = i \<longrightarrow> cv_messaging_state c = ARCHIVED"
    unfolding conv db2_def by (rule update_conversation_all) simp_all
  show "bookings db' = bookings db"
    using kept(2) by (simp add: bk db2_def update_conversation_def messaging_only_def)
qed

lemma archiveConversation_skip:
  "find_conversation i db = None \<or> (\<exists>c. find_conversation i db = Some c \<and> cv_messaging_state c = ARCHIVED) \<Longrightarrow>
     archiveConversation gen now i rs db = (Inr (), db)"
  by (auto simp: archiveConversation_def)

lemma find_conversation_mem:
  assumes "find_conversation i db = Some c"
  shows "c \<in> set (conversations db)" and "i \<in> cv_id ` set (conversations db)"
  using find_where_Some [OF assms [unfolded find_conversation_def]] by auto

lemma keyed_found:
  "keyed cv_id (conversations db) \<Longrightarrow> c \<in> set (conversations db) \<Longrightarrow> find_conversation (cv_id c) db = Some c"
  by (simp add: find_conversation_def keyed_find_where)

lemma archiveConversation_done:
  assumes "archiveConversation gen now i rs db = (r, db')" and "keyed cv_id (conversations db)"
  shows "others_kept i db db'"
    and "\<forall>c\<in>set (conversations db'). cv_id c = i \<longrightarrow> cv_messaging_state c = ARCHIVED"
proof -
  have "others_kept i db db' \<and> (\<forall>c\<in>set (conversations db'). cv_id c = i \<longrightarrow> cv_messaging_state c = ARCHIVED)"
  proof (cases "\<exists>conv. find_conversation i db = Some conv \<and> cv_messaging_state conv \<noteq> ARCHIVED")
    case True
    then show ?thesis using archiveConversation_effect(2,3) assms(1) by metis
  next
    case False
    then have "db' = db" using assms(1) archiveConversation_skip [of i db gen now rs]
      by (cases "find_conversation i db") auto
    then show ?thesis using False keyed_found [OF assms(2)] by auto
  qed
  then show "others_kept i db db'"
    and "\<forall>c\<in>set (conversations db'). cv_id c = i \<longrightarrow> cv_messaging_state c = ARCHIVED" by auto
qed

lemma archive_each_done:
  assumes "keyed cv_id (conversations db)" and "c \<in> set (conversations (archive_each gen now k cs db))"
    and "due_for_archive now c"
  shows "cv_id c \<notin> cv_id ` set cs \<and> c \<in> set (conversations db)"
  using assms
proof (induction cs arbitrary: k db)
  case Nil
  then show ?case by simp
next
  case (Cons d cs)
  obtain r db1 where r: "archiveConversation (gen k) now (cv_id d) ''AUTO'' db = (r, db1)"
    by (cases "archiveConversation (gen k) now (cv_id d) ''AUTO'' db")
  note e = archiveConversation_done [OF r Cons.prems(1)]
  have "keyed cv_id (conversations db1)" using Cons.prems(1) e(1) by (simp add: keyed_def others_kept_def)
  moreover have "c \<in> set (conversations (archive_each gen now (Suc k) cs db1))"
    using Cons.prems(2) r by simp
  ultimately have IH: "cv_id c \<notin> cv_id ` set cs" "c \<in> set (conversations db1)"
    using Cons.IH [of db1 "Suc k"] Cons.prems(3) by auto
  have "cv_id c \<noteq> cv_id d" using e(2) IH(2) Cons.prems(3) by (auto simp: due_for_archive_def)
  then show ?case using IH e(1) by (auto simp: others_kept_def)
qed

lemma archiveDue_none_left:
  assumes "keyed cv_id (conversations db)" and "archiveDueConversations gen now db = (n, db')"
  shows "filter (due_for_archive now) (conversations db') = []"
  unfolding filter_empty_conv
proof
  fix c
  assume c: "c \<in> set (conversations db')"
  have db': "db' = archive_each gen now 0 (filter (due_for_archive now) (conversations db)) db"
    using assms(2) by (simp add: archiveDueConversations_def Let_def)
  show "\<not> due_for_archive now c"
    using archive_each_done [OF assms(1) c [unfolded db']] by auto
qed

text \<open>Cancelling locks the conversation: nobody may write any more.\<close>

lemma sync_cancelled:
  assumes "find_booking i db = Some b" and "bk_status b = CANCELLED_BY_GUEST \<or> bk_status b = CANCELLED_BY_HOST"
    and "conversation_of_booking i db = Some conv"
    and "syncFromBooking env off gen now i db = (r, db')"
  shows "r = Inr ()" and "\<forall>c\<in>set (conversations db'). cv_id c = cv_id conv \<longrightarrow> cv_messaging_state c = LOCKED"
    and "messaging_only db db'"
proof -
  have e: "r = Inr ()" "db' = update_conversation (cv_id conv) (locked_row now conv) db"
    using assms by (auto simp: syncFromBooking_def)
  then show "r = Inr ()" "messaging_only db db'" by simp_all
  show "\<forall>c\<in>set (conversations db'). cv_id c = cv_id conv \<longrightarrow> cv_messaging_state c = LOCKED"
    unfolding e(2) by (rule update_conversation_all) simp_all
qed

section \<open>Versions\<close>

text \<open>
  Every inserted message raises \<open>conversation_version\<close> by one. \<open>enterPostStay\<close> read the
  conversation before its transaction, so its final update writes the version it read plus one
  and takes back what the two seeded messages added.
\<close>

definition version_of :: "uuid \<Rightarrow> stays_db \<Rightarrow> int option" where
  "version_of i db = map_option cv_conversation_version (find_conversation i db)"

lemma find_update_conversation:
  assumes "\<And>c. cv_id (f c) = cv_id c" and "find_conversation i db = Some c"
  shows "find_conversation i (update_conversation i f db) = Some (f c)"
proof -
  have "find_where (\<lambda>c. cv_id c = i) (update_where (\<lambda>c. cv_id c = i) f rows) =
      map_option f (find_where (\<lambda>c. cv_id c = i) rows)" for rows
    using assms(1) by (induction rows) auto
  then show ?thesis using assms(2) by (simp add: find_conversation_def update_conversation_def)
qed

lemma insertMessage_version:
  assumes "version_of (cv_id conv) db = Some v"
    and "insertMessage k now conv sd sid cid nm db = (r, db')"
  shows "version_of (cv_id conv) db' = Some (v + 1)"
proof -
  obtain c where c: "find_conversation (cv_id conv) db = Some c" "cv_conversation_version c = v"
    using assms(1) by (auto simp: version_of_def)
  define m where "m = message_row k now c (next_sequence c db) sd sid cid"
  have "db' = update_conversation (cv_id conv) (after_message now c m nm) (db\<lparr>messages := messages db @ [m]\<rparr>)"
    using assms(2) unfolding insertMessage_eq [OF c(1)] find_conversation_id [OF c(1)] m_def by simp
  moreover have "find_conversation (cv_id conv) (db\<lparr>messages := messages db @ [m]\<rparr>) = Some c"
    using c(1) by (simp add: find_conversation_def)
  ultimately have "find_conversation (cv_id conv) db' = Some (after_message now c m nm c)"
    by (simp add: find_update_conversation)
  then show ?thesis using c(2) by (simp add: version_of_def after_message_def Let_def)
qed

lemma insert_seeds_version:
  "version_of (cv_id conv) db = Some v \<Longrightarrow> insert_seeds gen now conv k sds db = (Inr ms, db') \<Longrightarrow>
     version_of (cv_id conv) db' = Some (v + int (length sds))"
proof (induction sds arbitrary: k db v ms)
  case (Cons sd sds)
  obtain m db1 ms1 where "insertMessage (gen k) now conv sd None None None db = (Inr m, db1)"
    and r: "insert_seeds gen now conv (Suc k) sds db1 = (Inr ms1, db')"
    using Cons.prems(2) by (auto split: prod.splits sum.splits)
  then have "version_of (cv_id conv) db1 = Some (v + 1)"
    using insertMessage_version [OF Cons.prems(1)] by blast
  from Cons.IH [OF this r] show ?case by simp
qed simp

lemma post_stay_version:
  assumes "version_of (cv_id conv) db = Some v" and "cv_conversation_version conv = v"
    and "\<not> has_message (cv_id conv) M_REVIEW_CARD db" and "ends \<noteq> None"
  obtains ms db1 db2 where "seedCheckoutComplete gen now conv b db = (Inr ms, db1)"
    and "version_of (cv_id conv) db1 = Some (v + 2)"
    and "post_stay_body gen now conv b ends db = (Inr (), db2)"
    and "version_of (cv_id conv) db2 = Some (v + 1)"
proof -
  have "cv_id conv \<in> set (map cv_id (conversations db))"
    using assms(1) find_conversation_mem by (auto simp: version_of_def)
  then obtain ms db1 where ms: "seedCheckoutComplete gen now conv b db = (Inr ms, db1)"
    unfolding seedCheckoutComplete_def using insert_seeds_ok by blast
  have v1: "version_of (cv_id conv) db1 = Some (v + 2)"
    using insert_seeds_version [OF assms(1) ms [unfolded seedCheckoutComplete_def]]
    by (simp add: checkout_seeds_def Let_def)
  then obtain c where "find_conversation (cv_id conv) db1 = Some c" by (auto simp: version_of_def)
  then have "version_of (cv_id conv) (update_conversation (cv_id conv) (post_stay_row ends conv) db1) = Some (v + 1)"
    using assms(2) by (simp add: version_of_def find_update_conversation) (simp add: post_stay_row_def)
  then show ?thesis
    using assms(3,4) by (intro that [OF ms v1]) (simp_all add: post_stay_body_def ms)
qed

section \<open>What the state service leaves alone\<close>

lemma update_conversation_core [simp]: "core_same db (update_conversation i f db') \<longleftrightarrow> core_same db db'"
  by (simp add: core_same_def update_conversation_def)

lemma insertMessage_core: "core_same db (snd (insertMessage i now conv sd sid cid nm db))"
  by (auto simp: insertMessage_def Let_def split: option.splits) (simp add: core_same_def)

lemma insert_seeds_core: "core_same db (snd (insert_seeds gen now conv k sds db))"
proof (induction sds arbitrary: k db)
  case (Cons sd sds)
  obtain r d where m: "insertMessage (gen k) now conv sd None None None db = (r, d)" by fastforce
  obtain r' d' where s: "insert_seeds gen now conv (Suc k) sds d = (r', d')" by fastforce
  have "core_same db d" using insertMessage_core [of db "gen k" now conv sd None None None] m by simp
  moreover have "core_same d d'" using Cons [of d "Suc k"] s by simp
  ultimately show ?case by (cases r; cases r') (auto simp: m s intro: core_same_trans)
qed simp

lemma post_stay_core: "core_same db (snd (post_stay_body gen now conv b ends db))"
  using insert_seeds_core [of db gen now conv 0 "checkout_seeds conv b"]
  by (auto simp: post_stay_body_def seedCheckoutComplete_def split: prod.splits sum.splits if_splits)

lemma enterPostStay_core: "core_same db (snd (enterPostStay env off gen now i db))"
  by (auto simp: enterPostStay_def Let_def split: option.splits intro!: transaction_core post_stay_core)

lemma archive_body_core: "core_same db (snd (archive_body k now conv bid rs db))"
  using insertMessage_core by (auto simp: archive_body_def seedConversationArchived_def split: prod.splits sum.splits if_splits) (metis snd_conv)+

lemma archiveConversation_core: "core_same db (snd (archiveConversation gen now i rs db))"
proof -
  have "core_same db (snd (transaction (archive_body k now conv bid rs) db))" for k conv bid
    by (rule transaction_core) (rule archive_body_core)
  then show ?thesis
    by (auto simp: archiveConversation_def Let_def split: option.splits prod.splits sum.splits) (metis snd_conv)+
qed

lemma syncFromBooking_core: "core_same db (snd (syncFromBooking env off gen now i db))"
  by (auto simp: syncFromBooking_def archiveConversation_core enterPostStay_core split: option.splits)

lemma archiveDue_core: "core_same db (snd (archiveDueConversations gen now db))"
proof -
  have "core_same db (archive_each gen now k cs db)" for k cs db
    by (induction cs arbitrary: k db) (simp, metis archive_each.simps(2) archiveConversation_core core_same_trans)
  then show ?thesis by (simp add: archiveDueConversations_def Let_def)
qed

section \<open>Properties\<close>

text \<open>
  C28: in any run of send attempts of one user in one conversation at times that do not go back,
  every window of a minute holds at most 10 accepted sends and every window of a day at most 500, not
  only the windows that end at an attempt.
\<close>

theorem send_rate_limits:
  assumes "sorted (map fst cs)"
  shows "length (filter (\<lambda>t. w \<le> t \<and> t < w + 60000) (run_sends cs empty_bucket)) \<le> 10 \<and>
    length (filter (\<lambda>t. w \<le> t \<and> t < w + 86400000) (run_sends cs empty_bucket)) \<le> 500"
  using minute_limit.window_bound [OF run_sends_accepted [OF assms], of w]
    daily_limit.window_bound [OF run_sends_accepted [OF assms], of w]
  by (simp add: perMinute_def perDay_def)

theorem send_rate_limits_witness:
  "length (filter (\<lambda>t. 0 \<le> t \<and> t < 0 + 60000) (run_sends [(0, ''a''), (10, ''a''), (59999, ''b'')] empty_bucket)) \<le> 10"
  using send_rate_limits [of "[(0, ''a''), (10, ''a''), (59999, ''b'')]" 0] by simp

text \<open>
  Who can send. A user can send in a conversation exactly when they are a participant, the
  conversation is active, its ticket (if it has one) is open and the other side has not blocked them.
\<close>

theorem can_send_exactly:
  "canSend (resolve c u adm ticket_closed) \<longleftrightarrow>
     isParticipant c u adm \<and> cv_messaging_state c = ACTIVE \<and> \<not> ticket_closed \<and>
     \<not> (cv_guest_user_id c = Some u \<and> cv_blocked_by_host c) \<and>
     \<not> (cv_host_user_id c = Some u \<and> cv_blocked_by_guest c)"
  by (rule canSend_iff)

text \<open>
  A run of the archiving job leaves no conversation due: whatever was due is archived, and the
  messages of the job's own notices make nothing else due.
\<close>

theorem archive_job_leaves_none_due:
  assumes "keyed cv_id (conversations db)" and "archiveDueConversations gen now db = (n, db')"
  shows "filter (due_for_archive now) (conversations db') = []"
  using assms by (rule archiveDue_none_left)

theorem archive_job_leaves_none_due_witness:
  "filter (due_for_archive 10) (conversations (snd (archiveDueConversations (\<lambda>i j. ''m'') 10
     (no_rows\<lparr>conversations := [(sample_conversation ''c1'' ''b1'')\<lparr>cv_post_stay_ends_at := Some 9\<rparr>]\<rparr>)))) = []"
  by (rule archive_job_leaves_none_due [OF _ surjective_pairing]) (simp add: keyed_def)

text \<open>
  Synchronising a cancelled booking locks its conversation, touches nothing outside messaging,
  and from then on nobody, not even a participant, can send in it.
\<close>

theorem cancelled_booking_locks_chat:
  assumes "find_booking i db = Some b" and "bk_status b = CANCELLED_BY_GUEST \<or> bk_status b = CANCELLED_BY_HOST"
    and "conversation_of_booking i db = Some conv"
    and "syncFromBooking env off gen now i db = (r, db')"
  shows "r = Inr () \<and> messaging_only db db' \<and>
    (\<forall>c\<in>set (conversations db'). cv_id c = cv_id conv \<longrightarrow> \<not> canSend (resolve c u adm closed_ticket))"
  using sync_cancelled [OF assms] by (auto simp: canSend_iff)

theorem cancelled_booking_locks_chat_witness:
  "filter (\<lambda>c. cv_id c = ''c1'' \<and> canSend (resolve c ''g1'' False False))
     (conversations (snd (syncFromBooking (\<lambda>_. None) 0 (\<lambda>n. ''m'') 10 ''b1''
        (no_rows\<lparr>bookings := [sample_booking ''b1'' CANCELLED_BY_GUEST],
                 conversations := [sample_conversation ''c1'' ''b1'']\<rparr>)))) = []"
proof -
  let ?db = "no_rows\<lparr>bookings := [sample_booking ''b1'' CANCELLED_BY_GUEST],
               conversations := [sample_conversation ''c1'' ''b1'']\<rparr>"
  have "find_booking ''b1'' ?db = Some (sample_booking ''b1'' CANCELLED_BY_GUEST)"
    "bk_status (sample_booking ''b1'' CANCELLED_BY_GUEST) = CANCELLED_BY_GUEST \<or>
       bk_status (sample_booking ''b1'' CANCELLED_BY_GUEST) = CANCELLED_BY_HOST"
    "conversation_of_booking ''b1'' ?db = Some (sample_conversation ''c1'' ''b1'')"
    by (simp_all add: find_booking_def conversation_of_booking_def sample_booking_def sample_conversation_def)
  from cancelled_booking_locks_chat [OF this surjective_pairing] show ?thesis
    by (simp add: sample_conversation_def filter_empty_conv)
qed

text \<open>
  Entering the post-stay phase moves the version of the conversation back. The two messages
  that are seeded first raise it by two, then the row is written with the version read before plus one:
  a client that has seen the seeded messages holds a version above the stored one.
\<close>

theorem post_stay_version_regresses:
  assumes "version_of (cv_id conv) db = Some v" and "cv_conversation_version conv = v"
    and "\<not> has_message (cv_id conv) M_REVIEW_CARD db" and "ends \<noteq> None"
  shows "\<exists>ms db1 db2. seedCheckoutComplete gen now conv b db = (Inr ms, db1) \<and>
    version_of (cv_id conv) db1 = Some (v + 2) \<and>
    post_stay_body gen now conv b ends db = (Inr (), db2) \<and> version_of (cv_id conv) db2 = Some (v + 1)"
  using post_stay_version [OF assms] by metis

theorem post_stay_version_regresses_witness:
  "\<exists>db2. post_stay_body (\<lambda>n. ''m'') 10 (sample_conversation ''c1'' ''b1'') (sample_booking ''b1'' COMPLETED) (Some 99)
      (no_rows\<lparr>conversations := [sample_conversation ''c1'' ''b1'']\<rparr>) = (Inr (), db2) \<and>
    version_of ''c1'' db2 = Some 2"
proof -
  let ?c = "sample_conversation ''c1'' ''b1''" and ?db = "no_rows\<lparr>conversations := [sample_conversation ''c1'' ''b1'']\<rparr>"
  have v: "version_of (cv_id ?c) ?db = Some 1" "cv_conversation_version ?c = 1"
    "\<not> has_message (cv_id ?c) M_REVIEW_CARD ?db" "Some 99 \<noteq> (None :: time option)"
    by (simp_all add: version_of_def find_conversation_def sample_conversation_def has_message_def no_rows_def)
  show ?thesis
    using post_stay_version_regresses [OF v, of "\<lambda>n. ''m''" 10 "sample_booking ''b1'' COMPLETED"]
    by (auto simp: sample_conversation_def)
qed

end
