(* ===== verification/Payments.thy ===== *)
theory Payments
  imports PaymentConfig Availability MessagingState
begin

text \<open>
  \<^verbatim>\<open>stays-payments.service.ts\<close>: payment intents, the confirmation transaction shared by the
  mock provider and the webhooks, and the CMI capture, void and refund that follow it. A handler
  takes the process environment and the outside world in a record \<open>world\<close>, the identifiers the
  database hands out (\<open>gen\<close>) and the clock (\<open>now\<close>).
\<close>

record world =
  w_env :: env
  w_off :: int
  w_eng :: date_engine
  w_names :: "uuid \<Rightarrow> string option"
  w_cmi :: cmi_world

section \<open>Statuses and results\<close>

definition NON_PAYABLE_BOOKING_STATUSES :: "booking_status list" where
  "NON_PAYABLE_BOOKING_STATUSES = [EXPIRED, CANCELLED_BY_GUEST, CANCELLED_BY_HOST, COMPLETED]"

definition CONFIRMED_BOOKING_STATUSES :: "booking_status list" where
  "CONFIRMED_BOOKING_STATUSES = [CONFIRMED, CHECKED_IN, COMPLETED]"

definition status_name :: "booking_status \<Rightarrow> string" where
  "status_name st =
     (case st of
        INITIATED \<Rightarrow> ''INITIATED'' | PAYMENT_PENDING \<Rightarrow> ''PAYMENT_PENDING'' | CONFIRMED \<Rightarrow> ''CONFIRMED''
      | CHECKED_IN \<Rightarrow> ''CHECKED_IN'' | COMPLETED \<Rightarrow> ''COMPLETED''
      | CANCELLED_BY_GUEST \<Rightarrow> ''CANCELLED_BY_GUEST'' | CANCELLED_BY_HOST \<Rightarrow> ''CANCELLED_BY_HOST''
      | EXPIRED \<Rightarrow> ''EXPIRED'')"

datatype outcome =
  OUT_CONFIRMED | ALREADY_PROCESSED | INTENT_NOT_FOUND | BOOKING_NOT_PAYABLE | DATES_UNAVAILABLE

record create_intent_result =
  ir_id :: uuid
  ir_booking_id :: uuid
  ir_provider :: string
  ir_provider_intent_id :: "string option"
  ir_amount :: rat
  ir_currency :: string
  ir_status :: intent_status
  ir_redirect :: "(string \<times> (string \<times> string) list) option"

datatype mock_status = MOCK_CONFIRMED | PAYMENT_ALREADY_PROCESSED

record mock_confirm_result =
  mc_status :: mock_status
  mc_booking_id :: uuid
  mc_payment_intent_id :: uuid
  mc_provider_intent_id :: string
  mc_amount :: rat
  mc_currency :: string

definition toIntentResult :: "payment_intent \<Rightarrow> create_intent_result" where
  "toIntentResult p =
     \<lparr>ir_id = pi_id p, ir_booking_id = pi_booking_id p, ir_provider = pi_provider p,
      ir_provider_intent_id = pi_provider_intent_id p, ir_amount = num (pi_amount p),
      ir_currency = pi_currency p, ir_status = pi_status p, ir_redirect = None\<rparr>"

definition toMockConfirmResult :: "mock_status \<Rightarrow> booking \<Rightarrow> payment_intent \<Rightarrow> mock_confirm_result" where
  "toMockConfirmResult st b p =
     \<lparr>mc_status = st, mc_booking_id = bk_id b, mc_payment_intent_id = pi_id p,
      mc_provider_intent_id = (case pi_provider_intent_id p of None \<Rightarrow> [] | Some i \<Rightarrow> i),
      mc_amount = num (pi_amount p), mc_currency = pi_currency p\<rparr>"

definition findMockIntentForBooking :: "uuid \<Rightarrow> intent_status \<Rightarrow> stays_db \<Rightarrow> payment_intent option" where
  "findMockIntentForBooking bookingId st db =
     find_latest pi_created_at (\<lambda>p. pi_booking_id p = bookingId \<and> pi_provider p = ''mock'' \<and> pi_status p = st)
       (intents db)"

definition patchIntentMetadata :: "uuid \<Rightarrow> metadata \<Rightarrow> stays_db \<Rightarrow> stays_db" where
  "patchIntentMetadata intentId meta db = update_intent intentId (\<lambda>p. p\<lparr>pi_metadata := meta\<rparr>) db"

definition total_number :: "booking \<Rightarrow> rat" where
  "total_number b = num (case bk_total_paid b of None \<Rightarrow> 0 | Some k \<Rightarrow> k)"

definition set_alert :: "string \<Rightarrow> string \<Rightarrow> stays_db \<Rightarrow> stays_db" where
  "set_alert key fingerprint db = db\<lparr>alerts := alerts db @ [(key, fingerprint)]\<rparr>"

section \<open>createOrGetIntent\<close>

definition dates_gone :: http_error where
  "dates_gone = Conflict_Err ''Selected dates are no longer available. Please try different dates.''"

text \<open>The hold that lost its dates expires and its open intents are cancelled, outside a transaction.\<close>

definition expire_hold :: "uuid \<Rightarrow> stays_db \<Rightarrow> stays_db" where
  "expire_hold bookingId db =
     db\<lparr>bookings := update_where (\<lambda>b. bk_id b = bookingId \<and> bk_status b \<in> set PRE_CONFIRMATION_BOOKING_STATUSES)
          (\<lambda>b. b\<lparr>bk_status := EXPIRED\<rparr>) (bookings db),
        intents := update_where (\<lambda>p. pi_booking_id p = bookingId \<and> pi_status p = I_PENDING)
          (\<lambda>p. p\<lparr>pi_status := I_CANCELLED\<rparr>) (intents db)\<rparr>"

definition new_intent ::
    "uuid \<Rightarrow> time \<Rightarrow> uuid \<Rightarrow> string \<Rightarrow> string \<Rightarrow> rat \<Rightarrow> string \<Rightarrow> string option \<Rightarrow> payment_intent" where
  "new_intent i now bookingId provider pid amount currency key =
     \<lparr>pi_id = i, pi_booking_id = bookingId, pi_provider = provider, pi_provider_intent_id = Some pid,
      pi_amount = col2 amount, pi_currency = currency, pi_status = I_PENDING, pi_idempotency_key = key,
      pi_metadata = [], pi_created_at = now\<rparr>"

definition open_intent ::
    "world \<Rightarrow> uuid \<Rightarrow> string \<Rightarrow> time \<Rightarrow> booking \<Rightarrow> uuid \<Rightarrow> string option \<Rightarrow> stays_db
     \<Rightarrow> create_intent_result result \<times> stays_db" where
  "open_intent w new_id rnd now b guestUserId key db =
     (case lockIntentAmount (total_number b) None of
        Inl _ \<Rightarrow> (Inl (Bad_Request ''Booking total must be greater than zero''), db)
      | Inr lockedTotal \<Rightarrow>
          if isMockPaymentProvider (w_env w)
          then let p = new_intent new_id now (bk_id b) ''mock'' (''mock_'' @ int_str now @ ''_'' @ rnd) lockedTotal
                         (bk_currency b) key
               in (Inr (toIntentResult p), db\<lparr>intents := insert_row p (intents db)\<rparr>)
          else
            (case createOrder (w_cmi w) (w_env w) now rnd (bk_id b) lockedTotal (bk_currency b) guestUserId of
              Inl e \<Rightarrow> (Inl e, db)
            | Inr ord \<Rightarrow>
                let p = new_intent new_id now (bk_id b) ''cmi'' (co_provider_intent_id ord) lockedTotal
                          (bk_currency b) key
                in (Inr ((toIntentResult p)\<lparr>ir_redirect := Some (co_redirect ord)\<rparr>),
                    db\<lparr>intents := insert_row p (intents db)\<rparr>)))"

definition createOrGetIntent ::
    "world \<Rightarrow> uuid \<Rightarrow> string \<Rightarrow> time \<Rightarrow> uuid \<Rightarrow> uuid \<Rightarrow> string option \<Rightarrow> stays_db
     \<Rightarrow> create_intent_result result \<times> stays_db" where
  "createOrGetIntent w new_id rnd now bookingId guestUserId key db =
     (case find_booking bookingId db of
        None \<Rightarrow> (Inl (Not_Found ''Booking not found''), db)
      | Some b \<Rightarrow>
          if bk_guest_user_id b \<noteq> guestUserId then (Inl (Not_Found ''Booking not found''), db)
          else if bk_status b \<noteq> PAYMENT_PENDING
          then (Inl (Bad_Request ''Booking is not awaiting payment''), db)
          else
            (case isListingAvailable (w_eng w) (bk_listing_id b) (Date_Val (bk_checkin_date b))
                   (Date_Val (bk_checkout_date b)) (Some (bk_id b)) db of
              Inl e \<Rightarrow> (Inl e, db)
            | Inr available \<Rightarrow>
                if \<not> available then (Inl dates_gone, expire_hold (bk_id b) db)
                else
                  (case (if truthy key
                        then find_where (\<lambda>p. pi_booking_id p = bookingId \<and> pi_idempotency_key p = key) (intents db)
                        else None) of
                    Some existing \<Rightarrow> (Inr (toIntentResult existing), db)
                  | None \<Rightarrow>
                      (case find_where (\<lambda>p. pi_booking_id p = bookingId \<and> pi_status p = I_PENDING) (intents db) of
                         Some pending \<Rightarrow>
                           if \<not> truthy key \<or> pi_idempotency_key pending = key
                           then (Inr (toIntentResult pending), db)
                           else (Inl (Conflict_Err ''A payment is already in progress for this booking.''), db)
                       | None \<Rightarrow> open_intent w new_id rnd now b guestUserId key db))))"

section \<open>CMI capture, void and refund\<close>

definition iso_time :: "time \<Rightarrow> string" where
  "iso_time t =
     (let d = t div ms_per_day; r = nat (t mod ms_per_day); p2 = (\<lambda>n. pad_start 2 (CHR ''0'') (nat_str n))
      in pad_start 4 (CHR ''0'') (int_str (year_from_day d)) @ ''-'' @ pad2 (month_from_day d + 1) @ ''-''
         @ pad2 (date_from_day d) @ ''T'' @ p2 (r div 3600000) @ '':'' @ p2 (r div 60000 mod 60) @ '':''
         @ p2 (r div 1000 mod 60) @ ''.'' @ pad_start 3 (CHR ''0'') (nat_str (r mod 1000)) @ ''Z'')"

definition status_json :: "bool \<Rightarrow> json" where
  "status_json ok = JStr (if ok then ''SUCCEEDED'' else ''FAILED'')"

definition captureCmiAfterConfirm ::
    "world \<Rightarrow> time \<Rightarrow> string \<Rightarrow> payment_intent option \<Rightarrow> stays_db \<Rightarrow> unit result \<times> stays_db" where
  "captureCmiAfterConfirm w now pid intentRow db =
     (case or_else intentRow
             (find_where (\<lambda>p. pi_provider p = ''cmi'' \<and> pi_provider_intent_id p = Some pid) (intents db)) of
        None \<Rightarrow> (Inr (), db)
      | Some intent \<Rightarrow>
          if map_of (pi_metadata intent) ''cmi_capture_status'' = Some (JStr ''SUCCEEDED'') then (Inr (), db)
          else
            (case cmi_capture (w_cmi w) (w_env w) pid (num (pi_amount intent)) (pi_currency intent) of
              Inl e \<Rightarrow> (Inl e, db)
            | Inr res \<Rightarrow>
                let meta = obj_spread (pi_metadata intent)
                      ([(''cmi_capture_status'', status_json (mr_ok res)), (''cmi_capture_at'', JStr (iso_time now)),
                        (''cmi_capture_code'', JStr (mr_procReturnCode res))] @
                       (if truthy (mr_error res) then [(''cmi_capture_error'', JStr (the (mr_error res)))] else []));
                    db1 = patchIntentMetadata (pi_id intent) meta db
                in (Inr (), if mr_ok res then db1
                            else set_alert ''PAYMENT_REFUND_REQUIRED'' (''cmi-capture-failed:'' @ pi_booking_id intent) db1)))"

definition voidCmiPreAuth ::
    "world \<Rightarrow> time \<Rightarrow> string \<Rightarrow> metadata \<Rightarrow> stays_db \<Rightarrow> unit result \<times> stays_db" where
  "voidCmiPreAuth w now pid context db =
     (if pid = [] then (Inr (), db)
      else (case voidAuthorization (w_cmi w) (w_env w) pid of
             Inl e \<Rightarrow> (Inl e, db)
           | Inr res \<Rightarrow>
               (case find_where (\<lambda>p. pi_provider p = ''cmi'' \<and> pi_provider_intent_id p = Some pid) (intents db) of
                  None \<Rightarrow> (Inr (), db)
                | Some intent \<Rightarrow>
                    let meta = obj_spread (obj_spread (pi_metadata intent)
                          [(''cmi_void_status'', status_json (mr_ok res)), (''cmi_void_at'', JStr (iso_time now)),
                           (''cmi_void_code'', JStr (mr_procReturnCode res))]) context
                    in (Inr (), patchIntentMetadata (pi_id intent) meta db))))"

definition settle_refund :: "uuid \<Rightarrow> string \<Rightarrow> stays_db \<Rightarrow> stays_db" where
  "settle_refund bookingId pid db =
     (case find_latest le_created_at
             (\<lambda>e. le_booking_id e = bookingId \<and> le_type e = REFUND \<and> le_status e = L_PENDING) (ledger db) of
        None \<Rightarrow> db
      | Some pendingRefund \<Rightarrow>
          db\<lparr>ledger := update_where (\<lambda>e. le_id e = le_id pendingRefund)
               (\<lambda>_. pendingRefund\<lparr>le_status := L_SETTLED,
                  le_metadata := obj_spread (le_metadata pendingRefund)
                    [(''cmi_refund'', JBool True), (''provider_intent_id'', JStr pid)]\<rparr>) (ledger db)\<rparr>)"

definition refundCmiForBooking ::
    "world \<Rightarrow> time \<Rightarrow> uuid \<Rightarrow> rat \<Rightarrow> string \<Rightarrow> stays_db \<Rightarrow> bool result \<times> stays_db" where
  "refundCmiForBooking w now bookingId refundAmount currency db =
     (if refundAmount \<le> 0 then (Inr False, db)
      else
        (case find_latest pi_created_at
               (\<lambda>p. pi_booking_id p = bookingId \<and> pi_provider p = ''cmi'' \<and> pi_status p = I_SUCCEEDED) (intents db) of
          None \<Rightarrow> (Inr False, db)
        | Some intent \<Rightarrow>
            if \<not> truthy (pi_provider_intent_id intent) then (Inr False, db)
            else
              let pid = the (pi_provider_intent_id intent)
              in (case cmi_refund (w_cmi w) (w_env w) pid refundAmount currency of
                   Inl e \<Rightarrow> (Inl e, db)
                 | Inr res \<Rightarrow>
                     let meta = obj_spread (pi_metadata intent)
                           [(''cmi_refund_status'', status_json (mr_ok res)), (''cmi_refund_at'', JStr (iso_time now)),
                            (''cmi_refund_code'', JStr (mr_procReturnCode res)), (''cmi_refund_amount'', JNum refundAmount)];
                         db1 = patchIntentMetadata (pi_id intent) meta db
                     in if \<not> mr_ok res
                        then (Inr False, set_alert ''PAYMENT_REFUND_REQUIRED'' (''cmi-refund-failed:'' @ bookingId) db1)
                        else (Inr True, settle_refund bookingId pid db1))))"

section \<open>confirmPaymentSuccess\<close>

definition ledger_row :: "uuid \<Rightarrow> time \<Rightarrow> booking \<Rightarrow> ledger_type \<Rightarrow> rat \<Rightarrow> ledger_status \<Rightarrow> metadata \<Rightarrow> ledger_entry" where
  "ledger_row i now b ty amount st meta =
     \<lparr>le_id = i, le_booking_id = bk_id b, le_type = ty, le_amount = col2 amount, le_currency = bk_currency b,
      le_status = st, le_metadata = meta, le_created_at = now\<rparr>"

definition settled_payment :: "uuid \<Rightarrow> ledger_entry \<Rightarrow> bool" where
  "settled_payment bookingId e \<longleftrightarrow>
     le_booking_id e = bookingId \<and> le_type e = GUEST_PAYMENT \<and> le_status e = L_SETTLED"

definition reject_dates ::
    "payment_intent \<Rightarrow> booking \<Rightarrow> string \<Rightarrow> string \<Rightarrow> stays_db \<Rightarrow> stays_db" where
  "reject_dates intent b provider pid db =
     (let db1 = update_intent (pi_id intent) (\<lambda>p. p\<lparr>pi_status := I_FAILED\<rparr>) db;
          db2 = db1\<lparr>bookings := update_where (\<lambda>x. bk_id x = bk_id b \<and> bk_status x = PAYMENT_PENDING)
                  (\<lambda>x. x\<lparr>bk_status := EXPIRED\<rparr>) (bookings db1)\<rparr>;
          db3 = audit_log None None ''BOOKING'' (Some (bk_id b)) ''PAYMENT_REJECTED_DATES_UNAVAILABLE''
                  [(''provider'', JStr provider), (''provider_intent_id'', JStr pid),
                   (''refund_amount'', JNum (num (pi_amount intent))),
                   (''alert_key'', JStr ''PAYMENT_REFUND_REQUIRED''), (''refund_ledger_created'', JBool False),
                   (''reason'', JStr ''NO_SETTLED_GUEST_PAYMENT'')] None None db2
      in set_alert ''PAYMENT_REFUND_REQUIRED'' (''payment-refund-required:'' @ bk_id b) db3)"

text \<open>What a successful confirmation writes once the ledger invariant holds.\<close>

definition settle_booking ::
    "(nat \<Rightarrow> uuid) \<Rightarrow> time \<Rightarrow> booking \<Rightarrow> string \<Rightarrow> string \<Rightarrow> metadata \<Rightarrow> rat \<Rightarrow> rat \<Rightarrow> rat \<Rightarrow> stays_db \<Rightarrow> stays_db" where
  "settle_booking gen now b provider pid meta amount platformFee payout db =
     (let db1 = db\<lparr>bookings := update_where (\<lambda>x. bk_id x = bk_id b \<and> bk_status x = PAYMENT_PENDING)
              (\<lambda>x. x\<lparr>bk_status := CONFIRMED, bk_confirmed_at := Some now, bk_paid_at := Some now\<rparr>) (bookings db)\<rparr>;
          db2 = db1\<lparr>ledger := ledger db1 @
              [ledger_row (gen 10) now b GUEST_PAYMENT amount L_SETTLED
                 (obj_spread [(''provider'', JStr provider), (''provider_intent_id'', JStr pid)] meta),
               ledger_row (gen 11) now b PLATFORM_FEE platformFee L_SETTLED [],
               ledger_row (gen 12) now b HOST_PAYOUT payout L_PENDING []]\<rparr>
      in audit_log None None ''BOOKING'' (Some (bk_id b)) ''PAYMENT_CONFIRMED''
           [(''provider'', JStr provider), (''provider_intent_id'', JStr pid), (''amount'', JNum amount)]
           None None db2)"

definition confirm_locked ::
    "world \<Rightarrow> (nat \<Rightarrow> uuid) \<Rightarrow> time \<Rightarrow> string \<Rightarrow> string \<Rightarrow> metadata \<Rightarrow> payment_intent \<Rightarrow> booking \<Rightarrow> stays_db
     \<Rightarrow> outcome result \<times> stays_db" where
  "confirm_locked w gen now provider pid meta intent b db =
     (let amount = num (pi_amount intent); gFee = num (bk_guest_fee b); hFee = num (bk_host_fee b);
          payout = num (case bk_payout_amount b of None \<Rightarrow> 0 | Some k \<Rightarrow> k);
          platformFee = js_add gFee hFee
      in (case checkConfirmationLedgerInvariant amount platformFee payout gFee hFee of
           Inl reason \<Rightarrow>
             (Inl (Server_Error (''FINANCIAL_INVARIANT_VIOLATION:'' @ reason)),
              reportFinancialInvariantViolation reason db)
         | Inr _ \<Rightarrow>
             let db1 = update_intent (pi_id intent) (\<lambda>p. p\<lparr>pi_status := I_SUCCEEDED\<rparr>) db
             in if affected (\<lambda>x. bk_id x = bk_id b \<and> bk_status x = PAYMENT_PENDING) (bookings db1) = 0
                then (Inr BOOKING_NOT_PAYABLE, db1)
                else
                  let db2 = settle_booking gen now b provider pid meta amount platformFee payout db1
                  in (case provisionWithinTransaction (w_names w) gen now b (bk_listing_id b) (Some provider) (Some pid) db2 of
                       (Inl e, db3) \<Rightarrow> (Inl e, db3)
                     | (Inr _, db3) \<Rightarrow> (Inr OUT_CONFIRMED, db3))))"

definition confirm_body ::
    "world \<Rightarrow> (nat \<Rightarrow> uuid) \<Rightarrow> time \<Rightarrow> string \<Rightarrow> string \<Rightarrow> metadata \<Rightarrow> uuid \<Rightarrow> stays_db \<Rightarrow> outcome result \<times> stays_db" where
  "confirm_body w gen now provider pid meta intentId db =
     (case find_intent intentId db of
        None \<Rightarrow> (Inr ALREADY_PROCESSED, db)
      | Some intent \<Rightarrow>
          if pi_status intent = I_SUCCEEDED then (Inr ALREADY_PROCESSED, db)
          else if exists_where (settled_payment (pi_booking_id intent)) (ledger db)
          then (Inr ALREADY_PROCESSED, update_intent (pi_id intent) (\<lambda>p. p\<lparr>pi_status := I_SUCCEEDED\<rparr>) db)
          else
            (case find_booking (pi_booking_id intent) db of
              None \<Rightarrow> (Inr BOOKING_NOT_PAYABLE, db)
            | Some b \<Rightarrow>
                if bk_status b \<noteq> PAYMENT_PENDING
                then (Inr (if bk_status b \<in> set CONFIRMED_BOOKING_STATUSES then ALREADY_PROCESSED
                           else BOOKING_NOT_PAYABLE), db)
                else
                  (case isListingAvailable (w_eng w) (bk_listing_id b) (Date_Val (bk_checkin_date b))
                         (Date_Val (bk_checkout_date b)) (Some (bk_id b)) db of
                    Inl e \<Rightarrow> (Inl e, db)
                  | Inr stillAvailable \<Rightarrow>
                      if \<not> stillAvailable
                      then (Inr DATES_UNAVAILABLE, reject_dates intent b provider pid db)
                      else confirm_locked w gen now provider pid meta intent b db)))"

definition confirmPaymentSuccess ::
    "world \<Rightarrow> (nat \<Rightarrow> uuid) \<Rightarrow> time \<Rightarrow> string \<Rightarrow> string \<Rightarrow> metadata \<Rightarrow> stays_db \<Rightarrow> outcome result \<times> stays_db" where
  "confirmPaymentSuccess w gen now provider pid meta db =
     (case find_where (\<lambda>p. pi_provider p = provider \<and> pi_provider_intent_id p = Some pid) (intents db) of
        None \<Rightarrow> (Inr INTENT_NOT_FOUND, db)
      | Some intent \<Rightarrow>
          (case transaction (confirm_body w gen now provider pid meta (pi_id intent)) db of
             (Inl e, db1) \<Rightarrow> (Inl e, db1)
           | (Inr out, db1) \<Rightarrow>
               (case (if provider \<noteq> ''cmi'' then (Inr (), db1)
                      else if out = OUT_CONFIRMED then captureCmiAfterConfirm w now pid (Some intent) db1
                      else if out = ALREADY_PROCESSED then captureCmiAfterConfirm w now pid None db1
                      else if out = DATES_UNAVAILABLE
                      then voidCmiPreAuth w now pid [(''reason'', JStr ''DATES_UNAVAILABLE''),
                             (''booking_id'', JStr (pi_booking_id intent))] db1
                      else (Inr (), db1)) of
                  (Inl e, db2) \<Rightarrow> (Inl e, db2)
                | (Inr _, db2) \<Rightarrow> (Inr out, db2))))"

definition handleWebhookSuccess ::
    "world \<Rightarrow> (nat \<Rightarrow> uuid) \<Rightarrow> time \<Rightarrow> string \<Rightarrow> string \<Rightarrow> metadata \<Rightarrow> stays_db \<Rightarrow> unit result \<times> stays_db" where
  "handleWebhookSuccess w gen now provider pid meta db =
     (case confirmPaymentSuccess w gen now provider pid meta db of
        (Inl e, db1) \<Rightarrow> (Inl e, db1) | (Inr _, db1) \<Rightarrow> (Inr (), db1))"

definition handleCmiCallback ::
    "world \<Rightarrow> (nat \<Rightarrow> uuid) \<Rightarrow> time \<Rightarrow> metadata \<Rightarrow> stays_db \<Rightarrow> unit result \<times> stays_db" where
  "handleCmiCallback w gen now body db =
     (case verifyCallback (cw_hmac (w_cmi w)) (w_env w) (\<lambda>k. json_string (map_of body k)) of
        Inl e \<Rightarrow> (Inl e, db)
      | Inr r \<Rightarrow>
          if \<not> cb_valid r \<or> \<not> truthy (cb_providerIntentId r)
          then (Inl (Bad_Request ''Invalid CMI callback signature''), db)
          else if cb_success r
          then handleWebhookSuccess w gen now ''cmi'' (the (cb_providerIntentId r)) body db
          else (Inr (), db))"

section \<open>confirmMockPayment\<close>

definition finish_mock ::
    "uuid \<Rightarrow> booking \<Rightarrow> payment_intent \<Rightarrow> outcome \<Rightarrow> stays_db \<Rightarrow> mock_confirm_result result" where
  "finish_mock bookingId b pending out db =
     (let refreshed = (case find_intent (pi_id pending) db of None \<Rightarrow> pending | Some p \<Rightarrow> p)
      in (case out of
           OUT_CONFIRMED \<Rightarrow>
             Inr (toMockConfirmResult MOCK_CONFIRMED
               (case find_booking bookingId db of None \<Rightarrow> b | Some x \<Rightarrow> x) refreshed)
         | ALREADY_PROCESSED \<Rightarrow> Inr (toMockConfirmResult PAYMENT_ALREADY_PROCESSED b refreshed)
         | BOOKING_NOT_PAYABLE \<Rightarrow> Inl (Bad_Request ''Booking is not awaiting payment'')
         | DATES_UNAVAILABLE \<Rightarrow> Inl dates_gone
         | INTENT_NOT_FOUND \<Rightarrow> Inl (Not_Found ''Payment intent not found'')))"

definition confirmMockPayment ::
    "world \<Rightarrow> (nat \<Rightarrow> uuid) \<Rightarrow> time \<Rightarrow> uuid \<Rightarrow> uuid \<Rightarrow> stays_db \<Rightarrow> mock_confirm_result result \<times> stays_db" where
  "confirmMockPayment w gen now bookingId guestUserId db =
     (if \<not> isMockPaymentProvider (w_env w)
      then (Inl (Bad_Request ''Mock payment provider is not enabled''), db)
      else
        (case find_booking bookingId db of
          None \<Rightarrow> (Inl (Not_Found ''Booking not found''), db)
        | Some b \<Rightarrow>
            if bk_guest_user_id b \<noteq> guestUserId then (Inl (Not_Found ''Booking not found''), db)
            else if bk_status b \<in> set CONFIRMED_BOOKING_STATUSES
            then (case findMockIntentForBooking bookingId I_SUCCEEDED db of
                    Some p \<Rightarrow> (Inr (toMockConfirmResult PAYMENT_ALREADY_PROCESSED b p), db)
                  | None \<Rightarrow> (Inl (Bad_Request ''Booking is not awaiting payment''), db))
            else if bk_status b \<in> set NON_PAYABLE_BOOKING_STATUSES
            then (Inl (Bad_Request (''Cannot pay for booking in status '' @ status_name (bk_status b))), db)
            else if bk_status b \<noteq> PAYMENT_PENDING
            then (Inl (Bad_Request ''Booking is not awaiting payment''), db)
            else
              (case findMockIntentForBooking bookingId I_PENDING db of
                None \<Rightarrow>
                  (case findMockIntentForBooking bookingId I_SUCCEEDED db of
                     Some p \<Rightarrow> (Inr (toMockConfirmResult PAYMENT_ALREADY_PROCESSED b p), db)
                   | None \<Rightarrow> (Inl (Not_Found ''Payment intent not found''), db))
              | Some pending \<Rightarrow>
                  if \<not> truthy (pi_provider_intent_id pending)
                  then (Inl (Bad_Request ''Payment intent is invalid''), db)
                  else
                    (case lockIntentAmount (total_number b) None of
                      Inl _ \<Rightarrow> (Inl (Bad_Request ''Booking total must be greater than zero''), db)
                    | Inr expectedTotal \<Rightarrow>
                        if roundMoney (num (pi_amount pending)) \<noteq> expectedTotal
                        then (Inl (Bad_Request ''Payment intent amount does not match booking total''), db)
                        else
                          (case confirmPaymentSuccess w gen now ''mock'' (the (pi_provider_intent_id pending))
                                 [(''source'', JStr ''mock_confirm'')] db of
                            (Inl e, db1) \<Rightarrow> (Inl e, db1)
                          | (Inr out, db1) \<Rightarrow> (finish_mock bookingId b pending out db1, db1))))))"

section \<open>What the gateway calls touch\<close>

text \<open>
  Capture, void and refund change intent metadata and alerts; only a refund also settles its
  ledger row. \<open>intent_core\<close> is an intent without its metadata.
\<close>

definition intent_core :: "payment_intent \<Rightarrow> payment_intent" where
  "intent_core p = p\<lparr>pi_metadata := []\<rparr>"

definition gateway_only :: "stays_db \<Rightarrow> stays_db \<Rightarrow> bool" where
  "gateway_only db db' \<longleftrightarrow>
     bookings db' = bookings db \<and> ledger db' = ledger db \<and> listings db' = listings db \<and>
     blocks db' = blocks db \<and> conversations db' = conversations db \<and> messages db' = messages db \<and>
     outbox db' = outbox db \<and> events db' = events db \<and>
     map intent_core (intents db') = map intent_core (intents db)"

lemma gateway_only_refl [simp]: "gateway_only db db"
  by (simp add: gateway_only_def)

lemma gateway_only_patch [simp]: "gateway_only db (patchIntentMetadata i m db)"
  by (simp add: gateway_only_def patchIntentMetadata_def)
    (simp add: update_intent_def intent_core_def map_update_where)

lemma gateway_only_alert [simp]: "gateway_only db (set_alert k f db') \<longleftrightarrow> gateway_only db db'"
  by (simp add: gateway_only_def set_alert_def)

lemma capture_gateway_only: "gateway_only db (snd (captureCmiAfterConfirm w now pid row db))"
  by (auto simp: captureCmiAfterConfirm_def Let_def split: option.splits sum.splits)

lemma void_gateway_only: "gateway_only db (snd (voidCmiPreAuth w now pid ctxt db))"
  by (auto simp: voidCmiPreAuth_def Let_def split: option.splits sum.splits)

section \<open>Branches of the confirmation\<close>

definition amount_of :: "cents option \<Rightarrow> cents" where
  "amount_of k = (case k of None \<Rightarrow> 0 | Some c \<Rightarrow> c)"

definition confirmed_rows ::
    "(nat \<Rightarrow> uuid) \<Rightarrow> time \<Rightarrow> booking \<Rightarrow> payment_intent \<Rightarrow> metadata \<Rightarrow> ledger_entry list" where
  "confirmed_rows gen now b intent meta =
     [ledger_row (gen 10) now b GUEST_PAYMENT (num (pi_amount intent)) L_SETTLED meta,
      ledger_row (gen 11) now b PLATFORM_FEE (js_add (num (bk_guest_fee b)) (num (bk_host_fee b))) L_SETTLED [],
      ledger_row (gen 12) now b HOST_PAYOUT (num (amount_of (bk_payout_amount b))) L_PENDING []]"

definition ledger_check :: "booking \<Rightarrow> payment_intent \<Rightarrow> string + unit" where
  "ledger_check b intent =
     checkConfirmationLedgerInvariant (num (pi_amount intent))
       (js_add (num (bk_guest_fee b)) (num (bk_host_fee b))) (num (amount_of (bk_payout_amount b)))
       (num (bk_guest_fee b)) (num (bk_host_fee b))"

definition payable :: "uuid \<Rightarrow> stays_db \<Rightarrow> payment_intent \<Rightarrow> booking \<Rightarrow> bool" where
  "payable i db intent b \<longleftrightarrow>
     find_intent i db = Some intent \<and> pi_status intent \<noteq> I_SUCCEEDED \<and>
     \<not> (\<exists>e\<in>set (ledger db). settled_payment (pi_booking_id intent) e) \<and>
     find_booking (pi_booking_id intent) db = Some b \<and> bk_status b = PAYMENT_PENDING"

definition confirm_update :: "uuid \<Rightarrow> time \<Rightarrow> booking list \<Rightarrow> booking list" where
  "confirm_update i now rows =
     update_where (\<lambda>x. bk_id x = i \<and> bk_status x = PAYMENT_PENDING)
       (\<lambda>x. x\<lparr>bk_status := CONFIRMED, bk_confirmed_at := Some now, bk_paid_at := Some now\<rparr>) rows"

lemma find_booking_mem: "find_booking i db = Some b \<Longrightarrow> b \<in> set (bookings db) \<and> bk_id b = i"
  unfolding find_booking_def by (drule find_where_Some) simp

lemma find_intent_mem: "find_intent i db = Some p \<Longrightarrow> p \<in> set (intents db) \<and> pi_id p = i"
  unfolding find_intent_def by (drule find_where_Some) simp

lemma settle_booking_frame:
  "bookings (settle_booking gen now b pr pid meta a f po db) = confirm_update (bk_id b) now (bookings db)"
  "ledger (settle_booking gen now b pr pid meta a f po db) = ledger db @
     [ledger_row (gen 10) now b GUEST_PAYMENT a L_SETTLED
        (obj_spread [(''provider'', JStr pr), (''provider_intent_id'', JStr pid)] meta),
      ledger_row (gen 11) now b PLATFORM_FEE f L_SETTLED [], ledger_row (gen 12) now b HOST_PAYOUT po L_PENDING []]"
  "intents (settle_booking gen now b pr pid meta a f po db) = intents db"
  "listings (settle_booking gen now b pr pid meta a f po db) = listings db"
  "blocks (settle_booking gen now b pr pid meta a f po db) = blocks db"
  "conversations (settle_booking gen now b pr pid meta a f po db) = conversations db"
  "messages (settle_booking gen now b pr pid meta a f po db) = messages db"
  "outbox (settle_booking gen now b pr pid meta a f po db) = outbox db"
  by (simp_all add: settle_booking_def confirm_update_def Let_def)

lemma confirm_locked_ok:
  assumes "find_booking (bk_id b) db = Some b" and "bk_status b = PAYMENT_PENDING"
    and "ledger_check b intent = Inr ()"
  obtains db' m where "confirm_locked w gen now pr pid meta intent b db = (Inr OUT_CONFIRMED, db')"
    and "bookings db' = confirm_update (bk_id b) now (bookings db)"
    and "ledger db' = ledger db @ confirmed_rows gen now b intent m"
    and "intents db' = intents (update_intent (pi_id intent) (\<lambda>p. p\<lparr>pi_status := I_SUCCEEDED\<rparr>) db)"
    and "listings db' = listings db" and "blocks db' = blocks db"
    and "one_conversation db \<longrightarrow> one_conversation db'"
    and "keyed sequence_key (messages db) \<longrightarrow> keyed sequence_key (messages db')"
proof -
  define m where "m = obj_spread [(''provider'', JStr pr), (''provider_intent_id'', JStr pid)] meta"
  define db1 where "db1 = update_intent (pi_id intent) (\<lambda>p. p\<lparr>pi_status := I_SUCCEEDED\<rparr>) db"
  define db2 where "db2 = settle_booking gen now b pr pid meta (num (pi_amount intent))
    (js_add (num (bk_guest_fee b)) (num (bk_host_fee b))) (num (amount_of (bk_payout_amount b))) db1"
  define pv where "pv = provisionWithinTransaction (w_names w) gen now b (bk_listing_id b) (Some pr) (Some pid) db2"
  obtain c where c: "fst pv = Inr c" using provision_ok unfolding pv_def by blast
  have fr: "messaging_only db2 (snd pv)" unfolding pv_def by (rule provision_frame)
  have aff: "affected (\<lambda>x. bk_id x = bk_id b \<and> bk_status x = PAYMENT_PENDING) (bookings db1) \<noteq> 0"
    using affected_pos find_booking_mem [OF assms(1)] assms(2) by (fastforce simp: db1_def)
  have "confirm_locked w gen now pr pid meta intent b db = (case pv of (Inl e, db3) \<Rightarrow> (Inl e, db3) | (Inr _, db3) \<Rightarrow> (Inr OUT_CONFIRMED, db3))"
    unfolding confirm_locked_def Let_def pv_def db2_def amount_of_def db1_def
    using assms(3) aff [unfolded db1_def] by (simp add: ledger_check_def amount_of_def)
  also have "\<dots> = (Inr OUT_CONFIRMED, snd pv)" using c by (cases pv) auto
  finally have eq: "confirm_locked w gen now pr pid meta intent b db = (Inr OUT_CONFIRMED, snd pv)" .
  note st = settle_booking_frame [of gen now b pr pid meta "num (pi_amount intent)"
      "js_add (num (bk_guest_fee b)) (num (bk_host_fee b))" "num (amount_of (bk_payout_amount b))" db1, folded db2_def]
  show thesis
  proof (rule that [OF eq, of m])
    show "bookings (snd pv) = confirm_update (bk_id b) now (bookings db)"
      using fr st(1) by (simp add: messaging_only_def db1_def)
    show "ledger (snd pv) = ledger db @ confirmed_rows gen now b intent m"
      using fr st(2) by (simp add: messaging_only_def db1_def confirmed_rows_def m_def)
    show "intents (snd pv) = intents (update_intent (pi_id intent) (\<lambda>p. p\<lparr>pi_status := I_SUCCEEDED\<rparr>) db)"
      using fr st(3) by (simp add: messaging_only_def db1_def)
    show "listings (snd pv) = listings db" "blocks (snd pv) = blocks db"
      using fr st(4,5) by (simp_all add: messaging_only_def db1_def)
    have "one_conversation db2 = one_conversation db" by (simp add: one_conversation_def st(6) db1_def)
    then show "one_conversation db \<longrightarrow> one_conversation (snd pv)"
      using provision_one_conversation unfolding pv_def by blast
    have "messages db2 = messages db" by (simp add: st(7) db1_def)
    then show "keyed sequence_key (messages db) \<longrightarrow> keyed sequence_key (messages (snd pv))"
      using provision_keyed [of db2] unfolding pv_def by metis
  qed
qed

definition intents_kept :: "stays_db \<Rightarrow> stays_db \<Rightarrow> bool" where
  "intents_kept db db' \<longleftrightarrow>
     map pi_id (intents db') = map pi_id (intents db) \<and>
     map pi_booking_id (intents db') = map pi_booking_id (intents db) \<and>
     map pi_amount (intents db') = map pi_amount (intents db)"

lemma intents_kept_update:
  assumes "\<And>p. pi_id (f p) = pi_id p" "\<And>p. pi_booking_id (f p) = pi_booking_id p"
    "\<And>p. pi_amount (f p) = pi_amount p"
  shows "intents_kept db (update_intent i f db)"
  using assms by (simp add: intents_kept_def update_intent_def map_update_where)

lemma update_intent_fields [simp]: "intents (update_intent i f db) = update_where (\<lambda>p. pi_id p = i) f (intents db)"
  by (simp add: update_intent_def)

lemma payable_body:
  assumes "payable i db intent b"
  shows "pi_id intent = i" and "find_booking (bk_id b) db = Some b" and "bk_status b = PAYMENT_PENDING"
    and "confirm_body w gen now pr pid meta i db =
      (if \<not> available_days (bk_listing_id b) (bk_checkin_date b) (bk_checkout_date b) (Some (bk_id b)) (bookings db) (blocks db)
       then (Inr DATES_UNAVAILABLE, reject_dates intent b pr pid db)
       else confirm_locked w gen now pr pid meta intent b db)"
proof -
  note q = assms [unfolded payable_def]
  show "pi_id intent = i" using q find_intent_mem by blast
  show "find_booking (bk_id b) db = Some b" using q find_booking_mem by metis
  show "bk_status b = PAYMENT_PENDING" using q by simp
  have "\<not> exists_where (settled_payment (pi_booking_id intent)) (ledger db)"
    using q by (simp add: exists_where_iff)
  then show "confirm_body w gen now pr pid meta i db =
      (if \<not> available_days (bk_listing_id b) (bk_checkin_date b) (bk_checkout_date b) (Some (bk_id b)) (bookings db) (blocks db)
       then (Inr DATES_UNAVAILABLE, reject_dates intent b pr pid db)
       else confirm_locked w gen now pr pid meta intent b db)"
    using q by (simp add: confirm_body_def isListingAvailable_def)
qed

lemma confirm_body_cases:
  assumes "confirm_body w gen now pr pid meta i db = (r, db')"
  obtains (unchanged) "r = Inr ALREADY_PROCESSED \<or> r = Inr BOOKING_NOT_PAYABLE" "bookings db' = bookings db"
      "ledger db' = ledger db" "listings db' = listings db" "blocks db' = blocks db"
      "conversations db' = conversations db" "messages db' = messages db"
      "intents db' = intents db \<or> intents db' = update_where (\<lambda>p. pi_id p = i) (\<lambda>p. p\<lparr>pi_status := I_SUCCEEDED\<rparr>) (intents db)"
    | (rejected) intent b where "payable i db intent b" "r = Inr DATES_UNAVAILABLE" "db' = reject_dates intent b pr pid db"
        "\<not> available_days (bk_listing_id b) (bk_checkin_date b) (bk_checkout_date b) (Some (bk_id b)) (bookings db) (blocks db)"
    | (violated) intent b reason where "payable i db intent b" "ledger_check b intent = Inl reason"
        "r = Inl (Server_Error (''FINANCIAL_INVARIANT_VIOLATION:'' @ reason))"
        "db' = reportFinancialInvariantViolation reason db"
    | (confirmed) intent b m where "payable i db intent b" "ledger_check b intent = Inr ()" "r = Inr OUT_CONFIRMED"
        "available_days (bk_listing_id b) (bk_checkin_date b) (bk_checkout_date b) (Some (bk_id b)) (bookings db) (blocks db)"
        "bookings db' = confirm_update (bk_id b) now (bookings db)"
        "ledger db' = ledger db @ confirmed_rows gen now b intent m"
        "intents db' = update_where (\<lambda>p. pi_id p = i) (\<lambda>p. p\<lparr>pi_status := I_SUCCEEDED\<rparr>) (intents db)"
        "listings db' = listings db" "blocks db' = blocks db"
        "one_conversation db \<longrightarrow> one_conversation db'"
        "keyed sequence_key (messages db) \<longrightarrow> keyed sequence_key (messages db')"
proof (cases "\<exists>intent b. payable i db intent b")
  case False
  have e: "exists_where p xs \<longleftrightarrow> (\<exists>x\<in>set xs. p x)" for p :: "ledger_entry \<Rightarrow> bool" and xs by (rule exists_where_iff)
  have "(r = Inr ALREADY_PROCESSED \<or> r = Inr BOOKING_NOT_PAYABLE) \<and>
      (db' = db \<or> db' = update_intent i (\<lambda>p. p\<lparr>pi_status := I_SUCCEEDED\<rparr>) db)"
    using assms False
    by (auto simp: confirm_body_def payable_def e find_intent_mem split: option.splits if_splits)
  then show ?thesis by (intro unchanged) auto
next
  case True
  then obtain intent b where p: "payable i db intent b" by blast
  note pb = payable_body [OF p]
  define av where "av = available_days (bk_listing_id b) (bk_checkin_date b) (bk_checkout_date b) (Some (bk_id b))
    (bookings db) (blocks db)"
  note body = pb(4) [of w gen now pr pid meta, folded av_def]
  show ?thesis
  proof (cases av)
    case False
    then show ?thesis using assms body p by (intro rejected [OF p]) (auto simp: av_def)
  next
    case True
    then have loc: "confirm_locked w gen now pr pid meta intent b db = (r, db')" using assms body by simp
    show ?thesis
    proof (cases "ledger_check b intent")
      case (Inl reason)
      then have "(r, db') = (Inl (Server_Error (''FINANCIAL_INVARIANT_VIOLATION:'' @ reason)),
          reportFinancialInvariantViolation reason db)"
        using loc by (simp add: confirm_locked_def Let_def ledger_check_def amount_of_def)
      then show ?thesis by (intro violated [OF p Inl]) auto
    next
      case (Inr u)
      then have chk: "ledger_check b intent = Inr ()" by simp
      show ?thesis
        by (rule confirm_locked_ok [OF pb(2,3) chk, of w gen now pr pid meta],
            rule confirmed [OF p chk]) (use loc True in \<open>auto simp: av_def pb(1)\<close>)
    qed
  qed
qed

lemma confirmPaymentSuccess_cases:
  assumes "confirmPaymentSuccess w gen now pr pid meta db = (r, db')"
  obtains (missing) "r = Inr INTENT_NOT_FOUND" "db' = db"
        "find_where (\<lambda>p. pi_provider p = pr \<and> pi_provider_intent_id p = Some pid) (intents db) = None"
    | (found) intent out db1 where
        "find_where (\<lambda>p. pi_provider p = pr \<and> pi_provider_intent_id p = Some pid) (intents db) = Some intent"
        "transaction (confirm_body w gen now pr pid meta (pi_id intent)) db = (out, db1)"
        "gateway_only db1 db'" "r = out \<or> (\<exists>e. r = Inl e)" "pr \<noteq> ''cmi'' \<longrightarrow> r = out \<and> db' = db1"
proof (cases "find_where (\<lambda>p. pi_provider p = pr \<and> pi_provider_intent_id p = Some pid) (intents db)")
  case None
  with assms show ?thesis by (intro missing) (simp_all add: confirmPaymentSuccess_def)
next
  case (Some intent)
  obtain out db1 where t: "transaction (confirm_body w gen now pr pid meta (pi_id intent)) db = (out, db1)"
    by (cases "transaction (confirm_body w gen now pr pid meta (pi_id intent)) db")
  note g = capture_gateway_only [of db1 w now pid "Some intent"] capture_gateway_only [of db1 w now pid None]
    void_gateway_only [of db1 w now pid "[(''reason'', JStr ''DATES_UNAVAILABLE''), (''booking_id'', JStr (pi_booking_id intent))]"]
  show ?thesis
    by (rule found [OF Some t])
      (use assms g in \<open>auto simp: confirmPaymentSuccess_def Some t split: sum.splits prod.splits if_splits\<close>)
qed

section \<open>Ledger and inventory invariants\<close>

definition at_most_one_payment :: "stays_db \<Rightarrow> bool" where
  "at_most_one_payment db \<longleftrightarrow> (\<forall>i. length (filter (settled_payment i) (ledger db)) \<le> 1)"

lemma no_double_update:
  assumes "conflict_free booked same_nights rows"
    and "\<And>r. p r \<Longrightarrow> booked (f r) \<Longrightarrow> booked r" and "\<And>r. bk_listing_id (f r) = bk_listing_id r"
    and "\<And>r. bk_checkin_date (f r) = bk_checkin_date r" and "\<And>r. bk_checkout_date (f r) = bk_checkout_date r"
  shows "conflict_free booked same_nights (update_where p f rows)"
  unfolding update_where_def
  by (rule conflict_free_map [OF assms(1)]) (use assms(2-5) in \<open>auto simp: same_nights_def overlaps_days_def split: if_splits\<close>)

lemma confirm_update_free:
  "conflict_free booked same_nights rows \<Longrightarrow> conflict_free booked same_nights (confirm_update i now rows)"
  unfolding confirm_update_def by (rule no_double_update) (auto simp: booked_def BOOKED_STATUSES_def)

lemma reject_dates_frame:
  "ledger (reject_dates p b pr pid db) = ledger db" "listings (reject_dates p b pr pid db) = listings db"
  "blocks (reject_dates p b pr pid db) = blocks db"
  "conversations (reject_dates p b pr pid db) = conversations db"
  "messages (reject_dates p b pr pid db) = messages db"
  "bookings (reject_dates p b pr pid db) = update_where (\<lambda>x. bk_id x = bk_id b \<and> bk_status x = PAYMENT_PENDING)
     (\<lambda>x. x\<lparr>bk_status := EXPIRED\<rparr>) (bookings db)"
  by (simp_all add: reject_dates_def set_alert_def Let_def)

lemma expire_free:
  "conflict_free booked same_nights rows \<Longrightarrow>
     conflict_free booked same_nights (update_where p (\<lambda>x. x\<lparr>bk_status := EXPIRED\<rparr>) rows)"
  by (rule no_double_update) (auto simp: booked_def BOOKED_STATUSES_def)

lemma report_frame [simp]:
  "bookings (reportFinancialInvariantViolation reason db) = bookings db"
  "ledger (reportFinancialInvariantViolation reason db) = ledger db"
  by (simp_all add: reportFinancialInvariantViolation_def)

lemma settled_confirmed_rows:
  "filter (settled_payment i) (confirmed_rows gen now b intent m) =
     (if bk_id b = i then [ledger_row (gen 10) now b GUEST_PAYMENT (num (pi_amount intent)) L_SETTLED m] else [])"
  by (simp add: confirmed_rows_def settled_payment_def ledger_row_def)

lemma confirm_body_inv:
  assumes "confirm_body w gen now pr pid meta i db = (r, db')"
  shows "at_most_one_payment db \<Longrightarrow> at_most_one_payment db'"
    and "no_double_booking db \<Longrightarrow> no_double_booking db'"
proof -
  show "at_most_one_payment db'" if "at_most_one_payment db"
    using assms
  proof (cases rule: confirm_body_cases)
    case (confirmed intent b m)
    have "filter (settled_payment (bk_id b)) (ledger db) = []"
      using confirmed(1) find_booking_mem by (auto simp: payable_def filter_empty_conv)
    then show ?thesis using that by (simp add: at_most_one_payment_def confirmed(6) settled_confirmed_rows)
  qed (use that in \<open>auto simp: at_most_one_payment_def reject_dates_frame\<close>)
  show "no_double_booking db'" if "no_double_booking db"
    using assms
  proof (cases rule: confirm_body_cases)
    case (confirmed intent b m)
    then show ?thesis using that confirm_update_free by (simp add: no_double_booking_def)
  next
    case (rejected intent b)
    then show ?thesis using that expire_free by (simp add: no_double_booking_def reject_dates_frame)
  qed (use that in \<open>auto simp: no_double_booking_def\<close>)
qed

lemma transaction_inv:
  assumes "transaction body db = (r, db')" and "\<And>r db'. body db = (r, db') \<Longrightarrow> P db'" and "P db"
    and "\<And>a b. P a \<Longrightarrow> P (rollback a b)"
  shows "P db'"
  using assms(1) by (cases rule: transaction_cases) (use assms(2-4) in auto)

lemma confirm_payment_inv:
  assumes "confirmPaymentSuccess w gen now pr pid meta db = (r, db')"
  shows "at_most_one_payment db \<Longrightarrow> at_most_one_payment db'"
    and "no_double_booking db \<Longrightarrow> no_double_booking db'"
proof -
  have "(at_most_one_payment db \<longrightarrow> at_most_one_payment db') \<and> (no_double_booking db \<longrightarrow> no_double_booking db')"
    using assms
  proof (cases rule: confirmPaymentSuccess_cases)
    case (found intent out db1)
    have "at_most_one_payment db \<Longrightarrow> at_most_one_payment db1"
      by (rule transaction_inv [OF found(2)]) (auto dest: confirm_body_inv(1) simp: at_most_one_payment_def)
    moreover have "no_double_booking db \<Longrightarrow> no_double_booking db1"
      by (rule transaction_inv [OF found(2)]) (auto dest: confirm_body_inv(2) simp: no_double_booking_def)
    ultimately show ?thesis
      using found(3) by (simp add: gateway_only_def at_most_one_payment_def no_double_booking_def)
  qed simp
  then show "at_most_one_payment db \<Longrightarrow> at_most_one_payment db'"
    and "no_double_booking db \<Longrightarrow> no_double_booking db'" by auto
qed

section \<open>Repeated confirmations\<close>

lemma find_where_update:
  assumes "\<And>r. q (f r) = q r"
  shows "find_where q (update_where p f rows) = map_option (\<lambda>r. if p r then f r else r) (find_where q rows)"
  using assms by (induction rows) auto

lemma find_where_core:
  assumes "map intent_core xs = map intent_core ys" and "\<And>p. q p = q (intent_core p)"
  shows "map_option intent_core (find_where q xs) = map_option intent_core (find_where q ys)"
proof -
  have "map_option intent_core (find_where q zs) = find_where q (map intent_core zs)" for zs
    using assms(2) by (induction zs) auto
  then show ?thesis using assms(1) by simp
qed

lemma intent_core_fields:
  "pi_id (intent_core p) = pi_id p" "pi_status (intent_core p) = pi_status p"
  "pi_provider (intent_core p) = pi_provider p" "pi_provider_intent_id (intent_core p) = pi_provider_intent_id p"
  by (simp_all add: intent_core_def)

definition intent_found :: "string \<Rightarrow> string \<Rightarrow> stays_db \<Rightarrow> bool" where
  "intent_found pr pid db \<longleftrightarrow>
     (\<exists>p p'. find_where (\<lambda>p. pi_provider p = pr \<and> pi_provider_intent_id p = Some pid) (intents db) = Some p
        \<and> find_intent (pi_id p) db = Some p' \<and> pi_status p' = I_SUCCEEDED)"

lemma intent_found_core:
  assumes "map intent_core (intents db') = map intent_core (intents db)" and "intent_found pr pid db"
  shows "intent_found pr pid db'"
proof -
  let ?q = "\<lambda>p. pi_provider p = pr \<and> pi_provider_intent_id p = Some pid"
  obtain p p' where p: "find_where ?q (intents db) = Some p"
    "find_where (\<lambda>x. pi_id x = pi_id p) (intents db) = Some p'" "pi_status p' = I_SUCCEEDED"
    using assms(2) by (auto simp: intent_found_def find_intent_def)
  have "map_option intent_core (find_where ?q (intents db')) = Some (intent_core p)"
    using find_where_core [OF assms(1), of ?q] p(1) by (simp add: intent_core_fields)
  then obtain x where x: "find_where ?q (intents db') = Some x" "intent_core x = intent_core p" by auto
  have xi: "pi_id x = pi_id p" using x(2) by (metis intent_core_fields(1))
  have "map_option intent_core (find_where (\<lambda>y. pi_id y = pi_id p) (intents db')) = Some (intent_core p')"
    using find_where_core [OF assms(1), of "\<lambda>y. pi_id y = pi_id p"] p(2) by (simp add: intent_core_fields)
  then obtain x' where "find_where (\<lambda>y. pi_id y = pi_id p) (intents db') = Some x'" "intent_core x' = intent_core p'"
    by auto
  moreover from this(2) have "pi_status x' = I_SUCCEEDED" using p(3) by (metis intent_core_fields(2))
  ultimately show ?thesis using x xi by (auto simp: intent_found_def find_intent_def)
qed

lemma confirmed_found:
  assumes "confirmPaymentSuccess w gen now pr pid meta db = (Inr OUT_CONFIRMED, db')"
  shows "intent_found pr pid db'"
  using assms
proof (cases rule: confirmPaymentSuccess_cases)
  case (found intent out db1)
  let ?q = "\<lambda>p. pi_provider p = pr \<and> pi_provider_intent_id p = Some pid"
  from found(4) have out: "out = Inr OUT_CONFIRMED" by auto
  then have body: "confirm_body w gen now pr pid meta (pi_id intent) db = (Inr OUT_CONFIRMED, db1)"
    using found(2) by (auto elim: transaction_cases)
  have pay: "\<exists>i0. find_intent (pi_id intent) db = Some i0"
    and up: "intents db1 = update_where (\<lambda>p. pi_id p = pi_id intent) (\<lambda>p. p\<lparr>pi_status := I_SUCCEEDED\<rparr>) (intents db)"
    using body by (cases rule: confirm_body_cases; auto simp: payable_def)+
  have "find_where ?q (intents db1) = Some (intent\<lparr>pi_status := I_SUCCEEDED\<rparr>)"
    using found(1) by (simp add: up find_where_update)
  moreover obtain i0 where "find_where (\<lambda>p. pi_id p = pi_id intent) (intents db) = Some i0" "pi_id i0 = pi_id intent"
    using pay find_intent_mem unfolding find_intent_def by blast
  then have "find_intent (pi_id intent) db1 = Some (i0\<lparr>pi_status := I_SUCCEEDED\<rparr>)"
    by (simp add: find_intent_def up find_where_update)
  ultimately have "intent_found pr pid db1" unfolding intent_found_def by fastforce
  moreover have "map intent_core (intents db') = map intent_core (intents db1)"
    using found(3) by (simp only: gateway_only_def)
  ultimately show ?thesis by (rule intent_found_core [rotated])
qed simp

lemma found_already_processed:
  assumes "intent_found pr pid db" and "confirmPaymentSuccess w gen now pr pid meta db = (r, db')"
  shows "gateway_only db db'" and "r = Inr ALREADY_PROCESSED \<or> (\<exists>e. r = Inl e \<and> pr = ''cmi'')"
proof -
  obtain p p' where p: "find_where (\<lambda>p. pi_provider p = pr \<and> pi_provider_intent_id p = Some pid) (intents db) = Some p"
    "find_intent (pi_id p) db = Some p'" "pi_status p' = I_SUCCEEDED"
    using assms(1) by (auto simp: intent_found_def)
  have t: "transaction (confirm_body w gen now pr pid meta (pi_id p)) db = (Inr ALREADY_PROCESSED, db)"
    by (simp add: transaction_def confirm_body_def p)
  have "gateway_only db db' \<and> (r = Inr ALREADY_PROCESSED \<or> (\<exists>e. r = Inl e \<and> pr = ''cmi''))"
    using assms(2) by (cases rule: confirmPaymentSuccess_cases) (use p t in auto)
  then show "gateway_only db db'" and "r = Inr ALREADY_PROCESSED \<or> (\<exists>e. r = Inl e \<and> pr = ''cmi'')" by auto
qed

section \<open>Amounts\<close>

text \<open>A booking whose stored amounts balance: what \<open>createBooking\<close> writes.\<close>

definition booking_balanced :: "booking \<Rightarrow> bool" where
  "booking_balanced b \<longleftrightarrow>
     0 \<le> bk_guest_fee b \<and> 0 \<le> bk_host_fee b \<and>
     (case (bk_total_paid b, bk_payout_amount b) of
        (Some t, Some p) \<Rightarrow> 0 \<le> p \<and> t = p + (bk_guest_fee b + bk_host_fee b) \<and> t \<le> 2 ^ 43
      | _ \<Rightarrow> False)"

lemma ledger_check_balanced:
  assumes "booking_balanced b" and "Some (pi_amount intent) = bk_total_paid b"
  shows "ledger_check b intent = Inr ()"
  using assms check_balanced [of "bk_guest_fee b" "bk_host_fee b"]
  by (auto simp: booking_balanced_def ledger_check_def amount_of_def split: option.splits)

lemma confirmed_row_amounts:
  assumes "\<bar>pi_amount intent\<bar> \<le> 2 ^ 40" "\<bar>bk_guest_fee b\<bar> \<le> 2 ^ 40" "\<bar>bk_host_fee b\<bar> \<le> 2 ^ 40"
    "\<bar>amount_of (bk_payout_amount b)\<bar> \<le> 2 ^ 40"
  shows "map le_amount (confirmed_rows gen now b intent m) =
    [pi_amount intent, bk_guest_fee b + bk_host_fee b, amount_of (bk_payout_amount b)]"
proof -
  have "\<bar>bk_guest_fee b + bk_host_fee b\<bar> \<le> 2 ^ 43" using assms(2,3) by (simp add: abs_le_iff)
  then have "col2 (js_add (num (bk_guest_fee b)) (num (bk_host_fee b))) = bk_guest_fee b + bk_host_fee b"
    using assms(2,3) by (intro col2_near [OF near_js_add_num]) auto
  then show ?thesis using assms by (simp add: confirmed_rows_def ledger_row_def)
qed

section \<open>Properties\<close>

text \<open>
  C4: confirming a payment, whichever way it comes in and whatever the gateway answers, keeps two
  promises of the whole data base: no booking has two settled guest payments, and no two bookings that
  hold dates of one listing share a night.
\<close>

theorem confirm_keeps_promises:
  assumes "confirmPaymentSuccess w gen now pr pid meta db = (r, db')"
  shows "(at_most_one_payment db \<longrightarrow> at_most_one_payment db') \<and> (no_double_booking db \<longrightarrow> no_double_booking db')"
  using confirm_payment_inv [OF assms] by blast



text \<open>
  A booking whose stored amounts balance is never refused by the ledger check when the intent
  carries its total: the confirmation cannot end in \<^verbatim>\<open>FINANCIAL_INVARIANT_VIOLATION\<close>.
\<close>

theorem balanced_booking_confirms:
  assumes "payable i db intent b" and "booking_balanced b" and "Some (pi_amount intent) = bk_total_paid b"
    and "available_days (bk_listing_id b) (bk_checkin_date b) (bk_checkout_date b) (Some (bk_id b)) (bookings db) (blocks db)"
  shows "fst (confirm_body w gen now pr pid meta i db) = Inr OUT_CONFIRMED"
proof -
  note pb = payable_body [OF assms(1)]
  show ?thesis
    by (rule confirm_locked_ok [OF pb(2,3) ledger_check_balanced [OF assms(2,3)], of w gen now pr pid meta])
      (simp add: pb(4) assms(4))
qed


definition sample_world :: world where
  "sample_world = \<lparr>w_env = (\<lambda>_. None), w_off = 0, w_eng = sample_engine, w_names = (\<lambda>_. None),
     w_cmi = \<lparr>cw_hmac = (\<lambda>_ _. []), cw_post = (\<lambda>_ _. Inl ''offline''), cw_json = (\<lambda>_. None),
     cw_decode_uri = (\<lambda>_. None)\<rparr>\<rparr>"

definition sample_intent :: payment_intent where
  "sample_intent = \<lparr>pi_id = ''p1'', pi_booking_id = ''b1'', pi_provider = ''mock'', pi_provider_intent_id = Some ''mp1'',
     pi_amount = 66000, pi_currency = ''MAD'', pi_status = I_PENDING, pi_idempotency_key = None, pi_metadata = [],
     pi_created_at = 1\<rparr>"

definition pending_db :: stays_db where
  "pending_db = no_rows\<lparr>listings := [sample_listing], bookings := [sample_booking ''b1'' PAYMENT_PENDING],
     intents := [sample_intent]\<rparr>"

lemma pending_payable:
  "payable ''p1'' pending_db sample_intent (sample_booking ''b1'' PAYMENT_PENDING)"
  "booking_balanced (sample_booking ''b1'' PAYMENT_PENDING)"
  "Some (pi_amount sample_intent) = bk_total_paid (sample_booking ''b1'' PAYMENT_PENDING)"
  "available_days (bk_listing_id (sample_booking ''b1'' PAYMENT_PENDING)) (bk_checkin_date (sample_booking ''b1'' PAYMENT_PENDING))
     (bk_checkout_date (sample_booking ''b1'' PAYMENT_PENDING)) (Some (bk_id (sample_booking ''b1'' PAYMENT_PENDING)))
     (bookings pending_db) (blocks pending_db)"
  by (simp_all add: payable_def booking_balanced_def pending_db_def no_rows_def sample_intent_def sample_booking_def
      find_intent_def find_booking_def available_days_iff)

lemma pending_confirms:
  fixes gen :: "nat \<Rightarrow> uuid"
  obtains db' where "confirmPaymentSuccess sample_world gen 5 ''mock'' ''mp1'' [] pending_db = (Inr OUT_CONFIRMED, db')"
proof -
  note pb = payable_body [OF pending_payable(1)]
  obtain db' where "confirm_body sample_world gen 5 ''mock'' ''mp1'' [] ''p1'' pending_db = (Inr OUT_CONFIRMED, db')"
    by (rule confirm_locked_ok [OF pb(2,3) ledger_check_balanced [OF pending_payable(2,3)],
          of sample_world gen 5 "''mock''" "''mp1''" "[]"]) (simp add: pb(4) pending_payable(4))
  then have "confirmPaymentSuccess sample_world gen 5 ''mock'' ''mp1'' [] pending_db = (Inr OUT_CONFIRMED, db')"
    by (simp add: confirmPaymentSuccess_def pending_db_def sample_intent_def transaction_def)
  then show thesis by (rule that)
qed

theorem confirm_keeps_promises_witness:
  "at_most_one_payment (snd (confirmPaymentSuccess sample_world (\<lambda>n. ''x'') 5 ''mock'' ''mp1'' [] pending_db)) \<and>
   no_double_booking (snd (confirmPaymentSuccess sample_world (\<lambda>n. ''x'') 5 ''mock'' ''mp1'' [] pending_db))"
  using confirm_keeps_promises [OF surjective_pairing [of "confirmPaymentSuccess sample_world (\<lambda>n. ''x'') 5 ''mock'' ''mp1'' [] pending_db"]]
  by (simp add: at_most_one_payment_def no_double_booking_def conflict_free_def pending_db_def no_rows_def)



theorem balanced_booking_confirms_witness:
  "fst (confirm_body sample_world (\<lambda>n. ''x'') 5 ''mock'' ''mp1'' [] ''p1'' pending_db) = Inr OUT_CONFIRMED"
  by (rule balanced_booking_confirms [OF pending_payable])

end
