(* ===== verification/Bookings.thy ===== *)
theory Bookings
  imports Payments
begin

text \<open>
  \<^verbatim>\<open>stays.service.ts\<close>: who may book (\<^verbatim>\<open>stays-kyc-policy.service.ts\<close>,
  \<^verbatim>\<open>verification-status.enum.ts\<close>), the booking transaction, the host's calendar blocks and
  the booking views. The media storage is a predicate on its keys; what the database says to the
  insert of a booking (it has an exclusion constraint of its own) is a parameter.
\<close>

section \<open>Identity verification\<close>

record identity_snapshot =
  kycStatus :: string
  kycLevel :: int

definition STAYS_GUEST_MIN_KYC_LEVEL :: int where
  "STAYS_GUEST_MIN_KYC_LEVEL = 1"

definition VERIFIED_STATUSES :: "string list" where
  "VERIFIED_STATUSES = [''APPROVED'', ''VERIFIED'']"

definition meetsGuestBookingPolicy :: "identity_snapshot option \<Rightarrow> bool" where
  "meetsGuestBookingPolicy snapshot =
     (case snapshot of
        None \<Rightarrow> False
      | Some s \<Rightarrow> js_upper (kycStatus s) \<in> set VERIFIED_STATUSES \<and> kycLevel s \<ge> STAYS_GUEST_MIN_KYC_LEVEL)"

definition meetsHostIdentityReuse :: "identity_snapshot option \<Rightarrow> bool" where
  "meetsHostIdentityReuse snapshot =
     (case snapshot of None \<Rightarrow> False | Some s \<Rightarrow> js_upper (kycStatus s) \<in> set VERIFIED_STATUSES)"

datatype identity_verification_status =
  VS_NOT_STARTED | VS_PENDING | VS_UNDER_REVIEW | VS_APPROVED | VS_REJECTED | VS_EXPIRED

definition toIdentityVerificationStatus :: "string option \<Rightarrow> identity_verification_status" where
  "toIdentityVerificationStatus legacy =
     (let u = js_upper (case legacy of None \<Rightarrow> ''PENDING'' | Some s \<Rightarrow> s)
      in if u = ''APPROVED'' \<or> u = ''VERIFIED'' then VS_APPROVED
         else if u = ''REJECTED'' then VS_REJECTED
         else if u = ''EXPIRED'' then VS_EXPIRED
         else if u = ''UNDER_REVIEW'' \<or> u = ''SUBMITTED'' then VS_UNDER_REVIEW
         else if u = ''NONE'' \<or> u = [] then VS_NOT_STARTED
         else VS_PENDING)"

definition toLegacyKycStatus :: "identity_verification_status \<Rightarrow> string" where
  "toLegacyKycStatus st =
     (if st = VS_APPROVED then ''VERIFIED'' else if st = VS_REJECTED then ''REJECTED'' else ''PENDING'')"

section \<open>Occupant documents\<close>

datatype doc_side = Front | Back

definition PHOTO_EXTS :: "string list" where
  "PHOTO_EXTS = [''.jpg'', ''.jpeg'', ''.png'', ''.webp'']"

definition getOccupantIdDocumentPath :: "(string \<Rightarrow> bool) \<Rightarrow> uuid \<Rightarrow> uuid \<Rightarrow> doc_side \<Rightarrow> string result" where
  "getOccupantIdDocumentPath stored guestUserId assetId side =
     (let prefix = (case side of Back \<Rightarrow> ''id_back'' | Front \<Rightarrow> ''id_front'');
          candidates = map (\<lambda>ext. ''guest/'' @ guestUserId @ ''/occupant-id/'' @ prefix @ ''_'' @ assetId @ ext) PHOTO_EXTS
      in case find_where stored candidates of
           None \<Rightarrow> Inl (Not_Found ''ID document not found'')
         | Some key \<Rightarrow> Inr key)"

definition assertOwnedOccupantAsset :: "(string \<Rightarrow> bool) \<Rightarrow> uuid \<Rightarrow> uuid \<Rightarrow> doc_side \<Rightarrow> unit result" where
  "assertOwnedOccupantAsset stored userId assetId side =
     (case getOccupantIdDocumentPath stored userId assetId side of
        Inr _ \<Rightarrow> Inr ()
      | Inl _ \<Rightarrow> Inl (Bad_Request (''Invalid occupant ID asset_id ('' @
          (case side of Front \<Rightarrow> ''front'' | Back \<Rightarrow> ''back'') @ '')'')))"

section \<open>Booking views\<close>

datatype review_status = RS_NONE | RS_ELIGIBLE | RS_REVIEWED | RS_BLOCKED

record response_extras =
  ex_paymentFailed :: bool
  ex_has_reviewed :: bool
  ex_review_rating :: "rat option"

record listing_view =
  lv_id :: uuid
  lv_title :: string
  lv_city :: string
  lv_address :: "string option"
  lv_check_in_instructions :: "string option"
  lv_check_in_contact :: "check_in_contact option"
  lv_media :: "listing_media list"

record booking_response =
  br_id :: uuid
  br_booking_reference :: string
  br_listing_id :: uuid
  br_status :: booking_status
  br_lifecycle :: lifecycle
  br_checkin :: day
  br_checkout :: day
  br_guest_count :: int
  br_total_subtotal :: rat
  br_guest_fee :: rat
  br_host_money :: "(rat \<times> rat option) option"
  br_total_paid :: "rat option"
  br_currency :: string
  br_payment_expires_at :: "time option"
  br_payment_failed :: bool
  br_can_review :: bool
  br_own_listing_blocked :: bool
  br_can_complain :: bool
  br_can_cancel :: bool
  br_has_reviewed :: bool
  br_review_status :: review_status
  br_review_rating :: "rat option"
  br_listing :: "listing_view option"
  br_occupants :: "occupant list option"

definition shouldRevealContactForBooking :: "booking \<Rightarrow> bool" where
  "shouldRevealContactForBooking b \<longleftrightarrow> bk_status b \<in> {CONFIRMED, CHECKED_IN, COMPLETED}"

text \<open>A column read with \<^verbatim>\<open>x ? Number(x) : null\<close>: the driver's text is never empty when set.\<close>

definition opt_number :: "cents option \<Rightarrow> rat option" where
  "opt_number k = map_option num k"

definition to_listing_view :: "bool \<Rightarrow> listing \<Rightarrow> listing_view" where
  "to_listing_view revealContact l =
     (let contact = ls_check_in_contact l
      in \<lparr>lv_id = ls_id l, lv_title = ls_title l, lv_city = ls_city l,
          lv_address = (if revealContact \<and> truthy (ls_address_encrypted l) then ls_address_encrypted l else None),
          lv_check_in_instructions = (case contact of None \<Rightarrow> None
             | Some c \<Rightarrow> if revealContact \<and> truthy (cc_access_instructions c) then cc_access_instructions c else None),
          lv_check_in_contact = (if revealContact then contact else None),
          lv_media = sort_key lm_sort_order (ls_media l)\<rparr>)"

text \<open>Guests see occupants without phone, e-mail and gender.\<close>

definition occupant_view :: "bool \<Rightarrow> occupant \<Rightarrow> occupant" where
  "occupant_view hostView oc =
     (let o1 = oc\<lparr>oc_id_document_front_asset_id := None, oc_id_document_back_asset_id := None\<rparr>
      in if hostView then o1 else o1\<lparr>oc_phone := None, oc_email := None, oc_gender := None\<rparr>)"

definition toBookingResponse ::
    "world \<Rightarrow> time \<Rightarrow> listing option \<Rightarrow> occupant list \<Rightarrow> bool \<Rightarrow> bool \<Rightarrow> response_extras \<Rightarrow> bool \<Rightarrow> booking
     \<Rightarrow> booking_response" where
  "toBookingResponse w now l occs revealContact includeOccupants extras hostView b =
     (let lc = computeLifecycle (w_env w) (w_off w) now False b;
          pend = (bk_status b = PAYMENT_PENDING \<or> bk_status b = INITIATED);
          ownListing = (map_option ls_host_user_id l = Some (bk_guest_user_id b));
          can_review = (\<not> hostView \<and> canReview (w_env w) (w_off w) now False (map_option ls_host_user_id l) b
                        \<and> \<not> ex_has_reviewed extras)
      in \<lparr>br_id = bk_id b, br_booking_reference = bk_booking_reference b, br_listing_id = bk_listing_id b,
          br_status = bk_status b, br_lifecycle = lc, br_checkin = bk_checkin_date b,
          br_checkout = bk_checkout_date b, br_guest_count = bk_guest_count b,
          br_total_subtotal = num (bk_total_subtotal b), br_guest_fee = num (bk_guest_fee b),
          br_host_money = (if hostView then Some (num (bk_host_fee b), opt_number (bk_payout_amount b)) else None),
          br_total_paid = opt_number (bk_total_paid b), br_currency = bk_currency b,
          br_payment_expires_at = (if pend then getPaymentExpiresAt (w_env w) (bk_created_at b) else None),
          br_payment_failed = ex_paymentFailed extras,
          br_can_review = can_review,
          br_own_listing_blocked = (\<not> hostView \<and> \<not> ex_has_reviewed extras \<and> lc = LC_COMPLETED \<and> ownListing),
          br_can_complain = canComplain (w_env w) (w_off w) now False b,
          br_can_cancel = canCancel (w_env w) (w_off w) now False b,
          br_has_reviewed = ex_has_reviewed extras,
          br_review_status = (if \<not> hostView \<and> lc = LC_COMPLETED
             then (if ex_has_reviewed extras then RS_REVIEWED else if can_review then RS_ELIGIBLE else RS_BLOCKED)
             else RS_NONE),
          br_review_rating = (if ex_has_reviewed extras then ex_review_rating extras else None),
          br_listing = map_option (to_listing_view revealContact) l,
          br_occupants = (if includeOccupants \<and> occs \<noteq> [] then Some (map (occupant_view hostView) occs) else None)\<rparr>)"

definition no_extras :: response_extras where
  "no_extras = \<lparr>ex_paymentFailed = False, ex_has_reviewed = False, ex_review_rating = None\<rparr>"

definition plain_response :: "world \<Rightarrow> time \<Rightarrow> stays_db \<Rightarrow> booking \<Rightarrow> booking_response" where
  "plain_response w now db b =
     toBookingResponse w now (find_listing (bk_listing_id b) db) [] False False no_extras False b"

definition getReviewRatingForBooking :: "uuid \<Rightarrow> stays_db \<Rightarrow> rat option" where
  "getReviewRatingForBooking i db = map_option rv_rating (find_where (\<lambda>r. rv_booking_id r = i) (reviews db))"

definition lifecycleExtrasForBooking :: "booking \<Rightarrow> stays_db \<Rightarrow> response_extras" where
  "lifecycleExtrasForBooking b db =
     (let rating = getReviewRatingForBooking (bk_id b) db
      in if bk_status b \<noteq> PAYMENT_PENDING \<and> bk_status b \<noteq> INITIATED
         then \<lparr>ex_paymentFailed = False, ex_has_reviewed = (rating \<noteq> None), ex_review_rating = rating\<rparr>
         else
           let newest = find_latest pi_created_at (\<lambda>p. pi_booking_id p = bk_id b) (intents db)
           in \<lparr>ex_paymentFailed = (map_option pi_status newest = Some I_FAILED),
               ex_has_reviewed = (rating \<noteq> None), ex_review_rating = rating\<rparr>)"

definition occupants_of :: "uuid \<Rightarrow> stays_db \<Rightarrow> occupant list" where
  "occupants_of i db = filter (\<lambda>oc. oc_booking_id oc = i) (occupants db)"

definition first_of :: "'a list \<Rightarrow> 'a option" where
  "first_of xs = (case xs of [] \<Rightarrow> None | x # _ \<Rightarrow> Some x)"

definition guest_display_name :: "occupant list \<Rightarrow> string option" where
  "guest_display_name occs =
     (if occs = [] then None
      else
        let primary = or_else (find_where oc_is_primary occs)
              (or_else (find_where (\<lambda>oc. js_trim (oc_full_name oc) \<noteq> []) occs) (first_of occs))
        in case primary of None \<Rightarrow> None | Some oc \<Rightarrow> trim_or_none (Some (oc_full_name oc)))"

definition guest_phone :: "occupant list \<Rightarrow> string option" where
  "guest_phone occs =
     (let primary = or_else (find_where oc_is_primary occs)
            (or_else (find_where (\<lambda>oc. trim_or_none (oc_phone oc) \<noteq> None) occs) (first_of occs))
      in case primary of None \<Rightarrow> None | Some oc \<Rightarrow> trim_or_none (oc_phone oc))"

datatype booking_view =
    Guest_View booking_response
  | Host_View booking_response "string option" "string option"

definition host_listing :: "listing option \<Rightarrow> listing_view option \<Rightarrow> listing_view option" where
  "host_listing l v =
     (case v of
        None \<Rightarrow> None
      | Some x \<Rightarrow> Some (x\<lparr>lv_address := or_else (case l of None \<Rightarrow> None | Some y \<Rightarrow> ls_address_encrypted y) (lv_address x),
                          lv_check_in_contact := None\<rparr>))"

definition getBookingById :: "world \<Rightarrow> time \<Rightarrow> uuid \<Rightarrow> uuid \<Rightarrow> stays_db \<Rightarrow> booking_view result" where
  "getBookingById w now bookingId userId db =
     (case find_booking bookingId db of
        None \<Rightarrow> Inl (Not_Found ''Booking not found'')
      | Some b \<Rightarrow>
          let l = find_listing (bk_listing_id b) db;
              isGuest = (bk_guest_user_id b = userId);
              isHost = (\<not> isGuest \<and> map_option ls_host_user_id l = Some userId)
          in if \<not> isGuest \<and> \<not> isHost then Inl (Not_Found ''Booking not found'')
             else
               let occs = occupants_of bookingId db;
                   reveal = (if isHost then True else shouldRevealContactForBooking b);
                   base = toBookingResponse w now l occs reveal True (lifecycleExtrasForBooking b db) isHost b
               in if isHost
                  then Inr (Host_View (base\<lparr>br_can_review := False, br_review_status := RS_NONE,
                              br_listing := host_listing l (br_listing base)\<rparr>)
                            (guest_display_name occs) (guest_phone occs))
                  else Inr (Guest_View base))"

definition failed_intent_ids :: "uuid list \<Rightarrow> stays_db \<Rightarrow> uuid list" where
  "failed_intent_ids pendingIds db =
     map pi_booking_id (filter (\<lambda>p. pi_booking_id p \<in> set pendingIds \<and> pi_status p = I_FAILED) (intents db))"

definition getGuestBookings :: "world \<Rightarrow> time \<Rightarrow> uuid \<Rightarrow> stays_db \<Rightarrow> booking_response list" where
  "getGuestBookings w now guestUserId db =
     (let bs = sort_key (\<lambda>b. - bk_created_at b) (filter (\<lambda>b. bk_guest_user_id b = guestUserId) (bookings db));
          pendingIds = map bk_id (filter (\<lambda>b. bk_status b = PAYMENT_PENDING \<or> bk_status b = INITIATED) bs);
          failed = failed_intent_ids pendingIds db
      in map (\<lambda>b. toBookingResponse w now (find_listing (bk_listing_id b) db) [] (shouldRevealContactForBooking b) False
            \<lparr>ex_paymentFailed = (bk_id b \<in> set failed),
             ex_has_reviewed = (getReviewRatingForBooking (bk_id b) db \<noteq> None),
             ex_review_rating = getReviewRatingForBooking (bk_id b) db\<rparr> False b) bs)"

section \<open>createBooking\<close>

record occupant_dto =
  od_full_name :: "string option"
  od_id_number :: "string option"
  od_is_primary :: bool
  od_phone :: "string option"
  od_email :: "string option"
  od_gender :: "string option"
  od_front_asset :: "string option"
  od_back_asset :: "string option"

record create_booking_dto =
  dto_listing_id :: uuid
  dto_checkin_date :: string
  dto_checkout_date :: string
  dto_guest_count :: int
  dto_idempotency_key :: "string option"
  dto_occupants :: "occupant_dto list option"

text \<open>What the database answers to the insert.\<close>

datatype save_outcome = Saved | Overlap_Violation | Query_Failed string

definition occupant_of :: "uuid \<Rightarrow> occupant_dto \<Rightarrow> occupant" where
  "occupant_of bookingId d =
     \<lparr>oc_booking_id = bookingId,
      oc_full_name = (case trim_or_none (od_full_name d) of None \<Rightarrow> ''Guest'' | Some n \<Rightarrow> n),
      oc_id_number = trim_or_none (od_id_number d), oc_is_primary = od_is_primary d,
      oc_phone = trim_or_none (od_phone d), oc_email = trim_or_none (od_email d),
      oc_gender = trim_or_none (od_gender d),
      oc_id_document_front_asset_id = trim_or_none (od_front_asset d),
      oc_id_document_back_asset_id = trim_or_none (od_back_asset d)\<rparr>"

definition check_asset :: "(string \<Rightarrow> bool) \<Rightarrow> uuid \<Rightarrow> string option \<Rightarrow> doc_side \<Rightarrow> unit result" where
  "check_asset stored userId asset side =
     (case trim_or_none asset of None \<Rightarrow> Inr () | Some i \<Rightarrow> assertOwnedOccupantAsset stored userId i side)"

fun save_occupants ::
    "(string \<Rightarrow> bool) \<Rightarrow> uuid \<Rightarrow> uuid \<Rightarrow> occupant_dto list \<Rightarrow> stays_db \<Rightarrow> unit result \<times> stays_db" where
  "save_occupants stored userId bookingId [] db = (Inr (), db)"
| "save_occupants stored userId bookingId (d # ds) db =
     (case check_asset stored userId (od_front_asset d) Front of
        Inl e \<Rightarrow> (Inl e, db)
      | Inr _ \<Rightarrow>
          (case check_asset stored userId (od_back_asset d) Back of
             Inl e \<Rightarrow> (Inl e, db)
           | Inr _ \<Rightarrow> save_occupants stored userId bookingId ds
               (db\<lparr>occupants := insert_row (occupant_of bookingId d) (occupants db)\<rparr>)))"

definition find_by_key :: "uuid \<Rightarrow> string option \<Rightarrow> stays_db \<Rightarrow> booking option" where
  "find_by_key userId key db =
     (if truthy key then find_where (\<lambda>b. bk_guest_user_id b = userId \<and> bk_idempotency_key b = key) (bookings db)
      else None)"

definition new_booking ::
    "uuid \<Rightarrow> time \<Rightarrow> uuid \<Rightarrow> create_booking_dto \<Rightarrow> day \<Rightarrow> day \<Rightarrow> string \<Rightarrow> rat \<Rightarrow> fee_breakdown \<Rightarrow> string \<Rightarrow> booking" where
  "new_booking i now userId dto checkin checkout ref subtotal fees currency =
     \<lparr>bk_id = i, bk_booking_reference = ref, bk_listing_id = dto_listing_id dto, bk_guest_user_id = userId,
      bk_status = PAYMENT_PENDING, bk_checkin_date = checkin, bk_checkout_date = checkout,
      bk_guest_count = dto_guest_count dto, bk_total_subtotal = col2 subtotal,
      bk_guest_fee = col2 (guestFee fees), bk_host_fee = col2 (hostFee fees),
      bk_total_paid = Some (col2 (totalPaid fees)), bk_payout_amount = Some (col2 (payoutAmount fees)),
      bk_currency = currency,
      bk_idempotency_key = (if truthy (dto_idempotency_key dto) then dto_idempotency_key dto else None),
      bk_payment_intent_id = None, bk_created_at = now, bk_confirmed_at = None, bk_completed_at = None,
      bk_paid_at = None\<rparr>"

record booking_env =
  be_stored :: "string \<Rightarrow> bool"
  be_save :: "booking list \<Rightarrow> booking \<Rightarrow> save_outcome"

text \<open>
  \<open>store_booking\<close>: the end of the transaction, from the saving of the row: the occupants, the audit
  row and the event.
\<close>

definition log_created ::
    "uuid \<Rightarrow> uuid \<Rightarrow> create_booking_dto \<Rightarrow> string option \<Rightarrow> string option \<Rightarrow> stays_db \<Rightarrow> stays_db" where
  "log_created new_id userId dto ip agent db =
     publish ''EVENTS.BOOKING_CREATED''
       [(''bookingId'', JStr new_id), (''listingId'', JStr (dto_listing_id dto)), (''guestUserId'', JStr userId)]
       (audit_log (Some userId) (Some ''GUEST'') ''BOOKING'' (Some new_id) ''BOOKING_CREATED''
          [(''listing_id'', JStr (dto_listing_id dto)),
           (''checkin_date'', JStr (dto_checkin_date dto)),
           (''checkout_date'', JStr (dto_checkout_date dto))] ip agent db)"

definition store_booking ::
    "world \<Rightarrow> booking_env \<Rightarrow> uuid \<Rightarrow> time \<Rightarrow> uuid \<Rightarrow> create_booking_dto \<Rightarrow> string option \<Rightarrow> string option \<Rightarrow> booking
     \<Rightarrow> stays_db \<Rightarrow> booking_response result \<times> stays_db" where
  "store_booking w be new_id now userId dto ip agent b db =
     (case be_save be (bookings db) b of
        Overlap_Violation \<Rightarrow> (Inl dates_gone, db)
      | Query_Failed msg \<Rightarrow> (Inl (Server_Error msg), db)
      | Saved \<Rightarrow>
          (case save_occupants (be_stored be) userId new_id
                  (case dto_occupants dto of None \<Rightarrow> [] | Some ds \<Rightarrow> ds)
                  (db\<lparr>bookings := insert_row b (bookings db)\<rparr>) of
             (Inl e, db1) \<Rightarrow> (Inl e, db1)
           | (Inr _, db1) \<Rightarrow>
               let db2 = log_created new_id userId dto ip agent db1
               in (Inr (plain_response w now db2
                     (case find_booking new_id db2 of None \<Rightarrow> b | Some x \<Rightarrow> x)), db2)))"

definition book_dates ::
    "world \<Rightarrow> booking_env \<Rightarrow> uuid \<Rightarrow> time \<Rightarrow> uuid \<Rightarrow> create_booking_dto \<Rightarrow> string option \<Rightarrow> string option \<Rightarrow> listing \<Rightarrow> day \<Rightarrow> day
     \<Rightarrow> stays_db \<Rightarrow> booking_response result \<times> stays_db" where
  "book_dates w be new_id now userId dto ip agent l checkin checkout db =
     (case isListingAvailable (w_eng w) (dto_listing_id dto) (Date_Str (dto_checkin_date dto))
             (Date_Str (dto_checkout_date dto)) None db of
        Inl e \<Rightarrow> (Inl e, db)
      | Inr available \<Rightarrow>
     (if \<not> available then (Inl dates_gone, db)
      else (case bookingNightsBetween (dto_checkin_date dto) (dto_checkout_date dto) of
        Inl e \<Rightarrow> (Inl e, db)
      | Inr nights \<Rightarrow>
     (case ls_rate_plan l of
        None \<Rightarrow> (Inl (Bad_Request ''Listing has no pricing configured''), db)
      | Some ratePlan \<Rightarrow>
          let subtotal = js_mul (num (rp_base_price ratePlan)) (of_int nights)
          in (case calculateFeesAuthoritative (w_env w) now subtotal db of
                (Inl e, db1) \<Rightarrow> (Inl e, db1)
              | (Inr fees, db1) \<Rightarrow>
                  let (ref, counters) = allocateBookingReference (ref_counters db1) now;
                      db2 = db1\<lparr>ref_counters := counters\<rparr>;
                      b = new_booking new_id now userId dto checkin checkout ref subtotal fees (rp_currency ratePlan)
                  in store_booking w be new_id now userId dto ip agent b db2)))))"

definition create_body ::
    "world \<Rightarrow> booking_env \<Rightarrow> uuid \<Rightarrow> time \<Rightarrow> uuid \<Rightarrow> create_booking_dto \<Rightarrow> string option \<Rightarrow> string option \<Rightarrow> stays_db
     \<Rightarrow> booking_response result \<times> stays_db" where
  "create_body w be new_id now userId dto ip agent db =
     (case find_listing (dto_listing_id dto) db of
        None \<Rightarrow> (Inl (Not_Found ''Listing not found''), db)
      | Some l \<Rightarrow>
          let maxGuests = (case ls_rules l of None \<Rightarrow> 50 | Some r \<Rightarrow> lr_max_guests r)
          in if ls_status l \<noteq> LIVE then (Inl (Bad_Request ''Listing is not available for booking''), db)
             else if dto_guest_count dto > maxGuests
             then (Inl (Bad_Request (''Guest count exceeds listing maximum of '' @ int_str maxGuests)), db)
             else if (case dto_occupants dto of None \<Rightarrow> False | Some ds \<Rightarrow> int (length ds) > dto_guest_count dto)
             then (Inl (Bad_Request ''Occupants list cannot exceed guest_count''), db)
             else (case parseBookingDateOnly (dto_checkin_date dto) of
                     Inl e \<Rightarrow> (Inl e, db)
                   | Inr checkin \<Rightarrow>
                  (case parseBookingDateOnly (dto_checkout_date dto) of
                     Inl e \<Rightarrow> (Inl e, db)
                   | Inr checkout \<Rightarrow>
                  (case assertMinOneNightStay (dto_checkin_date dto) (dto_checkout_date dto) of
                     Inl e \<Rightarrow> (Inl e, db)
                   | Inr _ \<Rightarrow>
                  (case find_by_key userId (dto_idempotency_key dto) db of
                     Some existing \<Rightarrow> (Inr (plain_response w now db existing), db)
                   | None \<Rightarrow> book_dates w be new_id now userId dto ip agent l checkin checkout db)))))"

definition createBooking ::
    "world \<Rightarrow> booking_env \<Rightarrow> uuid \<Rightarrow> time \<Rightarrow> uuid \<Rightarrow> create_booking_dto \<Rightarrow> identity_snapshot option \<Rightarrow> string option \<Rightarrow> string option
     \<Rightarrow> stays_db \<Rightarrow> booking_response result \<times> stays_db" where
  "createBooking w be new_id now userId dto snapshot ip agent db =
     (if \<not> meetsGuestBookingPolicy snapshot
      then (Inl (Bad_Request ''Identity verification required to book. Complete KYC in Nexa Identity first.''), db)
      else (case find_by_key userId (dto_idempotency_key dto) db of
              Some existing \<Rightarrow> (Inr (plain_response w now db existing), db)
            | None \<Rightarrow> transaction (create_body w be new_id now userId dto ip agent) db))"

section \<open>The host's calendar\<close>

definition is_ymd :: "string \<Rightarrow> bool" where
  "is_ymd s \<longleftrightarrow> length s = 10 \<and> match_ymd s \<noteq> None"

record listing_availability =
  la_listing_id :: uuid
  la_from :: string
  la_to :: string
  la_blocked_ranges :: "blocked_date_range list"

definition getListingAvailability ::
    "world \<Rightarrow> uuid \<Rightarrow> string \<Rightarrow> string \<Rightarrow> stays_db \<Rightarrow> listing_availability result" where
  "getListingAvailability w listingId fromDate toDate db =
     (case find_listing listingId db of
        None \<Rightarrow> Inl (Not_Found ''Listing not found'')
      | Some l \<Rightarrow>
          let from_s = js_trim fromDate; to_s = js_trim toDate
          in if ls_status l \<noteq> LIVE then Inl (Not_Found ''Listing not found'')
             else if \<not> is_ymd from_s \<or> \<not> is_ymd to_s then Inl (Bad_Request ''from and to must be YYYY-MM-DD'')
             else if \<not> js_less from_s to_s then Inl (Bad_Request ''to must be after from'')
             else (case getBlockedDateRanges (w_eng w) listingId (Date_Str from_s) (Date_Str to_s) db of
                     Inl e \<Rightarrow> Inl e
                   | Inr rs \<Rightarrow> Inr \<lparr>la_listing_id = listingId, la_from = from_s, la_to = to_s, la_blocked_ranges = rs\<rparr>))"

text \<open>The \<^verbatim>\<open>while\<close> loop that lists the nights from \<open>cursor\<close> to \<open>end_day\<close>.\<close>

function block_nights :: "day \<Rightarrow> day \<Rightarrow> string list \<Rightarrow> string list result" where
  "block_nights cursor end_day dates =
     (if cursor < end_day
      then let dates' = dates @ [formatLocalDate cursor]
           in if length dates' > 366 then Inl (Bad_Request ''Availability range cannot exceed 366 nights'')
              else block_nights (cursor + 1) end_day dates'
      else Inr dates)"
  by pat_completeness auto
termination
  by (relation "measure (\<lambda>(cursor, end_day, _). nat (end_day - cursor))") auto

declare block_nights.simps [simp del]

fun parse_all :: "string list \<Rightarrow> day list result" where
  "parse_all [] = Inr []"
| "parse_all (s # ss) =
     (case parseBookingDateOnly s of
        Inl e \<Rightarrow> Inl e
      | Inr d \<Rightarrow> (case parse_all ss of Inl e \<Rightarrow> Inl e | Inr ds \<Rightarrow> Inr (d # ds)))"

definition upsert_block :: "uuid \<Rightarrow> bool \<Rightarrow> day \<Rightarrow> availability_block list \<Rightarrow> availability_block list" where
  "upsert_block listingId isBlocked d rows =
     (let row = \<lparr>ab_listing_id = listingId, ab_date = d, ab_is_blocked = isBlocked, ab_source = Some B_HOST,
                 ab_external_calendar_id = None\<rparr>;
          hit = (\<lambda>ab. ab_listing_id ab = listingId \<and> ab_date ab = d)
      in if exists_where hit rows then update_where hit (\<lambda>_. row) rows else insert_row row rows)"

record host_block_result =
  hb_listing_id :: uuid
  hb_from :: string
  hb_to :: string
  hb_is_blocked :: bool
  hb_nights :: nat

definition setHostAvailabilityBlock ::
    "uuid \<Rightarrow> uuid \<Rightarrow> string \<Rightarrow> string \<Rightarrow> bool \<Rightarrow> stays_db \<Rightarrow> host_block_result result \<times> stays_db" where
  "setHostAvailabilityBlock listingId hostUserId fromDate toDate isBlocked db =
     (case find_listing listingId db of
        None \<Rightarrow> (Inl (Not_Found ''Listing not found''), db)
      | Some l \<Rightarrow>
          let from_s = js_trim fromDate; to_s = js_trim toDate
          in if ls_host_user_id l \<noteq> hostUserId then (Inl (Not_Found ''Listing not found''), db)
             else if \<not> is_ymd from_s \<or> \<not> is_ymd to_s then (Inl (Bad_Request ''from and to must be YYYY-MM-DD''), db)
             else if \<not> js_less from_s to_s then (Inl (Bad_Request ''to must be after from''), db)
             else (case parseBookingDateOnly from_s of
                     Inl e \<Rightarrow> (Inl e, db)
                   | Inr cursor \<Rightarrow>
                  (case parseBookingDateOnly to_s of
                     Inl e \<Rightarrow> (Inl e, db)
                   | Inr end_day \<Rightarrow>
                  (case block_nights cursor end_day [] of
                     Inl e \<Rightarrow> (Inl e, db)
                   | Inr dates \<Rightarrow>
                  (case parse_all dates of
                     Inl e \<Rightarrow> (Inl e, db)
                   | Inr days \<Rightarrow>
                       let db1 = db\<lparr>blocks := fold (upsert_block listingId isBlocked) days (blocks db)\<rparr>;
                           db2 = audit_log (Some hostUserId) (Some ''HOST'') ''LISTING'' (Some listingId)
                             (if isBlocked then ''HOST_BLOCKED_DATES'' else ''HOST_UNBLOCKED_DATES'')
                             [(''from'', JStr from_s), (''to'', JStr to_s), (''nights'', JNum (of_nat (length dates)))]
                             None None db1
                       in (Inr \<lparr>hb_listing_id = listingId, hb_from = from_s, hb_to = to_s,
                                hb_is_blocked = isBlocked, hb_nights = length dates\<rparr>, db2))))))"

section \<open>Branches of createBooking\<close>

lemma save_occupants_frame:
  assumes "save_occupants st u i ds db = (r, db')"
  shows "bookings db' = bookings db" "ledger db' = ledger db" "intents db' = intents db"
    "blocks db' = blocks db" "listings db' = listings db" "conversations db' = conversations db"
    "messages db' = messages db" "settings db' = settings db" "ref_counters db' = ref_counters db"
    "outbox db' = outbox db"
  using assms by (induction st u i ds db rule: save_occupants.induct) (auto split: sum.splits)

text \<open>
  \<open>booked_row\<close>: the row a successful booking inserts, from the rate plan and the settings of the
  state it was made in.
\<close>

definition rate_row :: "env \<Rightarrow> stays_db \<Rightarrow> platform_settings" where
  "rate_row env db = the (settings (ensureRow env db))"

definition booked_row ::
    "world \<Rightarrow> uuid \<Rightarrow> time \<Rightarrow> uuid \<Rightarrow> create_booking_dto \<Rightarrow> rate_plan \<Rightarrow> day \<Rightarrow> day \<Rightarrow> stays_db \<Rightarrow> booking" where
  "booked_row w new_id now userId dto rp checkin checkout db =
     (let x = js_mul (num (rp_base_price rp)) (of_int (checkout - checkin))
      in new_booking new_id now userId dto checkin checkout
           (fst (allocateBookingReference (ref_counters db) now)) x
           (feesFromRates x (pct_num (ps_guest_fee_pct (rate_row (w_env w) db)))
              (pct_num (ps_host_fee_pct (rate_row (w_env w) db)))) (rp_currency rp))"

lemma log_created_frame [simp]:
  "bookings (log_created i u dto ip ag db) = bookings db" "ledger (log_created i u dto ip ag db) = ledger db"
  "intents (log_created i u dto ip ag db) = intents db" "blocks (log_created i u dto ip ag db) = blocks db"
  "listings (log_created i u dto ip ag db) = listings db"
  "conversations (log_created i u dto ip ag db) = conversations db"
  "messages (log_created i u dto ip ag db) = messages db" "outbox (log_created i u dto ip ag db) = outbox db"
  "ref_counters (log_created i u dto ip ag db) = ref_counters db"
  by (simp_all add: log_created_def)

lemma store_booking_cases:
  assumes "store_booking w be new_id now u dto ip ag b db = (r, db')"
  obtains (failed) e where "r = Inl e"
    | (stored) resp where "r = Inr resp" "be_save be (bookings db) b = Saved"
        "bookings db' = bookings db @ [b]"
        "ledger db' = ledger db" "intents db' = intents db" "blocks db' = blocks db"
        "listings db' = listings db" "conversations db' = conversations db" "messages db' = messages db"
        "outbox db' = outbox db" "ref_counters db' = ref_counters db"
        "resp = plain_response w now db' (case find_booking new_id db' of None \<Rightarrow> b | Some x \<Rightarrow> x)"
proof (cases r)
  case (Inr resp)
  then obtain n db1 where saved: "be_save be (bookings db) b = Saved"
    and occ: "save_occupants (be_stored be) u new_id (case dto_occupants dto of None \<Rightarrow> [] | Some ds \<Rightarrow> ds)
        (db\<lparr>bookings := insert_row b (bookings db)\<rparr>) = (Inr n, db1)"
    and db': "db' = log_created new_id u dto ip ag db1"
    and resp: "resp = plain_response w now db' (case find_booking new_id db' of None \<Rightarrow> b | Some x \<Rightarrow> x)"
    using assms by (auto simp: store_booking_def Let_def split: save_outcome.splits prod.splits sum.splits)
  show ?thesis
    by (rule stored [OF Inr saved])
       (simp_all only: db' log_created_frame save_occupants_frame [OF occ] resp, simp_all add: insert_row_def)
qed (use failed in auto)

lemma book_dates_step:
  assumes ci: "parseBookingDateOnly (dto_checkin_date dto) = Inr ci"
    and co: "parseBookingDateOnly (dto_checkout_date dto) = Inr co"
    and avl: "available_days (dto_listing_id dto) ci co None (bookings db) (blocks db)"
    and rp: "ls_rate_plan l = Some rp"
  obtains db2 where "book_dates w be new_id now u dto ip ag l ci co db =
      store_booking w be new_id now u dto ip ag (booked_row w new_id now u dto rp ci co db) db2"
    and "bookings db2 = bookings db" "ledger db2 = ledger db" "intents db2 = intents db" "blocks db2 = blocks db"
    "listings db2 = listings db" "conversations db2 = conversations db" "messages db2 = messages db"
    "outbox db2 = outbox db" "ref_counters db2 = snd (allocateBookingReference (ref_counters db) now)"
    "settings db2 = settings (ensureRow (w_env w) db)"
proof -
  have av: "isListingAvailable (w_eng w) (dto_listing_id dto) (Date_Str (dto_checkin_date dto))
      (Date_Str (dto_checkout_date dto)) None db =
      Inr (available_days (dto_listing_id dto) ci co None (bookings db) (blocks db))"
    by (simp add: isListingAvailable_def arg_day_str [OF ci] arg_day_str [OF co])
  have n: "bookingNightsBetween (dto_checkin_date dto) (dto_checkout_date dto) = Inr (co - ci)"
    using ci co by (rule bookingNightsBetween_days)
  define x where "x = js_mul (num (rp_base_price rp)) (of_int (co - ci))"
  obtain row where row: "settings (ensureRow (w_env w) db) = Some row"
    and fees: "calculateFeesAuthoritative (w_env w) now x db =
      (Inr (feesFromRates x (pct_num (ps_guest_fee_pct row)) (pct_num (ps_host_fee_pct row))),
       (ensureRow (w_env w) db)\<lparr>fee_cache := Some (toRates (pct_num (ps_guest_fee_pct row))
          (pct_num (ps_host_fee_pct row)), now)\<rparr>)"
    by (rule calculateFeesAuthoritative_eq)
  define db2 where "db2 = (ensureRow (w_env w) db)\<lparr>fee_cache := Some (toRates (pct_num (ps_guest_fee_pct row))
      (pct_num (ps_host_fee_pct row)), now), ref_counters := snd (allocateBookingReference (ref_counters db) now)\<rparr>"
  have b: "booked_row w new_id now u dto rp ci co db =
      new_booking new_id now u dto ci co (fst (allocateBookingReference (ref_counters db) now)) x
      (feesFromRates x (pct_num (ps_guest_fee_pct row)) (pct_num (ps_host_fee_pct row))) (rp_currency rp)"
    unfolding booked_row_def Let_def x_def rate_row_def row by (simp only: option.sel)
  have "book_dates w be new_id now u dto ip ag l ci co db =
      store_booking w be new_id now u dto ip ag (booked_row w new_id now u dto rp ci co db) db2"
    unfolding book_dates_def av n rp sum.case option.case x_def [symmetric] Let_def fees prod.case split_beta
      b db2_def using avl by (simp only: if_True not_True_eq_False if_False) (simp add: split_beta)
  then show thesis by (rule that) (simp_all add: db2_def)
qed

lemma book_dates_cases:
  assumes "book_dates w be new_id now u dto ip ag l ci co db = (r, db')"
    and ci: "parseBookingDateOnly (dto_checkin_date dto) = Inr ci"
    and co: "parseBookingDateOnly (dto_checkout_date dto) = Inr co"
  obtains (failed) e where "r = Inl e"
    | (created) rp resp where "r = Inr resp" "ls_rate_plan l = Some rp"
        "available_days (dto_listing_id dto) ci co None (bookings db) (blocks db)"
        "be_save be (bookings db) (booked_row w new_id now u dto rp ci co db) = Saved"
        "bookings db' = bookings db @ [booked_row w new_id now u dto rp ci co db]"
        "ledger db' = ledger db" "intents db' = intents db" "blocks db' = blocks db"
        "listings db' = listings db" "conversations db' = conversations db" "messages db' = messages db"
        "outbox db' = outbox db"
        "ref_counters db' = snd (allocateBookingReference (ref_counters db) now)"
proof (cases r)
  case (Inr resp)
  have av: "isListingAvailable (w_eng w) (dto_listing_id dto) (Date_Str (dto_checkin_date dto))
      (Date_Str (dto_checkout_date dto)) None db =
      Inr (available_days (dto_listing_id dto) ci co None (bookings db) (blocks db))"
    by (simp add: isListingAvailable_def arg_day_str [OF ci] arg_day_str [OF co])
  have n: "bookingNightsBetween (dto_checkin_date dto) (dto_checkout_date dto) = Inr (co - ci)"
    using ci co by (rule bookingNightsBetween_days)
  obtain rp where rp: "ls_rate_plan l = Some rp"
    and avl: "available_days (dto_listing_id dto) ci co None (bookings db) (blocks db)"
    using assms(1) Inr by (auto simp: book_dates_def av n split: if_splits option.splits)
  obtain db2 where step: "book_dates w be new_id now u dto ip ag l ci co db =
      store_booking w be new_id now u dto ip ag (booked_row w new_id now u dto rp ci co db) db2"
    and fr: "bookings db2 = bookings db" "ledger db2 = ledger db" "intents db2 = intents db" "blocks db2 = blocks db"
    "listings db2 = listings db" "conversations db2 = conversations db" "messages db2 = messages db"
    "outbox db2 = outbox db" "ref_counters db2 = snd (allocateBookingReference (ref_counters db) now)"
    by (rule book_dates_step [OF ci co avl rp])
  have "store_booking w be new_id now u dto ip ag (booked_row w new_id now u dto rp ci co db) db2 = (Inr resp, db')"
    using assms(1) Inr step by simp
  then show ?thesis
    by (rule store_booking_cases) (use created [OF Inr rp avl] in \<open>simp_all add: fr\<close>)
qed (use failed in auto)

lemma create_body_cases:
  assumes "create_body w be new_id now u dto ip ag db = (r, db')"
  obtains (failed) e where "r = Inl e"
    | (replayed) b where "find_by_key u (dto_idempotency_key dto) db = Some b" "r = Inr (plain_response w now db b)" "db' = db"
    | (booked_now) l ci co where "find_by_key u (dto_idempotency_key dto) db = None"
        "find_listing (dto_listing_id dto) db = Some l" "ls_status l = LIVE"
        "parseBookingDateOnly (dto_checkin_date dto) = Inr ci" "parseBookingDateOnly (dto_checkout_date dto) = Inr co"
        "assertMinOneNightStay (dto_checkin_date dto) (dto_checkout_date dto) = Inr ()"
        "book_dates w be new_id now u dto ip ag l ci co db = (r, db')"
proof (cases r)
  case (Inr resp)
  show ?thesis
  proof (cases "find_listing (dto_listing_id dto) db")
    case (Some l)
    have g: "ls_status l = LIVE" "\<exists>ci. parseBookingDateOnly (dto_checkin_date dto) = Inr ci"
      "\<exists>co. parseBookingDateOnly (dto_checkout_date dto) = Inr co"
      "assertMinOneNightStay (dto_checkin_date dto) (dto_checkout_date dto) = Inr ()"
      using assms Inr Some by (auto simp: create_body_def Let_def split: sum.splits if_splits)
    then obtain ci co where d: "parseBookingDateOnly (dto_checkin_date dto) = Inr ci"
      "parseBookingDateOnly (dto_checkout_date dto) = Inr co" by blast
    have body: "create_body w be new_id now u dto ip ag db =
        (case find_by_key u (dto_idempotency_key dto) db of
           Some b \<Rightarrow> (Inr (plain_response w now db b), db)
         | None \<Rightarrow> book_dates w be new_id now u dto ip ag l ci co db)"
      using assms Inr Some g(1,4) d by (simp add: create_body_def Let_def split: if_splits)
    show ?thesis
    proof (cases "find_by_key u (dto_idempotency_key dto) db")
      case None
      then have "book_dates w be new_id now u dto ip ag l ci co db = (r, db')"
        using assms unfolding body by (simp only: option.case)
      then show ?thesis by (rule booked_now [OF None \<open>find_listing (dto_listing_id dto) db = Some l\<close> g(1) d g(4)])
    next
      case (Some b)
      then have "r = Inr (plain_response w now db b)" "db' = db"
        using assms unfolding body by auto
      then show ?thesis by (rule replayed [OF Some])
    qed
  qed (use assms Inr in \<open>simp add: create_body_def\<close>)
qed (use failed in blast)

definition rates_in_range :: "env \<Rightarrow> stays_db \<Rightarrow> bool" where
  "rates_in_range env db \<longleftrightarrow>
     0 \<le> ps_guest_fee_pct (rate_row env db) \<and> ps_guest_fee_pct (rate_row env db) \<le> 5000 \<and>
     0 \<le> ps_host_fee_pct (rate_row env db) \<and> ps_host_fee_pct (rate_row env db) \<le> 5000"

definition price_in_range :: "rate_plan \<Rightarrow> int \<Rightarrow> bool" where
  "price_in_range rp nights \<longleftrightarrow> 0 \<le> rp_base_price rp \<and> 0 \<le> nights \<and> rp_base_price rp * nights \<le> 2 ^ 42"

lemma createBooking_cases:
  assumes "createBooking w be new_id now u dto snap ip ag db = (r, db')"
  obtains (failed) e where "r = Inl e" "bookings db' = bookings db" "ledger db' = ledger db"
        "intents db' = intents db" "occupants db' = occupants db" "ref_counters db' = ref_counters db"
        "blocks db' = blocks db" "listings db' = listings db" "conversations db' = conversations db"
        "messages db' = messages db" "outbox db' = outbox db"
    | (replayed) b where "meetsGuestBookingPolicy snap" "find_by_key u (dto_idempotency_key dto) db = Some b"
        "r = Inr (plain_response w now db b)" "db' = db"
    | (created) l rp ci co resp where "meetsGuestBookingPolicy snap" "r = Inr resp"
        "find_by_key u (dto_idempotency_key dto) db = None"
        "find_listing (dto_listing_id dto) db = Some l" "ls_status l = LIVE" "ls_rate_plan l = Some rp"
        "parseBookingDateOnly (dto_checkin_date dto) = Inr ci" "parseBookingDateOnly (dto_checkout_date dto) = Inr co"
        "ci < co"
        "available_days (dto_listing_id dto) ci co None (bookings db) (blocks db)"
        "be_save be (bookings db) (booked_row w new_id now u dto rp ci co db) = Saved"
        "bookings db' = bookings db @ [booked_row w new_id now u dto rp ci co db]"
        "ledger db' = ledger db" "intents db' = intents db" "blocks db' = blocks db"
        "listings db' = listings db" "conversations db' = conversations db" "messages db' = messages db"
        "outbox db' = outbox db"
        "ref_counters db' = snd (allocateBookingReference (ref_counters db) now)"
proof -
  consider (no) "\<not> meetsGuestBookingPolicy snap" | (key) b where "meetsGuestBookingPolicy snap"
      "find_by_key u (dto_idempotency_key dto) db = Some b"
    | (go) "meetsGuestBookingPolicy snap" "find_by_key u (dto_idempotency_key dto) db = None"
    by (cases "find_by_key u (dto_idempotency_key dto) db") auto
  then show ?thesis
  proof cases
    case go
    then have "transaction (create_body w be new_id now u dto ip ag) db = (r, db')"
      using assms by (simp add: createBooking_def)
    then show ?thesis
    proof (cases rule: transaction_cases)
      case (commit resp)
      from commit(2) show ?thesis
      proof (cases rule: create_body_cases)
        case (booked_now l ci co)
        have n: "bookingNightsBetween (dto_checkin_date dto) (dto_checkout_date dto) = Inr (co - ci)"
          using booked_now(4,5) by (rule bookingNightsBetween_days)
        have "ci < co" using booked_now(6) by (simp add: assertMinOneNightStay_def n split: if_splits)
        from booked_now(7,4,5) show ?thesis
          by (cases rule: book_dates_cases)
            (use created [OF go(1) commit(1) go(2) booked_now(2,3) _ booked_now(4,5) \<open>ci < co\<close>] in simp_all)
      next
        case (replayed b)
        then show ?thesis using go by simp
      qed simp
    next
      case (abort e db1)
      then show ?thesis by (intro failed) simp_all
    qed
  next
    case no
    then have "\<exists>e. r = Inl e" "db' = db" using assms by (auto simp: createBooking_def)
    then show ?thesis using failed by blast
  next
    case (key b)
    then have "r = Inr (plain_response w now db b)" "db' = db" using assms by (auto simp: createBooking_def)
    then show ?thesis by (rule replayed [OF key])
  qed
qed

lemma createBooking_no_double:
  assumes "createBooking w be new_id now u dto snap ip ag db = (r, db')" and "no_double_booking db"
  shows "no_double_booking db'"
  using assms(1)
proof (cases rule: createBooking_cases)
  case (created l rp ci co resp)
  let ?b = "booked_row w new_id now u dto rp ci co db"
  have "admits_booking (blocks db) (bookings db) ?b"
    using created(10) by (simp add: admits_booking_def booked_row_def new_booking_def Let_def)
  then show ?thesis
    using assms(2) created(12) stays.admit_keeps_free by (simp add: no_double_booking_def)
qed (use assms(2) in \<open>simp_all add: no_double_booking_def\<close>)

lemma booked_row_balanced:
  assumes "rates_in_range (w_env w) db" and "price_in_range rp (co - ci)"
  shows "booking_balanced (booked_row w new_id now u dto rp ci co db)"
    and "bk_total_subtotal (booked_row w new_id now u dto rp ci co db) = rp_base_price rp * (co - ci)"
proof -
  let ?g = "pct_num (ps_guest_fee_pct (rate_row (w_env w) db))" and ?h = "pct_num (ps_host_fee_pct (rate_row (w_env w) db))"
  define x where "x = js_mul (num (rp_base_price rp)) (of_int (co - ci))"
  have r: "0 \<le> ?g" "?g \<le> 1 / 2" "0 \<le> ?h" "?h \<le> 1 / 2"
    using assms(1) unfolding rates_in_range_def by (blast intro: pct_num_bounds)+
  have p: "0 \<le> rp_base_price rp" "0 \<le> co - ci" "rp_base_price rp * (co - ci) \<le> 2 ^ 42"
    using assms(2) by (auto simp: price_in_range_def)
  note s = stored_amounts_spec [OF p r, folded x_def]
  show "booking_balanced (booked_row w new_id now u dto rp ci co db)"
    and "bk_total_subtotal (booked_row w new_id now u dto rp ci co db) = rp_base_price rp * (co - ci)"
    using s(1) s(2-) p(3) unfolding booked_row_def Let_def x_def [symmetric]
    by (auto simp: new_booking_def booking_balanced_def stored_amounts_def)
qed

section \<open>The host's blocks\<close>

lemma block_nights_eq:
  assumes "length dates \<le> 366"
  shows "block_nights c e dates =
    (if int (length dates) + (e - c) \<le> 366 \<or> e \<le> c then Inr (dates @ map formatLocalDate [c..e - 1])
     else Inl (Bad_Request ''Availability range cannot exceed 366 nights''))"
  using assms
proof (induction c e dates rule: block_nights.induct)
  case (1 c e dates)
  show ?case
  proof (cases "c < e")
    case True
    then have u: "[c..e - 1] = c # [c + 1..e - 1]" by (simp add: upto_rec1)
    show ?thesis
      using 1 True by (subst block_nights.simps) (auto simp: Let_def u)
  next
    case False
    then show ?thesis by (subst block_nights.simps) simp
  qed
qed

lemma parse_all_format:
  "\<forall>d\<in>set ds. iso_range d \<Longrightarrow> parse_all (map formatLocalDate ds) = Inr ds"
  by (induction ds) (simp_all add: parse_formatLocalDate)

lemma is_ymd_format: "iso_range d \<Longrightarrow> is_ymd (formatLocalDate d)"
  unfolding is_ymd_def formatLocalDate_def
  using match_formatLocalDate [of d] date_fields_range [of d]
  by (auto simp: formatLocalDate_def iso_range_def digit_str_year digit_str_pad2)

definition host_blocked :: "uuid \<Rightarrow> day \<Rightarrow> availability_block list \<Rightarrow> bool" where
  "host_blocked l n abl \<longleftrightarrow> (\<exists>ab\<in>set abl. ab_listing_id ab = l \<and> ab_is_blocked ab \<and> ab_date ab = n)"

lemma upsert_block_blocked:
  "host_blocked l' n (upsert_block l v d rows) \<longleftrightarrow> (if l' = l \<and> n = d then v else host_blocked l' n rows)"
proof (cases "exists_where (\<lambda>ab. ab_listing_id ab = l \<and> ab_date ab = d) rows")
  case True
  then show ?thesis
    unfolding upsert_block_def Let_def host_blocked_def exists_where_iff update_where_def
    by (simp only: if_True set_map bex_simps) (cases "l' = l \<and> n = d"; auto split: if_splits)
qed (auto simp: upsert_block_def Let_def host_blocked_def exists_where_iff insert_row_def)

lemma upsert_blocks_blocked:
  "host_blocked l' n (fold (upsert_block l v) ds rows) \<longleftrightarrow>
     (if l' = l \<and> n \<in> set ds then v else host_blocked l' n rows)"
  by (induction ds arbitrary: rows) (auto simp: upsert_block_blocked)


lemma setHostAvailabilityBlock_eq:
  assumes "find_listing l db = Some row" and "ls_host_user_id row = h"
    and "iso_range ci" "iso_range co" "ci < co"
  shows "setHostAvailabilityBlock l h (formatLocalDate ci) (formatLocalDate co) v db =
    (if co - ci \<le> 366
     then (Inr \<lparr>hb_listing_id = l, hb_from = formatLocalDate ci, hb_to = formatLocalDate co,
                hb_is_blocked = v, hb_nights = nat (co - ci)\<rparr>,
           audit_log (Some h) (Some ''HOST'') ''LISTING'' (Some l)
             (if v then ''HOST_BLOCKED_DATES'' else ''HOST_UNBLOCKED_DATES'')
             [(''from'', JStr (formatLocalDate ci)), (''to'', JStr (formatLocalDate co)),
              (''nights'', JNum (of_int (co - ci)))] None None
             (db\<lparr>blocks := fold (upsert_block l v) [ci..co - 1] (blocks db)\<rparr>))
     else (Inl (Bad_Request ''Availability range cannot exceed 366 nights''), db))"
proof -
  have "\<forall>d\<in>set [ci..co - 1]. iso_range d" using iso_range_between [OF assms(3,4)] by simp
  then have p: "parse_all (map formatLocalDate [ci..co - 1]) = Inr [ci..co - 1]" by (rule parse_all_format)
  show ?thesis
    unfolding setHostAvailabilityBlock_def
    using assms p
    by (simp add: Let_def trim_formatLocalDate is_ymd_format js_less_formatLocalDate parse_formatLocalDate
        block_nights_eq)
qed

text \<open>A request that meets every condition is booked.\<close>

lemma createBooking_ok:
  assumes "meetsGuestBookingPolicy snap" and "find_by_key u (dto_idempotency_key dto) db = None"
    and "find_listing (dto_listing_id dto) db = Some l" and "ls_status l = LIVE" and "ls_rate_plan l \<noteq> None"
    and "ls_rules l = None"
    and d: "parseBookingDateOnly (dto_checkin_date dto) = Inr ci" "parseBookingDateOnly (dto_checkout_date dto) = Inr co"
    and "ci < co" and "available_days (dto_listing_id dto) ci co None (bookings db) (blocks db)"
    and "dto_occupants dto = None" and "dto_guest_count dto \<le> 50" and "\<And>bs b. be_save be bs b = Saved"
  obtains resp db' b where "createBooking w be new_id now u dto snap ip ag db = (Inr resp, db')"
    and "bookings db' = bookings db @ [b]" and "bk_id b = new_id" and "bk_listing_id b = dto_listing_id dto"
    and "bk_checkin_date b = ci" and "bk_checkout_date b = co" and "bk_status b = PAYMENT_PENDING"
    and "listings db' = listings db" and "blocks db' = blocks db" and "bk_guest_user_id b = u"
    and "bk_idempotency_key b = (if truthy (dto_idempotency_key dto) then dto_idempotency_key dto else None)"
    and "rate_row (w_env w) db' = rate_row (w_env w) db"
proof -
  obtain rp where rp: "ls_rate_plan l = Some rp" using assms(5) by auto
  let ?b = "booked_row w new_id now u dto rp ci co db"
  have n: "assertMinOneNightStay (dto_checkin_date dto) (dto_checkout_date dto) = Inr ()"
    using bookingNightsBetween_days [OF d] assms(9) by (simp add: assertMinOneNightStay_def)
  obtain db2 where bd: "book_dates w be new_id now u dto ip ag l ci co db = store_booking w be new_id now u dto ip ag ?b db2"
    and b2: "bookings db2 = bookings db" "listings db2 = listings db" "blocks db2 = blocks db"
      "settings db2 = settings (ensureRow (w_env w) db)"
    by (rule book_dates_step [OF d assms(10) rp])
  obtain resp db' where st: "book_dates w be new_id now u dto ip ag l ci co db = (Inr resp, db')"
    unfolding bd by (simp add: store_booking_def assms(11,13) Let_def)
  then have fr: "bookings db' = bookings db @ [?b]" "listings db' = listings db" "blocks db' = blocks db"
      "settings db' = settings (ensureRow (w_env w) db)"
    unfolding bd by (simp_all add: store_booking_def assms(11,13) Let_def b2 insert_row_def) (auto simp: b2 log_created_def)
  obtain row where row: "settings (ensureRow (w_env w) db) = Some row" using ensureRow_some by blast
  have rr: "rate_row (w_env w) db' = rate_row (w_env w) db"
    using fr(4) row by (simp add: rate_row_def ensureRow_def [of _ db'])
  have "create_body w be new_id now u dto ip ag db = (Inr resp, db')"
    unfolding create_body_def assms(2,3,4,6,11) option.case d sum.case n Let_def st using assms(12) by simp
  then have c: "createBooking w be new_id now u dto snap ip ag db = (Inr resp, db')"
    unfolding createBooking_def assms(2) using assms(1) by (simp add: transaction_def)
  show thesis
    by (rule that [OF c fr(1)]) (simp_all add: fr rr booked_row_def new_booking_def Let_def)
qed

lemma find_by_key_created:
  assumes "find_by_key u (dto_idempotency_key dto) db = None" and "truthy (dto_idempotency_key dto)"
    and "bookings db' = bookings db @ [booked_row w new_id now u dto rp ci co db]"
  shows "find_by_key u (dto_idempotency_key dto) db' = Some (booked_row w new_id now u dto rp ci co db)"
  using assms by (simp add: find_by_key_def find_where_append booked_row_def new_booking_def Let_def)

section \<open>Properties\<close>

text \<open>
  C3: a booking request either leaves every table as it was (any error, or the replay of an
  idempotency key) or, for a verified guest and a live listing, appends exactly one pending booking of
  the requested listing over at least one night, none of which is taken; either way no two bookings
  that hold dates come to share a night, and money, chat and calendar tables are not touched.
\<close>

theorem create_booking_outcomes:
  assumes "createBooking w be new_id now u dto snap ip ag db = (r, db')"
  shows "(no_double_booking db \<longrightarrow> no_double_booking db') \<and>
    ledger db' = ledger db \<and> intents db' = intents db \<and> blocks db' = blocks db \<and> messages db' = messages db \<and>
    conversations db' = conversations db \<and>
    (bookings db' = bookings db \<or>
      (\<exists>b l. bookings db' = bookings db @ [b] \<and> meetsGuestBookingPolicy snap \<and> is_ok r \<and>
        find_listing (dto_listing_id dto) db = Some l \<and> ls_status l = LIVE \<and>
        bk_id b = new_id \<and> bk_guest_user_id b = u \<and> bk_listing_id b = dto_listing_id dto \<and> bk_status b = PAYMENT_PENDING \<and>
        parseBookingDateOnly (dto_checkin_date dto) = Inr (bk_checkin_date b) \<and>
        parseBookingDateOnly (dto_checkout_date dto) = Inr (bk_checkout_date b) \<and>
        bk_checkin_date b < bk_checkout_date b \<and>
        available_days (bk_listing_id b) (bk_checkin_date b) (bk_checkout_date b) None (bookings db) (blocks db)))"
  using assms
proof (cases rule: createBooking_cases)
  case (created l rp ci co resp)
  let ?b = "booked_row w new_id now u dto rp ci co db"
  have f: "bk_id ?b = new_id" "bk_guest_user_id ?b = u" "bk_listing_id ?b = dto_listing_id dto"
    "bk_status ?b = PAYMENT_PENDING" "bk_checkin_date ?b = ci" "bk_checkout_date ?b = co"
    by (simp_all add: booked_row_def new_booking_def Let_def)
  have "no_double_booking db \<longrightarrow> no_double_booking db'" using createBooking_no_double [OF assms] by blast
  moreover have "is_ok r" using created(2) by (simp add: is_ok_def)
  ultimately show ?thesis using created f by (intro conjI disjI2 exI [of _ ?b] exI [of _ l]) simp_all
qed (use createBooking_no_double [OF assms] in simp_all)

text \<open>
  The money of a new booking. With stored rates of at most 50 percent and a price times nights of
  at most 2^42 cents, the row that a request creates stores the exact product as its subtotal and amounts
  that balance, so that its payment will pass the ledger check.
\<close>

theorem created_booking_balanced:
  assumes "createBooking w be new_id now u dto snap ip ag db = (r, db')" and "bookings db' \<noteq> bookings db"
    and "find_listing (dto_listing_id dto) db = Some l" and "ls_rate_plan l = Some rp"
    and "parseBookingDateOnly (dto_checkin_date dto) = Inr ci" and "parseBookingDateOnly (dto_checkout_date dto) = Inr co"
    and "rates_in_range (w_env w) db" and "price_in_range rp (co - ci)"
  shows "\<exists>b. bookings db' = bookings db @ [b] \<and> booking_balanced b \<and>
    bk_total_subtotal b = rp_base_price rp * (co - ci) \<and> bk_currency b = rp_currency rp"
  using assms(1)
proof (cases rule: createBooking_cases)
  case (created l' rp' ci' co' resp)
  have e: "rp' = rp" "ci' = ci" "co' = co" using created(4,6-8) assms(3-6) by simp_all
  let ?b = "booked_row w new_id now u dto rp ci co db"
  have "bk_currency ?b = rp_currency rp" by (simp add: booked_row_def new_booking_def Let_def)
  then show ?thesis using created(12) booked_row_balanced [OF assms(7,8), of new_id now u dto] unfolding e by blast
qed (use assms(2) in simp_all)

text \<open>
  The idempotency key of a booking request. After a request with a key succeeded, sending it
  again (at any time, with any fresh identifier, to whatever outside world) answers with the stored
  booking of that key and changes nothing at all.
\<close>

theorem create_booking_replay:
  assumes "createBooking w be new_id now u dto snap ip ag db = (Inr resp, db')" and "truthy (dto_idempotency_key dto)"
  shows "\<exists>b. find_by_key u (dto_idempotency_key dto) db' = Some b \<and>
    createBooking w' be' new_id' now' u dto snap ip' ag' db' = (Inr (plain_response w' now' db' b), db')"
proof -
  have "\<exists>b. find_by_key u (dto_idempotency_key dto) db' = Some b \<and> meetsGuestBookingPolicy snap"
    using assms(1)
  proof (cases rule: createBooking_cases)
    case (created l rp ci co resp')
    show ?thesis using find_by_key_created [OF created(3) assms(2) created(12)] created(1) by blast
  qed simp_all
  then show ?thesis by (auto simp: createBooking_def)
qed

text \<open>
  A host blocks or unblocks dates: for a range of at most 366 nights every night of it, and no
  other, gets the requested state; a longer range is refused and nothing changes; bookings are not
  touched.
\<close>

theorem host_block_exact:
  assumes "find_listing l db = Some row" and "ls_host_user_id row = h" and "iso_range ci" "iso_range co" "ci < co"
    and "setHostAvailabilityBlock l h (formatLocalDate ci) (formatLocalDate co) v db = (r, db')"
  shows "bookings db' = bookings db \<and>
    (if co - ci \<le> 366
     then is_ok r \<and> (\<forall>l' n. host_blocked l' n (blocks db') \<longleftrightarrow>
       (if l' = l \<and> ci \<le> n \<and> n < co then v else host_blocked l' n (blocks db)))
     else r = Inl (Bad_Request ''Availability range cannot exceed 366 nights'') \<and> db' = db)"
  using assms(6) unfolding setHostAvailabilityBlock_eq [OF assms(1-5)]
  by (auto simp: upsert_blocks_blocked is_ok_def audit_log_def split: if_splits)

section \<open>Witnesses\<close>

definition sample_dto :: create_booking_dto where
  "sample_dto = \<lparr>dto_listing_id = ''l1'', dto_checkin_date = ''2024-06-01'', dto_checkout_date = ''2024-06-04'',
     dto_guest_count = 2, dto_idempotency_key = Some ''k1'', dto_occupants = None\<rparr>"

definition listed_db :: stays_db where
  "listed_db = no_rows\<lparr>listings := [sample_listing]\<rparr>"

definition open_saves :: booking_env where
  "open_saves = \<lparr>be_stored = (\<lambda>_. True), be_save = (\<lambda>_ _. Saved)\<rparr>"

theorem host_block_exact_witness:
  "host_blocked ''l1'' 19877 (blocks (snd (setHostAvailabilityBlock ''l1'' ''h1'' (formatLocalDate 19875)
      (formatLocalDate 19878) True listed_db))) \<and>
   \<not> host_blocked ''l1'' 19878 (blocks (snd (setHostAvailabilityBlock ''l1'' ''h1'' (formatLocalDate 19875)
      (formatLocalDate 19878) True listed_db)))"
proof -
  have r: "iso_range 19875" "iso_range 19878" by code_simp+
  have l: "find_listing ''l1'' listed_db = Some sample_listing" "ls_host_user_id sample_listing = ''h1''"
    by (simp_all add: listed_db_def find_listing_def sample_listing_def)
  show ?thesis
    using host_block_exact [OF l r _ surjective_pairing] by (simp add: host_blocked_def listed_db_def no_rows_def)
qed


definition verified_guest :: "identity_snapshot option" where
  "verified_guest = Some \<lparr>kycStatus = ''APPROVED'', kycLevel = 2\<rparr>"

lemma sample_dto_dates:
  "dto_checkin_date sample_dto = ''2024-06-01''" "dto_checkout_date sample_dto = ''2024-06-04''"
  by (simp_all add: sample_dto_def)

lemma sample_created:
  obtains resp db' where "createBooking sample_world open_saves ''b9'' 1717000000000 ''g1'' sample_dto verified_guest None None
      listed_db = (Inr resp, db')" and "length (bookings db') = 1"
proof -
  have d: "parseBookingDateOnly ''2024-06-01'' = Inr 19875" "parseBookingDateOnly ''2024-06-04'' = Inr 19878"
    by code_simp+
  have verified: "meetsGuestBookingPolicy verified_guest" by code_simp
  have l: "find_listing (dto_listing_id sample_dto) listed_db = Some sample_listing" "ls_status sample_listing = LIVE"
    "ls_rate_plan sample_listing \<noteq> None" "ls_rules sample_listing = None"
    by (simp_all add: listed_db_def find_listing_def sample_listing_def sample_dto_def)
  have k: "find_by_key ''g1'' (dto_idempotency_key sample_dto) listed_db = None"
    by (simp add: find_by_key_def listed_db_def no_rows_def)
  have av: "available_days (dto_listing_id sample_dto) 19875 19878 None (bookings listed_db) (blocks listed_db)"
    by (simp add: available_days_iff listed_db_def no_rows_def)
  have o: "dto_occupants sample_dto = None" "dto_guest_count sample_dto \<le> 50" by (simp_all add: sample_dto_def)
  obtain resp db' b where c: "createBooking sample_world open_saves ''b9'' 1717000000000 ''g1'' sample_dto verified_guest None None
      listed_db = (Inr resp, db')" "bookings db' = bookings listed_db @ [b]"
    by (rule createBooking_ok [OF verified k l d [folded sample_dto_dates] _ av o, of open_saves sample_world "''b9''"
          1717000000000 None None]) (simp_all add: open_saves_def)
  have "bookings listed_db = []" by (simp add: listed_db_def no_rows_def)
  then show thesis using that [OF c(1)] c(2) by simp
qed

theorem create_booking_outcomes_witness:
  "\<exists>r db'. createBooking sample_world open_saves ''b9'' 1717000000000 ''g1'' sample_dto verified_guest None None listed_db = (r, db')
     \<and> no_double_booking db' \<and> length (bookings db') = 1 \<and> ledger db' = []"
proof -
  obtain resp db' where c: "createBooking sample_world open_saves ''b9'' 1717000000000 ''g1'' sample_dto verified_guest None None
      listed_db = (Inr resp, db')" "length (bookings db') = 1" by (rule sample_created)
  have "no_double_booking listed_db" "ledger listed_db = []"
    by (simp_all add: no_double_booking_def conflict_free_def listed_db_def no_rows_def)
  then show ?thesis using create_booking_outcomes [OF c(1)] c by auto
qed

theorem created_booking_balanced_witness:
  "\<exists>r db' b. createBooking sample_world open_saves ''b9'' 1717000000000 ''g1'' sample_dto verified_guest None None listed_db = (r, db')
     \<and> bookings db' = [b] \<and> booking_balanced b \<and> bk_total_subtotal b = 60000"
proof -
  obtain resp db' where c: "createBooking sample_world open_saves ''b9'' 1717000000000 ''g1'' sample_dto verified_guest None None
      listed_db = (Inr resp, db')" "length (bookings db') = 1" by (rule sample_created)
  let ?rp = "\<lparr>rp_currency = ''MAD'', rp_base_price = 20000, rp_weekend_price = None, rp_deposit_policy_text = None\<rparr>"
  have e: "bookings listed_db = []" by (simp add: listed_db_def no_rows_def)
  then have ne: "bookings db' \<noteq> bookings listed_db" using c(2) by auto
  have l: "find_listing (dto_listing_id sample_dto) listed_db = Some sample_listing" "ls_rate_plan sample_listing = Some ?rp"
    by (simp_all add: listed_db_def find_listing_def sample_listing_def sample_dto_def)
  have d: "parseBookingDateOnly (dto_checkin_date sample_dto) = Inr 19875"
    "parseBookingDateOnly (dto_checkout_date sample_dto) = Inr 19878" by code_simp+
  have g: "rates_in_range (w_env sample_world) listed_db" by code_simp
  have p: "price_in_range ?rp (19878 - 19875)" by (simp add: price_in_range_def)
  show ?thesis using created_booking_balanced [OF c(1) ne l d g p] c e by auto
qed

theorem create_booking_replay_witness:
  "\<exists>resp db' b. createBooking sample_world open_saves ''b9'' 1717000000000 ''g1'' sample_dto verified_guest None None listed_db
       = (Inr resp, db') \<and>
     createBooking sample_world open_saves ''other'' 1717000009999 ''g1'' sample_dto verified_guest None None db'
       = (Inr (plain_response sample_world 1717000009999 db' b), db')"
proof -
  obtain resp db' where c: "createBooking sample_world open_saves ''b9'' 1717000000000 ''g1'' sample_dto verified_guest None None
      listed_db = (Inr resp, db')" "length (bookings db') = 1" by (rule sample_created)
  have "truthy (dto_idempotency_key sample_dto)" by code_simp
  from create_booking_replay [OF c(1) this] c(1) show ?thesis by blast
qed

end
