(* ===== verification/StaysCancellation.thy ===== *)
theory StaysCancellation
  imports Payments
begin

text \<open>
  \<^verbatim>\<open>services/stays-cancellation.service.ts\<close>: cancelling a booking as its guest or its host, the refund
  its policy gives, and what follows at the gateway and in the chat. The asynchronous synchronisation
  of the chat is run at the end, where the source starts it.
\<close>

section \<open>The refund of a policy\<close>

definition round_half :: "rat \<Rightarrow> rat" where
  "round_half paid = js_div (of_int (math_round (js_mul (js_mul paid (1 / 2)) 100))) 100"

definition calculateRefund :: "cancellation_policy \<Rightarrow> rat \<Rightarrow> rat \<Rightarrow> rat \<Rightarrow> rat" where
  "calculateRefund policy hoursToCheckin subtotal gFee =
     (let paid = js_add subtotal gFee
      in case policy of
           FLEXIBLE \<Rightarrow>
             if hoursToCheckin \<ge> 24 then paid
             else let penalty = max (js_mul subtotal (fl (1 / 10))) 0
                  in max 0 (js_div (of_int (math_round (js_mul (js_sub paid penalty) 100))) 100)
         | MODERATE \<Rightarrow>
             if hoursToCheckin \<ge> 120 then paid
             else if hoursToCheckin \<ge> 24 then round_half paid
             else 0
         | STRICT \<Rightarrow> if hoursToCheckin \<ge> 168 then round_half paid else 0)"

definition hours_to_checkin :: "booking \<Rightarrow> time \<Rightarrow> rat" where
  "hours_to_checkin b now = js_div (of_int (bk_checkin_date b * ms_per_day - now)) 3600000"

section \<open>Cancelling\<close>

datatype canceller = As_Guest | As_Host

definition canceller_name :: "canceller \<Rightarrow> string" where
  "canceller_name c = (case c of As_Guest \<Rightarrow> ''guest'' | As_Host \<Rightarrow> ''host'')"

definition canceller_role :: "canceller \<Rightarrow> string" where
  "canceller_role c = (case c of As_Guest \<Rightarrow> ''GUEST'' | As_Host \<Rightarrow> ''HOST'')"

definition cancelled_status :: "canceller \<Rightarrow> booking_status" where
  "cancelled_status c = (case c of As_Guest \<Rightarrow> CANCELLED_BY_GUEST | As_Host \<Rightarrow> CANCELLED_BY_HOST)"

definition nonCancellable :: "booking_status list" where
  "nonCancellable = [COMPLETED, CANCELLED_BY_GUEST, CANCELLED_BY_HOST, EXPIRED]"

definition cannot_cancel :: "booking_status \<Rightarrow> http_error" where
  "cannot_cancel st = Bad_Request (''Cannot cancel booking in status '' @ status_name st)"

definition policy_name :: "cancellation_policy \<Rightarrow> string" where
  "policy_name p = (case p of FLEXIBLE \<Rightarrow> ''FLEXIBLE'' | MODERATE \<Rightarrow> ''MODERATE'' | STRICT \<Rightarrow> ''STRICT'')"

text \<open>What the transaction hands to the code after it.\<close>

record cancel_result =
  cr_refund :: rat
  cr_had_payment :: bool
  cr_void :: "string list"

record cancel_response =
  cn_id :: uuid
  cn_status :: booking_status
  cn_refund_amount :: rat

text \<open>The refund entry: only for a settled guest payment that has none yet, and a positive amount.\<close>

definition refund_due :: "uuid \<Rightarrow> rat \<Rightarrow> stays_db \<Rightarrow> bool" where
  "refund_due bookingId theoretical db \<longleftrightarrow>
     exists_where (settled_payment bookingId) (ledger db) \<and>
     \<not> exists_where (\<lambda>e. le_booking_id e = bookingId \<and> le_type e = REFUND) (ledger db) \<and>
     theoretical > 0"

definition cancel_body ::
    "(nat \<Rightarrow> uuid) \<Rightarrow> time \<Rightarrow> booking \<Rightarrow> cancellation_policy \<Rightarrow> rat \<Rightarrow> uuid \<Rightarrow> canceller \<Rightarrow> string option
     \<Rightarrow> string option \<Rightarrow> string option \<Rightarrow> stays_db \<Rightarrow> cancel_result result \<times> stays_db" where
  "cancel_body gen now b policy theoreticalRefund userId cancelledBy reason ip agent db =
     (case find_booking (bk_id b) db of
        None \<Rightarrow> (Inl (Not_Found ''Booking not found''), db)
      | Some lockedBooking \<Rightarrow>
          if bk_status lockedBooking \<in> set nonCancellable then (Inl (cannot_cancel (bk_status lockedBooking)), db)
          else
            let hit = (\<lambda>x. bk_id x = bk_id b \<and> bk_status x = bk_status lockedBooking)
            in if affected hit (bookings db) = 0
               then (Inl (Conflict_Err ''Booking status changed concurrently''), db)
               else
                 let db1 = db\<lparr>bookings := update_where hit (\<lambda>x. x\<lparr>bk_status := cancelled_status cancelledBy\<rparr>) (bookings db)\<rparr>;
                     had = exists_where (settled_payment (bk_id b)) (ledger db1);
                     due = refund_due (bk_id b) theoreticalRefund db1;
                     refundAmount = (if due then theoreticalRefund else 0);
                     db2 = (if due
                            then db1\<lparr>ledger := insert_row
                                  (ledger_row (gen 0) now b REFUND refundAmount L_PENDING
                                     ([(''cancellation_policy'', JStr (policy_name policy)),
                                       (''cancelled_by'', JStr (canceller_name cancelledBy))] @ opt_field ''reason'' reason))
                                  (ledger db1)\<rparr>
                            else db1);
                     voids = (if had then []
                              else concat (map (\<lambda>p. case pi_provider_intent_id p of
                                       None \<Rightarrow> [] | Some pid \<Rightarrow> if pid = [] then [] else [pid])
                                     (filter (\<lambda>p. pi_booking_id p = bk_id b \<and> pi_provider p = ''cmi'' \<and>
                                        (pi_status p = I_PENDING \<or> pi_status p = I_FAILED)) (intents db2))));
                     db3 = db2\<lparr>intents := update_where (\<lambda>p. pi_booking_id p = bk_id b \<and> pi_status p = I_PENDING)
                             (\<lambda>p. p\<lparr>pi_status := I_CANCELLED\<rparr>) (intents db2)\<rparr>;
                     db4 = audit_log (Some userId) (Some (canceller_role cancelledBy)) ''BOOKING'' (Some (bk_id b))
                             ''BOOKING_CANCELLED''
                             ([(''cancelled_by'', JStr (canceller_name cancelledBy))] @ opt_field ''reason'' reason @
                              [(''refund_amount'', JNum refundAmount), (''theoretical_refund_amount'', JNum theoreticalRefund),
                               (''had_settled_guest_payment'', JBool had)]) ip agent db3
                 in (Inr \<lparr>cr_refund = refundAmount, cr_had_payment = had, cr_void = voids\<rparr>, db4))"

text \<open>The voids after an unpaid cancellation; a failing one is logged and the next is tried.\<close>

fun void_each :: "world \<Rightarrow> time \<Rightarrow> metadata \<Rightarrow> string list \<Rightarrow> stays_db \<Rightarrow> stays_db" where
  "void_each w now ctxt [] db = db"
| "void_each w now ctxt (oid # oids) db = void_each w now ctxt oids (snd (voidCmiPreAuth w now oid ctxt db))"

definition cancel_gateway :: "world \<Rightarrow> time \<Rightarrow> booking \<Rightarrow> cancel_result \<Rightarrow> stays_db \<Rightarrow> stays_db" where
  "cancel_gateway w now b cr db =
     (if isMockPaymentProvider (w_env w) then db
      else if cr_had_payment cr \<and> cr_refund cr > 0
      then snd (refundCmiForBooking w now (bk_id b) (cr_refund cr) (bk_currency b) db)
      else void_each w now [(''reason'', JStr ''BOOKING_CANCELLED_UNPAID''), (''booking_id'', JStr (bk_id b))]
             (cr_void cr) db)"

definition cancel_event :: "booking \<Rightarrow> listing option \<Rightarrow> canceller \<Rightarrow> stays_db \<Rightarrow> stays_db" where
  "cancel_event b l cancelledBy db =
     (case l of
        None \<Rightarrow> db
      | Some x \<Rightarrow>
          if ls_host_user_id x = [] then db
          else publish ''EVENTS.BOOKING_CANCELLED''
                 [(''bookingId'', JStr (bk_id b)), (''listingId'', JStr (bk_listing_id b)),
                  (''guestUserId'', JStr (bk_guest_user_id b)), (''hostUserId'', JStr (ls_host_user_id x)),
                  (''cancelledBy'', JStr (canceller_name cancelledBy))] db)"

text \<open>What \<open>cancel\<close> does once its transaction has committed.\<close>

definition after_cancel ::
    "world \<Rightarrow> (nat \<Rightarrow> uuid) \<Rightarrow> time \<Rightarrow> booking \<Rightarrow> listing option \<Rightarrow> canceller \<Rightarrow> cancel_result \<Rightarrow> stays_db
     \<Rightarrow> cancel_response result \<times> stays_db" where
  "after_cancel w gen now b l cancelledBy cr db =
     (let db1 = cancel_gateway w now b cr db;
          db2 = cancel_event b l cancelledBy db1;
          db3 = snd (syncFromBooking (w_env w) (w_off w) (\<lambda>k. gen (k + 1)) now (bk_id b) db2)
      in (case find_booking (bk_id b) db3 of
            None \<Rightarrow> (Inl (Server_Error ''booking row missing''), db3)
          | Some updated \<Rightarrow>
              (Inr \<lparr>cn_id = bk_id updated, cn_status = bk_status updated, cn_refund_amount = cr_refund cr\<rparr>, db3)))"

definition policy_of :: "listing option \<Rightarrow> cancellation_policy" where
  "policy_of l =
     (case l of None \<Rightarrow> MODERATE | Some x \<Rightarrow> (case ls_rules x of None \<Rightarrow> MODERATE | Some r \<Rightarrow> lr_cancellation_policy r))"

definition cancel ::
    "world \<Rightarrow> (nat \<Rightarrow> uuid) \<Rightarrow> time \<Rightarrow> uuid \<Rightarrow> uuid \<Rightarrow> canceller \<Rightarrow> string option \<Rightarrow> string option \<Rightarrow> string option
     \<Rightarrow> stays_db \<Rightarrow> cancel_response result \<times> stays_db" where
  "cancel w gen now bookingId userId cancelledBy reason ip agent db =
     (case find_booking bookingId db of
        None \<Rightarrow> (Inl (Not_Found ''Booking not found''), db)
      | Some b \<Rightarrow>
          let l = find_listing (bk_listing_id b) db;
              isGuest = (bk_guest_user_id b = userId);
              isHost = (case l of None \<Rightarrow> False | Some x \<Rightarrow> ls_host_user_id x = userId)
          in if \<not> isGuest \<and> \<not> isHost then (Inl (Not_Found ''Booking not found''), db)
             else if cancelledBy = As_Guest \<and> \<not> isGuest
             then (Inl (Bad_Request ''Only the guest can cancel as guest''), db)
             else if cancelledBy = As_Host \<and> \<not> isHost
             then (Inl (Bad_Request ''Only the host can cancel as host''), db)
             else if bk_status b \<in> set nonCancellable then (Inl (cannot_cancel (bk_status b)), db)
             else
               let policy = policy_of l;
                   theoreticalRefund = calculateRefund policy (hours_to_checkin b now)
                     (num (bk_total_subtotal b)) (num (bk_guest_fee b))
               in (case transaction (cancel_body gen now b policy theoreticalRefund userId cancelledBy reason ip agent) db of
                     (Inl e, db1) \<Rightarrow> (Inl e, db1)
                   | (Inr cr, db1) \<Rightarrow> after_cancel w gen now b l cancelledBy cr db1))"

section \<open>The refund in cents\<close>

text \<open>
  The contract of \<open>calculateRefund\<close>: by policy and notice the whole amount, half of it, all but a tenth of
  the subtotal, or nothing.
\<close>

datatype refund_share = Whole | Half | Less_Tenth | Nothing

definition refund_share :: "cancellation_policy \<Rightarrow> rat \<Rightarrow> refund_share" where
  "refund_share p h =
     (case p of
        FLEXIBLE \<Rightarrow> if h \<ge> 24 then Whole else Less_Tenth
      | MODERATE \<Rightarrow> if h \<ge> 120 then Whole else if h \<ge> 24 then Half else Nothing
      | STRICT \<Rightarrow> if h \<ge> 168 then Half else Nothing)"

definition share_cents :: "refund_share \<Rightarrow> int \<Rightarrow> int \<Rightarrow> int \<Rightarrow> bool" where
  "share_cents sh s g r \<longleftrightarrow>
     (case sh of
        Whole \<Rightarrow> r = s + g
      | Half \<Rightarrow> \<bar>2 * r - (s + g)\<bar> \<le> 1
      | Less_Tenth \<Rightarrow> \<bar>10 * r - (9 * s + 10 * g)\<bar> \<le> 5
      | Nothing \<Rightarrow> r = 0)"

lemma int_of_rat_le: "(of_int a :: rat) < of_int b + 1 \<Longrightarrow> a \<le> b"
proof -
  assume "(of_int a :: rat) < of_int b + 1"
  then have "(of_int a :: rat) < of_int (b + 1)" by simp
  then show "a \<le> b" unfolding of_int_less_iff by simp
qed

lemma round_half_cents:
  assumes "near x k (1 / 128)" and "0 \<le> k" and "k \<le> 2 ^ 42" and "0 \<le> x"
  shows "\<bar>2 * fee_cents x (1 / 2) - k\<bar> \<le> 1" and "round_half x = num (fee_cents x (1 / 2))"
proof -
  have f: "of_int (fee_cents x (1 / 2)) \<le> of_int k * (1 / 2) + 1 / 2 + (1 / 64 :: rat)"
    "of_int k * (1 / 2) - 1 / 2 - (1 / 64 :: rat) \<le> of_int (fee_cents x (1 / 2))"
    using fee_close_wide [OF assms(1-3) _ _ assms(4), of "1 / 2"] by simp_all
  have "2 * fee_cents x (1 / 2) \<le> k + 1" by (rule int_of_rat_le) (use f in simp)
  moreover have "k - 1 \<le> 2 * fee_cents x (1 / 2)" by (rule int_of_rat_le) (use f in simp)
  ultimately show "\<bar>2 * fee_cents x (1 / 2) - k\<bar> \<le> 1" by simp
  show "round_half x = num (fee_cents x (1 / 2))"
    by (simp add: round_half_def fee_cents_def num_def js_div_def)
qed

lemma tenth_bounds: "fl (1 / 10) \<le> (1 / 10 + 1 / 2 ^ 53 :: rat)" "1 / 10 - 1 / 2 ^ 53 \<le> fl (1 / 10)" "0 \<le> fl (1 / 10)"
  using b64.rnd_bounds [of "1 / 10"] b64.rnd_nonneg [of "1 / 10"] by simp_all

lemma penalty_close:
  assumes "0 \<le> s" and "s \<le> 2 ^ 42"
  defines "p \<equiv> max (js_mul (num s) (fl (1 / 10))) 0"
  shows "100 * p \<le> of_int s / 10 + 1 / 128" and "of_int s / 10 - 1 / 128 \<le> 100 * p" and "0 \<le> p"
proof -
  let ?q = "fl (1 / 10) :: rat"
  have n: "100 * num s \<le> of_int s + 1 / 512" "of_int s \<le> 100 * num s + 1 / 512" "0 \<le> num s"
    using near_num [of s] num_nonneg [OF assms(1)] assms(1,2) by (auto simp: near_def)
  have "(of_int s :: rat) \<le> of_int (2 ^ 42)" using assms(2) by (simp only: of_int_le_iff)
  then have S: "(of_int s :: rat) \<le> 2 ^ 42" "(0 :: rat) \<le> of_int s" using assms(1) by simp_all
  define y where "y = num s * ?q"
  have y0: "0 \<le> y" unfolding y_def using n(3) tenth_bounds(3) by (rule mult_nonneg_nonneg)
  have m: "num s * ?q \<le> num s * (1 / 10 + 1 / 2 ^ 53)" "num s * (1 / 10 - 1 / 2 ^ 53) \<le> num s * ?q"
    by (rule mult_left_mono [OF tenth_bounds(1) n(3)], rule mult_left_mono [OF tenth_bounds(2) n(3)])
  have ub: "num s / 2 ^ 53 \<le> 1 / 32768" using n(1) S(1) by simp
  have yb: "y \<le> num s / 10 + num s / 2 ^ 53" "num s / 10 - num s / 2 ^ 53 \<le> y"
    using m by (simp_all add: y_def algebra_simps)
  have sm: "y / 2 ^ 53 \<le> 1 / 32768" using yb(1) ub n(1,3) S(1) by simp
  have f: "fl y \<le> y + y / 2 ^ 53" "y - y / 2 ^ 53 \<le> fl y"
    using b64.rnd_bounds [of y] y0 by simp_all
  have p: "p = fl y" unfolding p_def js_mul_def y_def [symmetric] using b64.rnd_nonneg [OF y0] by simp
  show "0 \<le> p" using b64.rnd_nonneg [OF y0] by (simp add: p)
  have ys: "num s * 100 \<le> of_int s + 1 / 512" using n(1) by simp
  show "100 * p \<le> of_int s / 10 + 1 / 128" unfolding p using f(1) yb(1) ub sm n(1) by linarith
  show "of_int s / 10 - 1 / 128 \<le> 100 * p" unfolding p using f(2) yb(2) ub sm n(2) by linarith
qed

lemma less_tenth_cents:
  assumes "near x (s + g) (1 / 128)" and "0 \<le> s" "0 \<le> g" "s + g \<le> 2 ^ 42"
  defines "r \<equiv> math_round (js_mul (js_sub x (max (js_mul (num s) (fl (1 / 10))) 0)) 100)"
  shows "\<bar>10 * r - (9 * s + 10 * g)\<bar> \<le> 5"
proof -
  define p where "p = max (js_mul (num s) (fl (1 / 10))) 0"
  have s: "s \<le> 2 ^ 42" using assms(3,4) by simp
  note pc = penalty_close [OF assms(2) s, folded p_def]
  have x: "100 * x \<le> of_int s + of_int g + 1 / 128" "of_int s + of_int g \<le> 100 * x + 1 / 128"
    using assms(1) by (auto simp: near_def)
  have "(of_int (s + g) :: rat) \<le> of_int (2 ^ 42)" using assms(4) by (simp only: of_int_le_iff)
  then have S: "of_int s + of_int g \<le> (2 ^ 42 :: rat)" "(0 :: rat) \<le> of_int s" "(0 :: rat) \<le> of_int g"
    using assms(2,3) by simp_all
  define y where "y = x - p"
  have y: "100 * y \<le> 9 * of_int s / 10 + of_int g + 1 / 64" "9 * of_int s / 10 + of_int g - 1 / 64 \<le> 100 * y"
    unfolding y_def right_diff_distrib by (use x pc(1,2) in linarith)+
  then have ya: "\<bar>100 * y\<bar> \<le> 2 ^ 43" using S by (simp add: abs_le_iff)
  have e1: "100 * (\<bar>y\<bar> / 2 ^ 53) \<le> 1 / 512" using ya by (simp add: abs_mult)
  have f: "100 * fl y \<le> 100 * y + 1 / 512" "100 * y - 1 / 512 \<le> 100 * fl y"
    using b64.rnd_bounds [of y] e1 by linarith+
  have "\<bar>fl y * 100\<bar> \<le> 2 ^ 44" using f ya by (simp add: abs_le_iff)
  then have z: "fl (fl y * 100) \<le> fl y * 100 + 1 / 512" "fl y * 100 - 1 / 512 \<le> fl (fl y * 100)"
    using b64.rnd_small by blast+
  have r: "of_int r \<le> fl (fl y * 100) + 1 / 2" "fl (fl y * 100) - 1 / 2 < of_int r"
    using math_round_bounds [of "fl (fl y * 100)"] unfolding r_def p_def js_mul_def js_sub_def y_def by simp_all
  have "10 * r \<le> 9 * s + 10 * g + 5" by (rule int_of_rat_le) (use r z f y in simp)
  moreover have "9 * s + 10 * g - 5 \<le> 10 * r" by (rule int_of_rat_le) (use r z f y in simp)
  ultimately show ?thesis by simp
qed

lemma col2_max_num:
  assumes "\<bar>r\<bar> \<le> 2 ^ 43" and "0 \<le> r"
  shows "col2 (max 0 (num r)) = r"
  using num_nonneg [OF assms(2)] col2_num [OF assms(1)] by (simp add: max_def)

lemma share_cents_bounds:
  assumes "share_cents sh s g r" and "0 \<le> s" "0 \<le> g"
  shows "0 \<le> r" and "r \<le> s + g"
  using assms by (cases sh; simp add: share_cents_def; arith)+

lemma col2_0: "col2 0 = 0"
  using col2_num [of 0] by simp

lemma calculateRefund_cents:
  assumes "0 \<le> s" "0 \<le> g" "s + g \<le> 2 ^ 42"
  shows "share_cents (refund_share p h) s g (col2 (calculateRefund p h (num s) (num g)))"
proof -
  define x where "x = js_add (num s) (num g)"
  have near3: "near x (s + g) (3 / 512)" unfolding x_def using assms by (intro near_js_add_num) auto
  then have x: "near x (s + g) (1 / 128)" by (rule near_mono) simp
  have x0: "0 \<le> x" unfolding x_def js_add_def
    using num_nonneg [OF assms(1)] num_nonneg [OF assms(2)] by (intro b64.rnd_nonneg) simp
  have whole: "col2 x = s + g" using near3 by (rule col2_near) simp
  have sg: "0 \<le> s + g" using assms by simp
  note half = round_half_cents [OF x sg assms(3) x0]
  have hr: "\<bar>fee_cents x (1 / 2)\<bar> \<le> 2 ^ 43" using half(1) assms by (simp add: abs_le_iff)
  define r where "r = math_round (js_mul (js_sub x (max (js_mul (num s) (fl (1 / 10))) 0)) 100)"
  have t: "\<bar>10 * r - (9 * s + 10 * g)\<bar> \<le> 5"
    unfolding r_def using less_tenth_cents [OF x assms] .
  then have r0: "0 \<le> r" "\<bar>r\<bar> \<le> 2 ^ 43" using assms by (auto simp: abs_le_iff)
  have tenth: "col2 (max 0 (js_div (of_int r) 100)) = r"
    using col2_max_num [OF r0(2,1)] by (simp add: num_def js_div_def)
  show ?thesis
    using whole half col2_num [OF hr] t tenth
    by (cases p) (auto simp: calculateRefund_def refund_share_def share_cents_def Let_def x_def [symmetric] r_def [symmetric] col2_0)
qed

section \<open>Branches of a cancellation\<close>

definition ledger_settles :: "ledger_entry list \<Rightarrow> ledger_entry list \<Rightarrow> bool" where
  "ledger_settles l l' \<longleftrightarrow>
     list_all2 (\<lambda>e e'. le_id e' = le_id e \<and> le_booking_id e' = le_booking_id e \<and> le_type e' = le_type e \<and>
       le_amount e' = le_amount e \<and> (le_type e \<noteq> REFUND \<longrightarrow> e' = e)) l l'"

lemma ledger_settles_refl [simp]: "ledger_settles l l"
  by (simp add: ledger_settles_def list_all2_refl)

text \<open>What a call to the gateway may change: metadata of intents, and a refund becoming settled.\<close>

definition gateway_settles :: "stays_db \<Rightarrow> stays_db \<Rightarrow> bool" where
  "gateway_settles db db' \<longleftrightarrow>
     bookings db' = bookings db \<and> blocks db' = blocks db \<and> listings db' = listings db \<and>
     map intent_core (intents db') = map intent_core (intents db) \<and>
     (keyed le_id (ledger db) \<longrightarrow> ledger_settles (ledger db) (ledger db'))"

lemma gateway_settles_refl [simp]: "gateway_settles db db"
  by (simp add: gateway_settles_def)

lemma gateway_only_settles: "gateway_only db db' \<Longrightarrow> gateway_settles db db'"
  by (simp add: gateway_only_def gateway_settles_def)

lemma settle_refund_settles:
  "bookings (settle_refund i pid db) = bookings db" "blocks (settle_refund i pid db) = blocks db"
  "listings (settle_refund i pid db) = listings db" "intents (settle_refund i pid db) = intents db"
  "keyed le_id (ledger db) \<Longrightarrow> ledger_settles (ledger db) (ledger (settle_refund i pid db))"
proof -
  show "bookings (settle_refund i pid db) = bookings db" "blocks (settle_refund i pid db) = blocks db"
    "listings (settle_refund i pid db) = listings db" "intents (settle_refund i pid db) = intents db"
    by (simp_all add: settle_refund_def split: option.splits)
  assume k: "keyed le_id (ledger db)"
  show "ledger_settles (ledger db) (ledger (settle_refund i pid db))"
  proof (cases "find_latest le_created_at (\<lambda>e. le_booking_id e = i \<and> le_type e = REFUND \<and> le_status e = L_PENDING) (ledger db)")
    case (Some p)
    note p = find_latest_Some [OF Some]
    have same: "e = p" if "e \<in> set (ledger db)" "le_id e = le_id p" for e
      using keyed_inj [OF k that(1) _ that(2)] p by simp
    show ?thesis
      unfolding settle_refund_def Some option.case ledger_settles_def update_where_def
      by (auto simp: list_all2_map2 p intro!: list_all2_same [THEN iffD2] dest: same)
  qed (simp add: settle_refund_def)
qed

lemma refund_settles: "gateway_settles db (snd (refundCmiForBooking w now i amt cur db))"
proof -
  have g: "gateway_settles db (patchIntentMetadata k m db)" for k m
    by (rule gateway_only_settles) simp
  have s: "gateway_settles db (settle_refund i pid (patchIntentMetadata k m db))" for pid k m
    using settle_refund_settles [where i = i and pid = pid and db = "patchIntentMetadata k m db"] g [of k m]
    by (simp add: gateway_settles_def patchIntentMetadata_def)
  have a: "gateway_settles db (set_alert x y d) \<longleftrightarrow> gateway_settles db d" for x y d
    by (simp add: gateway_settles_def set_alert_def)
  show ?thesis
    by (auto simp: refundCmiForBooking_def Let_def g s a split: option.splits sum.splits)
qed

lemma void_each_only: "gateway_only db (void_each w now ctxt oids db)"
proof (induction oids arbitrary: db)
  case (Cons oid oids)
  then show ?case using void_gateway_only [of db w now oid ctxt] by (auto simp: gateway_only_def)
qed simp

lemma cancel_gateway_settles: "gateway_settles db (cancel_gateway w now b cr db)"
  by (auto simp: cancel_gateway_def intro: refund_settles gateway_only_settles void_each_only)

definition refund_rows ::
    "(nat \<Rightarrow> uuid) \<Rightarrow> time \<Rightarrow> booking \<Rightarrow> rat \<Rightarrow> metadata \<Rightarrow> stays_db \<Rightarrow> ledger_entry list" where
  "refund_rows gen now b amount m db =
     (if refund_due (bk_id b) amount db then [ledger_row (gen 0) now b REFUND amount L_PENDING m] else [])"

definition cancel_update :: "booking \<Rightarrow> canceller \<Rightarrow> booking list \<Rightarrow> booking list" where
  "cancel_update b c = update_where (\<lambda>x. bk_id x = bk_id b \<and> bk_status x = bk_status b) (\<lambda>x. x\<lparr>bk_status := cancelled_status c\<rparr>)"

lemma cancel_body_ok:
  assumes "find_booking (bk_id b) db = Some b" and "bk_status b \<notin> set nonCancellable"
  obtains m cr db1 where "cancel_body gen now b p amt u c reason ip ag db = (Inr cr, db1)"
    and "bookings db1 = cancel_update b c (bookings db)"
    and "ledger db1 = ledger db @ refund_rows gen now b amt m db"
    and "intents db1 = update_where (\<lambda>p. pi_booking_id p = bk_id b \<and> pi_status p = I_PENDING)
           (\<lambda>p. p\<lparr>pi_status := I_CANCELLED\<rparr>) (intents db)"
    and "blocks db1 = blocks db" and "listings db1 = listings db"
    and "cr_refund cr = (if refund_due (bk_id b) amt db then amt else 0)"
proof -
  have aff: "affected (\<lambda>x. bk_id x = bk_id b \<and> bk_status x = bk_status b) (bookings db) \<noteq> 0"
    using affected_pos find_booking_mem [OF assms(1)] by fastforce
  have rd: "refund_due i a (db\<lparr>bookings := bs\<rparr>) = refund_due i a db" for i a bs
    by (simp add: refund_due_def)
  define m where "m = [(''cancellation_policy'', JStr (policy_name p)), (''cancelled_by'', JStr (canceller_name c))] @
    opt_field ''reason'' reason"
  obtain cr db1 where eq: "cancel_body gen now b p amt u c reason ip ag db = (Inr cr, db1)"
    using assms aff by (simp add: cancel_body_def Let_def)
  show thesis
    by (rule that [OF eq, of m])
      (use eq assms aff in \<open>auto simp: cancel_body_def Let_def rd refund_rows_def cancel_update_def insert_row_def m_def audit_log_def\<close>)
qed

lemma find_booking_update:
  assumes "find_booking i db = Some b" and "bookings db' = update_where q f (bookings db)" and "\<And>x. bk_id (f x) = bk_id x"
  shows "find_booking i db' = Some (if q b then f b else b)"
  using find_where_update [of "\<lambda>x. bk_id x = i" f q "bookings db"] assms by (simp add: find_booking_def)

lemma after_cancel_ok:
  assumes "find_booking (bk_id b) db = Some b" and "bk_status b \<notin> set nonCancellable"
    and "bookings db1 = cancel_update b c (bookings db)"
    and "after_cancel w gen now b l c cr db1 = (r, db')"
  shows "r = Inr \<lparr>cn_id = bk_id b, cn_status = cancelled_status c, cn_refund_amount = cr_refund cr\<rparr>"
    and "gateway_settles db1 db'"
proof -
  define db2 where "db2 = cancel_gateway w now b cr db1"
  define db3 where "db3 = cancel_event b l c db2"
  define db4 where "db4 = snd (syncFromBooking (w_env w) (w_off w) (\<lambda>k. gen (k + 1)) now (bk_id b) db3)"
  have g: "gateway_settles db1 db2" unfolding db2_def by (rule cancel_gateway_settles)
  have c3: "core_same db2 db3" by (auto simp: db3_def cancel_event_def split: option.splits)
  have c4: "core_same db3 db4" unfolding db4_def by (rule syncFromBooking_core)
  have g4: "gateway_settles db1 db4"
    using g core_same_trans [OF c3 c4] by (simp add: gateway_settles_def core_same_def)
  then have "bookings db4 = cancel_update b c (bookings db)" using assms(3) by (simp add: gateway_settles_def)
  then have "find_booking (bk_id b) db4 = Some (b\<lparr>bk_status := cancelled_status c\<rparr>)"
    using find_booking_update [OF assms(1), of db4] by (simp add: cancel_update_def)
  then have "after_cancel w gen now b l c cr db1 =
      (Inr \<lparr>cn_id = bk_id b, cn_status = cancelled_status c, cn_refund_amount = cr_refund cr\<rparr>, db4)"
    unfolding after_cancel_def Let_def db2_def [symmetric] db3_def [symmetric] db4_def [symmetric] by simp
  then show "r = Inr \<lparr>cn_id = bk_id b, cn_status = cancelled_status c, cn_refund_amount = cr_refund cr\<rparr>"
    "gateway_settles db1 db'" using assms(4) g4 by simp_all
qed

text \<open>Who may cancel what.\<close>

definition may_cancel :: "uuid \<Rightarrow> uuid \<Rightarrow> canceller \<Rightarrow> stays_db \<Rightarrow> bool" where
  "may_cancel i u c db =
     (case find_booking i db of
        None \<Rightarrow> False
      | Some b \<Rightarrow>
          bk_status b \<notin> set nonCancellable \<and>
          (case c of
             As_Guest \<Rightarrow> bk_guest_user_id b = u
           | As_Host \<Rightarrow> (case find_listing (bk_listing_id b) db of None \<Rightarrow> False | Some l \<Rightarrow> ls_host_user_id l = u)))"

lemma cancel_cases:
  assumes "cancel w gen now i u c reason ip ag db = (r, db')"
  obtains (refused) e where "r = Inl e" "db' = db" "\<not> may_cancel i u c db"
    | (cancelled) b m db1 where "may_cancel i u c db" "find_booking i db = Some b" "bk_status b \<notin> set nonCancellable"
        "c = As_Guest \<longrightarrow> bk_guest_user_id b = u"
        "c = As_Host \<longrightarrow> (\<exists>l. find_listing (bk_listing_id b) db = Some l \<and> ls_host_user_id l = u)"
        "bookings db' = cancel_update b c (bookings db)"
        "ledger db1 = ledger db @ refund_rows gen now b (calculateRefund (policy_of (find_listing (bk_listing_id b) db))
           (hours_to_checkin b now) (num (bk_total_subtotal b)) (num (bk_guest_fee b))) m db"
        "gateway_settles db1 db'"
        "map intent_core (intents db') = map intent_core (update_where (\<lambda>p. pi_booking_id p = i \<and> pi_status p = I_PENDING)
           (\<lambda>p. p\<lparr>pi_status := I_CANCELLED\<rparr>) (intents db))"
        "blocks db' = blocks db" "listings db' = listings db"
        "r = Inr \<lparr>cn_id = i, cn_status = cancelled_status c, cn_refund_amount =
           (let a = calculateRefund (policy_of (find_listing (bk_listing_id b) db)) (hours_to_checkin b now)
              (num (bk_total_subtotal b)) (num (bk_guest_fee b)) in if refund_due i a db then a else 0)\<rparr>"
proof (cases "find_booking i db")
  case None
  then show ?thesis using assms by (intro refused) (auto simp: cancel_def may_cancel_def)
next
  case (Some b)
  note bid = find_booking_mem [OF Some]
  define l where "l = find_listing (bk_listing_id b) db"
  define ok where "ok \<longleftrightarrow> (c = As_Guest \<longrightarrow> bk_guest_user_id b = u) \<and>
    (c = As_Host \<longrightarrow> (\<exists>x. l = Some x \<and> ls_host_user_id x = u)) \<and> bk_status b \<notin> set nonCancellable"
  define a where "a = calculateRefund (policy_of l) (hours_to_checkin b now) (num (bk_total_subtotal b)) (num (bk_guest_fee b))"
  show ?thesis
  proof (cases ok)
    case False
    have "(\<exists>e. r = Inl e) \<and> db' = db"
      using assms Some False
      by (cases c; cases l) (auto simp: cancel_def ok_def l_def [symmetric] Let_def split: if_splits)
    moreover have "\<not> may_cancel i u c db"
      using False Some by (cases c; cases l) (auto simp: may_cancel_def ok_def l_def)
    ultimately show ?thesis using refused by blast
  next
    case True
    have may: "may_cancel i u c db"
      using True Some by (cases c; cases l) (auto simp: may_cancel_def ok_def l_def)
    have fb: "find_booking (bk_id b) db = Some b" using Some bid by simp
    have st: "bk_status b \<notin> set nonCancellable" using True by (simp add: ok_def)
    obtain m cr db1 where body: "cancel_body gen now b (policy_of l) a u c reason ip ag db = (Inr cr, db1)"
      and f: "bookings db1 = cancel_update b c (bookings db)" "ledger db1 = ledger db @ refund_rows gen now b a m db"
        "intents db1 = update_where (\<lambda>p. pi_booking_id p = bk_id b \<and> pi_status p = I_PENDING)
           (\<lambda>p. p\<lparr>pi_status := I_CANCELLED\<rparr>) (intents db)"
        "blocks db1 = blocks db" "listings db1 = listings db"
        "cr_refund cr = (if refund_due (bk_id b) a db then a else 0)"
      by (rule cancel_body_ok [OF fb st])
    obtain r4 db4 where after: "after_cancel w gen now b l c cr db1 = (r4, db4)" by fastforce
    note ac = after_cancel_ok [OF fb st f(1) after]
    have tr: "transaction (cancel_body gen now b (policy_of l) a u c reason ip ag) db = (Inr cr, db1)"
      by (simp add: transaction_def body)
    have guards: "\<not> (bk_guest_user_id b \<noteq> u \<and> \<not> (case l of None \<Rightarrow> False | Some x \<Rightarrow> ls_host_user_id x = u))"
      "\<not> (c = As_Guest \<and> bk_guest_user_id b \<noteq> u)"
      "\<not> (c = As_Host \<and> \<not> (case l of None \<Rightarrow> False | Some x \<Rightarrow> ls_host_user_id x = u))"
      using True by (cases c; auto simp: ok_def)+
    have eq: "cancel w gen now i u c reason ip ag db = (r4, db4)"
      unfolding cancel_def Some option.case Let_def l_def [symmetric] a_def [symmetric]
      using guards st by (simp only: if_False tr prod.case sum.case after)
    note g4 = ac(2)
    have b4: "bookings db4 = cancel_update b c (bookings db)" using g4 f(1) by (simp add: gateway_settles_def)
    have ic: "map intent_core (intents db4) = map intent_core (intents db1)"
      using g4 by (simp add: gateway_settles_def)
    have res: "r = Inr \<lparr>cn_id = i, cn_status = cancelled_status c, cn_refund_amount = (if refund_due i a db then a else 0)\<rparr>"
      "db' = db4" using eq assms f(6) bid ac(1) by auto
    show ?thesis
      by (rule cancelled [OF may Some st _ _ _ f(2) [unfolded a_def l_def]])
        (use True g4 b4 f(3-5) ic res bid in \<open>auto simp: ok_def l_def a_def Let_def gateway_settles_def\<close>)
  qed
qed

definition refunds :: "uuid \<Rightarrow> stays_db \<Rightarrow> ledger_entry list" where
  "refunds i db = filter (\<lambda>e. le_booking_id e = i \<and> le_type e = REFUND) (ledger db)"

lemma ledger_settles_filter:
  assumes "ledger_settles l l'"
  shows "map le_amount (filter (\<lambda>e. le_booking_id e = i \<and> le_type e = REFUND) l') =
      map le_amount (filter (\<lambda>e. le_booking_id e = i \<and> le_type e = REFUND) l)"
    and "filter (\<lambda>e. le_type e \<noteq> REFUND) l' = filter (\<lambda>e. le_type e \<noteq> REFUND) l"
    and "map le_id l' = map le_id l"
  using assms unfolding ledger_settles_def by (induction rule: list_all2_induct; simp)+

lemma settled_payment_filter:
  assumes "ledger_settles l l'"
  shows "filter (settled_payment i) l' = filter (settled_payment i) l"
proof -
  have e: "filter (settled_payment i) k = filter (settled_payment i) (filter (\<lambda>e. le_type e \<noteq> REFUND) k)" for k
    by (auto simp: settled_payment_def intro!: filter_cong)
  show ?thesis by (subst (1 2) e) (simp only: ledger_settles_filter(2) [OF assms])
qed

lemma keyed_refund_row:
  assumes "keyed le_id (ledger db)" and "gen 0 \<notin> le_id ` set (ledger db)"
  shows "keyed le_id (ledger db @ refund_rows gen now b amt m db)"
  using assms by (simp add: keyed_def refund_rows_def ledger_row_def)

section \<open>Properties\<close>

text \<open>
  C9: the refund a policy gives, in whole cents although computed in binary floating point. For
  amounts up to 2^42 cents the refund follows the table of \<open>refund_share\<close> to the nearest cent and lies
  between nothing and what was paid.
\<close>

theorem refund_by_policy:
  assumes "0 \<le> s" "0 \<le> g" "s + g \<le> 2 ^ 42"
  shows "share_cents (refund_share p h) s g (col2 (calculateRefund p h (num s) (num g))) \<and>
    0 \<le> col2 (calculateRefund p h (num s) (num g)) \<and> col2 (calculateRefund p h (num s) (num g)) \<le> s + g"
  using calculateRefund_cents [OF assms] share_cents_bounds [OF _ assms(1,2)] by blast

theorem refund_by_policy_witness:
  "col2 (calculateRefund MODERATE 120 (num 60000) (num 6000)) = 66000"
  using refund_by_policy [of 60000 6000 MODERATE 120] by (simp add: refund_share_def share_cents_def)

text \<open>
  C7: what a cancellation does. Unless the caller may cancel the booking it is refused and nothing at
  all changes. Otherwise the booking, which was not
  in a final status, becomes cancelled by its guest or its host, no payment entry changes, and a
  refund appears exactly when a settled guest payment exists, there was no refund yet and the policy's
  amount is positive - then exactly one, of the amount the caller is told.
\<close>

theorem cancel_refunds_once:
  assumes "cancel w gen now i u c reason ip ag db = (r, db')" and "keyed le_id (ledger db)"
    and "gen 0 \<notin> le_id ` set (ledger db)"
  shows "if \<not> may_cancel i u c db then (\<exists>e. r = Inl e) \<and> db' = db
    else (\<exists>b a. find_booking i db = Some b \<and> bk_status b \<notin> set nonCancellable \<and>
      r = Inr \<lparr>cn_id = i, cn_status = cancelled_status c, cn_refund_amount = (if refund_due i a db then a else 0)\<rparr> \<and>
      a = calculateRefund (policy_of (find_listing (bk_listing_id b) db)) (hours_to_checkin b now)
        (num (bk_total_subtotal b)) (num (bk_guest_fee b)) \<and>
      bookings db' = cancel_update b c (bookings db) \<and>
      (\<forall>j. filter (settled_payment j) (ledger db') = filter (settled_payment j) (ledger db)) \<and>
      (\<forall>j. map le_amount (refunds j db') =
        map le_amount (refunds j db) @ (if j = i \<and> refund_due i a db then [col2 a] else [])))"
  using assms(1)
proof (cases rule: cancel_cases)
  case (cancelled b m db1)
  let ?a = "calculateRefund (policy_of (find_listing (bk_listing_id b) db)) (hours_to_checkin b now)
    (num (bk_total_subtotal b)) (num (bk_guest_fee b))"
  have bid: "bk_id b = i" using find_booking_mem [OF cancelled(2)] by simp
  have "keyed le_id (ledger db1)" unfolding cancelled(7) using assms(2,3) by (rule keyed_refund_row)
  then have s: "ledger_settles (ledger db1) (ledger db')" using cancelled(8) by (simp add: gateway_settles_def)
  have pay: "filter (settled_payment j) (ledger db') = filter (settled_payment j) (ledger db)" for j
    using settled_payment_filter [OF s, of j] by (simp add: cancelled(7) refund_rows_def ledger_row_def settled_payment_def)
  have ref: "map le_amount (refunds j db') =
      map le_amount (refunds j db) @ (if j = i \<and> refund_due i ?a db then [col2 ?a] else [])" for j
    using ledger_settles_filter(1) [OF s, of j] bid
    by (auto simp: refunds_def cancelled(7) refund_rows_def ledger_row_def)
  show ?thesis
    unfolding if_not_P [OF not_not [THEN iffD2, OF cancelled(1)]]
    using cancelled(2,3,6,12) pay ref by (intro exI [of _ b] exI [of _ ?a]) (auto simp: Let_def)
qed simp

text \<open>
  C8: cancelling is final. After a successful cancellation any further attempt on the booking, by
  either side and at any time, is refused and changes nothing: there is no second refund.
\<close>

theorem cancel_is_final:
  assumes "cancel w gen now i u c reason ip ag db = (Inr resp, db1)"
  shows "\<exists>e. cancel w' gen' now' i u' c' reason' ip' ag' db1 = (Inl e, db1)"
  using assms
proof (cases rule: cancel_cases)
  case (cancelled b m d)
  have "find_booking i db1 = Some (b\<lparr>bk_status := cancelled_status c\<rparr>)"
    using find_booking_update [OF cancelled(2) cancelled(6) [unfolded cancel_update_def]] by simp
  moreover have "cancelled_status c \<in> set nonCancellable" by (cases c) (simp_all add: cancelled_status_def nonCancellable_def)
  ultimately show ?thesis by (auto simp: cancel_def Let_def)
qed simp

text \<open>
  The flexible policy has no end. A guest can cancel a confirmed, paid stay after its check-in, and
  even after its check-out (as long as no job has completed it), and is then owed everything but a
  tenth of the subtotal.
\<close>

theorem flexible_refund_after_checkin:
  assumes "find_booking i db = Some b" and "bk_status b = CONFIRMED"
    and "policy_of (find_listing (bk_listing_id b) db) = FLEXIBLE" and "bk_checkin_date b * ms_per_day \<le> now"
    and "exists_where (settled_payment i) (ledger db)" and "refunds i db = []"
    and "bk_total_subtotal b \<ge> 1" "bk_guest_fee b \<ge> 0" "bk_total_subtotal b + bk_guest_fee b \<le> 2 ^ 42"
    and "cancel w gen now i (bk_guest_user_id b) As_Guest reason ip ag db = (r, db')"
  shows "\<exists>resp. r = Inr resp \<and>
    \<bar>10 * col2 (cn_refund_amount resp) - (9 * bk_total_subtotal b + 10 * bk_guest_fee b)\<bar> \<le> 5"
  using assms(10)
proof (cases rule: cancel_cases)
  case refused
  then show ?thesis using assms(1,2) by (simp add: may_cancel_def nonCancellable_def)
next
  case (cancelled b' m db1)
  have b': "b' = b" using cancelled(2) assms(1) by simp
  let ?h = "hours_to_checkin b now"
  define a where "a = calculateRefund FLEXIBLE ?h (num (bk_total_subtotal b)) (num (bk_guest_fee b))"
  have "(of_int (bk_checkin_date b * ms_per_day - now) :: rat) \<le> of_int 0" using assms(4) by (simp only: of_int_le_iff)
  then have "(of_int (bk_checkin_date b * ms_per_day - now) / 3600000 :: rat) \<le> 0" unfolding of_int_0 by (rule divide_nonpos_pos) simp
  then have "?h \<le> 0"
    using b64.rnd_bounds(1) [of "of_int (bk_checkin_date b * ms_per_day - now) / 3600000"]
    unfolding hours_to_checkin_def js_div_def by (simp add: abs_if split: if_splits)
  then have sh: "refund_share FLEXIBLE ?h = Less_Tenth" by (simp add: refund_share_def)
  have c: "\<bar>10 * col2 a - (9 * bk_total_subtotal b + 10 * bk_guest_fee b)\<bar> \<le> 5"
    using calculateRefund_cents [of "bk_total_subtotal b" "bk_guest_fee b" FLEXIBLE ?h] assms(7-9)
    unfolding sh a_def by (simp add: share_cents_def)
  then have "1 \<le> col2 a" using assms(7,8) by simp
  moreover have "0 \<le> a" using \<open>?h \<le> 0\<close> by (simp add: a_def calculateRefund_def Let_def)
  ultimately have "0 < a" using col2_0 by (cases "a = 0") auto
  then have "refund_due i a db" using assms(5,6) by (auto simp: refund_due_def exists_where_iff refunds_def filter_empty_conv)
  then show ?thesis
    using cancelled(12) c unfolding b' assms(3) a_def [symmetric] Let_def by simp
qed


definition flexible_rules :: listing_rules where
  "flexible_rules = \<lparr>lr_pets_policy = None, lr_smoking_policy = None, lr_quiet_hours = False, lr_couples_welcome = True,
     lr_max_guests = 4, lr_amenities = [], lr_extra_rules_text = None, lr_cancellation_policy = FLEXIBLE\<rparr>"

definition paid_db :: stays_db where
  "paid_db = no_rows\<lparr>listings := [sample_listing\<lparr>ls_rules := Some flexible_rules\<rparr>],
     bookings := [sample_booking ''b1'' CONFIRMED],
     ledger := [ledger_row ''e1'' 5 (sample_booking ''b1'' CONFIRMED) GUEST_PAYMENT (num 66000) L_SETTLED []]\<rparr>"

lemma paid_db_facts:
  "find_booking ''b1'' paid_db = Some (sample_booking ''b1'' CONFIRMED)"
  "bk_status (sample_booking ''b1'' CONFIRMED) = CONFIRMED"
  "policy_of (find_listing (bk_listing_id (sample_booking ''b1'' CONFIRMED)) paid_db) = FLEXIBLE"
  "exists_where (settled_payment ''b1'') (ledger paid_db)" "refunds ''b1'' paid_db = []"
  "keyed le_id (ledger paid_db)" "''r1'' \<notin> le_id ` set (ledger paid_db)" "may_cancel ''b1'' ''g1'' As_Guest paid_db"
  by (simp_all add: paid_db_def no_rows_def sample_booking_def sample_listing_def flexible_rules_def find_booking_def
      find_listing_def policy_of_def settled_payment_def ledger_row_def refunds_def keyed_def may_cancel_def nonCancellable_def)

theorem cancel_refunds_once_witness:
  "\<exists>resp db'. cancel sample_world (\<lambda>n. ''r1'') 0 ''b1'' ''g1'' As_Guest None None None paid_db = (Inr resp, db') \<and>
     filter (settled_payment ''b1'') (ledger db') = filter (settled_payment ''b1'') (ledger paid_db)"
proof -
  obtain r db' where c: "cancel sample_world (\<lambda>n. ''r1'') 0 ''b1'' ''g1'' As_Guest None None None paid_db = (r, db')"
    by fastforce
  show ?thesis using cancel_refunds_once [OF c paid_db_facts(6,7)] paid_db_facts(8) c by auto
qed

theorem cancel_is_final_witness:
  "\<exists>resp db1 e. cancel sample_world (\<lambda>n. ''r1'') 0 ''b1'' ''g1'' As_Guest None None None paid_db = (Inr resp, db1) \<and>
     cancel sample_world (\<lambda>n. ''r2'') 9 ''b1'' ''h1'' As_Host None None None db1 = (Inl e, db1)"
proof -
  obtain r db1 where c: "cancel sample_world (\<lambda>n. ''r1'') 0 ''b1'' ''g1'' As_Guest None None None paid_db = (r, db1)"
    by fastforce
  then obtain resp where r: "r = Inr resp"
    by (cases rule: cancel_cases) (use paid_db_facts(8) in auto)
  show ?thesis using cancel_is_final [OF c [unfolded r]] c r by blast
qed

theorem flexible_refund_after_checkin_witness:
  "\<exists>resp db'. cancel sample_world (\<lambda>n. ''r1'') (19900 * ms_per_day) ''b1'' ''g1'' As_Guest None None None paid_db = (Inr resp, db') \<and>
     bk_checkout_date (sample_booking ''b1'' CONFIRMED) < 19900 \<and> col2 (cn_refund_amount resp) = 60000"
proof -
  let ?b = "sample_booking ''b1'' CONFIRMED"
  obtain r db' where c: "cancel sample_world (\<lambda>n. ''r1'') (19900 * ms_per_day) ''b1'' ''g1'' As_Guest None None None paid_db = (r, db')"
    by fastforce
  have b: "bk_checkin_date ?b * ms_per_day \<le> 19900 * ms_per_day" "1 \<le> bk_total_subtotal ?b" "0 \<le> bk_guest_fee ?b"
    "bk_total_subtotal ?b + bk_guest_fee ?b \<le> 2 ^ 42" "bk_guest_user_id ?b = ''g1''"
    by (simp_all add: sample_booking_def ms_per_day_def)
  obtain resp where r: "r = Inr resp"
    "\<bar>10 * col2 (cn_refund_amount resp) - (9 * bk_total_subtotal ?b + 10 * bk_guest_fee ?b)\<bar> \<le> 5"
    using flexible_refund_after_checkin [OF paid_db_facts(1-3) b(1) paid_db_facts(4,5) b(2-4)] c b(5) by metis
  have "bk_total_subtotal ?b = 60000" "bk_guest_fee ?b = 6000" "bk_checkout_date ?b < 19900" by (simp_all add: sample_booking_def)
  then show ?thesis using r c by (intro exI [of _ resp] exI [of _ db']) simp
qed

end
