(* ===== verification/Scheduler.thy ===== *)
theory Scheduler
  imports Payments
begin

text \<open>
  \<^verbatim>\<open>services/booking-lifecycle-scheduler.service.ts\<close>: the periodic jobs. A job reads its candidates
  once and then handles them one after the other, each with whatever the data base holds by then, so
  that the work on one candidate is an operation of its own.
\<close>

definition active_stay :: "booking \<Rightarrow> bool" where
  "active_stay b \<longleftrightarrow> bk_status b = CONFIRMED \<or> bk_status b = CHECKED_IN"

text \<open>\<^verbatim>\<open>toISOString().slice(0, 10)\<close> of an instant is the day it has in Greenwich.\<close>

definition utc_day :: "time \<Rightarrow> day" where
  "utc_day t = t div ms_per_day"

definition listing_for :: "booking \<Rightarrow> stays_db \<Rightarrow> listing option" where
  "listing_for b db = find_listing (bk_listing_id b) db"

definition checkout_instant :: "int \<Rightarrow> booking \<Rightarrow> listing option \<Rightarrow> time option" where
  "checkout_instant off b l =
     parseCheckoutDateTime off (bk_checkout_date b) (case l of None \<Rightarrow> ''11:00'' | Some x \<Rightarrow> ls_checkout_time x)"

section \<open>Reminders\<close>

definition title_field :: "listing option \<Rightarrow> metadata" where
  "title_field l = (case l of None \<Rightarrow> [] | Some x \<Rightarrow> [(''listingTitle'', JStr (ls_title x))])"

text \<open>An unreadable check-out time compares false with everything, and then throws in \<^verbatim>\<open>toISOString\<close>.\<close>

definition remind_checkout :: "int \<Rightarrow> time \<Rightarrow> stays_db \<Rightarrow> booking \<Rightarrow> stays_db" where
  "remind_checkout off now db b =
     (let l = listing_for b db
      in case checkout_instant off b l of
           None \<Rightarrow> db
         | Some checkoutAt \<Rightarrow>
             if checkoutAt - now \<le> 45 * 60 * 1000 \<or> checkoutAt - now > 75 * 60 * 1000 then db
             else publish ''EVENTS.CHECKOUT_REMINDER''
                    ([(''bookingId'', JStr (bk_id b)), (''listingId'', JStr (bk_listing_id b)),
                      (''guestUserId'', JStr (bk_guest_user_id b))] @ title_field l @
                     [(''checkoutAt'', JStr (iso_time checkoutAt))]) db)"

definition sendCheckoutReminders :: "int \<Rightarrow> time \<Rightarrow> stays_db \<Rightarrow> stays_db" where
  "sendCheckoutReminders off now db = foldl (remind_checkout off now) db (filter active_stay (bookings db))"

definition reviewReminderStages :: "(string \<times> int) list" where
  "reviewReminderStages = [(''1h'', 3600000), (''24h'', 86400000), (''3d'', 259200000), (''7d'', 604800000)]"

definition review_stages_due :: "int \<Rightarrow> string list" where
  "review_stages_due elapsed = map fst (filter (\<lambda>(_, ms). ms \<le> elapsed \<and> elapsed < ms + 3600000) reviewReminderStages)"

definition remind_review :: "env \<Rightarrow> int \<Rightarrow> time \<Rightarrow> stays_db \<Rightarrow> booking \<Rightarrow> stays_db" where
  "remind_review env off now db b =
     (case bk_completed_at b of
        None \<Rightarrow> db
      | Some done_at \<Rightarrow>
          let l = listing_for b db
          in if \<not> canReview env off now False (map_option ls_host_user_id l) b then db
             else if exists_where (\<lambda>r. rv_booking_id r = bk_id b) (reviews db) then db
             else foldl (\<lambda>d stage. publish ''EVENTS.REVIEW_REMINDER''
                      ([(''bookingId'', JStr (bk_id b)), (''listingId'', JStr (bk_listing_id b)),
                        (''guestUserId'', JStr (bk_guest_user_id b))] @ title_field l @
                       [(''reminderStage'', JStr stage)]) d) db (review_stages_due (now - done_at)))"

definition sendReviewReminderFollowUps :: "env \<Rightarrow> int \<Rightarrow> time \<Rightarrow> stays_db \<Rightarrow> stays_db" where
  "sendReviewReminderFollowUps env off now db =
     foldl (remind_review env off now) db (filter (\<lambda>b. bk_status b = COMPLETED) (bookings db))"

section \<open>Completing stays\<close>

definition completed_event :: "booking \<Rightarrow> listing option \<Rightarrow> stays_db \<Rightarrow> stays_db" where
  "completed_event b l db =
     (case l of
        None \<Rightarrow> db
      | Some x \<Rightarrow>
          if ls_host_user_id x = [] then db
          else publish ''EVENTS.BOOKING_COMPLETED''
                 [(''bookingId'', JStr (bk_id b)), (''listingId'', JStr (bk_listing_id b)),
                  (''hostUserId'', JStr (ls_host_user_id x)), (''guestUserId'', JStr (bk_guest_user_id b)),
                  (''checkoutDate'', JStr (formatLocalDate (bk_checkout_date b))), (''listingTitle'', JStr (ls_title x))] db)"

text \<open>The write is keyed by the id alone: it does not look at the status the row has by then.\<close>

definition complete_stay :: "world \<Rightarrow> (nat \<Rightarrow> uuid) \<Rightarrow> time \<Rightarrow> booking \<Rightarrow> stays_db \<Rightarrow> stays_db" where
  "complete_stay w gen now b db =
     (let l = listing_for b db;
          db1 = update_booking (bk_id b) (\<lambda>x. x\<lparr>bk_status := COMPLETED, bk_completed_at := Some now\<rparr>) db;
          db2 = completed_event b l db1
      in snd (enterPostStay (w_env w) (w_off w) gen now (bk_id b) db2))"

definition finalize_due :: "int \<Rightarrow> time \<Rightarrow> stays_db \<Rightarrow> booking \<Rightarrow> bool" where
  "finalize_due off now db b \<longleftrightarrow>
     bk_checkout_date b = utc_day now \<and>
     (case checkout_instant off b (listing_for b db) of None \<Rightarrow> True | Some t \<Rightarrow> t \<le> now)"

fun complete_each :: "world \<Rightarrow> (nat \<Rightarrow> nat \<Rightarrow> uuid) \<Rightarrow> time \<Rightarrow> nat \<Rightarrow> booking list \<Rightarrow> stays_db \<Rightarrow> stays_db" where
  "complete_each w gen now k [] db = db"
| "complete_each w gen now k (b # bs) db = complete_each w gen now (k + 1) bs (complete_stay w (gen k) now b db)"

definition finalizeCheckoutDayStays :: "world \<Rightarrow> (nat \<Rightarrow> nat \<Rightarrow> uuid) \<Rightarrow> time \<Rightarrow> stays_db \<Rightarrow> stays_db" where
  "finalizeCheckoutDayStays w gen now db =
     complete_each w gen now 0 (filter (\<lambda>b. active_stay b \<and> finalize_due (w_off w) now db b) (bookings db)) db"

text \<open>The day compared with is the Greenwich day of the local midnight.\<close>

definition autoCompletePastStays :: "world \<Rightarrow> (nat \<Rightarrow> nat \<Rightarrow> uuid) \<Rightarrow> time \<Rightarrow> stays_db \<Rightarrow> stays_db" where
  "autoCompletePastStays w gen now db =
     complete_each w gen now 0
       (filter (\<lambda>b. active_stay b \<and> bk_checkout_date b < utc_day (startOfDay (w_off w) now)) (bookings db)) db"

section \<open>Expiring unpaid bookings\<close>

text \<open>\<^verbatim>\<open>b.created_at <= cutoff\<close> with \<^verbatim>\<open>cutoff = new Date(Date.now() - TTL * 60 * 1000)\<close>.\<close>

definition expiry_cutoff :: "env \<Rightarrow> time \<Rightarrow> time option" where
  "expiry_cutoff env now =
     (case PAYMENT_PENDING_TTL_MINUTES env of
        None \<Rightarrow> None
      | Some ttl \<Rightarrow> time_clip (js_sub (of_int now) (js_mul (js_mul ttl 60) 1000)))"

definition is_open_hold :: "booking \<Rightarrow> bool" where
  "is_open_hold b \<longleftrightarrow> bk_status b = PAYMENT_PENDING \<or> bk_status b = INITIATED"

definition void_pending :: "world \<Rightarrow> time \<Rightarrow> uuid \<Rightarrow> stays_db \<Rightarrow> payment_intent \<Rightarrow> stays_db" where
  "void_pending w now bookingId db p =
     (if pi_provider p = ''cmi'' \<and> truthy (pi_provider_intent_id p)
      then snd (voidCmiPreAuth w now (the (pi_provider_intent_id p))
             [(''reason'', JStr ''PAYMENT_EXPIRED''), (''booking_id'', JStr bookingId)] db)
      else db)"

definition expire_booking :: "world \<Rightarrow> time \<Rightarrow> booking \<Rightarrow> stays_db \<Rightarrow> stays_db" where
  "expire_booking w now b db =
     (let hit = (\<lambda>x. bk_id x = bk_id b \<and> bk_status x \<in> set PRE_CONFIRMATION_BOOKING_STATUSES)
      in if affected hit (bookings db) = 0 then db
         else
           let db1 = db\<lparr>bookings := update_where hit (\<lambda>x. x\<lparr>bk_status := EXPIRED\<rparr>) (bookings db)\<rparr>;
               pendingIntents = filter (\<lambda>p. pi_booking_id p = bk_id b \<and> pi_status p = I_PENDING) (intents db1);
               db2 = (if isMockPaymentProvider (w_env w) then db1
                      else foldl (void_pending w now (bk_id b)) db1 pendingIntents);
               db3 = db2\<lparr>intents := update_where (\<lambda>p. pi_booking_id p = bk_id b \<and> pi_status p = I_PENDING)
                       (\<lambda>p. p\<lparr>pi_status := I_CANCELLED\<rparr>) (intents db2)\<rparr>
           in publish ''EVENTS.PAYMENT_EXPIRED''
                [(''bookingId'', JStr (bk_id b)), (''listingId'', JStr (bk_listing_id b)),
                 (''guestUserId'', JStr (bk_guest_user_id b))] db3)"

definition expirePendingPayments :: "world \<Rightarrow> time \<Rightarrow> stays_db \<Rightarrow> stays_db" where
  "expirePendingPayments w now db =
     (case expiry_cutoff (w_env w) now of
        None \<Rightarrow> db
      | Some cutoff \<Rightarrow>
          foldl (\<lambda>d b. expire_booking w now b d) db
            (filter (\<lambda>b. is_open_hold b \<and> bk_created_at b \<le> cutoff) (bookings db)))"

section \<open>The cron entry points\<close>

text \<open>The jobs of one tick run concurrently; here one after the other, in the order they are started.\<close>

definition runHourlyLifecycleUpdates :: "world \<Rightarrow> (nat \<Rightarrow> nat \<Rightarrow> uuid) \<Rightarrow> time \<Rightarrow> stays_db \<Rightarrow> stays_db" where
  "runHourlyLifecycleUpdates w gen now db =
     sendReviewReminderFollowUps (w_env w) (w_off w) now
       (expirePendingPayments w now (autoCompletePastStays w gen now db))"

definition runCheckoutWindowJobs :: "world \<Rightarrow> (nat \<Rightarrow> nat \<Rightarrow> uuid) \<Rightarrow> time \<Rightarrow> stays_db \<Rightarrow> stays_db" where
  "runCheckoutWindowJobs w gen now db =
     finalizeCheckoutDayStays w gen now (sendCheckoutReminders (w_off w) now db)"

definition runOnStartup :: "world \<Rightarrow> (nat \<Rightarrow> nat \<Rightarrow> uuid) \<Rightarrow> time \<Rightarrow> stays_db \<Rightarrow> stays_db" where
  "runOnStartup w gen now db =
     (if w_env w ''STAYS_LIFECYCLE_SYNC_ON_STARTUP'' = Some ''true''
      then runHourlyLifecycleUpdates w gen now db else db)"

section \<open>What the jobs write\<close>

definition completed_row :: "time \<Rightarrow> booking \<Rightarrow> booking" where
  "completed_row now x = x\<lparr>bk_status := COMPLETED, bk_completed_at := Some now\<rparr>"

lemma complete_stay_effect:
  "bookings (complete_stay w gen now b db) = update_where (\<lambda>x. bk_id x = bk_id b) (completed_row now) (bookings db)"
  "ledger (complete_stay w gen now b db) = ledger db" "intents (complete_stay w gen now b db) = intents db"
  "blocks (complete_stay w gen now b db) = blocks db" "listings (complete_stay w gen now b db) = listings db"
proof -
  define db1 where "db1 = update_booking (bk_id b) (completed_row now) db"
  define db2 where "db2 = completed_event b (listing_for b db) db1"
  have "core_same db1 db2" by (auto simp: db2_def completed_event_def split: option.splits)
  then have "core_same db1 (snd (enterPostStay (w_env w) (w_off w) gen now (bk_id b) db2))"
    using enterPostStay_core core_same_trans by blast
  moreover have "complete_stay w gen now b db = snd (enterPostStay (w_env w) (w_off w) gen now (bk_id b) db2)"
    by (simp add: complete_stay_def Let_def db2_def db1_def completed_row_def [abs_def])
  ultimately have "core_same db1 (complete_stay w gen now b db)" by simp
  then show "bookings (complete_stay w gen now b db) = update_where (\<lambda>x. bk_id x = bk_id b) (completed_row now) (bookings db)"
    "ledger (complete_stay w gen now b db) = ledger db" "intents (complete_stay w gen now b db) = intents db"
    "blocks (complete_stay w gen now b db) = blocks db" "listings (complete_stay w gen now b db) = listings db"
    by (simp_all add: core_same_def db1_def update_booking_def)
qed

lemma void_pending_only: "gateway_only db (foldl (void_pending w now i) db ps)"
proof (induction ps arbitrary: db)
  case (Cons p ps)
  have "gateway_only db (void_pending w now i db p)" by (simp add: void_pending_def void_gateway_only)
  then show ?case using Cons [of "void_pending w now i db p"] by (auto simp: gateway_only_def)
qed simp

lemma expire_booking_effect:
  "bookings (expire_booking w now b db) =
     update_where (\<lambda>x. bk_id x = bk_id b \<and> bk_status x \<in> set PRE_CONFIRMATION_BOOKING_STATUSES)
       (\<lambda>x. x\<lparr>bk_status := EXPIRED\<rparr>) (bookings db)"
  "ledger (expire_booking w now b db) = ledger db" "blocks (expire_booking w now b db) = blocks db"
  "listings (expire_booking w now b db) = listings db"
  "map (\<lambda>p. (pi_booking_id p, pi_amount p)) (intents (expire_booking w now b db)) =
     map (\<lambda>p. (pi_booking_id p, pi_amount p)) (intents db)"
proof -
  define hit :: "booking \<Rightarrow> bool" where "hit = (\<lambda>x. bk_id x = bk_id b \<and> bk_status x \<in> set PRE_CONFIRMATION_BOOKING_STATUSES)"
  define db1 where "db1 = db\<lparr>bookings := update_where hit (\<lambda>x. x\<lparr>bk_status := EXPIRED\<rparr>) (bookings db)\<rparr>"
  define db2 where "db2 = (if isMockPaymentProvider (w_env w) then db1
     else foldl (void_pending w now (bk_id b)) db1 (filter (\<lambda>p. pi_booking_id p = bk_id b \<and> pi_status p = I_PENDING) (intents db1)))"
  have zero: "update_where hit (\<lambda>x. x\<lparr>bk_status := EXPIRED\<rparr>) (bookings db) = bookings db" if "affected hit (bookings db) = 0"
    using that affected_pos [of hit "bookings db"] by (intro update_where_none) auto
  have g: "gateway_only db1 db2" by (simp add: db2_def void_pending_only)
  have m: "map (\<lambda>p. (pi_booking_id p, pi_amount p)) xs = map (\<lambda>p. (pi_booking_id p, pi_amount p)) (map intent_core xs)" for xs
    by (simp add: intent_core_def)
  have iv: "map (\<lambda>p. (pi_booking_id p, pi_amount p)) (intents db2) = map (\<lambda>p. (pi_booking_id p, pi_amount p)) (intents db1)"
    by (subst (1 2) m) (use g in \<open>simp only: gateway_only_def\<close>)
  define db3 where "db3 = db2\<lparr>intents := update_where (\<lambda>p. pi_booking_id p = bk_id b \<and> pi_status p = I_PENDING)
     (\<lambda>p. p\<lparr>pi_status := I_CANCELLED\<rparr>) (intents db2)\<rparr>"
  have eq: "expire_booking w now b db = (if affected hit (bookings db) = 0 then db
      else publish ''EVENTS.PAYMENT_EXPIRED'' [(''bookingId'', JStr (bk_id b)), (''listingId'', JStr (bk_listing_id b)),
        (''guestUserId'', JStr (bk_guest_user_id b))] db3)"
    unfolding expire_booking_def Let_def hit_def [symmetric] db1_def [symmetric] db2_def [symmetric] db3_def ..
  have p: "bookings (publish ty m db3) = bookings db1" "ledger (publish ty m db3) = ledger db"
    "blocks (publish ty m db3) = blocks db" "listings (publish ty m db3) = listings db"
    "map (\<lambda>p. (pi_booking_id p, pi_amount p)) (intents (publish ty m db3)) =
       map (\<lambda>p. (pi_booking_id p, pi_amount p)) (intents db)" for ty m
    using g iv by (simp_all add: publish_def db3_def gateway_only_def db1_def map_update_where)
  have z: "update_where hit (\<lambda>x. x\<lparr>bk_status := EXPIRED\<rparr>) (bookings db) = bookings db1" by (simp add: db1_def)
  show "bookings (expire_booking w now b db) =
     update_where (\<lambda>x. bk_id x = bk_id b \<and> bk_status x \<in> set PRE_CONFIRMATION_BOOKING_STATUSES)
       (\<lambda>x. x\<lparr>bk_status := EXPIRED\<rparr>) (bookings db)"
    unfolding hit_def [symmetric] using zero p(1) z by (simp add: eq)
  show "ledger (expire_booking w now b db) = ledger db" "blocks (expire_booking w now b db) = blocks db"
    "listings (expire_booking w now b db) = listings db"
    "map (\<lambda>p. (pi_booking_id p, pi_amount p)) (intents (expire_booking w now b db)) =
       map (\<lambda>p. (pi_booking_id p, pi_amount p)) (intents db)"
    unfolding eq using p(2-5) by (simp_all split: if_split)
qed

section \<open>Properties\<close>

lemma keyed_map_key: "(\<And>r. key (f r) = key r) \<Longrightarrow> keyed key (update_where p f rows) = keyed key rows"
  by (simp add: keyed_def update_where_def map_update_where o_def if_distrib cong: if_cong)

lemma complete_each_rows:
  "bookings (complete_each w gen now k bs db) =
     map (\<lambda>x. if bk_id x \<in> bk_id ` set bs then completed_row now x else x) (bookings db)"
  "ledger (complete_each w gen now k bs db) = ledger db"
  "intents (complete_each w gen now k bs db) = intents db"
  by (induction bs arbitrary: k db)
    (auto simp: complete_stay_effect update_where_def completed_row_def o_def)

lemma expire_each_rows:
  "bookings (foldl (\<lambda>d b. expire_booking w now b d) db bs) =
     map (\<lambda>x. if bk_id x \<in> bk_id ` set bs \<and> bk_status x \<in> set PRE_CONFIRMATION_BOOKING_STATUSES
              then x\<lparr>bk_status := EXPIRED\<rparr> else x) (bookings db)"
  "ledger (foldl (\<lambda>d b. expire_booking w now b d) db bs) = ledger db"
  by (induction bs arbitrary: db)
    (auto simp: expire_booking_effect update_where_def o_def PRE_CONFIRMATION_BOOKING_STATUSES_def)

lemma selected_rows:
  assumes "keyed key rows"
  shows "map (\<lambda>x. if key x \<in> key ` set (filter p rows) then f x else x) rows = update_where p f rows"
  unfolding update_where_def using keyed_inj [OF assms] by (intro map_cong refl) (auto intro: if_cong)

text \<open>
  The nightly completion. In a data base with unique booking ids exactly the confirmed and
  checked-in stays whose check-out lies before the job's day become completed, at the job's
  instant; every other booking, the ledger and the payment intents stay as they are.
\<close>

theorem past_stays_completed:
  assumes "keyed bk_id (bookings db)"
  shows "bookings (autoCompletePastStays w gen now db) =
      update_where (\<lambda>b. active_stay b \<and> bk_checkout_date b < utc_day (startOfDay (w_off w) now))
        (\<lambda>b. b\<lparr>bk_status := COMPLETED, bk_completed_at := Some now\<rparr>) (bookings db) \<and>
    ledger (autoCompletePastStays w gen now db) = ledger db \<and>
    intents (autoCompletePastStays w gen now db) = intents db"
  unfolding autoCompletePastStays_def complete_each_rows selected_rows [OF assms] completed_row_def [abs_def] by simp

theorem past_stays_completed_witness:
  "map bk_status (bookings (autoCompletePastStays sample_world (\<lambda>j k. ''m1'') (19900 * ms_per_day)
     (no_rows\<lparr>bookings := [sample_booking ''b1'' CONFIRMED, sample_booking ''b2'' PAYMENT_PENDING]\<rparr>))) =
     [COMPLETED, PAYMENT_PENDING]"
proof -
  let ?db = "no_rows\<lparr>bookings := [sample_booking ''b1'' CONFIRMED, sample_booking ''b2'' PAYMENT_PENDING]\<rparr>"
  have k: "keyed bk_id (bookings ?db)" by (simp add: keyed_def sample_booking_def)
  show ?thesis
    using past_stays_completed [OF k, of sample_world "\<lambda>j k. ''m1''" "19900 * ms_per_day"]
    by (simp add: sample_booking_def active_stay_def utc_day_def startOfDay_def local_day_def ms_per_day_def sample_world_def)
qed

text \<open>
  The expiry of unpaid bookings. With unique booking ids exactly the initiated and
  payment-pending bookings created at or before the cutoff become expired, and no ledger entry
  is written; without a readable time to live nothing happens at all.
\<close>

theorem unpaid_bookings_expired:
  assumes "keyed bk_id (bookings db)"
  shows "case expiry_cutoff (w_env w) now of
      None \<Rightarrow> expirePendingPayments w now db = db
    | Some cutoff \<Rightarrow>
        bookings (expirePendingPayments w now db) =
          update_where (\<lambda>b. (bk_status b = PAYMENT_PENDING \<or> bk_status b = INITIATED) \<and> bk_created_at b \<le> cutoff)
            (\<lambda>b. b\<lparr>bk_status := EXPIRED\<rparr>) (bookings db) \<and>
        ledger (expirePendingPayments w now db) = ledger db"
proof (cases "expiry_cutoff (w_env w) now")
  case (Some cutoff)
  let ?p = "\<lambda>b. is_open_hold b \<and> bk_created_at b \<le> cutoff"
  have "(bk_id x \<in> bk_id ` set (filter ?p (bookings db)) \<and> bk_status x \<in> set PRE_CONFIRMATION_BOOKING_STATUSES) \<longleftrightarrow> ?p x"
    if "x \<in> set (bookings db)" for x
    using keyed_inj [OF assms that] that by (auto simp: is_open_hold_def PRE_CONFIRMATION_BOOKING_STATUSES_def)
  then show ?thesis
    unfolding expirePendingPayments_def Some option.case expire_each_rows
    by (auto simp: update_where_def is_open_hold_def)
qed (simp add: expirePendingPayments_def)

theorem unpaid_bookings_expired_witness:
  "map bk_status (bookings (expirePendingPayments sample_world (1718000000000)
     (no_rows\<lparr>bookings := [sample_booking ''b1'' CONFIRMED, sample_booking ''b2'' PAYMENT_PENDING]\<rparr>))) =
     [CONFIRMED, EXPIRED]"
proof -
  let ?db = "no_rows\<lparr>bookings := [sample_booking ''b1'' CONFIRMED, sample_booking ''b2'' PAYMENT_PENDING]\<rparr>"
  have k: "keyed bk_id (bookings ?db)" by (simp add: keyed_def sample_booking_def)
  have "case expiry_cutoff (w_env sample_world) 1718000000000 of None \<Rightarrow> False | Some c \<Rightarrow> 1717000000000 \<le> c" by code_simp
  then obtain c where c: "expiry_cutoff (w_env sample_world) 1718000000000 = Some c" "1717000000000 \<le> c"
    by (auto split: option.splits)
  have "bookings (expirePendingPayments sample_world 1718000000000 ?db) = update_where
      (\<lambda>b. (bk_status b = PAYMENT_PENDING \<or> bk_status b = INITIATED) \<and> bk_created_at b \<le> c)
      (\<lambda>b. b\<lparr>bk_status := EXPIRED\<rparr>) (bookings ?db)"
    using unpaid_bookings_expired [OF k, of sample_world 1718000000000] unfolding c(1) option.case by blast
  then show ?thesis using c(2) by (simp add: sample_booking_def)
qed

lemma events_publish: "events (publish ty m db) = events db @ [\<lparr>ev_type = ty, ev_source = ''stays'', ev_payload = m\<rparr>]"
  by (simp add: publish_def)

lemma ticks_in_window:
  fixes T p a :: int
  assumes "0 < p"
  shows "{t. t mod p = 0 \<and> a < T - t \<and> T - t \<le> a + int n * p} = (\<lambda>k. ((T - a - 1) div p - int k) * p) ` {..<n}"
proof (intro equalityI subsetI)
  fix t assume "t \<in> {t. t mod p = 0 \<and> a < T - t \<and> T - t \<le> a + int n * p}"
  then have t: "t mod p = 0" "a < T - t" "T - t \<le> a + int n * p" by simp_all
  define q where "q = (T - a - 1) div p"
  define r where "r = (T - a - 1) mod p"
  have r: "0 \<le> r" "r < p" "T - a - 1 = q * p + r" using assms by (simp_all add: q_def r_def)
  obtain m where m: "t = m * p" using t(1) by (metis div_mult_mod_eq add.right_neutral)
  have "m * p < (q + 1) * p" using t(2) r m by (simp add: algebra_simps)
  moreover have "(q - int n) * p < m * p" using t(3) r m by (simp add: algebra_simps)
  ultimately have "m \<le> q" "q - int n < m" using assms by (simp_all add: mult_less_cancel_right)
  then show "t \<in> (\<lambda>k. ((T - a - 1) div p - int k) * p) ` {..<n}"
    by (intro image_eqI [of _ _ "nat (q - m)"]) (auto simp: m q_def [symmetric])
next
  fix t assume "t \<in> (\<lambda>k. ((T - a - 1) div p - int k) * p) ` {..<n}"
  then obtain k where k: "k < n" "t = ((T - a - 1) div p - int k) * p" by auto
  define q where "q = (T - a - 1) div p"
  define r where "r = (T - a - 1) mod p"
  have r: "0 \<le> r" "r < p" "T - a - 1 = q * p + r" using assms by (simp_all add: q_def r_def)
  have "int k * p + p \<le> int n * p" "0 \<le> p * int k"
    using assms k(1) mult_right_mono [of "int k + 1" "int n" p] by (simp_all add: algebra_simps)
  moreover have "T - t = a + 1 + r + p * int k" using r(3) unfolding k(2) q_def [symmetric] by (simp add: algebra_simps)
  ultimately have "a < T - t" "T - t \<le> a + int n * p"
    using r(1,2) unfolding mult.commute [of "int _" p] by linarith+
  then show "t \<in> {t. t mod p = 0 \<and> a < T - t \<and> T - t \<le> a + int n * p}" by (simp add: k(2))
qed

lemma card_ticks:
  fixes T p a :: int
  assumes "0 < p"
  shows "card {t. t mod p = 0 \<and> a < T - t \<and> T - t \<le> a + int n * p} = n"
  unfolding ticks_in_window [OF assms] using assms by (subst card_image) (auto simp: inj_on_def)

text \<open>
  The reminder before check-out, on the quarter hours the job runs at, is published twice for
  every stay: its window of thirty minutes holds exactly two of them.
\<close>

theorem checkout_reminded_twice:
  assumes "checkout_instant off b (listing_for b db) = Some t"
  shows "card {now. now mod 900000 = 0 \<and> length (events (remind_checkout off now db b)) = length (events db) + 1} = 2 \<and>
    (\<forall>now. remind_checkout off now db b \<noteq> db \<longrightarrow> 2700000 < t - now \<and> t - now \<le> 4500000)"
proof -
  have "length (events (remind_checkout off now db b)) = length (events db) + 1 \<longleftrightarrow> 2700000 < t - now \<and> t - now \<le> 4500000"
    "remind_checkout off now db b \<noteq> db \<longrightarrow> 2700000 < t - now \<and> t - now \<le> 4500000" for now
    using assms by (auto simp: remind_checkout_def Let_def events_publish)
  then show ?thesis using card_ticks [of 900000 2700000 t 2] by simp
qed

theorem checkout_reminded_twice_witness:
  "card {now. now mod 900000 = 0 \<and>
     length (events (remind_checkout 0 now no_rows (sample_booking ''b1'' CONFIRMED))) = length (events no_rows) + 1} = 2"
proof -
  have "checkout_instant 0 (sample_booking ''b1'' CONFIRMED) None \<noteq> None" by code_simp
  then obtain t where "checkout_instant 0 (sample_booking ''b1'' CONFIRMED) (listing_for (sample_booking ''b1'' CONFIRMED) no_rows) = Some t"
    by (auto simp: listing_for_def find_listing_def no_rows_def)
  then show ?thesis using checkout_reminded_twice by blast
qed

lemma stage_ms: "(stage, a) \<in> set reviewReminderStages \<Longrightarrow> (stage, b) \<in> set reviewReminderStages \<Longrightarrow> a = b"
  by (auto simp: reviewReminderStages_def)

text \<open>
  The reminders to review, on the hours the job runs at: for a stay completed at any instant every
  one of the four stages is due at exactly one hour, and no other stage is ever due.
\<close>

theorem review_reminded_once:
  "card {now. now mod 3600000 = 0 \<and> stage \<in> set (review_stages_due (now - done_at))} =
     (if stage \<in> fst ` set reviewReminderStages then 1 else 0)"
proof -
  have one: "card {now. now mod 3600000 = 0 \<and> ms \<le> now - done_at \<and> now - done_at < ms + 3600000} = 1" for ms :: int
  proof -
    have "{now. now mod 3600000 = 0 \<and> ms \<le> now - done_at \<and> now - done_at < ms + 3600000} =
        {now. now mod 3600000 = 0 \<and> 0 < (ms + done_at + 3600000) - now \<and> (ms + done_at + 3600000) - now \<le> 0 + int 1 * 3600000}"
      by auto
    then show ?thesis using card_ticks [of 3600000 0 "ms + done_at + 3600000" 1] by simp
  qed
  show ?thesis
  proof (cases "stage \<in> fst ` set reviewReminderStages")
    case True
    then obtain ms where ms: "(stage, ms) \<in> set reviewReminderStages" by auto
    have "stage \<in> set (review_stages_due e) \<longleftrightarrow> ms \<le> e \<and> e < ms + 3600000" for e
      using ms stage_ms by (auto simp: review_stages_due_def image_iff)
    then show ?thesis using True one [of ms] by simp
  next
    case False
    then have "stage \<notin> set (review_stages_due e)" for e by (auto simp: review_stages_due_def)
    then show ?thesis using False by simp
  qed
qed

end
