(* ===== verification/StaysSystem.thy ===== *)
theory StaysSystem
  imports Bookings StaysCancellation Scheduler
begin

text \<open>
  The operations of the stays service as one transition system over the data base. A transaction is one
  step; the completion jobs read their candidates in one step and complete them in later ones, so any
  operation may come between. The invariant says that money and dates agree in every reachable state.
\<close>

section \<open>The state\<close>

record sys =
  sy_db :: stays_db
  sy_completing :: "booking list"

definition paid :: "uuid \<Rightarrow> ledger_entry list \<Rightarrow> bool" where
  "paid i l \<longleftrightarrow> (\<exists>e\<in>set l. settled_payment i e)"

definition paid_statuses :: "booking_status set" where
  "paid_statuses = {CONFIRMED, CHECKED_IN, COMPLETED, CANCELLED_BY_GUEST, CANCELLED_BY_HOST}"

definition needs_payment :: "booking_status set" where
  "needs_payment = {CONFIRMED, CHECKED_IN, COMPLETED}"

definition intent_view :: "payment_intent \<Rightarrow> uuid \<times> cents" where
  "intent_view p = (pi_booking_id p, pi_amount p)"

section \<open>The invariant\<close>

definition booking_priced :: "booking \<Rightarrow> bool" where
  "booking_priced b \<longleftrightarrow>
     booking_balanced b \<and> 0 \<le> bk_total_subtotal b \<and>
     bk_total_paid b = Some (bk_total_subtotal b + bk_guest_fee b) \<and>
     bk_total_subtotal b + bk_guest_fee b \<le> 2 ^ 42 \<and> bk_checkin_date b < bk_checkout_date b"

definition statuses_agree :: "booking list \<Rightarrow> ledger_entry list \<Rightarrow> bool" where
  "statuses_agree bs l \<longleftrightarrow>
     (\<forall>b\<in>set bs. (paid (bk_id b) l \<longrightarrow> bk_status b \<in> paid_statuses) \<and>
       (bk_status b \<in> needs_payment \<longrightarrow> paid (bk_id b) l))"

definition payments_agree :: "booking list \<Rightarrow> ledger_entry list \<Rightarrow> bool" where
  "payments_agree bs l \<longleftrightarrow>
     (\<forall>e\<in>set l. settled_payment (le_booking_id e) e \<longrightarrow>
       (\<exists>b\<in>set bs. bk_id b = le_booking_id e \<and> bk_total_paid b = Some (le_amount e)))"

definition intents_agree :: "booking list \<Rightarrow> (uuid \<times> cents) list \<Rightarrow> bool" where
  "intents_agree bs iv \<longleftrightarrow> (\<forall>(i, a)\<in>set iv. \<exists>b\<in>set bs. bk_id b = i \<and> bk_total_paid b = Some a)"

definition refund_entries :: "uuid \<Rightarrow> ledger_entry list \<Rightarrow> ledger_entry list" where
  "refund_entries i l = filter (\<lambda>e. le_booking_id e = i \<and> le_type e = REFUND) l"

definition refunds_agree :: "ledger_entry list \<Rightarrow> bool" where
  "refunds_agree l \<longleftrightarrow>
     (\<forall>i. length (refund_entries i l) \<le> 1) \<and>
     (\<forall>e\<in>set l. le_type e = REFUND \<longrightarrow>
       (\<exists>p\<in>set l. settled_payment (le_booking_id e) p \<and> 0 \<le> le_amount e \<and> le_amount e \<le> le_amount p))"

definition one_payment :: "ledger_entry list \<Rightarrow> bool" where
  "one_payment l \<longleftrightarrow> (\<forall>i. length (filter (settled_payment i) l) \<le> 1)"

definition money_inv :: "booking list \<Rightarrow> (uuid \<times> cents) list \<Rightarrow> ledger_entry list \<Rightarrow> bool" where
  "money_inv bs iv l \<longleftrightarrow>
     keyed bk_id bs \<and> keyed le_id l \<and> (\<forall>b\<in>set bs. booking_priced b) \<and> statuses_agree bs l \<and>
     payments_agree bs l \<and> intents_agree bs iv \<and> refunds_agree l \<and> one_payment l"

definition sys_inv :: "sys \<Rightarrow> bool" where
  "sys_inv s \<longleftrightarrow>
     money_inv (bookings (sy_db s)) (map intent_view (intents (sy_db s))) (ledger (sy_db s)) \<and>
     no_double_booking (sy_db s) \<and>
     (\<forall>b\<in>set (sy_completing s). paid (bk_id b) (ledger (sy_db s)))"

lemmas inv_defs = money_inv_def statuses_agree_def payments_agree_def intents_agree_def refunds_agree_def
  one_payment_def refund_entries_def

section \<open>Changes of the tables\<close>

lemma settled_payment_id: "settled_payment i e \<Longrightarrow> le_booking_id e = i"
  by (simp add: settled_payment_def)

lemma money_inv_add_booking:
  assumes "money_inv bs iv l" and "bk_id b \<notin> bk_id ` set bs" and "booking_priced b"
    and "bk_status b = PAYMENT_PENDING"
  shows "money_inv (bs @ [b]) iv l"
proof -
  have np: "\<not> paid (bk_id b) l"
  proof
    assume "paid (bk_id b) l"
    then obtain e where e: "e \<in> set l" "settled_payment (bk_id b) e" by (auto simp: paid_def)
    then have "\<exists>b'\<in>set bs. bk_id b' = bk_id b"
      using assms(1) settled_payment_id [OF e(2)] unfolding money_inv_def payments_agree_def by metis
    then show False using assms(2) by (metis imageI)
  qed
  then have "statuses_agree (bs @ [b]) l"
    using assms(1,4) by (auto simp: money_inv_def statuses_agree_def needs_payment_def)
  moreover have "keyed bk_id (bs @ [b])" using assms(1,2) by (simp add: money_inv_def keyed_def)
  ultimately show ?thesis using assms(1,3) unfolding money_inv_def payments_agree_def intents_agree_def by fastforce
qed

lemma money_inv_update:
  assumes "money_inv bs iv l"
    and keep: "\<And>b. bk_id (f b) = bk_id b" "\<And>b. bk_total_paid (f b) = bk_total_paid b"
      "\<And>b. booking_priced (f b) = booking_priced b"
    and st: "\<And>b. b \<in> set bs \<Longrightarrow> q b \<Longrightarrow> (paid (bk_id b) l \<longrightarrow> bk_status (f b) \<in> paid_statuses) \<and>
      (bk_status (f b) \<in> needs_payment \<longrightarrow> paid (bk_id b) l)"
  shows "money_inv (update_where q f bs) iv l"
proof -
  have k: "keyed bk_id (update_where q f bs)" using assms(1) keep(1) by (simp add: money_inv_def keyed_update_where)
  have ex: "(\<exists>b\<in>set (update_where q f bs). bk_id b = i \<and> bk_total_paid b = t) \<longleftrightarrow>
      (\<exists>b\<in>set bs. bk_id b = i \<and> bk_total_paid b = t)" for i t
    unfolding update_where_def set_map bex_simps using keep(1,2) by (intro bex_cong) auto
  have pr: "\<forall>b\<in>set (update_where q f bs). booking_priced b"
    using assms(1) keep(3) by (auto simp: money_inv_def update_where_def)
  have sa: "statuses_agree (update_where q f bs) l"
    using assms(1) st keep(1) by (auto simp: money_inv_def statuses_agree_def update_where_def)
  show ?thesis using assms(1) k pr sa unfolding money_inv_def payments_agree_def intents_agree_def ex by simp
qed

lemma money_inv_add_intent:
  assumes "money_inv bs iv l" and "b \<in> set bs" and "bk_total_paid b = Some a"
  shows "money_inv bs (iv @ [(bk_id b, a)]) l"
  using assms by (auto simp: money_inv_def intents_agree_def)

text \<open>Rows of other kinds - platform fees and payouts - say nothing to the invariant.\<close>

lemma money_inv_settles:
  assumes "money_inv bs iv l" and "ledger_settles l l'"
  shows "money_inv bs iv l'" and "paid i l' = paid i l"
proof -
  have pay: "set (filter (settled_payment j) l') = set (filter (settled_payment j) l)" for j
    using settled_payment_filter [OF assms(2)] by simp
  have p: "paid j l' = paid j l" for j
    using pay [of j] by (auto simp: paid_def set_eq_iff)
  then show "paid i l' = paid i l" .
  have len: "length (filter (settled_payment j) l') = length (filter (settled_payment j) l)" for j
    using settled_payment_filter [OF assms(2)] by simp
  have ref: "map le_amount (refund_entries j l') = map le_amount (refund_entries j l)" for j
    using ledger_settles_filter(1) [OF assms(2)] by (simp add: refund_entries_def)
  have pa: "payments_agree bs l'"
    using assms(1) pay unfolding money_inv_def payments_agree_def set_filter set_eq_iff by blast
  have "refunds_agree l'"
    unfolding refunds_agree_def
  proof (intro conjI allI ballI impI)
    fix j show "length (refund_entries j l') \<le> 1"
      using assms(1) ref [of j] by (metis length_map money_inv_def refunds_agree_def)
  next
    fix e assume e: "e \<in> set l'" "le_type e = REFUND"
    then have "le_amount e \<in> set (map le_amount (refund_entries (le_booking_id e) l'))" by (auto simp: refund_entries_def)
    then obtain d where d: "d \<in> set l" "le_type d = REFUND" "le_booking_id d = le_booking_id e" "le_amount d = le_amount e"
      unfolding ref by (auto simp: refund_entries_def)
    then obtain q where "q \<in> set l" "settled_payment (le_booking_id e) q" "0 \<le> le_amount e" "le_amount e \<le> le_amount q"
      using assms(1) unfolding money_inv_def refunds_agree_def by metis
    then show "\<exists>q\<in>set l'. settled_payment (le_booking_id e) q \<and> 0 \<le> le_amount e \<and> le_amount e \<le> le_amount q"
      using pay [of "le_booking_id e"] by (auto simp: set_eq_iff)
  qed
  then show "money_inv bs iv l'"
    using assms pa p len ledger_settles_filter(3) [OF assms(2)]
    unfolding money_inv_def statuses_agree_def one_payment_def keyed_def by simp
qed

lemma booking_priced_cong:
  assumes "bk_guest_fee x = bk_guest_fee y" "bk_host_fee x = bk_host_fee y" "bk_total_paid x = bk_total_paid y"
    "bk_payout_amount x = bk_payout_amount y" "bk_total_subtotal x = bk_total_subtotal y"
    "bk_checkin_date x = bk_checkin_date y" "bk_checkout_date x = bk_checkout_date y"
  shows "booking_priced x = booking_priced y"
  unfolding booking_priced_def booking_balanced_def assms by (rule refl)

lemma booking_priced_update [simp]:
  "booking_priced (x\<lparr>bk_status := st\<rparr>) = booking_priced x"
  "booking_priced (x\<lparr>bk_status := st, bk_completed_at := c\<rparr>) = booking_priced x"
  "booking_priced (x\<lparr>bk_status := st, bk_confirmed_at := d, bk_paid_at := p\<rparr>) = booking_priced x"
  by (rule booking_priced_cong; simp)+

lemma money_inv_found:
  assumes "money_inv bs iv l" and "b \<in> set bs" and "b' \<in> set bs" and "bk_id b = bk_id b'"
  shows "b = b'"
  using assms keyed_inj by (metis money_inv_def)

lemma priced_total:
  assumes "booking_priced b"
  obtains t where "bk_total_paid b = Some t" and "0 \<le> t" and "t \<le> 2 ^ 42"
  using assms by (auto simp: booking_priced_def booking_balanced_def split: option.splits)

lemma confirmed_rows_facts:
  "filter (settled_payment j) (confirmed_rows gen now b intent m) =
     (if bk_id b = j then [ledger_row (gen 10) now b GUEST_PAYMENT (num (pi_amount intent)) L_SETTLED m] else [])"
  "refund_entries j (confirmed_rows gen now b intent m) = []"
  "map le_id (confirmed_rows gen now b intent m) = [gen 10, gen 11, gen 12]"
  "e \<in> set (confirmed_rows gen now b intent m) \<Longrightarrow> le_type e \<noteq> REFUND \<and> le_booking_id e = bk_id b"
  "e \<in> set (confirmed_rows gen now b intent m) \<Longrightarrow> settled_payment k e \<Longrightarrow> le_amount e = col2 (num (pi_amount intent))"
  by (auto simp: settled_confirmed_rows confirmed_rows_def ledger_row_def refund_entries_def settled_payment_def)

lemma money_inv_confirm:
  assumes "money_inv bs iv l" and "b \<in> set bs" and "bk_status b = PAYMENT_PENDING"
    and "(bk_id b, pi_amount intent) \<in> set iv"
    and ids: "distinct [gen 10, gen 11, gen 12]" "\<forall>k\<in>{10, 11, 12}. gen k \<notin> le_id ` set l"
  shows "money_inv (confirm_update (bk_id b) now bs) iv (l @ confirmed_rows gen now b intent m)"
proof -
  let ?rows = "confirmed_rows gen now b intent m" and ?bs = "confirm_update (bk_id b) now bs"
  obtain b' where "b' \<in> set bs" "bk_id b' = bk_id b" "bk_total_paid b' = Some (pi_amount intent)"
    using assms(1,4) by (fastforce simp: money_inv_def intents_agree_def)
  then have tot: "bk_total_paid b = Some (pi_amount intent)"
    using money_inv_found [OF assms(1,2)] by metis
  have "booking_priced b" using assms(1,2) by (simp add: money_inv_def)
  then have amt: "col2 (num (pi_amount intent)) = pi_amount intent"
    using tot by (elim priced_total) (auto intro!: col2_num)
  have np: "\<not> paid (bk_id b) l"
    using assms(1-3) by (auto simp: money_inv_def statuses_agree_def paid_statuses_def)
  have none: "filter (settled_payment (bk_id b)) l = []" using np by (simp add: paid_def filter_empty_conv)
  have paid': "paid j (l @ ?rows) \<longleftrightarrow> paid j l \<or> j = bk_id b" for j
    by (auto simp: paid_def confirmed_rows_def ledger_row_def settled_payment_def)
  have ex: "(\<exists>x\<in>set ?bs. bk_id x = i \<and> bk_total_paid x = t) \<longleftrightarrow> (\<exists>x\<in>set bs. bk_id x = i \<and> bk_total_paid x = t)" for i t
    unfolding confirm_update_def update_where_def set_map bex_simps by (intro bex_cong) auto
  have k: "keyed bk_id ?bs" using assms(1) by (simp add: money_inv_def confirm_update_def keyed_update_where)
  have kl: "keyed le_id (l @ ?rows)"
    using assms(1) ids by (auto simp: money_inv_def keyed_def confirmed_rows_facts(3))
  have pr: "\<forall>x\<in>set ?bs. booking_priced x"
    using assms(1) by (auto simp: money_inv_def confirm_update_def update_where_def)
  have sa: "statuses_agree ?bs (l @ ?rows)"
    unfolding statuses_agree_def paid'
  proof (intro ballI conjI impI)
    fix x assume "x \<in> set ?bs"
    then obtain y where y: "y \<in> set bs" "x = (if bk_id y = bk_id b \<and> bk_status y = PAYMENT_PENDING
        then y\<lparr>bk_status := CONFIRMED, bk_confirmed_at := Some now, bk_paid_at := Some now\<rparr> else y)"
      by (auto simp: confirm_update_def update_where_def)
    have yb: "bk_id y = bk_id b \<Longrightarrow> y = b" using money_inv_found [OF assms(1) y(1) assms(2)] .
    have old: "(paid (bk_id y) l \<longrightarrow> bk_status y \<in> paid_statuses) \<and> (bk_status y \<in> needs_payment \<longrightarrow> paid (bk_id y) l)"
      using assms(1) y(1) by (simp add: money_inv_def statuses_agree_def)
    show "bk_status x \<in> paid_statuses" if "paid (bk_id x) l \<or> bk_id x = bk_id b"
      using that y yb old assms(3) by (cases "bk_id y = bk_id b") (auto simp: paid_statuses_def)
    show "paid (bk_id x) l \<or> bk_id x = bk_id b" if "bk_status x \<in> needs_payment"
      using that y yb old by (cases "bk_id y = bk_id b") auto
  qed
  have pa: "payments_agree ?bs (l @ ?rows)"
    unfolding payments_agree_def ex
  proof (intro ballI impI)
    fix e assume e: "e \<in> set (l @ ?rows)" "settled_payment (le_booking_id e) e"
    show "\<exists>x\<in>set bs. bk_id x = le_booking_id e \<and> bk_total_paid x = Some (le_amount e)"
    proof (cases "e \<in> set l")
      case True
      then show ?thesis using assms(1) e(2) by (simp add: money_inv_def payments_agree_def)
    next
      case False
      then have "e \<in> set ?rows" using e(1) by simp
      then show ?thesis using assms(2) tot confirmed_rows_facts(4,5) [of e] e(2) amt by auto
    qed
  qed
  have ra: "refunds_agree (l @ ?rows)"
    using assms(1) confirmed_rows_facts(4) [of _ gen now b intent m]
    unfolding money_inv_def refunds_agree_def refund_entries_def filter_append
    by (auto simp: confirmed_rows_facts(2) [unfolded refund_entries_def])
  have op: "one_payment (l @ ?rows)"
    unfolding one_payment_def
  proof
    fix j
    show "length (filter (settled_payment j) (l @ ?rows)) \<le> 1"
      using assms(1) none by (cases "j = bk_id b") (auto simp: confirmed_rows_facts(1) money_inv_def one_payment_def)
  qed
  have ia: "intents_agree ?bs iv" using assms(1) unfolding money_inv_def intents_agree_def ex by simp
  show ?thesis using k kl pr sa pa ra op ia by (simp add: money_inv_def)
qed

lemma money_inv_add_refund:
  assumes "money_inv bs iv l" and "b \<in> set bs" and "paid (bk_id b) l" and "refund_entries (bk_id b) l = []"
    and "0 \<le> a" "a \<le> bk_total_subtotal b + bk_guest_fee b" and "i \<notin> le_id ` set l"
    and "le_id e = i" "le_booking_id e = bk_id b" "le_type e = REFUND" "le_amount e = a"
  shows "money_inv bs iv (l @ [e])"
proof -
  have ns: "\<not> settled_payment j e" for j using assms(10) by (simp add: settled_payment_def)
  have p: "paid j (l @ [e]) \<longleftrightarrow> paid j l" for j by (auto simp: paid_def ns)
  obtain q where q: "q \<in> set l" "settled_payment (bk_id b) q" using assms(3) by (auto simp: paid_def)
  then obtain b' where "b' \<in> set bs" "bk_id b' = bk_id b" "bk_total_paid b' = Some (le_amount q)"
    using assms(1) settled_payment_id [OF q(2)] unfolding money_inv_def payments_agree_def by metis
  then have "bk_total_paid b = Some (le_amount q)" using money_inv_found [OF assms(1,2)] by metis
  moreover have "booking_priced b" using assms(1,2) by (simp add: money_inv_def)
  ultimately have "a \<le> le_amount q" using assms(6) by (simp add: booking_priced_def)
  then have new: "\<exists>q\<in>set l. settled_payment (le_booking_id e) q \<and> 0 \<le> le_amount e \<and> le_amount e \<le> le_amount q"
    using q assms(5,9,11) by auto
  have ra: "refunds_agree (l @ [e])"
    unfolding refunds_agree_def
  proof (intro conjI allI ballI impI)
    fix j show "length (refund_entries j (l @ [e])) \<le> 1"
      using assms(1,4,9) by (cases "j = bk_id b") (auto simp: money_inv_def refunds_agree_def refund_entries_def)
  next
    fix d assume "d \<in> set (l @ [e])" "le_type d = REFUND"
    then show "\<exists>q\<in>set (l @ [e]). settled_payment (le_booking_id d) q \<and> 0 \<le> le_amount d \<and> le_amount d \<le> le_amount q"
      using assms(1) new unfolding money_inv_def refunds_agree_def by auto
  qed
  have "keyed le_id (l @ [e])" using assms(1,7,8) by (simp add: money_inv_def keyed_def)
  then show ?thesis
    using assms(1) p ra ns unfolding money_inv_def statuses_agree_def payments_agree_def one_payment_def by auto
qed

section \<open>The operations against the invariant\<close>

definition db_inv :: "stays_db \<Rightarrow> bool" where
  "db_inv db \<longleftrightarrow> money_inv (bookings db) (map intent_view (intents db)) (ledger db) \<and> no_double_booking db"

lemma db_inv_cong:
  assumes "bookings db' = bookings db" and "ledger db' = ledger db" and "map intent_view (intents db') = map intent_view (intents db)"
  shows "db_inv db' = db_inv db"
  using assms by (simp add: db_inv_def no_double_booking_def)

lemma view_core: "map intent_core xs = map intent_core ys \<Longrightarrow> map intent_view xs = map intent_view ys"
proof -
  have m: "map intent_view zs = map intent_view (map intent_core zs)" for zs
    by (simp add: intent_core_def intent_view_def)
  assume "map intent_core xs = map intent_core ys"
  then show ?thesis by (subst (1 2) m) simp
qed

lemma view_update:
  assumes "\<And>p. pi_booking_id (f p) = pi_booking_id p" "\<And>p. pi_amount (f p) = pi_amount p"
  shows "map intent_view (update_where q f ps) = map intent_view ps"
  using assms by (simp add: map_update_where intent_view_def)

lemma gateway_only_inv: "gateway_only db db' \<Longrightarrow> db_inv db' = db_inv db"
  by (rule db_inv_cong) (auto simp: gateway_only_def intro: view_core)

lemma booked_row_priced:
  assumes "rates_in_range (w_env w) db" and "0 \<le> rp_base_price rp" and "ci < co"
    and "rp_base_price rp * (co - ci) \<le> 2 ^ 41"
  shows "booking_priced (booked_row w new_id now u dto rp ci co db)"
proof -
  let ?g = "pct_num (ps_guest_fee_pct (rate_row (w_env w) db))" and ?h = "pct_num (ps_host_fee_pct (rate_row (w_env w) db))"
  define x where "x = js_mul (num (rp_base_price rp)) (of_int (co - ci))"
  have r: "0 \<le> ?g" "?g \<le> 1 / 2" "0 \<le> ?h" "?h \<le> 1 / 2"
    using assms(1) unfolding rates_in_range_def by (blast intro: pct_num_bounds)+
  have n: "0 \<le> co - ci" "rp_base_price rp * (co - ci) \<le> 2 ^ 42" using assms(3,4) by simp_all
  note s = stored_amounts_spec [OF assms(2) n r, folded x_def]
  have p: "price_in_range rp (co - ci)" using assms(2) n by (simp add: price_in_range_def)
  note bal = booked_row_balanced [OF assms(1) p, of new_id now u dto]
  have "bk_total_paid (booked_row w new_id now u dto rp ci co db) =
      Some (rp_base_price rp * (co - ci) + bk_guest_fee (booked_row w new_id now u dto rp ci co db))"
    "bk_guest_fee (booked_row w new_id now u dto rp ci co db) \<le> rp_base_price rp * (co - ci)"
    using s(1) s(2-5) unfolding booked_row_def Let_def x_def [symmetric]
    by (simp_all add: new_booking_def stored_amounts_def)
  moreover have "0 \<le> rp_base_price rp * (co - ci)" using assms(2) n(1) by simp
  moreover have "bk_checkin_date (booked_row w new_id now u dto rp ci co db) = ci"
    "bk_checkout_date (booked_row w new_id now u dto rp ci co db) = co"
    by (simp_all add: booked_row_def Let_def new_booking_def)
  ultimately show ?thesis using bal assms(3,4) by (simp add: booking_priced_def)
qed

definition prices_in_range :: "create_booking_dto \<Rightarrow> stays_db \<Rightarrow> bool" where
  "prices_in_range dto db \<longleftrightarrow>
     (\<forall>l rp ci co. find_listing (dto_listing_id dto) db = Some l \<longrightarrow> ls_rate_plan l = Some rp \<longrightarrow>
        parseBookingDateOnly (dto_checkin_date dto) = Inr ci \<longrightarrow> parseBookingDateOnly (dto_checkout_date dto) = Inr co \<longrightarrow>
        0 \<le> rp_base_price rp \<and> rp_base_price rp * (co - ci) \<le> 2 ^ 41)"

lemma create_inv:
  assumes "createBooking w be new_id now u dto snap ip ag db = (r, db')" and "db_inv db"
    and "new_id \<notin> bk_id ` set (bookings db)" and "rates_in_range (w_env w) db" and "prices_in_range dto db"
  shows "db_inv db'" and "ledger db' = ledger db"
proof -
  have nd: "no_double_booking db'" using createBooking_no_double [OF assms(1)] assms(2) by (simp add: db_inv_def)
  have "db_inv db' \<and> ledger db' = ledger db"
    using assms(1)
  proof (cases rule: createBooking_cases)
    case failed
    then show ?thesis using assms(2) db_inv_cong [of db' db] by simp
  next
    case replayed
    then show ?thesis using assms(2) by simp
  next
    case (created l rp ci co resp)
    let ?b = "booked_row w new_id now u dto rp ci co db"
    have p: "booking_priced ?b"
      using assms(5) created(4,6-9) by (intro booked_row_priced [OF assms(4)]) (auto simp: prices_in_range_def)
    have f: "bk_id ?b = new_id" "bk_status ?b = PAYMENT_PENDING" by (simp_all add: booked_row_def new_booking_def Let_def)
    have "money_inv (bookings db @ [?b]) (map intent_view (intents db)) (ledger db)"
      using assms(2,3) f p by (intro money_inv_add_booking) (auto simp: db_inv_def)
    then show ?thesis using nd created by (simp add: db_inv_def)
  qed
  then show "db_inv db'" and "ledger db' = ledger db" by auto
qed

lemma expire_keeps:
  assumes "db_inv db" and "bookings db' = update_where q (\<lambda>x. x\<lparr>bk_status := EXPIRED\<rparr>) (bookings db)"
    and "\<And>x. q x \<Longrightarrow> bk_status x = PAYMENT_PENDING \<or> bk_status x = INITIATED"
    and "ledger db' = ledger db" and "map intent_view (intents db') = map intent_view (intents db)"
  shows "db_inv db'"
proof -
  have "money_inv (update_where q (\<lambda>x. x\<lparr>bk_status := EXPIRED\<rparr>) (bookings db)) (map intent_view (intents db)) (ledger db)"
  proof (rule money_inv_update)
    show "money_inv (bookings db) (map intent_view (intents db)) (ledger db)" using assms(1) by (simp add: db_inv_def)
    fix x assume x: "x \<in> set (bookings db)" "q x"
    then have "\<not> paid (bk_id x) (ledger db)"
      using assms(1) assms(3) [OF x(2)] by (auto simp: db_inv_def money_inv_def statuses_agree_def paid_statuses_def)
    then show "(paid (bk_id x) (ledger db) \<longrightarrow> bk_status (x\<lparr>bk_status := EXPIRED\<rparr>) \<in> paid_statuses) \<and>
       (bk_status (x\<lparr>bk_status := EXPIRED\<rparr>) \<in> needs_payment \<longrightarrow> paid (bk_id x) (ledger db))"
      by (simp add: needs_payment_def)
  qed simp_all
  then show ?thesis using assms expire_free by (simp add: db_inv_def no_double_booking_def)
qed

lemma createOrGetIntent_cases:
  assumes "createOrGetIntent w new_id rnd now i u key db = (r, db')"
  obtains (same) "db' = db"
    | (expired) b where "find_booking i db = Some b" "db' = expire_hold (bk_id b) db"
    | (opened) b t p where "find_booking i db = Some b" "bk_status b = PAYMENT_PENDING"
        "lockIntentAmount (total_number b) None = Inr t" "db' = db\<lparr>intents := intents db @ [p]\<rparr>"
        "intent_view p = (bk_id b, col2 t)" "pi_status p = I_PENDING"
proof (cases "find_booking i db")
  case None
  then show ?thesis using assms by (intro same) (simp add: createOrGetIntent_def)
next
  case (Some b)
  have "db' = db \<or> db' = expire_hold (bk_id b) db \<or>
      (bk_status b = PAYMENT_PENDING \<and> open_intent w new_id rnd now b u key db = (r, db'))"
    using assms Some by (auto simp: createOrGetIntent_def split: if_splits sum.splits option.splits)
  then show ?thesis
  proof (elim disjE conjE)
    assume o: "open_intent w new_id rnd now b u key db = (r, db')" and st: "bk_status b = PAYMENT_PENDING"
    show ?thesis
    proof (cases "lockIntentAmount (total_number b) None")
      case (Inl e)
      then show ?thesis using o by (intro same) (simp add: open_intent_def)
    next
      case (Inr t)
      then have "db' = db \<or> (\<exists>p. db' = db\<lparr>intents := intents db @ [p]\<rparr> \<and> intent_view p = (bk_id b, col2 t) \<and> pi_status p = I_PENDING)"
        using o by (auto simp: open_intent_def Let_def insert_row_def new_intent_def intent_view_def split: if_splits sum.splits)
      then show ?thesis using same opened [OF Some st Inr] by blast
    qed
  qed (use same expired [OF Some] in blast)+
qed

lemma pay_inv:
  assumes "createOrGetIntent w new_id rnd now i u key db = (r, db')" and "db_inv db"
  shows "db_inv db'" and "ledger db' = ledger db"
proof -
  have "db_inv db' \<and> ledger db' = ledger db"
    using assms(1)
  proof (cases rule: createOrGetIntent_cases)
    case same
    then show ?thesis using assms(2) by simp
  next
    case (expired b)
    have "db_inv db'"
      by (rule expire_keeps [OF assms(2), where q = "\<lambda>x. bk_id x = bk_id b \<and> bk_status x \<in> set PRE_CONFIRMATION_BOOKING_STATUSES"])
        (use expired(2) in \<open>auto simp: expire_hold_def PRE_CONFIRMATION_BOOKING_STATUSES_def intro!: view_update\<close>)
    then show ?thesis using expired(2) by (simp add: expire_hold_def)
  next
    case (opened b t p)
    have b: "b \<in> set (bookings db)" using find_booking_mem [OF opened(1)] by simp
    then have "booking_priced b" using assms(2) by (simp add: db_inv_def money_inv_def)
    then obtain k where k: "bk_total_paid b = Some k" "0 \<le> k" "k \<le> 2 ^ 42" by (rule priced_total)
    have "0 < k" using opened(3) k by (cases "k = 0") (auto simp: total_number_def lockIntentAmount_def assertPositiveMoney_def)
    then have "t = num k" using opened(3) k lockIntentAmount_num [of k] by (simp add: total_number_def)
    then have "col2 t = k" using k by (simp add: col2_num)
    then have "money_inv (bookings db) (map intent_view (intents db) @ [(bk_id b, col2 t)]) (ledger db)"
      using assms(2) b k by (intro money_inv_add_intent) (auto simp: db_inv_def)
    then show ?thesis using assms(2) opened(4,5) by (simp add: db_inv_def no_double_booking_def)
  qed
  then show "db_inv db'" and "ledger db' = ledger db" by auto
qed


lemma reject_inv:
  assumes "db_inv db"
  shows "db_inv (reject_dates intent b pr pid db)"
  by (rule expire_keeps [OF assms reject_dates_frame(6)])
    (auto simp: reject_dates_frame(1), auto simp: reject_dates_def Let_def set_alert_def audit_log_def intro!: view_update)

definition fresh_entries :: "(nat \<Rightarrow> uuid) \<Rightarrow> stays_db \<Rightarrow> bool" where
  "fresh_entries gen db \<longleftrightarrow>
     distinct [gen 10, gen 11, gen 12] \<and> (\<forall>k\<in>{0, 10, 11, 12}. gen k \<notin> le_id ` set (ledger db))"

lemma payable_view:
  assumes "payable i db intent b"
  shows "b \<in> set (bookings db)" and "bk_status b = PAYMENT_PENDING"
    and "(bk_id b, pi_amount intent) \<in> set (map intent_view (intents db))"
proof -
  have f: "find_intent i db = Some intent" "find_booking (pi_booking_id intent) db = Some b" "bk_status b = PAYMENT_PENDING"
    using assms by (auto simp: payable_def)
  show "b \<in> set (bookings db)" "bk_status b = PAYMENT_PENDING" using find_booking_mem [OF f(2)] f(3) by simp_all
  have "intent_view intent = (bk_id b, pi_amount intent)" using find_booking_mem [OF f(2)] by (simp add: intent_view_def)
  then show "(bk_id b, pi_amount intent) \<in> set (map intent_view (intents db))"
    using find_intent_mem [OF f(1)] by (metis image_eqI set_map)
qed

lemma confirm_body_money:
  assumes "confirm_body w gen now pr pid meta i db = (r, db')" and "db_inv db" and "fresh_entries gen db"
  shows "db_inv db'" and "\<And>j. paid j (ledger db) \<Longrightarrow> paid j (ledger db')"
proof -
  have nd: "no_double_booking db'" using confirm_body_inv(2) [OF assms(1)] assms(2) by (simp add: db_inv_def)
  have "db_inv db' \<and> (\<forall>j. paid j (ledger db) \<longrightarrow> paid j (ledger db'))"
    using assms(1)
  proof (cases rule: confirm_body_cases)
    case unchanged
    have "map intent_view (intents db') = map intent_view (intents db)"
      using unchanged(8) by (elim disjE) (simp_all add: view_update)
    then show ?thesis using assms(2) db_inv_cong [of db' db] unchanged(2,3) by simp
  next
    case (rejected intent b)
    then show ?thesis using reject_inv [OF assms(2)] by (simp add: reject_dates_frame)
  next
    case (violated intent b reason)
    then show ?thesis using assms(2) by (simp add: reportFinancialInvariantViolation_def db_inv_def no_double_booking_def)
  next
    case (confirmed intent b m)
    note pv = payable_view [OF confirmed(1)]
    have "money_inv (confirm_update (bk_id b) now (bookings db)) (map intent_view (intents db))
        (ledger db @ confirmed_rows gen now b intent m)"
      using assms(2,3) pv by (intro money_inv_confirm) (auto simp: db_inv_def fresh_entries_def)
    then have "db_inv db'" using nd confirmed(5-7) by (simp add: db_inv_def view_update)
    then show ?thesis using confirmed(6) by (auto simp: paid_def)
  qed
  then show "db_inv db'" and "\<And>j. paid j (ledger db) \<Longrightarrow> paid j (ledger db')" by auto
qed

lemma confirm_inv:
  assumes "confirmPaymentSuccess w gen now pr pid meta db = (r, db')" and "db_inv db" and "fresh_entries gen db"
  shows "db_inv db'" and "\<And>j. paid j (ledger db) \<Longrightarrow> paid j (ledger db')"
proof -
  have "db_inv db' \<and> (\<forall>j. paid j (ledger db) \<longrightarrow> paid j (ledger db'))"
    using assms(1)
  proof (cases rule: confirmPaymentSuccess_cases)
    case missing
    then show ?thesis using assms(2) by simp
  next
    case (found intent out db1)
    have g: "db_inv db' = db_inv db1" "ledger db' = ledger db1"
      using gateway_only_inv [OF found(3)] found(3) by (simp_all add: gateway_only_def)
    from found(2) show ?thesis
    proof (cases rule: transaction_cases)
      case (commit a)
      then show ?thesis using confirm_body_money [OF commit(2) assms(2,3)] g by simp
    next
      case (abort e db2)
      then show ?thesis using assms(2) db_inv_cong [of db1 db] g by simp
    qed
  qed
  then show "db_inv db'" and "\<And>j. paid j (ledger db) \<Longrightarrow> paid j (ledger db')" by auto
qed

lemma free_update:
  assumes "no_double_booking db" and "bookings db' = update_where q f (bookings db)"
    and "\<And>x. q x \<Longrightarrow> \<not> booked (f x)" and "\<And>x. bk_listing_id (f x) = bk_listing_id x"
    and "\<And>x. bk_checkin_date (f x) = bk_checkin_date x" and "\<And>x. bk_checkout_date (f x) = bk_checkout_date x"
  shows "no_double_booking db'"
  using no_double_update [of "bookings db" q f] assms by (simp add: no_double_booking_def)

lemma refund_due_facts:
  assumes "refund_due i a db"
  shows "paid i (ledger db)" and "refund_entries i (ledger db) = []" and "0 < a"
  using assms by (auto simp: refund_due_def paid_def refund_entries_def exists_where_iff filter_empty_conv)

lemma cancel_inv:
  assumes "cancel w gen now i u c reason ip ag db = (r, db')" and "db_inv db" and "fresh_entries gen db"
  shows "db_inv db'" and "\<And>j. paid j (ledger db) \<Longrightarrow> paid j (ledger db')"
proof -
  have "db_inv db' \<and> (\<forall>j. paid j (ledger db) \<longrightarrow> paid j (ledger db'))"
    using assms(1)
  proof (cases rule: cancel_cases)
    case refused
    then show ?thesis using assms(2) by simp
  next
    case (cancelled b m db1)
    define a where "a = calculateRefund (policy_of (find_listing (bk_listing_id b) db)) (hours_to_checkin b now)
      (num (bk_total_subtotal b)) (num (bk_guest_fee b))"
    let ?bs = "cancel_update b c (bookings db)" and ?iv = "map intent_view (intents db)"
    have b: "b \<in> set (bookings db)" using find_booking_mem [OF cancelled(2)] by simp
    have m0: "money_inv (bookings db) ?iv (ledger db)" using assms(2) by (simp add: db_inv_def)
    have pr: "booking_priced b" using m0 b by (simp add: money_inv_def)
    have cs: "cancelled_status c \<in> paid_statuses" "cancelled_status c \<notin> needs_payment"
      by (cases c; simp add: cancelled_status_def paid_statuses_def needs_payment_def)+
    have m1: "money_inv ?bs ?iv (ledger db)"
      unfolding cancel_update_def by (rule money_inv_update [OF m0]) (simp_all add: cs)
    have "b\<lparr>bk_status := cancelled_status c\<rparr> \<in> set ?bs"
      using b by (force simp: cancel_update_def update_where_def)
    then obtain b1 where b1: "b1 \<in> set ?bs" "bk_id b1 = bk_id b" "bk_total_subtotal b1 = bk_total_subtotal b"
      "bk_guest_fee b1 = bk_guest_fee b" by force
    have amt: "0 \<le> col2 a" "col2 a \<le> bk_total_subtotal b1 + bk_guest_fee b1"
      using share_cents_bounds [OF calculateRefund_cents] pr b1
      unfolding a_def by (auto simp: booking_priced_def booking_balanced_def)
    have m2: "money_inv ?bs ?iv (ledger db1)"
    proof (cases "refund_due (bk_id b) a db")
      case True
      have "money_inv ?bs ?iv (ledger db @ [ledger_row (gen 0) now b REFUND a L_PENDING m])"
        using refund_due_facts [OF True] b1(2) amt assms(3)
        by (intro money_inv_add_refund [OF m1 b1(1), where a = "col2 a" and i = "gen 0"]) (auto simp: ledger_row_def fresh_entries_def)
      then show ?thesis using True by (simp add: cancelled(7) refund_rows_def a_def)
    next
      case False
      then show ?thesis using m1 by (simp add: cancelled(7) refund_rows_def a_def)
    qed
    have kl: "keyed le_id (ledger db1)" using m2 by (simp add: money_inv_def)
    then have st: "ledger_settles (ledger db1) (ledger db')" using cancelled(8) by (simp add: gateway_settles_def)
    have iv: "map intent_view (intents db') = ?iv"
      using view_core [OF cancelled(9)] by (simp add: view_update)
    have "no_double_booking db'"
      by (rule free_update [OF _ cancelled(6) [unfolded cancel_update_def]])
        (use assms(2) in \<open>simp add: db_inv_def\<close>, cases c,
         simp_all add: booked_def BOOKED_STATUSES_def cancelled_status_def)
    then have inv: "db_inv db'" using money_inv_settles(1) [OF m2 st] cancelled(6) iv by (simp add: db_inv_def)
    have "paid j (ledger db')" if "paid j (ledger db)" for j
      using that money_inv_settles(2) [OF m2 st] by (auto simp: cancelled(7) paid_def)
    then show ?thesis using inv by blast
  qed
  then show "db_inv db'" and "\<And>j. paid j (ledger db) \<Longrightarrow> paid j (ledger db')" by auto
qed

lemma complete_inv:
  assumes "db_inv db" and "paid (bk_id b) (ledger db)"
  shows "db_inv (complete_stay w gen now b db)"
proof -
  have "money_inv (update_where (\<lambda>x. bk_id x = bk_id b) (completed_row now) (bookings db)) (map intent_view (intents db)) (ledger db)"
    using assms by (intro money_inv_update) (auto simp: db_inv_def completed_row_def paid_statuses_def)
  moreover have "no_double_booking (complete_stay w gen now b db)"
    by (rule free_update [OF _ complete_stay_effect(1)])
      (use assms(1) in \<open>simp_all add: db_inv_def completed_row_def booked_def BOOKED_STATUSES_def\<close>)
  ultimately show ?thesis by (simp add: db_inv_def complete_stay_effect)
qed

lemma expire_inv: "db_inv db \<Longrightarrow> db_inv (expire_booking w now b db)"
  by (rule expire_keeps [OF _ expire_booking_effect(1)])
    (auto simp: expire_booking_effect intent_view_def [abs_def] PRE_CONFIRMATION_BOOKING_STATUSES_def)

lemma core_same_inv: "core_same db db' \<Longrightarrow> db_inv db' = db_inv db"
  by (rule db_inv_cong) (auto simp: core_same_def)

lemma host_block_frame:
  assumes "setHostAvailabilityBlock l h f t v db = (r, db')"
  shows "bookings db' = bookings db" "ledger db' = ledger db" "intents db' = intents db"
  using assms by (auto simp: setHostAvailabilityBlock_def Let_def audit_log_def split: option.splits if_splits sum.splits)

section \<open>The transition system\<close>

text \<open>
  One rule per operation; identifiers the operation generates are fresh, as the primary keys demand. A
  booking is created under stored rates of at most 50 percent and prices of at most 2^41 cents per stay.
  \<open>read_stays\<close> is a completion job reading some of the active stays, \<open>complete\<close> its work on the next one.
\<close>

inductive sys_step :: "world \<Rightarrow> sys \<Rightarrow> sys \<Rightarrow> bool" for w :: world where
  create: "createBooking w be new_id now u dto snap ip ag (sy_db s) = (r, db') \<Longrightarrow>
     new_id \<notin> bk_id ` set (bookings (sy_db s)) \<Longrightarrow> rates_in_range (w_env w) (sy_db s) \<Longrightarrow>
     prices_in_range dto (sy_db s) \<Longrightarrow> sys_step w s (s\<lparr>sy_db := db'\<rparr>)"
| pay: "createOrGetIntent w new_id rnd now i u key (sy_db s) = (r, db') \<Longrightarrow> sys_step w s (s\<lparr>sy_db := db'\<rparr>)"
| confirm: "confirmPaymentSuccess w gen now pr pid meta (sy_db s) = (r, db') \<Longrightarrow> fresh_entries gen (sy_db s) \<Longrightarrow>
     sys_step w s (s\<lparr>sy_db := db'\<rparr>)"
| cancel_step: "cancel w gen now i u c reason ip ag (sy_db s) = (r, db') \<Longrightarrow> fresh_entries gen (sy_db s) \<Longrightarrow>
     sys_step w s (s\<lparr>sy_db := db'\<rparr>)"
| host_block: "setHostAvailabilityBlock l h f t v (sy_db s) = (r, db') \<Longrightarrow> sys_step w s (s\<lparr>sy_db := db'\<rparr>)"
| read_stays: "set bs \<subseteq> {b \<in> set (bookings (sy_db s)). active_stay b} \<Longrightarrow> sys_step w s (s\<lparr>sy_completing := bs\<rparr>)"
| complete: "sy_completing s = b # bs \<Longrightarrow>
     sys_step w s (s\<lparr>sy_db := complete_stay w gen now b (sy_db s), sy_completing := bs\<rparr>)"
| expire: "sys_step w s (s\<lparr>sy_db := expire_booking w now b (sy_db s)\<rparr>)"
| sync: "syncFromBooking (w_env w) (w_off w) gen now i (sy_db s) = (r, db') \<Longrightarrow> sys_step w s (s\<lparr>sy_db := db'\<rparr>)"
| archive: "archiveDueConversations gen2 now (sy_db s) = (n, db') \<Longrightarrow> sys_step w s (s\<lparr>sy_db := db'\<rparr>)"

definition sys_start :: "sys \<Rightarrow> bool" where
  "sys_start s \<longleftrightarrow>
     bookings (sy_db s) = [] \<and> intents (sy_db s) = [] \<and> ledger (sy_db s) = [] \<and> sy_completing s = []"

inductive reachable :: "world \<Rightarrow> sys \<Rightarrow> bool" for w :: world where
  start: "sys_start s \<Longrightarrow> reachable w s"
| step: "reachable w s \<Longrightarrow> sys_step w s s' \<Longrightarrow> reachable w s'"

lemma sys_inv_db: "sys_inv s \<longleftrightarrow> db_inv (sy_db s) \<and> (\<forall>b\<in>set (sy_completing s). paid (bk_id b) (ledger (sy_db s)))"
  by (auto simp: sys_inv_def db_inv_def)

lemma sys_inv_start: "sys_start s \<Longrightarrow> sys_inv s"
  by (simp add: sys_start_def sys_inv_db db_inv_def inv_defs keyed_def no_double_booking_def conflict_free_def)

lemma sys_inv_db_step:
  assumes "sys_inv s" and "db_inv db'" and "\<And>j. paid j (ledger (sy_db s)) \<Longrightarrow> paid j (ledger db')"
  shows "sys_inv (s\<lparr>sy_db := db'\<rparr>)"
  using assms by (simp add: sys_inv_db)

lemma sys_inv_core:
  assumes "core_same (sy_db s) db'" and "sys_inv s"
  shows "sys_inv (s\<lparr>sy_db := db'\<rparr>)"
proof -
  have "ledger db' = ledger (sy_db s)" using assms(1) by (simp add: core_same_def)
  then show ?thesis using assms(2) core_same_inv [OF assms(1)] by (simp add: sys_inv_db)
qed

lemma sys_step_inv:
  assumes "sys_step w s s'" and "sys_inv s"
  shows "sys_inv s'"
  using assms
proof (induction rule: sys_step.induct)
  case (create be new_id now u dto snap ip ag s r db')
  then show ?case using create_inv [OF create(1) _ create(2-4)] by (intro sys_inv_db_step) (simp_all add: sys_inv_db)
next
  case (pay new_id rnd now i u key s r db')
  then show ?case using pay_inv [OF pay(1)] by (intro sys_inv_db_step) (simp_all add: sys_inv_db)
next
  case (confirm gen now pr pid meta s r db')
  then show ?case using confirm_inv [OF confirm(1) _ confirm(2)] by (intro sys_inv_db_step) (simp_all add: sys_inv_db)
next
  case (cancel_step gen now i u c reason ip ag s r db')
  then show ?case using cancel_inv [OF cancel_step(1) _ cancel_step(2)] by (intro sys_inv_db_step) (simp_all add: sys_inv_db)
next
  case (host_block l h f t v s r db')
  then show ?case
    using host_block_frame [OF host_block(1)] db_inv_cong [of db' "sy_db s"]
    by (intro sys_inv_db_step) (simp_all add: sys_inv_db)
next
  case (read_stays bs s)
  have "paid (bk_id b) (ledger (sy_db s))" if "b \<in> set bs" for b
  proof -
    have b: "b \<in> set (bookings (sy_db s))" "active_stay b" using subsetD [OF read_stays(1) that] by simp_all
    then have "bk_status b \<in> needs_payment" by (auto simp: active_stay_def needs_payment_def)
    moreover have "statuses_agree (bookings (sy_db s)) (ledger (sy_db s))"
      using read_stays(2) by (simp add: sys_inv_def money_inv_def)
    ultimately show ?thesis using b(1) by (simp add: statuses_agree_def)
  qed
  then show ?case using read_stays(2) by (simp add: sys_inv_db)
next
  case (complete s b bs gen now)
  then show ?case using complete_inv by (simp add: sys_inv_db complete_stay_effect)
next
  case (expire s now b)
  then show ?case using expire_inv by (intro sys_inv_db_step) (simp_all add: sys_inv_db expire_booking_effect)
next
  case (sync gen now i s r db')
  have "core_same (sy_db s) db'" using syncFromBooking_core sync(1) by (metis snd_conv)
  then show ?case
    using sync(2) by (rule sys_inv_core)
next
  case (archive gen2 now s n db')
  have "core_same (sy_db s) db'" using archiveDue_core archive(1) by (metis snd_conv)
  then show ?case
    using archive(2) by (rule sys_inv_core)
qed

lemma reachable_inv: "reachable w s \<Longrightarrow> sys_inv s"
  by (induction rule: reachable.induct) (auto intro: sys_inv_start sys_step_inv)


inductive_cases sys_step_elim: "sys_step w s s'"

section \<open>Properties\<close>

text \<open>
  C1: in every reachable state, whatever the order in which requests, payments, cancellations, host
  changes and jobs came, two different bookings of a listing that hold their dates share no night.
\<close>

theorem reachable_no_shared_night:
  assumes "reachable w s" and "a \<in> set (bookings (sy_db s))" and "b \<in> set (bookings (sy_db s))"
    and "bk_id a \<noteq> bk_id b" and "booked a" and "booked b" and "bk_listing_id a = bk_listing_id b"
  shows "bk_checkout_date a \<le> bk_checkin_date b \<or> bk_checkout_date b \<le> bk_checkin_date a"
proof -
  obtain i j where ij: "i < length (bookings (sy_db s))" "j < length (bookings (sy_db s))"
    "bookings (sy_db s) ! i = a" "bookings (sy_db s) ! j = b"
    using assms(2,3) by (auto simp: in_set_conv_nth)
  then have "i \<noteq> j" using assms(4) by auto
  moreover have "conflict_free booked same_nights (bookings (sy_db s))"
    using reachable_inv [OF assms(1)] by (simp add: sys_inv_def no_double_booking_def)
  ultimately have "\<not> same_nights a b" using stays.free_pair ij assms(5,6) by blast
  then show ?thesis using assms(7) by (auto simp: same_nights_def overlaps_days_def)
qed

text \<open>
  C2: in every reachable state the ledger accounts for every stay. A confirmed, checked-in or completed
  booking has exactly one settled guest payment, of exactly its total; a booking that is not paid for has
  neither payment nor refund; and what was refunded, at most once, never exceeds what was paid.
\<close>

theorem reachable_ledger_accounts:
  assumes "reachable w s" and "b \<in> set (bookings (sy_db s))"
  defines "pays \<equiv> filter (settled_payment (bk_id b)) (ledger (sy_db s))"
    and "backs \<equiv> refund_entries (bk_id b) (ledger (sy_db s))"
  shows "(bk_status b \<in> {CONFIRMED, CHECKED_IN, COMPLETED} \<longrightarrow> (\<exists>e. pays = [e] \<and> bk_total_paid b = Some (le_amount e))) \<and>
    (bk_status b \<in> {INITIATED, PAYMENT_PENDING, EXPIRED} \<longrightarrow> pays = [] \<and> backs = []) \<and>
    length pays \<le> 1 \<and> length backs \<le> 1 \<and> sum_list (map le_amount backs) \<le> sum_list (map le_amount pays)"
proof -
  have inv: "money_inv (bookings (sy_db s)) (map intent_view (intents (sy_db s))) (ledger (sy_db s))"
    using reachable_inv [OF assms(1)] by (simp add: sys_inv_def)
  note m = inv [unfolded money_inv_def]
  have lp: "length pays \<le> 1" using m by (simp add: pays_def one_payment_def)
  have lb: "length backs \<le> 1" using m by (simp add: backs_def refunds_agree_def)
  have paid: "paid (bk_id b) (ledger (sy_db s)) \<longleftrightarrow> pays \<noteq> []"
    by (auto simp: paid_def pays_def filter_empty_conv)
  have amt: "bk_total_paid b = Some (le_amount e)" if "e \<in> set pays" for e
  proof -
    have "e \<in> set (ledger (sy_db s))" "settled_payment (bk_id b) e" using that by (auto simp: pays_def)
    then obtain b' where "b' \<in> set (bookings (sy_db s))" "bk_id b' = bk_id b" "bk_total_paid b' = Some (le_amount e)"
      using m settled_payment_id unfolding payments_agree_def by metis
    then show ?thesis using money_inv_found [OF inv _ assms(2)] by metis
  qed
  have refd: "\<exists>q\<in>set pays. le_amount d \<le> le_amount q" if "d \<in> set backs" for d
  proof -
    have d: "d \<in> set (ledger (sy_db s))" "le_type d = REFUND" "le_booking_id d = bk_id b"
      using that by (auto simp: backs_def refund_entries_def)
    have "refunds_agree (ledger (sy_db s))" using m by blast
    then obtain q where "q \<in> set (ledger (sy_db s))" "settled_payment (le_booking_id d) q" "le_amount d \<le> le_amount q"
      using d(1,2) unfolding refunds_agree_def by blast
    then show ?thesis using d(3) by (auto simp: pays_def)
  qed
  have st: "(bk_status b \<in> needs_payment \<longrightarrow> pays \<noteq> []) \<and> (pays \<noteq> [] \<longrightarrow> bk_status b \<in> paid_statuses)"
    using m assms(2) unfolding statuses_agree_def paid [symmetric] by blast
  have one: "pays = [] \<or> (\<exists>e. pays = [e])" using lp by (cases pays) auto
  have oneb: "backs = [] \<or> (\<exists>d. backs = [d])" using lb by (cases backs) auto
  have "pays \<noteq> [] \<Longrightarrow> 0 \<le> sum_list (map le_amount pays)"
    using one amt m assms(2) by (auto elim!: priced_total)
  then have "sum_list (map le_amount backs) \<le> sum_list (map le_amount pays)"
    using one oneb refd by (cases "backs = []"; cases "pays = []") auto
  then show ?thesis
    using lp lb st one amt refd oneb by (auto simp: needs_payment_def paid_statuses_def)
qed


section \<open>Witnesses\<close>

text \<open>Two stays booked one after the other: the first nights of June and the following ones.\<close>

definition next_dto :: create_booking_dto where
  "next_dto = \<lparr>dto_listing_id = ''l1'', dto_checkin_date = ''2024-06-04'', dto_checkout_date = ''2024-06-06'',
     dto_guest_count = 1, dto_idempotency_key = None, dto_occupants = None\<rparr>"

lemma two_stays_booked:
  obtains s a b where "reachable sample_world s" and "bookings (sy_db s) = [a, b]" and "bk_id a = ''b1''" and "bk_id b = ''b2''"
    and "bk_status a = PAYMENT_PENDING" and "bk_status b = PAYMENT_PENDING" and "bk_listing_id a = bk_listing_id b"
proof -
  have verified: "meetsGuestBookingPolicy verified_guest" by code_simp
  have d1: "parseBookingDateOnly (dto_checkin_date sample_dto) = Inr 19875"
    "parseBookingDateOnly (dto_checkout_date sample_dto) = Inr 19878"
    and d2: "parseBookingDateOnly (dto_checkin_date next_dto) = Inr 19878"
    "parseBookingDateOnly (dto_checkout_date next_dto) = Inr 19880" by code_simp+
  have sl: "ls_status sample_listing = LIVE" "ls_rate_plan sample_listing \<noteq> None" "ls_rules sample_listing = None"
    by (simp_all add: sample_listing_def)
  have l: "find_listing (dto_listing_id dto) db = Some sample_listing"
    if "listings db = [sample_listing]" "dto_listing_id dto = ''l1''" for db dto
    using that by (simp add: find_listing_def sample_listing_def)
  have dtos: "dto_listing_id sample_dto = ''l1''" "dto_listing_id next_dto = ''l1''" "dto_occupants sample_dto = None"
    "dto_occupants next_dto = None" "dto_guest_count sample_dto \<le> 50" "dto_guest_count next_dto \<le> 50"
    "dto_idempotency_key next_dto = None"
    by (simp_all add: sample_dto_def next_dto_def)
  define s0 where "s0 = \<lparr>sy_db = listed_db, sy_completing = []\<rparr>"
  have r0: "reachable sample_world s0"
    by (rule reachable.start) (simp add: sys_start_def s0_def listed_db_def no_rows_def)
  have db0: "bookings listed_db = []" "blocks listed_db = []" "listings listed_db = [sample_listing]"
    by (simp_all add: listed_db_def no_rows_def)
  have pr: "prices_in_range dto db" if "listings db = [sample_listing]" "dto_listing_id dto = ''l1''"
    "parseBookingDateOnly (dto_checkin_date dto) = Inr ci" "parseBookingDateOnly (dto_checkout_date dto) = Inr co"
    "co - ci \<le> 3" for dto db ci co
    using that l [OF that(1,2)] by (auto simp: prices_in_range_def) (auto simp: sample_listing_def)
  obtain r1 db1 a where c1: "createBooking sample_world open_saves ''b1'' 0 ''g1'' sample_dto verified_guest None None listed_db = (Inr r1, db1)"
    and a: "bookings db1 = bookings listed_db @ [a]" "bk_id a = ''b1''" "bk_listing_id a = dto_listing_id sample_dto"
      "bk_checkin_date a = 19875" "bk_checkout_date a = 19878" "bk_status a = PAYMENT_PENDING"
      "listings db1 = listings listed_db" "blocks db1 = blocks listed_db"
      "rate_row (w_env sample_world) db1 = rate_row (w_env sample_world) listed_db"
    by (rule createBooking_ok [OF verified _ l [OF db0(3) dtos(1)] sl d1 _ _ dtos(3,5), of "''g1''" open_saves sample_world "''b1''" 0 None None])
      (simp_all add: find_by_key_def db0 available_days_iff open_saves_def)
  have g: "rates_in_range (w_env sample_world) listed_db" by code_simp
  define s1 where "s1 = s0\<lparr>sy_db := db1\<rparr>"
  have r1: "reachable sample_world s1"
    unfolding s1_def using r0
    by (rule reachable.step)
      (rule sys_step.create, use c1 g pr [OF db0(3) dtos(1) d1] in \<open>simp_all add: s0_def db0\<close>)
  have l1: "listings db1 = [sample_listing]" using a(7) db0 by simp
  obtain r2 db2 b where c2: "createBooking sample_world open_saves ''b2'' 0 ''g2'' next_dto verified_guest None None db1 = (Inr r2, db2)"
    and b: "bookings db2 = bookings db1 @ [b]" "bk_id b = ''b2''" "bk_listing_id b = dto_listing_id next_dto"
      "bk_status b = PAYMENT_PENDING"
    by (rule createBooking_ok [OF verified _ l [OF l1 dtos(2)] sl d2 _ _ dtos(4,6), of "''g2''" open_saves sample_world "''b2''" 0 None None])
      (simp_all add: find_by_key_def a db0 available_days_iff overlaps_days_def open_saves_def dtos truthy_def)
  have g1: "rates_in_range (w_env sample_world) db1" using g by (simp add: rates_in_range_def a)
  define s2 where "s2 = s1\<lparr>sy_db := db2\<rparr>"
  have fresh: "''b2'' \<notin> bk_id ` set (bookings (sy_db s1))" using a(2) by (simp add: s1_def a(1) db0)
  have r2: "reachable sample_world s2"
    unfolding s2_def using r1
    by (rule reachable.step)
      (rule sys_step.create [OF _ fresh], use c2 g1 pr [OF l1 dtos(2) d2] in \<open>simp_all add: s1_def a(1,6,7) db0\<close>)
  show thesis
    by (rule that [OF r2, of a b]) (simp_all add: s2_def a b db0 dtos)
qed

theorem reachable_no_shared_night_witness:
  "\<exists>s a b. reachable sample_world s \<and> bookings (sy_db s) = [a, b] \<and> bk_id a \<noteq> bk_id b \<and> booked a \<and> booked b \<and>
     (bk_checkout_date a \<le> bk_checkin_date b \<or> bk_checkout_date b \<le> bk_checkin_date a)"
proof -
  obtain s a b where s: "reachable sample_world s" "bookings (sy_db s) = [a, b]" "bk_id a = ''b1''" "bk_id b = ''b2''"
    "bk_status a = PAYMENT_PENDING" "bk_status b = PAYMENT_PENDING" "bk_listing_id a = bk_listing_id b"
    by (rule two_stays_booked)
  have k: "booked a" "booked b" "bk_id a \<noteq> bk_id b" using s by (simp_all add: booked_def BOOKED_STATUSES_def)
  have m: "a \<in> set (bookings (sy_db s))" "b \<in> set (bookings (sy_db s))" using s(2) by simp_all
  show ?thesis using reachable_no_shared_night [OF s(1) m k(3,1,2) s(7)] s k by blast
qed

theorem reachable_ledger_accounts_witness:
  "\<exists>s a. reachable sample_world s \<and> a \<in> set (bookings (sy_db s)) \<and>
     filter (settled_payment (bk_id a)) (ledger (sy_db s)) = [] \<and> refund_entries (bk_id a) (ledger (sy_db s)) = []"
proof -
  obtain s a b where s: "reachable sample_world s" "bookings (sy_db s) = [a, b]" "bk_status a = PAYMENT_PENDING"
    by (rule two_stays_booked)
  have m: "a \<in> set (bookings (sy_db s))" using s(2) by simp
  show ?thesis using reachable_ledger_accounts [OF s(1) m] s(1,3) m by auto
qed

section \<open>A completion overtaken by a cancellation\<close>

text \<open>
  C10: the completion job does not look at the row it writes. When it has read a confirmed stay and the
  stay is cancelled before its turn comes, the job turns the cancelled booking into a completed one;
  the refund of the cancellation stays in the ledger.
\<close>

theorem completion_overrides_cancellation:
  assumes "find_booking i db = Some b" and "active_stay b"
    and "cancel w gen now i u c reason ip ag db = (Inr resp, db1)"
  shows "\<exists>x. find_booking i (complete_stay w gen' later b db1) = Some x \<and> bk_status x = COMPLETED \<and>
    find_booking i db1 = Some (b\<lparr>bk_status := cancelled_status c\<rparr>) \<and>
    refunds j (complete_stay w gen' later b db1) = refunds j db1"
  using assms(3)
proof (cases rule: cancel_cases)
  case (cancelled b' m d)
  have i: "bk_id b = i" using find_booking_mem [OF assms(1)] by simp
  have c1: "find_booking i db1 = Some (b\<lparr>bk_status := cancelled_status c\<rparr>)"
    using find_booking_update [OF assms(1) cancelled(6) [unfolded cancel_update_def]] assms(1) cancelled(2) i by simp
  have "find_booking i (complete_stay w gen' later b db1) =
      Some (completed_row later (b\<lparr>bk_status := cancelled_status c\<rparr>))"
    using find_booking_update [OF c1 complete_stay_effect(1) [of w gen' later b db1]] i by (simp add: completed_row_def)
  then show ?thesis using c1 complete_stay_effect(2) by (simp add: completed_row_def refunds_def)
qed simp

theorem completion_overrides_cancellation_witness:
  "\<exists>resp db1 x. cancel sample_world (\<lambda>n. ''r1'') 0 ''b1'' ''g1'' As_Guest None None None paid_db = (Inr resp, db1) \<and>
     find_booking ''b1'' (complete_stay sample_world (\<lambda>n. ''m1'') 9 (sample_booking ''b1'' CONFIRMED) db1) = Some x \<and>
     bk_status x = COMPLETED"
proof -
  obtain r db1 where c: "cancel sample_world (\<lambda>n. ''r1'') 0 ''b1'' ''g1'' As_Guest None None None paid_db = (r, db1)"
    by fastforce
  then obtain resp where r: "r = Inr resp" by (cases rule: cancel_cases) (use paid_db_facts(8) in auto)
  have a: "active_stay (sample_booking ''b1'' CONFIRMED)" by (simp add: active_stay_def paid_db_facts)
  show ?thesis using completion_overrides_cancellation [OF paid_db_facts(1) a c [unfolded r]] c r by blast
qed

end
