(* ===== verification/KeysetPages.thy ===== *)
theory KeysetPages
  imports Prelude "HOL-Library.List_Lexorder" "HOL-Library.Product_Lexorder" "HOL-Library.Char_ord"
    "HOL-Library.Sublist" "HOL-Library.Multiset"
begin

text \<open>
  What the cursor-paged lists of the host portal share: the query that fetches a page (an order, the
  rows after the cursor, one row more than the page holds), a client that follows the cursors, the
  escaped search pattern and the context a cursor is bound to (\<^verbatim>\<open>host-list-cursor.util.ts\<close>,
  \<^verbatim>\<open>host-bookings-list-sql.util.ts\<close>). The locale \<open>key_order\<close> holds what makes such paging exact.
\<close>

section \<open>Ordered pages\<close>

fun insort_by :: "('a \<Rightarrow> 'a \<Rightarrow> bool) \<Rightarrow> 'a \<Rightarrow> 'a list \<Rightarrow> 'a list" where
  "insort_by prec x [] = [x]"
| "insort_by prec x (y # ys) = (if prec y x then y # insort_by prec x ys else x # y # ys)"

text \<open>\<^verbatim>\<open>ORDER BY\<close>.\<close>

definition order_by :: "('a \<Rightarrow> 'a \<Rightarrow> bool) \<Rightarrow> 'a list \<Rightarrow> 'a list" where
  "order_by prec rows = foldr (insort_by prec) rows []"

text \<open>\<^verbatim>\<open>qb.take(limit + 1)\<close> of the rows after the cursor, if there is one.\<close>

definition after_cursor :: "('c \<Rightarrow> 'a \<Rightarrow> bool) \<Rightarrow> 'c option \<Rightarrow> 'a list \<Rightarrow> 'a list" where
  "after_cursor after c ordered = (case c of None \<Rightarrow> ordered | Some k \<Rightarrow> filter (after k) ordered)"

definition fetch :: "('c \<Rightarrow> 'a \<Rightarrow> bool) \<Rightarrow> nat \<Rightarrow> 'c option \<Rightarrow> 'a list \<Rightarrow> 'a list" where
  "fetch after limit c ordered = take (limit + 1) (after_cursor after c ordered)"

text \<open>\<^verbatim>\<open>Math.min(Math.max(query.limit ?? 20, 1), 50)\<close>.\<close>

definition page_limit :: "int option \<Rightarrow> nat" where
  "page_limit l = nat (min (max (case l of None \<Rightarrow> 20 | Some n \<Rightarrow> n) 1) 50)"

lemma page_limit_pos [simp]: "0 < page_limit l"
  by (simp add: page_limit_def)

text \<open>
  A client that asks for the first page and then follows \<^verbatim>\<open>next_cursor\<close>, at most \<open>n\<close> times; the flag tells
  whether it came to the end of the list.
\<close>

fun walk :: "nat \<Rightarrow> ('c option \<Rightarrow> 'a list \<times> 'c option) \<Rightarrow> 'c option \<Rightarrow> 'a list list \<times> bool" where
  "walk 0 page c = ([], False)"
| "walk (Suc n) page c =
     (case page c of
        (items, None) \<Rightarrow> ([items], True)
      | (items, Some k) \<Rightarrow> (let (ps, ended) = walk n page (Some k) in (items # ps, ended)))"

lemma mset_insort_by [simp]: "mset (insort_by prec x ys) = add_mset x (mset ys)"
  by (induction ys) auto

lemma mset_order_by [simp]: "mset (order_by prec rows) = mset rows"
  by (induction rows) (simp_all add: order_by_def)

lemma set_order_by [simp]: "set (order_by prec rows) = set rows"
  using mset_order_by [of prec rows] by (metis set_mset_mset)

lemma length_order_by [simp]: "length (order_by prec rows) = length rows"
  using mset_order_by [of prec rows] by (metis size_mset)

section \<open>When paging is exact\<close>

text \<open>The rows are ordered by a key, with any strict total order on the keys.\<close>

definition by_key :: "('k \<Rightarrow> 'k \<Rightarrow> bool) \<Rightarrow> ('a \<Rightarrow> 'k) \<Rightarrow> 'a \<Rightarrow> 'a \<Rightarrow> bool" where
  "by_key before key x y = before (key x) (key y)"

locale key_order =
  fixes key :: "'a \<Rightarrow> 'k" and before :: "'k \<Rightarrow> 'k \<Rightarrow> bool"
  assumes irrefl: "\<not> before k k"
    and trans: "before k l \<Longrightarrow> before l m \<Longrightarrow> before k m"
    and total: "before k l \<or> k = l \<or> before l k"
begin

lemma asym: "before k l \<Longrightarrow> \<not> before l k"
  using trans irrefl by blast

lemma set_insort: "set (insort_by (by_key before key) x ys) = insert x (set ys)"
  using mset_insort_by [of "by_key before key" x ys] by (metis set_mset_mset set_mset_add_mset_insert)

lemma sorted_insort:
  assumes "sorted_wrt (by_key before key) ys" and "\<And>y. y \<in> set ys \<Longrightarrow> key y \<noteq> key x"
  shows "sorted_wrt (by_key before key) (insort_by (by_key before key) x ys)"
  using assms
proof (induction ys)
  case (Cons y ys)
  have xy: "by_key before key y x \<or> by_key before key x y" using Cons.prems(2) [of y] total by (auto simp: by_key_def)
  show ?case
  proof (cases "by_key before key y x")
    case True
    then show ?thesis using Cons by (simp add: set_insort)
  next
    case False
    then have "by_key before key x y" using xy by simp
    then have "\<forall>z\<in>set (y # ys). by_key before key x z" using Cons.prems(1) trans by (auto simp: by_key_def)
    then show ?thesis using False Cons.prems(1) by simp
  qed
qed simp

lemma sorted_order_by:
  assumes "distinct (map key rows)"
  shows "sorted_wrt (by_key before key) (order_by (by_key before key) rows)"
  using assms
proof (induction rows)
  case (Cons x rows)
  have "sorted_wrt (by_key before key) (order_by (by_key before key) rows)" using Cons by simp
  then have "sorted_wrt (by_key before key) (insort_by (by_key before key) x (order_by (by_key before key) rows))"
    using Cons.prems by (intro sorted_insort) (auto simp: rev_image_eqI)
  then show ?case by (simp add: order_by_def)
qed (simp add: order_by_def)

lemma rest_after:
  assumes "sorted_wrt (by_key before key) (us @ x # vs)"
  shows "filter (by_key before key x) (us @ x # vs) = vs"
proof -
  have "\<forall>u\<in>set us. \<not> by_key before key x u" using assms asym by (auto simp: sorted_wrt_append by_key_def)
  moreover have "\<forall>v\<in>set vs. by_key before key x v" using assms by (simp add: sorted_wrt_append)
  moreover have "\<not> by_key before key x x" using irrefl by (simp add: by_key_def)
  ultimately show ?thesis by (simp add: filter_empty_conv)
qed

text \<open>
  If the cursor made from a row selects exactly the rows after it, then following the cursors gives
  every row once, in order, and comes to the end after at most one page more than there are rows.
\<close>

lemma walk_exact:
  assumes "sorted_wrt (by_key before key) ordered" and "0 < limit" and "length ordered < n"
    and "\<And>x y. x \<in> set ordered \<Longrightarrow> y \<in> set ordered \<Longrightarrow> after (cur x) y \<longleftrightarrow> by_key before key x y"
    and "\<And>c. length (fetch after limit c ordered) \<le> limit \<Longrightarrow> page c = (fetch after limit c ordered, None)"
    and "\<And>c. limit < length (fetch after limit c ordered) \<Longrightarrow>
      page c = (take limit (fetch after limit c ordered), Some (cur (fetch after limit c ordered ! (limit - 1))))"
  shows "\<exists>ps. walk n page None = (ps, True) \<and> concat ps = ordered"
proof -
  have gen: "\<exists>ps. walk n page c = (ps, True) \<and> concat ps = after_cursor after c ordered"
    if "\<exists>us. ordered = us @ after_cursor after c ordered" "length (after_cursor after c ordered) < n" for c n
    using that
  proof (induction n arbitrary: c)
    case (Suc n)
    let ?s = "after_cursor after c ordered"
    obtain us where us: "ordered = us @ ?s" using Suc.prems(1) by blast
    show ?case
    proof (cases "length ?s \<le> limit")
      case True
      then have f: "fetch after limit c ordered = ?s" by (simp add: fetch_def)
      then show ?thesis using assms(5) [of c] True by simp
    next
      case False
      let ?x = "?s ! (limit - 1)"
      have f: "fetch after limit c ordered ! (limit - 1) = ?x" "take limit (fetch after limit c ordered) = take limit ?s"
        "limit < length (fetch after limit c ordered)"
        using False assms(2) by (simp_all add: fetch_def min_def)
      have split: "?s = take (limit - 1) ?s @ ?x # drop limit ?s"
        using False assms(2) id_take_nth_drop [of "limit - 1" ?s] by simp
      then have o: "ordered = (us @ take (limit - 1) ?s) @ ?x # drop limit ?s" using us by simp
      have x: "?x \<in> set ordered" by (subst o) simp
      have "filter (after (cur ?x)) ordered = filter (by_key before key ?x) ordered"
        using assms(4) [OF x] by (intro filter_cong) auto
      also have "\<dots> = drop limit ?s"
        by (subst o, rule rest_after) (use assms(1) o in simp)
      finally have rest: "after_cursor after (Some (cur ?x)) ordered = drop limit ?s" by (simp add: after_cursor_def)
      have "\<exists>ps. walk n page (Some (cur ?x)) = (ps, True) \<and> concat ps = drop limit ?s"
      proof (rule Suc.IH [of "Some (cur ?x)", unfolded rest])
        show "\<exists>us. ordered = us @ drop limit ?s" using us by (metis append.assoc append_take_drop_id)
        show "length (drop limit ?s) < n" using Suc.prems(2) False assms(2) by simp
      qed
      then obtain ps where ps: "walk n page (Some (cur ?x)) = (ps, True)" "concat ps = drop limit ?s" by blast
      have "page c = (take limit ?s, Some (cur ?x))" using assms(6) [OF f(3)] unfolding f .
      then have "walk (Suc n) page c = (take limit ?s # ps, True)"
        unfolding walk.simps by (simp only: ps(1) prod.case option.case Let_def)
      then show ?thesis using ps(2) by simp
    qed
  qed simp
  show ?thesis using gen [of None n] assms(3) by (simp add: after_cursor_def)
qed

end

text \<open>The orders of the lists: ascending and descending in a linearly ordered key.\<close>

interpretation asc: key_order key "(<)" for key :: "'a \<Rightarrow> 'k::linorder"
  by unfold_locales auto

interpretation desc: key_order key "(>)" for key :: "'a \<Rightarrow> 'k::linorder"
  by unfold_locales auto

section \<open>Search patterns\<close>

text \<open>\<^verbatim>\<open>raw.replace(/c/g, '\\c')\<close>, for the three characters that mean something in a pattern.\<close>

definition escape_char :: "char \<Rightarrow> string \<Rightarrow> string" where
  "escape_char c s = concat (map (\<lambda>x. if x = c then [CHR 92, x] else [x]) s)"

definition escapeIlikePattern :: "string \<Rightarrow> string" where
  "escapeIlikePattern raw = escape_char (CHR ''_'') (escape_char (CHR ''%'') (escape_char (CHR 92) raw))"

text \<open>\<^verbatim>\<open>text LIKE pattern ESCAPE '\'\<close> of SQL.\<close>

fun sql_like :: "string \<Rightarrow> string \<Rightarrow> bool" where
  "sql_like [] t = (t = [])"
| "sql_like (c # p) t =
     (if c = CHR ''%'' then sql_like p t \<or> (case t of [] \<Rightarrow> False | _ # u \<Rightarrow> sql_like (c # p) u)
      else if c = CHR ''_'' then (case t of [] \<Rightarrow> False | _ # u \<Rightarrow> sql_like p u)
      else if c = CHR 92 then
        (case p of [] \<Rightarrow> False | d # q \<Rightarrow> (case t of [] \<Rightarrow> False | e # u \<Rightarrow> e = d \<and> sql_like q u))
      else (case t of [] \<Rightarrow> False | e # u \<Rightarrow> e = c \<and> sql_like p u))"

definition search_matches :: "string \<Rightarrow> string \<Rightarrow> bool" where
  "search_matches search field = sql_like (''%'' @ escapeIlikePattern (js_lower search) @ ''%'') (js_lower field)"

lemma escape_all:
  "escapeIlikePattern s = concat (map (\<lambda>x. if x = CHR 92 \<or> x = CHR ''%'' \<or> x = CHR ''_'' then [CHR 92, x] else [x]) s)"
  by (induction s) (simp_all add: escapeIlikePattern_def escape_char_def)

lemma like_literal:
  "sql_like (escapeIlikePattern s @ p) t \<longleftrightarrow> (\<exists>u. t = s @ u \<and> sql_like p u)"
proof (induction s arbitrary: t)
  case Nil
  show ?case by (simp add: escape_all)
next
  case (Cons c s)
  have e: "escapeIlikePattern (c # s) =
      (if c = CHR 92 \<or> c = CHR ''%'' \<or> c = CHR ''_'' then [CHR 92, c] else [c]) @ escapeIlikePattern s"
    by (simp add: escape_all)
  show ?case
  proof (cases t)
    case (Cons d u)
    then show ?thesis using Cons.IH [of u] unfolding e by auto
  qed (simp add: e)
qed

lemma like_percent: "sql_like (CHR ''%'' # p) t \<longleftrightarrow> (\<exists>a u. t = a @ u \<and> sql_like p u)"
proof (induction t)
  case (Cons d t)
  have "sql_like (CHR ''%'' # p) (d # t) \<longleftrightarrow> sql_like p (d # t) \<or> (\<exists>a u. t = a @ u \<and> sql_like p u)"
    using Cons by simp
  then show ?case by (auto simp: Cons_eq_append_conv)
qed simp

text \<open>
  A search finds exactly the rows whose field contains the searched text. Percent signs, underscores
  and backslashes the user types are ordinary characters: none of them widens the search.
\<close>

theorem search_is_containment:
  "search_matches search field \<longleftrightarrow> sublist (js_lower search) (js_lower field)"
proof -
  have "search_matches search field \<longleftrightarrow> (\<exists>a u. js_lower field = a @ js_lower search @ u)"
    unfolding search_matches_def append_Cons append_Nil like_percent [of "_ @ _"] like_literal like_percent [of "[]"]
    by auto
  then show ?thesis by (auto simp: sublist_def)
qed

section \<open>Cursors\<close>

record list_context =
  lc_kind :: string
  lc_host_id :: string
  lc_sort :: string
  lc_filter :: "string option"
  lc_search :: "string option"
  lc_listing_id :: "string option"
  lc_status :: "string option"

text \<open>The typed content of \<^verbatim>\<open>keys\<close> is the type variable; the signature is over the whole body.\<close>

record 'k cursor_payload =
  cp_v :: int
  cp_kind :: string
  cp_host_id :: string
  cp_sort :: string
  cp_filter :: string
  cp_search :: string
  cp_listing_id :: string
  cp_status :: string
  cp_keys :: 'k
  cp_id :: string

record 'k signed_cursor =
  sc_body :: "'k cursor_payload"
  sc_sig :: string

definition or_empty :: "string option \<Rightarrow> string" where
  "or_empty s = (case s of None \<Rightarrow> [] | Some t \<Rightarrow> t)"

definition normalizeContext :: "list_context \<Rightarrow> string list" where
  "normalizeContext ctx =
     [lc_kind ctx, lc_host_id ctx, lc_sort ctx, or_empty (lc_filter ctx),
      js_lower (js_trim (or_empty (lc_search ctx))), or_empty (lc_listing_id ctx), or_empty (lc_status ctx)]"

definition payload_context :: "'k cursor_payload \<Rightarrow> string list" where
  "payload_context p = [cp_kind p, cp_host_id p, cp_sort p, cp_filter p, cp_search p, cp_listing_id p, cp_status p]"

definition encodeHostListCursor ::
    "('k cursor_payload \<Rightarrow> string) \<Rightarrow> list_context \<Rightarrow> 'k \<Rightarrow> string \<Rightarrow> 'k signed_cursor" where
  "encodeHostListCursor sign ctx keys i =
     (let n = normalizeContext ctx;
          payload = \<lparr>cp_v = 1, cp_kind = n ! 0, cp_host_id = n ! 1, cp_sort = n ! 2, cp_filter = n ! 3,
            cp_search = n ! 4, cp_listing_id = n ! 5, cp_status = n ! 6, cp_keys = keys, cp_id = i\<rparr>
      in \<lparr>sc_body = payload, sc_sig = sign payload\<rparr>)"

definition decodeHostListCursor ::
    "('k cursor_payload \<Rightarrow> string) \<Rightarrow> 'k signed_cursor option \<Rightarrow> list_context \<Rightarrow> 'k cursor_payload option result" where
  "decodeHostListCursor sign cursor ctx =
     (case cursor of
        None \<Rightarrow> Inr None
      | Some c \<Rightarrow>
          let payload = sc_body c
          in if sc_sig c \<noteq> sign payload then Inl (Bad_Request ''Invalid cursor'')
             else if cp_v payload \<noteq> 1 \<or> cp_id payload = [] \<or> cp_kind payload = []
             then Inl (Bad_Request ''Invalid cursor'')
             else if payload_context payload \<noteq> normalizeContext ctx
             then Inl (Bad_Request ''Cursor does not match the current list query context'')
             else Inr (Some payload))"


definition sample_context :: "string \<Rightarrow> list_context" where
  "sample_context h = \<lparr>lc_kind = ''bookings'', lc_host_id = h, lc_sort = ''ops'', lc_filter = Some ''all'',
     lc_search = None, lc_listing_id = None, lc_status = None\<rparr>"


end
