(* ===== verification/ListingCompletion.thy ===== *)
theory ListingCompletion
  imports StaysData JsNumber
begin

text \<open>
  \<^verbatim>\<open>listing-completion.ts\<close>: which parts of a listing are filled in, the weighted percentage the
  host sees, the gate of the submission and the list of what is missing.
\<close>

section \<open>The flags\<close>

record completion_flags =
  location_complete :: bool
  about_complete :: bool
  pricing_complete :: bool
  photos_complete :: bool
  photos_quality_complete :: bool
  rooms_complete :: bool
  walkthrough_complete :: bool
  amenities_complete :: bool
  house_rules_complete :: bool

definition SUBMIT_MIN_PHOTOS :: int where "SUBMIT_MIN_PHOTOS = 5"

definition QUALITY_TARGET_PHOTOS :: int where "QUALITY_TARGET_PHOTOS = 12"

definition roomsRequiredForType :: "listing_type \<Rightarrow> booking_model option \<Rightarrow> bool" where
  "roomsRequiredForType listingType bookingModel =
     (if listingType = HOTEL \<or> listingType = HOSTEL then True
      else if listingType = RIAD then bookingModel = Some ROOM_TYPES \<or> bookingModel = Some BOTH
      else False)"

record completion_input =
  ci_listing_type :: listing_type
  ci_booking_model :: "booking_model option"
  ci_title :: "string option"
  ci_city :: "string option"
  ci_address :: "string option"
  ci_geo_lat :: "rat option"
  ci_geo_lng :: "rat option"
  ci_description :: "string option"
  ci_max_guests :: "int option"
  ci_base_price :: "rat option"
  ci_photo_count :: int
  ci_has_walkthrough :: bool
  ci_unit_count :: int
  ci_amenities_count :: "int option"
  ci_has_house_rules_touch :: "bool option"

text \<open>\<^verbatim>\<open>Boolean(x?.trim())\<close>.\<close>

definition filled_in :: "string option \<Rightarrow> bool" where
  "filled_in s = (case s of None \<Rightarrow> False | Some t \<Rightarrow> js_trim t \<noteq> [])"

definition or_zero :: "'a option \<Rightarrow> 'a::zero" where
  "or_zero x = (case x of None \<Rightarrow> 0 | Some a \<Rightarrow> a)"

definition computeCompletionFlags :: "completion_input \<Rightarrow> completion_flags" where
  "computeCompletionFlags input =
     (let roomsNeeded = roomsRequiredForType (ci_listing_type input) (ci_booking_model input);
          pricingOk = (if roomsNeeded then ci_unit_count input > 0 \<and> or_zero (ci_base_price input) > 0
                       else or_zero (ci_base_price input) > 0)
      in \<lparr>location_complete = (filled_in (ci_city input) \<and> filled_in (ci_address input) \<and>
              ci_geo_lat input \<noteq> None \<and> ci_geo_lng input \<noteq> None),
          about_complete =
            (case ci_title input of
               None \<Rightarrow> False
             | Some t \<Rightarrow>
                 js_trim t \<noteq> [] \<and> js_trim t \<noteq> ''Untitled listing'' \<and>
                 (case ci_description input of None \<Rightarrow> 0 | Some d \<Rightarrow> length (js_trim d)) \<ge> 20 \<and>
                 or_zero (ci_max_guests input) \<ge> 1),
          pricing_complete = pricingOk,
          photos_complete = (ci_photo_count input \<ge> SUBMIT_MIN_PHOTOS),
          photos_quality_complete = (ci_photo_count input \<ge> QUALITY_TARGET_PHOTOS),
          rooms_complete = (if roomsNeeded then ci_unit_count input > 0 else True),
          walkthrough_complete = ci_has_walkthrough input,
          amenities_complete = (or_zero (ci_amenities_count input) > 0),
          house_rules_complete = (ci_has_house_rules_touch input = Some True)\<rparr>)"

section \<open>Percentage, gate and missing items\<close>

definition W_location :: int where "W_location = 20"
definition W_about :: int where "W_about = 20"
definition W_pricing :: int where "W_pricing = 20"
definition W_photos :: int where "W_photos = 30"
definition W_walkthrough :: int where "W_walkthrough = 5"
definition W_optional :: int where "W_optional = 5"

lemmas weights = W_location_def W_about_def W_pricing_def W_photos_def W_walkthrough_def W_optional_def

definition weight_if :: "bool \<Rightarrow> int \<Rightarrow> int" where
  "weight_if b w = (if b then w else 0)"

definition optional_bits :: "completion_flags \<Rightarrow> int" where
  "optional_bits flags =
     int (length (filter (\<lambda>b. b) [photos_quality_complete flags, amenities_complete flags, house_rules_complete flags]))"

definition computeCompletionPercentage :: "completion_flags \<Rightarrow> int" where
  "computeCompletionPercentage flags =
     (let score0 = weight_if (location_complete flags) W_location + weight_if (about_complete flags) W_about +
            weight_if (pricing_complete flags) W_pricing + weight_if (photos_complete flags) W_photos +
            weight_if (walkthrough_complete flags) W_walkthrough;
          bits = optional_bits flags;
          score1 = (if bits > 0
                    then score0 + math_round (js_div (js_mul (of_int W_optional) (of_int bits)) 3) else score0);
          score = (if \<not> rooms_complete flags then min score1 55 else score1)
      in min 100 (max 0 score))"

definition assertCanSubmit :: "completion_flags \<Rightarrow> string option" where
  "assertCanSubmit flags =
     (if \<not> location_complete flags then Some ''Location (city, address, and map pin) is required.''
      else if \<not> about_complete flags
      then Some ''Title, description (20+ characters), and guest capacity are required.''
      else if \<not> rooms_complete flags then Some ''Room configuration is required for this property type.''
      else if \<not> pricing_complete flags then Some ''Pricing is required.''
      else if \<not> photos_complete flags
      then Some (''At least '' @ nat_str (nat SUBMIT_MIN_PHOTOS) @ '' photos are required to submit.'')
      else None)"

record missing_item =
  mi_key :: string
  mi_label :: string
  mi_required :: bool

definition item_if :: "bool \<Rightarrow> string \<Rightarrow> string \<Rightarrow> bool \<Rightarrow> missing_item list" where
  "item_if absent key label required =
     (if absent then [\<lparr>mi_key = key, mi_label = label, mi_required = required\<rparr>] else [])"

definition listMissing :: "completion_flags \<Rightarrow> missing_item list" where
  "listMissing flags =
     item_if (\<not> location_complete flags) ''location'' ''Location'' True @
     item_if (\<not> about_complete flags) ''about'' ''About your property'' True @
     item_if (\<not> rooms_complete flags) ''rooms'' ''Room configuration'' True @
     item_if (\<not> pricing_complete flags) ''pricing'' ''Pricing'' True @
     item_if (\<not> photos_complete flags) ''photos'' (nat_str (nat SUBMIT_MIN_PHOTOS) @ '' photos'') True @
     item_if (\<not> walkthrough_complete flags) ''walkthrough'' ''Walkthrough video'' False @
     item_if (\<not> photos_quality_complete flags) ''photos_quality''
       (nat_str (nat QUALITY_TARGET_PHOTOS) @ '' photos (recommended)'') False @
     item_if (\<not> amenities_complete flags) ''amenities'' ''Amenities'' False @
     item_if (\<not> house_rules_complete flags) ''house_rules'' ''House rules'' False"

section \<open>The gate, the list and the percentage agree\<close>

lemma optional_points:
  "math_round (js_div (js_mul (of_int W_optional) (of_int 1)) 3) = 2"
  "math_round (js_div (js_mul (of_int W_optional) (of_int 2)) 3) = 3"
  "math_round (js_div (js_mul (of_int W_optional) (of_int 3)) 3) = 5"
  by code_simp+

lemma optional_bits_cases: "optional_bits flags \<in> {0, 1, 2, 3}"
  by (auto simp: optional_bits_def)

definition optional_score :: "completion_flags \<Rightarrow> int" where
  "optional_score flags = (if optional_bits flags = 0 then 0 else if optional_bits flags = 1 then 2
     else if optional_bits flags = 2 then 3 else 5)"

lemma percentage_eq:
  "computeCompletionPercentage flags =
     (let score = weight_if (location_complete flags) 20 + weight_if (about_complete flags) 20 +
        weight_if (pricing_complete flags) 20 + weight_if (photos_complete flags) 30 +
        weight_if (walkthrough_complete flags) 5 + optional_score flags
      in if rooms_complete flags then score else min score 55)"
proof -
  have o: "(if optional_bits flags > 0
       then s + math_round (js_div (js_mul (of_int W_optional) (of_int (optional_bits flags))) 3) else s) =
      s + optional_score flags" for s
    using optional_bits_cases [of flags] optional_points by (auto simp: optional_score_def)
  have "0 \<le> optional_score flags" "optional_score flags \<le> 5" by (simp_all add: optional_score_def)
  then show ?thesis
    unfolding computeCompletionPercentage_def Let_def o by (simp add: weights weight_if_def)
qed

lemma all_optional: "optional_score flags = 5 \<longleftrightarrow>
    photos_quality_complete flags \<and> amenities_complete flags \<and> house_rules_complete flags"
  by (simp add: optional_score_def optional_bits_def)

text \<open>
  The gate of the submission, the list of missing items and the percentage tell the same story. A
  listing may be submitted exactly when no required item is missing, and exactly when its percentage
  is at least 90; the percentage lies between 0 and 100 and is 100 exactly when nothing is missing.
\<close>

theorem completion_views_agree:
  "(assertCanSubmit flags = None \<longleftrightarrow> filter mi_required (listMissing flags) = []) \<and>
   (assertCanSubmit flags = None \<longleftrightarrow> 90 \<le> computeCompletionPercentage flags) \<and>
   0 \<le> computeCompletionPercentage flags \<and> computeCompletionPercentage flags \<le> 100 \<and>
   (computeCompletionPercentage flags = 100 \<longleftrightarrow> listMissing flags = [])"
proof -
  have o: "0 \<le> optional_score flags" "optional_score flags \<le> 5" by (simp_all add: optional_score_def)
  have gate: "assertCanSubmit flags = None \<longleftrightarrow> location_complete flags \<and> about_complete flags \<and>
      rooms_complete flags \<and> pricing_complete flags \<and> photos_complete flags"
    by (simp add: assertCanSubmit_def)
  have req: "filter mi_required (listMissing flags) = [] \<longleftrightarrow> location_complete flags \<and> about_complete flags \<and>
      rooms_complete flags \<and> pricing_complete flags \<and> photos_complete flags"
    by (simp add: listMissing_def item_if_def)
  have none: "listMissing flags = [] \<longleftrightarrow> location_complete flags \<and> about_complete flags \<and>
      rooms_complete flags \<and> pricing_complete flags \<and> photos_complete flags \<and> walkthrough_complete flags \<and>
      photos_quality_complete flags \<and> amenities_complete flags \<and> house_rules_complete flags"
    by (simp add: listMissing_def item_if_def)
  have p: "90 \<le> computeCompletionPercentage flags \<longleftrightarrow> location_complete flags \<and> about_complete flags \<and>
      rooms_complete flags \<and> pricing_complete flags \<and> photos_complete flags"
    using o by (simp add: percentage_eq weight_if_def Let_def)
  have h: "computeCompletionPercentage flags = 100 \<longleftrightarrow> location_complete flags \<and> about_complete flags \<and>
      rooms_complete flags \<and> pricing_complete flags \<and> photos_complete flags \<and> walkthrough_complete flags \<and>
      optional_score flags = 5"
    using o by (simp add: percentage_eq weight_if_def Let_def)
  have "0 \<le> computeCompletionPercentage flags" "computeCompletionPercentage flags \<le> 100"
    using o by (simp_all add: percentage_eq weight_if_def Let_def)
  then show ?thesis using gate req none p h all_optional by blast
qed

end
