(* ===== verification/PhoneNumbers.thy ===== *)
theory PhoneNumbers
  imports Prelude
begin

text \<open>
  \<^verbatim>\<open>common/phone/phone-normalizer.ts\<close>: phone numbers in E.164 form, with Morocco as the default
  country. A plain \<^verbatim>\<open>Error\<close> of the source is the left side of a sum with its message.
\<close>

definition starts_with :: "string \<Rightarrow> string \<Rightarrow> bool" where
  "starts_with p s \<longleftrightarrow> take (length p) s = p"

definition nonzero_digit :: "char \<Rightarrow> bool" where
  "nonzero_digit c \<longleftrightarrow> is_digit c \<and> c \<noteq> CHR ''0''"

text \<open>\<^verbatim>\<open>/^[1-9]\d{lo,hi}$/\<close> and \<^verbatim>\<open>/^\+[1-9]\d{1,14}$/\<close>.\<close>

definition digit_run :: "nat \<Rightarrow> nat \<Rightarrow> string \<Rightarrow> bool" where
  "digit_run lo hi s \<longleftrightarrow>
     (case s of [] \<Rightarrow> False | c # r \<Rightarrow> nonzero_digit c \<and> list_all is_digit r \<and> lo \<le> length r \<and> length r \<le> hi)"

definition e164 :: "string \<Rightarrow> bool" where
  "e164 s \<longleftrightarrow> (case s of [] \<Rightarrow> False | c # r \<Rightarrow> c = CHR ''+'' \<and> digit_run 1 14 r)"

definition canonicalizeMoroccoTrunkZero :: "string \<Rightarrow> string" where
  "canonicalizeMoroccoTrunkZero digits =
     (if starts_with ''2120'' digits \<and> length digits \<ge> 12
      then let subscriber = take 9 (drop 4 digits)
           in if length subscriber = 9 then ''212'' @ subscriber else digits
      else digits)"

definition phone_digits :: "string \<Rightarrow> string" where
  "phone_digits s = canonicalizeMoroccoTrunkZero (filter is_digit s)"

definition national_form :: "string \<Rightarrow> string" where
  "national_form digits =
     (if starts_with ''212'' digits \<and> length digits \<ge> 12 then ''+'' @ take 12 digits
      else if starts_with ''0'' digits \<and> length digits \<ge> 10 then ''+212'' @ take 9 (drop 1 digits)
      else if starts_with ''212'' digits \<and> length digits \<ge> 9 then ''+212'' @ take 9 (drop 3 digits)
      else if length digits \<ge> 9 \<and> starts_with ''6'' digits then ''+212'' @ take 9 digits
      else ''+212'' @ drop (length digits - 9) digits)"

definition normalizePhoneNumber :: "string \<Rightarrow> string + string" where
  "normalizePhoneNumber raw =
     (let s = js_trim raw;
          digits = phone_digits s
      in if starts_with ''+'' s \<and> digit_run 9 14 digits \<and> e164 (''+'' @ digits) then Inr (''+'' @ digits)
         else if length digits < 9 then Inl ''Invalid phone number: too few digits''
         else let normalized = national_form digits
              in if \<not> e164 normalized \<or> length normalized < 12
                 then Inl (''Invalid phone number: cannot normalize '' @ [CHR 34] @ raw @ [CHR 34])
                 else Inr normalized)"

definition tryNormalizePhoneNumber :: "string \<Rightarrow> string option" where
  "tryNormalizePhoneNumber raw = (case normalizePhoneNumber raw of Inl _ \<Rightarrow> None | Inr p \<Rightarrow> Some p)"

definition validatePhoneNumber :: "string \<Rightarrow> string + string" where
  "validatePhoneNumber raw =
     (let s = js_trim raw;
          digits = filter is_digit s
      in if s = [] then Inl ''Phone number is required''
         else if length digits < 9 then Inl ''Phone number has too few digits''
         else if length digits > 15 then Inl ''Phone number has too many digits''
         else if list_all (\<lambda>c. c = CHR ''0'') digits \<or> (starts_with ''0'' digits \<and> length digits \<le> 6)
         then Inl ''Phone number is invalid or ambiguous''
         else normalizePhoneNumber s)"

definition normalizePhoneOrThrow :: "string \<Rightarrow> string result" where
  "normalizePhoneOrThrow raw =
     (case validatePhoneNumber raw of Inl msg \<Rightarrow> Inl (Bad_Request msg) | Inr p \<Rightarrow> Inr p)"

section \<open>The normal form\<close>

lemma digit_run_iff:
  "digit_run lo hi s \<longleftrightarrow> s \<noteq> [] \<and> nonzero_digit (hd s) \<and> list_all is_digit s \<and> lo < length s \<and> length s \<le> Suc hi"
  by (cases s) (auto simp: digit_run_def nonzero_digit_def)

lemma e164_iff: "e164 s \<longleftrightarrow> (\<exists>r. s = CHR ''+'' # r \<and> digit_run 1 14 r)"
  by (auto simp: e164_def split: list.splits)

lemma filter_digits_e164: "e164 (CHR ''+'' # r) \<Longrightarrow> filter is_digit (CHR ''+'' # r) = r"
  by (simp add: e164_iff digit_run_iff is_digit_def list_all_iff)

lemma digit_no_space: "is_digit c \<Longrightarrow> \<not> js_space c"
  by (auto simp: js_space_def is_digit_def)

lemma trim_plus_digits:
  assumes "e164 p"
  shows "js_trim p = p"
proof -
  obtain r where r: "p = CHR ''+'' # r" "digit_run 1 14 r" using assms by (auto simp: e164_iff)
  have ne: "r \<noteq> []" and d: "is_digit (last r)" using r(2) by (auto simp: digit_run_iff list_all_iff)
  have "\<not> js_space (last r)" "\<not> js_space (CHR ''+'')" using d by (auto simp: js_space_def is_digit_def)
  moreover have "dropWhile js_space (rev r @ [CHR ''+'']) = rev r @ [CHR ''+'']"
    using \<open>\<not> js_space (last r)\<close> ne by (cases r rule: rev_cases) auto
  ultimately show ?thesis by (simp add: js_trim_def r(1))
qed

lemma canonical_short: "length d \<le> 12 \<Longrightarrow> canonicalizeMoroccoTrunkZero d = d"
  by (simp add: canonicalizeMoroccoTrunkZero_def Let_def)

lemma canonical_idem: "canonicalizeMoroccoTrunkZero (canonicalizeMoroccoTrunkZero d) = canonicalizeMoroccoTrunkZero d"
proof (cases "starts_with ''2120'' d \<and> length d \<ge> 12 \<and> length (take 9 (drop 4 d)) = 9")
  case True
  then have "canonicalizeMoroccoTrunkZero d = ''212'' @ take 9 (drop 4 d)"
    by (simp add: canonicalizeMoroccoTrunkZero_def Let_def)
  then show ?thesis using True by (simp add: canonical_short)
next
  case False
  then have "canonicalizeMoroccoTrunkZero d = d"
    by (auto simp: canonicalizeMoroccoTrunkZero_def Let_def)
  then show ?thesis by simp
qed

lemma national_form_length: "9 \<le> length d \<Longrightarrow> length (national_form d) \<le> 13"
  by (auto simp: national_form_def)

lemma normalize_plus:
  assumes "e164 p" and "12 \<le> length p \<or> canonicalizeMoroccoTrunkZero (tl p) = tl p \<and> 11 \<le> length p"
    and "canonicalizeMoroccoTrunkZero (tl p) = tl p"
  shows "normalizePhoneNumber p = Inr p"
proof -
  obtain r where r: "p = CHR ''+'' # r" "digit_run 1 14 r" using assms by (auto simp: e164_iff)
  have d: "phone_digits p = r" using assms(3) filter_digits_e164 [of r] assms(1) by (simp add: phone_digits_def r(1))
  have run: "digit_run 9 14 r" using r(2) assms(2) by (auto simp: digit_run_iff r(1))
  have e: "e164 (''+'' @ r)" using assms(1) by (simp add: r(1))
  show ?thesis
    unfolding normalizePhoneNumber_def Let_def trim_plus_digits [OF assms(1)] d
    using run e by (simp add: r(1) starts_with_def)
qed

lemma normalize_facts:
  assumes "normalizePhoneNumber raw = Inr p"
  shows "e164 p \<and> 11 \<le> length p \<and> length p \<le> 16 \<and> normalizePhoneNumber p = Inr p"
proof (cases "starts_with ''+'' (js_trim raw) \<and> digit_run 9 14 (phone_digits (js_trim raw)) \<and> e164 (''+'' @ phone_digits (js_trim raw))")
  case True
  then have p: "p = ''+'' @ phone_digits (js_trim raw)" using assms by (simp add: normalizePhoneNumber_def Let_def)
  have l: "11 \<le> length p" "length p \<le> 16" using True by (auto simp: p digit_run_iff)
  have c: "canonicalizeMoroccoTrunkZero (tl p) = tl p" by (simp add: p phone_digits_def canonical_idem)
  show ?thesis using True l normalize_plus [of p] c by (auto simp: p)
next
  case False
  then have "e164 p" "12 \<le> length p" "p = national_form (phone_digits (js_trim raw))" "9 \<le> length (phone_digits (js_trim raw))"
    using assms by (auto simp: normalizePhoneNumber_def Let_def split: if_splits)
  then show ?thesis
    using normalize_plus [of p] national_form_length canonical_short [of "tl p"] by fastforce
qed

text \<open>
  C37: normalising a phone number gives an E.164 number of 10 to 15 digits, or is refused; the result is
  a fixed point, so a stored number can be normalised again, trimmed or looked up without changing.
\<close>

theorem phone_normal_form:
  assumes "normalizePhoneNumber raw = Inr p"
  shows "e164 p \<and> 11 \<le> length p \<and> length p \<le> 16 \<and> normalizePhoneNumber p = Inr p"
  using assms by (rule normalize_facts)

theorem phone_normal_form_witness:
  "normalizePhoneNumber ''+212612345678'' = Inr ''+212612345678'' \<and> e164 ''+212612345678''"
proof -
  have "normalizePhoneNumber '' 06 12-34-56-78'' = Inr ''+212612345678''" by code_simp
  then show ?thesis using phone_normal_form [of "'' 06 12-34-56-78''" "''+212612345678''"] by blast
qed

text \<open>
  The international prefix 00 is taken for the national 0. Any Moroccan number written with 00212
  is accepted and becomes another number: the country code ends up inside the subscriber number.
\<close>

theorem double_zero_prefix_misread:
  assumes "length sub = 9" and "list_all is_digit sub" and "hd sub \<noteq> CHR ''0''"
  shows "normalizePhoneNumber (''00212'' @ sub) = Inr (''+2120212'' @ take 5 sub) \<and>
    ''+2120212'' @ take 5 sub \<noteq> ''+212'' @ sub"
proof -
  have f: "filter is_digit (''00212'' @ sub) = ''00212'' @ sub" using assms(2) by (simp add: is_digit_def list_all_iff)
  have ne: "sub \<noteq> []" using assms(1) by auto
  have "\<not> js_space (last sub)" using assms(2) ne by (intro digit_no_space) (simp add: list_all_iff)
  then have "dropWhile js_space (rev sub @ t) = rev sub @ t" for t
    using ne by (cases sub rule: rev_cases) auto
  then have t: "js_trim (''00212'' @ sub) = ''00212'' @ sub" by (simp add: js_trim_def js_space_def)
  have p: "phone_digits (''00212'' @ sub) = ''00212'' @ sub"
    unfolding phone_digits_def f by (simp add: canonicalizeMoroccoTrunkZero_def starts_with_def)
  have n: "national_form (''00212'' @ sub) = ''+2120212'' @ take 5 sub"
    using assms(1) by (simp add: national_form_def starts_with_def)
  have e: "e164 (''+2120212'' @ take 5 sub)"
    using assms by (auto simp: e164_def digit_run_def nonzero_digit_def is_digit_def list_all_iff dest: in_set_takeD)
  have d: "''+2120212'' @ take 5 sub \<noteq> ''+212'' @ sub" using assms(3) by (cases sub) auto
  show ?thesis
    unfolding normalizePhoneNumber_def Let_def t p n using e assms(1) d by (simp add: starts_with_def)
qed

theorem double_zero_prefix_misread_witness:
  "normalizePhoneNumber ''00212612345678'' = Inr ''+212021261234''"
  using double_zero_prefix_misread [of "''612345678''"] by (simp add: is_digit_def)

end
