(* ===== verification/HostOnboarding.thy ===== *)
theory HostOnboarding
  imports PhoneNumbers Bookings
begin

text \<open>
  \<^verbatim>\<open>hosts/host-onboarding.service.ts\<close> and the eligibility queries of \<^verbatim>\<open>hosts/hosts.service.ts\<close>: a user
  applies to become a host, an administrator approves or rejects, and the listing operations ask
  \<^verbatim>\<open>canList\<close>. The media storage is the predicate of its existing keys.
\<close>

section \<open>Profiles\<close>

datatype application_status = AP_DRAFT | AP_PENDING | AP_APPROVED | AP_REJECTED

datatype host_verification = HV_PENDING | HV_APPROVED | HV_REJECTED

datatype identity_status = ID_NOT_STARTED | ID_PENDING | ID_VERIFIED | ID_REJECTED | ID_FAILED | ID_NOT_REQUIRED

record host_account =
  ha_id :: uuid
  ha_user_id :: uuid
  ha_verification :: host_verification
  ha_application :: application_status
  ha_identity :: identity_status
  ha_source :: string
  ha_submitted_from :: "string option"
  ha_full_name :: "string option"
  ha_email :: "string option"
  ha_phone :: "string option"
  ha_city :: "string option"
  ha_host_type :: "string option"
  ha_policies_accepted_at :: "time option"
  ha_identity_reused :: bool
  ha_listing_frozen :: bool
  ha_document_type :: "string option"
  ha_document_number_hash :: "string option"
  ha_front_asset :: "string option"
  ha_back_asset :: "string option"
  ha_selfie_asset :: "string option"
  ha_submitted_at :: "time option"
  ha_reviewed_at :: "time option"
  ha_reviewed_by :: "string option"
  ha_rejection_reason :: "string option"

record host_user =
  hu_user_id :: uuid
  hu_phone :: "string option"
  hu_email :: "string option"
  hu_snapshot :: "identity_snapshot option"

record onboarding_dto =
  od_full_name :: "string option"
  od_phone :: "string option"
  od_email :: "string option"
  od_city :: "string option"
  od_host_type :: "string option"
  od_use_existing_kyc :: "bool option"
  od_policies_accepted :: "bool option"
  od_identity_reused :: "bool option"
  od_document_type :: "string option"
  od_document_number_hash :: "string option"
  od_front_asset :: "string option"
  od_back_asset :: "string option"
  od_selfie_asset :: "string option"

record host_audit =
  hx_actor :: string
  hx_entity :: uuid
  hx_action :: string

record hosts_db =
  hosts :: "host_account list"
  host_audits :: "host_audit list"

section \<open>Applying\<close>

definition application_name :: "application_status \<Rightarrow> string" where
  "application_name st = (case st of AP_DRAFT \<Rightarrow> ''DRAFT'' | AP_PENDING \<Rightarrow> ''PENDING'' | AP_APPROVED \<Rightarrow> ''APPROVED''
     | AP_REJECTED \<Rightarrow> ''REJECTED'')"

definition VERIFY_EXTS :: "string list" where
  "VERIFY_EXTS = [''.jpg'', ''.jpeg'', ''.png'', ''.webp'']"

definition verification_keys :: "uuid \<Rightarrow> string \<Rightarrow> string \<Rightarrow> string list" where
  "verification_keys userId prefix i =
     map (\<lambda>ext. ''host/'' @ userId @ ''/verification/'' @ prefix @ ''_'' @ i @ ext) VERIFY_EXTS"

text \<open>The checks run in order; blank identifiers are skipped.\<close>

fun assert_assets :: "(string \<Rightarrow> bool) \<Rightarrow> uuid \<Rightarrow> (string option \<times> string) list \<Rightarrow> unit result" where
  "assert_assets stored userId [] = Inr ()"
| "assert_assets stored userId ((asset, prefix) # checks) =
     (let i = js_trim (case asset of None \<Rightarrow> [] | Some a \<Rightarrow> a)
      in if i = [] then assert_assets stored userId checks
         else if list_ex stored (verification_keys userId prefix i) then assert_assets stored userId checks
         else Inl (Bad_Request (''Invalid '' @ prefix @ '' asset_id - upload the document first as this user'')))"

definition assertOwnedVerificationAssets :: "(string \<Rightarrow> bool) \<Rightarrow> uuid \<Rightarrow> onboarding_dto \<Rightarrow> unit result" where
  "assertOwnedVerificationAssets stored userId dto =
     assert_assets stored userId
       [(od_front_asset dto, ''id_front''), (od_back_asset dto, ''id_back''), (od_selfie_asset dto, ''selfie'')]"

record submit_response =
  sr_id :: uuid
  sr_application :: application_status
  sr_identity :: identity_status
  sr_status :: application_status

definition toSubmitResponse :: "host_account \<Rightarrow> submit_response" where
  "toSubmitResponse p =
     \<lparr>sr_id = ha_id p, sr_application = ha_application p, sr_identity = ha_identity p, sr_status = ha_application p\<rparr>"

definition or_else :: "'a option \<Rightarrow> 'a option \<Rightarrow> 'a option" where
  "or_else a b = (case a of None \<Rightarrow> b | Some x \<Rightarrow> Some x)"

definition non_blank :: "string option \<Rightarrow> bool" where
  "non_blank s = (case s of None \<Rightarrow> False | Some t \<Rightarrow> js_trim t \<noteq> [])"

definition isIdentityVerified :: "host_user \<Rightarrow> bool" where
  "isIdentityVerified user = meetsHostIdentityReuse (hu_snapshot user)"

definition new_profile :: "uuid \<Rightarrow> host_user \<Rightarrow> string \<Rightarrow> string \<Rightarrow> host_account" where
  "new_profile new_id user source submitted_from =
     \<lparr>ha_id = new_id, ha_user_id = hu_user_id user, ha_verification = HV_PENDING, ha_application = AP_DRAFT,
      ha_identity = ID_VERIFIED, ha_source = source, ha_submitted_from = Some submitted_from,
      ha_full_name = None, ha_email = None, ha_phone = None, ha_city = None, ha_host_type = None,
      ha_policies_accepted_at = None, ha_identity_reused = True, ha_listing_frozen = False,
      ha_document_type = None, ha_document_number_hash = None, ha_front_asset = None, ha_back_asset = None,
      ha_selfie_asset = None, ha_submitted_at = None, ha_reviewed_at = None, ha_reviewed_by = None,
      ha_rejection_reason = None\<rparr>"

text \<open>The identity status the application records, with its reuse flag.\<close>

definition submitted_identity :: "host_user \<Rightarrow> onboarding_dto \<Rightarrow> identity_status \<times> bool" where
  "submitted_identity user dto =
     (if od_use_existing_kyc dto = Some True \<and> isIdentityVerified user then (ID_VERIFIED, True)
      else if truthy (od_front_asset dto) \<and> truthy (od_selfie_asset dto)
      then (if isIdentityVerified user then ID_VERIFIED else ID_PENDING, False)
      else (ID_VERIFIED, (case od_identity_reused dto of None \<Rightarrow> True | Some b \<Rightarrow> b)))"

definition submitted_profile ::
    "time \<Rightarrow> host_user \<Rightarrow> onboarding_dto \<Rightarrow> string \<Rightarrow> string \<Rightarrow> string \<Rightarrow> host_account \<Rightarrow> host_account" where
  "submitted_profile now user dto source submitted_from phone p =
     p\<lparr>ha_full_name := or_else (od_full_name dto) (ha_full_name p),
       ha_email := or_else (od_email dto) (or_else (hu_email user) (ha_email p)),
       ha_phone := Some phone,
       ha_city := or_else (od_city dto) (ha_city p),
       ha_host_type := or_else (od_host_type dto) (ha_host_type p),
       ha_source := source, ha_submitted_from := Some submitted_from,
       ha_document_type := or_else (od_document_type dto) (ha_document_type p),
       ha_document_number_hash := or_else (od_document_number_hash dto) (ha_document_number_hash p),
       ha_front_asset := or_else (od_front_asset dto) (ha_front_asset p),
       ha_back_asset := or_else (od_back_asset dto) (ha_back_asset p),
       ha_selfie_asset := or_else (od_selfie_asset dto) (ha_selfie_asset p),
       ha_identity := fst (submitted_identity user dto),
       ha_identity_reused := snd (submitted_identity user dto),
       ha_policies_accepted_at :=
         (if od_policies_accepted dto = Some True then Some now else ha_policies_accepted_at p),
       ha_application := AP_PENDING, ha_verification := HV_PENDING, ha_submitted_at := Some now,
       ha_reviewed_at := None, ha_reviewed_by := None, ha_rejection_reason := None\<rparr>"

definition find_profile :: "uuid \<Rightarrow> 'z hosts_db_scheme \<Rightarrow> host_account option" where
  "find_profile userId db = find_where (\<lambda>p. ha_user_id p = userId) (hosts db)"

text \<open>\<^verbatim>\<open>hostProfileRepo.save\<close>: an insert of a new row, an update of the row of a known one.\<close>

definition save_profile :: "host_account \<Rightarrow> 'z hosts_db_scheme \<Rightarrow> 'z hosts_db_scheme" where
  "save_profile p db =
     db\<lparr>hosts := (if exists_where (\<lambda>q. ha_id q = ha_id p) (hosts db)
                 then update_where (\<lambda>q. ha_id q = ha_id p) (\<lambda>_. p) (hosts db) else insert_row p (hosts db))\<rparr>"

definition submitHostOnboarding ::
    "(string \<Rightarrow> bool) \<Rightarrow> uuid \<Rightarrow> time \<Rightarrow> host_user \<Rightarrow> onboarding_dto \<Rightarrow> string \<Rightarrow> string \<Rightarrow> bool \<Rightarrow> 'z hosts_db_scheme
     \<Rightarrow> submit_response result \<times> 'z hosts_db_scheme" where
  "submitHostOnboarding stored new_id now user dto source submitted_from requirePolicies db =
     (let verified = isIdentityVerified user;
          hasDocuments = (non_blank (od_front_asset dto) \<and> non_blank (od_selfie_asset dto))
      in if \<not> verified \<and> (od_use_existing_kyc dto = Some True \<or> \<not> hasDocuments)
         then (Inl (Forbidden_Err ''Identity verification required. Complete KYC in Nexa Identity or upload ID documents.''), db)
         else if requirePolicies \<and> od_policies_accepted dto \<noteq> Some True
         then (Inl (Bad_Request ''You must accept hosting policies to apply''), db)
         else (case assertOwnedVerificationAssets stored (hu_user_id user) dto of
                 Inl e \<Rightarrow> (Inl e, db)
               | Inr _ \<Rightarrow>
              let existing = find_profile (hu_user_id user) db;
                  go = (\<lambda>profile.
                    let phone = (case or_else (od_phone dto) (hu_phone user) of None \<Rightarrow> [] | Some x \<Rightarrow> x)
                    in if js_trim phone = []
                       then (Inl (Bad_Request ''A verified phone number is required to submit host onboarding''), db)
                       else (case normalizePhoneOrThrow phone of
                               Inl e \<Rightarrow> (Inl e, db)
                             | Inr e164_phone \<Rightarrow>
                                 let saved = submitted_profile now user dto source submitted_from e164_phone profile
                                 in (Inr (toSubmitResponse saved), save_profile saved db)))
              in (case existing of
                    None \<Rightarrow> go (new_profile new_id user source submitted_from)
                  | Some p \<Rightarrow>
                      if ha_application p = AP_APPROVED
                      then (Inl (Conflict_Err ''You already have an approved host account''), db)
                      else if ha_application p = AP_PENDING then (Inr (toSubmitResponse p), db)
                      else go p)))"

definition submitHostVerification ::
    "(string \<Rightarrow> bool) \<Rightarrow> uuid \<Rightarrow> time \<Rightarrow> host_user \<Rightarrow> onboarding_dto \<Rightarrow> string option \<Rightarrow> 'z hosts_db_scheme
     \<Rightarrow> submit_response result \<times> 'z hosts_db_scheme" where
  "submitHostVerification stored new_id now user data submitted_from db =
     (let useExisting = (od_use_existing_kyc data = Some True);
          dto = data\<lparr>od_use_existing_kyc := Some useExisting,
                     od_identity_reused := (if useExisting then Some True else od_identity_reused data)\<rparr>
      in submitHostOnboarding stored new_id now user dto ''WEB''
           (case submitted_from of None \<Rightarrow> ''WEB_BECOME_HOST'' | Some s \<Rightarrow> s)
           (od_policies_accepted dto = Some True) db)"

section \<open>Reviewing\<close>

definition find_profile_id :: "uuid \<Rightarrow> 'z hosts_db_scheme \<Rightarrow> host_account option" where
  "find_profile_id i db = find_where (\<lambda>p. ha_id p = i) (hosts db)"

definition host_audit_row :: "string \<Rightarrow> uuid \<Rightarrow> string \<Rightarrow> 'z hosts_db_scheme \<Rightarrow> 'z hosts_db_scheme" where
  "host_audit_row actor entity action db =
     db\<lparr>host_audits := insert_row \<lparr>hx_actor = actor, hx_entity = entity, hx_action = action\<rparr> (host_audits db)\<rparr>"

definition approve_host :: "time \<Rightarrow> uuid \<Rightarrow> string \<Rightarrow> 'z hosts_db_scheme \<Rightarrow> uuid result \<times> 'z hosts_db_scheme" where
  "approve_host now profileId reviewedBy db =
     (case find_profile_id profileId db of
        None \<Rightarrow> (Inl (Not_Found ''Host profile not found''), db)
      | Some p \<Rightarrow>
          if ha_application p \<noteq> AP_PENDING \<and> ha_application p \<noteq> AP_DRAFT
          then (Inl (Bad_Request (''Cannot approve host onboarding with status '' @ application_name (ha_application p))), db)
          else (Inr (ha_id p),
                host_audit_row reviewedBy profileId ''HOST_ONBOARDING_APPROVED''
                  (save_profile (p\<lparr>ha_application := AP_APPROVED, ha_verification := HV_APPROVED,
                     ha_reviewed_at := Some now, ha_reviewed_by := Some reviewedBy, ha_rejection_reason := None\<rparr>) db)))"

text \<open>
  \<open>reject\<close> takes no lock: it reads the row, and writes back what it read with its own columns changed.
  The two halves are separate operations, so that others can come between them.
\<close>

definition reject_read :: "uuid \<Rightarrow> 'z hosts_db_scheme \<Rightarrow> host_account result" where
  "reject_read profileId db =
     (case find_profile_id profileId db of
        None \<Rightarrow> Inl (Not_Found ''Host profile not found'')
      | Some p \<Rightarrow>
          if ha_application p \<noteq> AP_PENDING \<and> ha_application p \<noteq> AP_DRAFT
          then Inl (Bad_Request (''Cannot reject host onboarding with status '' @ application_name (ha_application p)))
          else Inr p)"

definition reject_write :: "time \<Rightarrow> string \<Rightarrow> string \<Rightarrow> host_account \<Rightarrow> 'z hosts_db_scheme \<Rightarrow> 'z hosts_db_scheme" where
  "reject_write now reason reviewedBy p db =
     host_audit_row reviewedBy (ha_id p) ''HOST_ONBOARDING_REJECTED''
       (save_profile (p\<lparr>ha_application := AP_REJECTED, ha_verification := HV_REJECTED, ha_reviewed_at := Some now,
          ha_reviewed_by := Some reviewedBy,
          ha_rejection_reason := Some (if reason = [] then ''Rejected by admin'' else reason)\<rparr>) db)"

definition reject_host :: "time \<Rightarrow> uuid \<Rightarrow> string \<Rightarrow> string \<Rightarrow> 'z hosts_db_scheme \<Rightarrow> uuid result \<times> 'z hosts_db_scheme" where
  "reject_host now profileId reason reviewedBy db =
     (case reject_read profileId db of
        Inl e \<Rightarrow> (Inl e, db)
      | Inr p \<Rightarrow> (Inr (ha_id p), reject_write now reason reviewedBy p db))"

section \<open>Who may list\<close>

definition isApprovedHost :: "uuid \<Rightarrow> 'z hosts_db_scheme \<Rightarrow> bool" where
  "isApprovedHost userId db =
     (case find_profile userId db of None \<Rightarrow> False | Some p \<Rightarrow> ha_application p = AP_APPROVED)"

definition canList :: "uuid \<Rightarrow> 'z hosts_db_scheme \<Rightarrow> bool" where
  "canList userId db =
     (case find_profile userId db of
        None \<Rightarrow> False
      | Some p \<Rightarrow> ha_application p = AP_APPROVED \<and> ha_verification p = HV_APPROVED \<and> \<not> ha_listing_frozen p)"

record host_me =
  hm_is_host :: bool
  hm_host_user_id :: "uuid option"
  hm_can_create_listing :: bool
  hm_can_publish_listing :: bool
  hm_application_status :: string
  hm_identity_status :: "identity_status"
  hm_kyc_verified :: bool

definition getHostMe :: "host_user \<Rightarrow> 'z hosts_db_scheme \<Rightarrow> host_me" where
  "getHostMe user db =
     (let profile = find_profile (hu_user_id user) db;
          isHost = (case profile of None \<Rightarrow> False | Some p \<Rightarrow> ha_application p = AP_APPROVED);
          may = (case profile of None \<Rightarrow> False
                 | Some p \<Rightarrow> ha_application p = AP_APPROVED \<and> ha_verification p = HV_APPROVED \<and> \<not> ha_listing_frozen p)
      in \<lparr>hm_is_host = isHost, hm_host_user_id = (if isHost then Some (hu_user_id user) else None),
          hm_can_create_listing = may, hm_can_publish_listing = may,
          hm_application_status = (case profile of None \<Rightarrow> ''NOT_STARTED'' | Some p \<Rightarrow> application_name (ha_application p)),
          hm_identity_status = (case profile of
             None \<Rightarrow> if isIdentityVerified user then ID_VERIFIED else ID_NOT_STARTED
           | Some p \<Rightarrow> ha_identity p),
          hm_kyc_verified = isIdentityVerified user\<rparr>)"

section \<open>What an application changes\<close>

lemma submitHostOnboarding_cases:
  assumes "submitHostOnboarding stored new_id now user dto source sf req db = (r, db')"
  obtains (unchanged) "db' = db"
    | (saved) p ph where "r = Inr (toSubmitResponse (submitted_profile now user dto source sf ph p))"
        "db' = save_profile (submitted_profile now user dto source sf ph p) db"
        "find_profile (hu_user_id user) db = Some p \<and> ha_application p \<notin> {AP_APPROVED, AP_PENDING} \<or>
         find_profile (hu_user_id user) db = None \<and> p = new_profile new_id user source sf"
        "isIdentityVerified user \<or> od_use_existing_kyc dto \<noteq> Some True \<and> non_blank (od_front_asset dto) \<and> non_blank (od_selfie_asset dto)"
        "\<exists>raw. normalizePhoneOrThrow raw = Inr ph"
  using assms unfolding submitHostOnboarding_def Let_def
  by (auto split: if_splits sum.splits option.splits)

lemma submitted_identity_verified:
  assumes "isIdentityVerified user \<or> od_use_existing_kyc dto \<noteq> Some True \<and> non_blank (od_front_asset dto) \<and> non_blank (od_selfie_asset dto)"
    and "fst (submitted_identity user dto) = ID_VERIFIED"
  shows "isIdentityVerified user"
  using assms by (auto simp: submitted_identity_def non_blank_def truthy_def js_trim_def split: if_splits option.splits)

lemma normalizePhoneOrThrow_e164: "normalizePhoneOrThrow raw = Inr ph \<Longrightarrow> e164 ph"
  using normalize_facts by (auto simp: normalizePhoneOrThrow_def validatePhoneNumber_def Let_def split: sum.splits if_splits)

lemma set_save_profile: "q \<in> set (hosts (save_profile p db)) \<Longrightarrow> q = p \<or> q \<in> set (hosts db)"
  by (auto simp: save_profile_def set_insert_row set_update_where split: if_splits)

lemma save_profile_others:
  assumes "\<forall>q\<in>set (hosts db). ha_id q = ha_id p \<longrightarrow> ha_user_id q = ha_user_id p" and "u \<noteq> ha_user_id p"
  shows "find_profile u (save_profile p db) = find_profile u db"
proof -
  have "find_where (\<lambda>q. ha_user_id q = u) (update_where (\<lambda>q. ha_id q = ha_id p) (\<lambda>_. p) rows) =
      find_where (\<lambda>q. ha_user_id q = u) rows"
    if "\<forall>q\<in>set rows. ha_id q = ha_id p \<longrightarrow> ha_user_id q = ha_user_id p" for rows
    using that assms(2) by (induction rows) auto
  then show ?thesis
    using assms by (auto simp: find_profile_def save_profile_def insert_row_def find_where_append split: option.splits)
qed

lemma save_profile_found:
  assumes "find_profile (ha_user_id q) db = Some p \<and> ha_id p = ha_id q \<or>
    find_profile (ha_user_id q) db = None \<and> ha_id q \<notin> ha_id ` set (hosts db)"
    and "\<forall>x\<in>set (hosts db). ha_id x = ha_id q \<longrightarrow> ha_user_id x = ha_user_id q"
  shows "find_profile (ha_user_id q) (save_profile q db) = Some q"
proof -
  have upd: "find_where (\<lambda>x. ha_user_id x = ha_user_id q) (update_where (\<lambda>x. ha_id x = ha_id q) (\<lambda>_. q) rows) = Some q"
    if "find_where (\<lambda>x. ha_user_id x = ha_user_id q) rows = Some p" "ha_id p = ha_id q"
      "\<forall>x\<in>set rows. ha_id x = ha_id q \<longrightarrow> ha_user_id x = ha_user_id q" for rows
    using that by (induction rows) (auto split: if_splits)
  have ex: "exists_where (\<lambda>x. ha_id x = ha_id q) (hosts db)" if "find_profile (ha_user_id q) db = Some p" "ha_id p = ha_id q"
    using that find_where_Some [of _ "hosts db" p] by (auto simp: find_profile_def exists_where_iff)
  have new: ?thesis if n: "find_profile (ha_user_id q) db = None"
  proof -
    have "ha_id q \<notin> ha_id ` set (hosts db)" using assms(1) n by simp
    then have "\<not> exists_where (\<lambda>x. ha_id x = ha_id q) (hosts db)" unfolding exists_where_iff by (metis image_eqI)
    then have "save_profile q db = db\<lparr>hosts := insert_row q (hosts db)\<rparr>" by (simp add: save_profile_def)
    then show ?thesis using n by (simp add: find_profile_def insert_row_def find_where_append)
  qed
  have old: ?thesis if p: "find_profile (ha_user_id q) db = Some p" "ha_id p = ha_id q"
  proof -
    have "save_profile q db = db\<lparr>hosts := update_where (\<lambda>x. ha_id x = ha_id q) (\<lambda>_. q) (hosts db)\<rparr>"
      using ex [OF p] by (simp add: save_profile_def)
    then have "find_profile (ha_user_id q) (save_profile q db) =
        find_where (\<lambda>x. ha_user_id x = ha_user_id q) (update_where (\<lambda>x. ha_id x = ha_id q) (\<lambda>_. q) (hosts db))"
      by (simp add: find_profile_def)
    also have "\<dots> = Some q" by (rule upd [OF p(1) [unfolded find_profile_def] p(2) assms(2)])
    finally show ?thesis .
  qed
  from assms(1) show ?thesis by (elim disjE conjE) (erule (1) old, erule new)
qed

text \<open>
  Applying to be a host grants nothing. Whatever a user submits, a refused application changes
  nothing; an accepted one writes only a pending profile of that user, with an E.164 phone number and a
  verified identity only if the identity service says so; and nobody who could not list before can
  list afterwards.
\<close>

theorem application_grants_nothing:
  assumes "submitHostOnboarding stored new_id now user dto source sf req db = (r, db')"
    and "keyed ha_id (hosts db)" and "new_id \<notin> ha_id ` set (hosts db)"
  shows "(\<forall>e. r = Inl e \<longrightarrow> db' = db) \<and> (\<forall>u. canList u db' \<longrightarrow> canList u db) \<and>
    (\<forall>q\<in>set (hosts db'). q \<in> set (hosts db) \<or> ha_user_id q = hu_user_id user \<and> ha_application q = AP_PENDING \<and>
       (\<exists>ph. ha_phone q = Some ph \<and> e164 ph) \<and> (ha_identity q = ID_VERIFIED \<longrightarrow> isIdentityVerified user))"
  using assms(1)
proof (cases rule: submitHostOnboarding_cases)
  case (saved p ph)
  let ?q = "submitted_profile now user dto source sf ph p"
  have user: "ha_user_id p = hu_user_id user"
    using saved(3) find_where_Some [of _ "hosts db" p] by (auto simp: find_profile_def new_profile_def)
  have q: "ha_user_id ?q = hu_user_id user" "ha_id ?q = ha_id p" "ha_application ?q = AP_PENDING"
      "ha_phone ?q = Some ph" "ha_identity ?q = fst (submitted_identity user dto)"
    using user by (simp_all add: submitted_profile_def)
  have key: "\<forall>x\<in>set (hosts db). ha_id x = ha_id ?q \<longrightarrow> ha_user_id x = ha_user_id ?q"
  proof (intro ballI impI)
    fix x assume x: "x \<in> set (hosts db)" "ha_id x = ha_id ?q"
    then have "find_profile (hu_user_id user) db = Some p"
      using saved(3) assms(3) by (auto simp: q new_profile_def)
    then have "p \<in> set (hosts db)" using find_where_Some [of _ "hosts db" p] by (simp add: find_profile_def)
    then show "ha_user_id x = ha_user_id ?q" using keyed_inj [OF assms(2) x(1)] x(2) q user by simp
  qed
  have e: "e164 ph" using saved(5) normalizePhoneOrThrow_e164 by blast
  have "find_profile (ha_user_id ?q) (save_profile ?q db) = Some ?q"
    using saved(3) assms(3) q(1,2) by (intro save_profile_found [of _ _ p] key) (auto simp: new_profile_def)
  then have mine: "\<not> canList (hu_user_id user) db'" using q saved(2) by (simp add: canList_def)
  have "canList u db' \<longrightarrow> canList u db" for u
    using mine save_profile_others [OF key, of u] q(1) saved(2) by (cases "u = hu_user_id user") (auto simp: canList_def)
  moreover have "x \<in> set (hosts db) \<or> x = ?q" if "x \<in> set (hosts db')" for x
    using set_save_profile [of x ?q db] that saved(2) by blast
  moreover have "ha_identity ?q = ID_VERIFIED \<longrightarrow> isIdentityVerified user"
    using submitted_identity_verified [OF saved(4)] q(5) by simp
  ultimately show ?thesis using saved(1) q(1,3,4) e by blast
qed simp


definition sample_applicant :: host_user where
  "sample_applicant = \<lparr>hu_user_id = ''u1'', hu_phone = Some ''0612345678'', hu_email = None,
     hu_snapshot = Some \<lparr>kycStatus = ''verified'', kycLevel = 1\<rparr>\<rparr>"

definition sample_application :: onboarding_dto where
  "sample_application = \<lparr>od_full_name = Some ''Amina'', od_phone = None, od_email = None, od_city = None,
     od_host_type = None, od_use_existing_kyc = Some True, od_policies_accepted = Some True, od_identity_reused = None,
     od_document_type = None, od_document_number_hash = None, od_front_asset = None, od_back_asset = None,
     od_selfie_asset = None\<rparr>"

theorem application_grants_nothing_witness:
  "\<exists>resp db'. submitHostOnboarding (\<lambda>k. False) ''p1'' 5 sample_applicant sample_application ''WEB'' ''X'' True
       \<lparr>hosts = [], host_audits = []\<rparr> = (Inr resp, db') \<and> \<not> canList ''u1'' db'"
proof -
  let ?db = "\<lparr>hosts = [], host_audits = []\<rparr>"
  have ok: "is_ok (fst (submitHostOnboarding (\<lambda>k. False) ''p1'' 5 sample_applicant sample_application ''WEB'' ''X'' True ?db))"
    by code_simp
  obtain r db' where c: "submitHostOnboarding (\<lambda>k. False) ''p1'' 5 sample_applicant sample_application ''WEB'' ''X'' True ?db = (r, db')"
    by fastforce
  then obtain resp where r: "r = Inr resp" using ok by (cases r) auto
  have "canList ''u1'' db' \<longrightarrow> canList ''u1'' ?db"
    using application_grants_nothing [OF c] by (simp add: keyed_def)
  moreover have "\<not> canList ''u1'' ?db" by (simp add: canList_def find_profile_def)
  ultimately show ?thesis using c r by blast
qed

text \<open>
  The rejection of a host is not guarded against a concurrent approval: an administrator's approval that
  commits between the two halves of \<open>reject\<close> is reported as done and then undone.
\<close>

theorem stale_rejection_undoes_approval:
  assumes "reject_read i db = Inr p" and "approve_host now i admin db = (Inr j, db1)"
    and "keyed ha_id (hosts db)" and "keyed ha_user_id (hosts db)"
  shows "(ha_listing_frozen p \<or> canList (ha_user_id p) db1) \<and>
    \<not> canList (ha_user_id p) (reject_write later reason admin' p db1)"
proof -
  have p: "p \<in> set (hosts db)" "ha_id p = i" "find_profile_id i db = Some p"
    using assms(1) find_where_Some [of _ "hosts db" p] by (auto simp: reject_read_def find_profile_id_def split: option.splits if_splits)
  define q where "q = p\<lparr>ha_application := AP_APPROVED, ha_verification := HV_APPROVED, ha_reviewed_at := Some now,
      ha_reviewed_by := Some admin, ha_rejection_reason := None\<rparr>"
  have db1: "db1 = host_audit_row admin i ''HOST_ONBOARDING_APPROVED'' (save_profile q db)"
    using assms(2) p(3) by (auto simp: approve_host_def q_def split: if_splits)
  have qp: "ha_user_id q = ha_user_id p" "ha_id q = ha_id p" by (simp_all add: q_def)
  have u: "find_profile (ha_user_id p) db = Some p"
    using keyed_find_where [OF assms(4) p(1)] by (simp add: find_profile_def)
  have one: "ha_user_id x = ha_user_id p" if "x \<in> set (hosts db)" "ha_id x = ha_id p" for x
    using keyed_inj [OF assms(3) that(1) p(1)] that(2) by simp
  have f1: "find_profile (ha_user_id q) db1 = Some q"
    using save_profile_found [of q db p] u one qp by (simp add: db1 host_audit_row_def find_profile_def)
  have one1: "ha_user_id x = ha_user_id p" if "x \<in> set (hosts db1)" "ha_id x = ha_id p" for x
    using that set_save_profile [of x q db] one qp by (auto simp: db1 host_audit_row_def)
  have "find_profile (ha_user_id p) (save_profile (p\<lparr>ha_application := AP_REJECTED, ha_verification := HV_REJECTED,
      ha_reviewed_at := Some later, ha_reviewed_by := Some admin',
      ha_rejection_reason := Some (if reason = [] then ''Rejected by admin'' else reason)\<rparr>) db1) =
      Some (p\<lparr>ha_application := AP_REJECTED, ha_verification := HV_REJECTED,
      ha_reviewed_at := Some later, ha_reviewed_by := Some admin',
      ha_rejection_reason := Some (if reason = [] then ''Rejected by admin'' else reason)\<rparr>)"
    using save_profile_found [of "p\<lparr>ha_application := AP_REJECTED, ha_verification := HV_REJECTED,
      ha_reviewed_at := Some later, ha_reviewed_by := Some admin',
      ha_rejection_reason := Some (if reason = [] then ''Rejected by admin'' else reason)\<rparr>" db1 q] f1 one1 qp
    by simp
  then show ?thesis
    using f1 qp by (simp add: canList_def reject_write_def host_audit_row_def find_profile_def q_def)
qed

lemma getHostMe_agrees:
  "hm_can_create_listing (getHostMe user db) = canList (hu_user_id user) db"
  "hm_is_host (getHostMe user db) = isApprovedHost (hu_user_id user) db"
  by (simp_all add: getHostMe_def canList_def isApprovedHost_def Let_def)

end
