(* ===== verification/HostListings.thy ===== *)
theory HostListings
  imports ListingCompletion HostOnboarding
begin

text \<open>
  \<^verbatim>\<open>host-listings.service.ts\<close>: creating a draft, editing it, replacing its media and unit types,
  submitting it for review, pausing and resuming. \<open>host_listing\<close> adds to the columns of \<open>listing\<close> those
  only these operations use. A timestamp column here counts microseconds, as PostgreSQL does; a
  JavaScript date written to it has none below the millisecond. The prices of a request are numbers
  the validator has read with two decimals; the media storage is the predicate of its keys.
\<close>

section \<open>Listings as the host sees them\<close>

datatype unit_kind = APARTMENT_UNIT | HOTEL_ROOM | RIAD_ROOM | HOSTEL_DORM | HOSTEL_PRIVATE | VILLA_UNIT

datatype pricing_unit = NIGHT | BED_NIGHT | ROOM_NIGHT

record unit_type =
  ut_kind :: unit_kind
  ut_name :: string
  ut_quantity :: int
  ut_max_guests :: int
  ut_bed_config :: "json list"
  ut_size_sqm :: "rat option"
  ut_amenities :: "string list"
  ut_pricing_unit :: pricing_unit
  ut_base_price :: cents
  ut_currency :: string
  ut_details :: metadata
  ut_sort_order :: int
  ut_is_active :: bool

type_synonym us = int

record host_listing = listing +
  hl_postal_code :: "string option"
  hl_landmark :: "string option"
  hl_property_details :: metadata
  hl_safety_features :: metadata
  hl_policies :: metadata
  hl_last_edited_at :: us
  hl_created_at :: us
  hl_updated_at :: us
  hl_unit_types :: "unit_type list"

record listings_db = hosts_db +
  host_listings :: "host_listing list"
  listing_events :: "(string \<times> uuid) list"

definition date_us :: "time \<Rightarrow> us" where
  "date_us t = t * 1000"

definition find_host_listing :: "uuid \<Rightarrow> listings_db \<Rightarrow> host_listing option" where
  "find_host_listing i db = find_where (\<lambda>l. ls_id l = i) (host_listings db)"

text \<open>\<^verbatim>\<open>listingRepo.save(listing)\<close> of a loaded row: it sets \<^verbatim>\<open>updated_at\<close> to the clock of the data base.\<close>

definition save_listing :: "us \<Rightarrow> host_listing \<Rightarrow> listings_db \<Rightarrow> listings_db" where
  "save_listing clock l db =
     db\<lparr>host_listings := update_where (\<lambda>x. ls_id x = ls_id l) (\<lambda>_. l\<lparr>hl_updated_at := clock\<rparr>) (host_listings db)\<rparr>"

section \<open>Guards\<close>

definition frozen_error :: http_error where
  "frozen_error = Bad_Request ''Your host account is temporarily frozen. You can still book stays. Contact support to restore listing access.''"

definition unverified_error :: http_error where
  "unverified_error = Bad_Request ''Host verification required. Your host application must be approved before creating listings.''"

definition assertCanList :: "uuid \<Rightarrow> listings_db \<Rightarrow> unit result" where
  "assertCanList userId db =
     (if canList userId db then Inr ()
      else (case find_profile userId db of
              None \<Rightarrow> Inl unverified_error
            | Some p \<Rightarrow> Inl (if ha_listing_frozen p then frozen_error else unverified_error)))"

definition requireOwnedListing :: "uuid \<Rightarrow> uuid \<Rightarrow> listings_db \<Rightarrow> host_listing result" where
  "requireOwnedListing userId listingId db =
     (case find_host_listing listingId db of
        None \<Rightarrow> Inl (Not_Found ''Listing not found'')
      | Some l \<Rightarrow> if ls_host_user_id l \<noteq> userId then Inl (Not_Found ''Listing not found'') else Inr l)"

definition PAUSABLE_STATUSES :: "listing_status list" where
  "PAUSABLE_STATUSES = [LIVE, APPROVED]"

definition EDITABLE_STATUSES :: "listing_status list" where
  "EDITABLE_STATUSES = [DRAFT, REJECTED, SUBMITTED, APPROVED, LIVE, PAUSED]"

section \<open>Completion of a stored listing\<close>

fun min_price :: "rat \<Rightarrow> rat list \<Rightarrow> rat" where
  "min_price m [] = m"
| "min_price m (x # xs) = min_price (min m x) xs"

definition effective_price :: "host_listing \<Rightarrow> rat" where
  "effective_price l =
     (let ratePrice = (case ls_rate_plan l of None \<Rightarrow> 0 | Some rp \<Rightarrow> num (rp_base_price rp));
          unitPrices = filter (\<lambda>n. n > 0) (map (\<lambda>u. num (ut_base_price u)) (hl_unit_types l));
          least = (case unitPrices of [] \<Rightarrow> 0 | x # xs \<Rightarrow> min_price x xs)
      in if roomsRequiredForType (ls_listing_type l) (ls_booking_model l) then least
         else if ratePrice > 0 then ratePrice else least)"

text \<open>Only whether a coordinate is stored matters; its text is not a number the gate looks at.\<close>

definition completion_of :: "host_listing \<Rightarrow> completion_flags" where
  "completion_of l =
     computeCompletionFlags
       \<lparr>ci_listing_type = ls_listing_type l, ci_booking_model = ls_booking_model l, ci_title = Some (ls_title l),
        ci_city = Some (ls_city l), ci_address = ls_address_encrypted l,
        ci_geo_lat = map_option (\<lambda>_. 0) (ls_geo_lat l), ci_geo_lng = map_option (\<lambda>_. 0) (ls_geo_lng l),
        ci_description = ls_description l, ci_max_guests = map_option lr_max_guests (ls_rules l),
        ci_base_price = Some (effective_price l),
        ci_photo_count = int (length (filter (\<lambda>m. lm_kind m = PHOTO) (ls_media l))),
        ci_has_walkthrough = list_ex (\<lambda>m. lm_kind m = WALKTHROUGH) (ls_media l),
        ci_unit_count = int (length (hl_unit_types l)),
        ci_amenities_count = Some (case ls_rules l of None \<Rightarrow> 0 | Some r \<Rightarrow> int (length (lr_amenities r))),
        ci_has_house_rules_touch = Some (case ls_rules l of None \<Rightarrow> False
          | Some r \<Rightarrow> lr_pets_policy r \<noteq> None \<or> lr_smoking_policy r \<noteq> None)\<rparr>"

record completion_payload =
  cpl_flags :: completion_flags
  cpl_percentage :: int
  cpl_missing :: "missing_item list"

definition completionPayload :: "host_listing \<Rightarrow> completion_payload" where
  "completionPayload l =
     \<lparr>cpl_flags = completion_of l, cpl_percentage = computeCompletionPercentage (completion_of l),
      cpl_missing = listMissing (completion_of l)\<rparr>"

section \<open>Creating a draft\<close>

record draft_dto =
  dd_listing_type :: listing_type
  dd_guest_house :: bool
  dd_property_details :: metadata

definition default_booking_model :: "listing_type \<Rightarrow> booking_model" where
  "default_booking_model t =
     (if t = HOTEL then ROOM_TYPES else if t = HOSTEL then DORM_AND_PRIVATE else ENTIRE_PROPERTY)"

definition entire_place :: "listing_type \<Rightarrow> unit_type" where
  "entire_place t =
     \<lparr>ut_kind = (if t = VILLA then VILLA_UNIT else if t = RIAD then RIAD_ROOM else APARTMENT_UNIT),
      ut_name = ''Entire place'', ut_quantity = 1, ut_max_guests = 2, ut_bed_config = [], ut_size_sqm = None,
      ut_amenities = [], ut_pricing_unit = NIGHT, ut_base_price = 0, ut_currency = ''MAD'', ut_details = [],
      ut_sort_order = 0, ut_is_active = True\<rparr>"

definition draft_listing ::
    "uuid \<Rightarrow> time \<Rightarrow> us \<Rightarrow> uuid \<Rightarrow> string \<Rightarrow> string \<Rightarrow> draft_dto \<Rightarrow> host_listing" where
  "draft_listing new_id now clock userId hostName hostPhone dto =
     (let model = default_booking_model (dd_listing_type dto)
      in \<lparr>ls_id = new_id, ls_host_user_id = userId, ls_title = ''Untitled listing'',
          ls_listing_type = dd_listing_type dto, ls_booking_model = Some model, ls_city = [], ls_country = ''MA'',
          ls_neighborhood = None, ls_building_name = None, ls_address_encrypted = None, ls_geo_lat = None,
          ls_geo_lng = None, ls_status = DRAFT, ls_paused_from_status = None, ls_checkin_time = ''14:00'',
          ls_checkout_time = ''11:00'', ls_description = None, ls_instant_booking = False, ls_archived_at = None,
          ls_avg_rating = None, ls_review_count = 0,
          ls_rules = Some \<lparr>lr_pets_policy = Some PETS_NO, lr_smoking_policy = Some SMOKING_NOT_ALLOWED,
            lr_quiet_hours = False, lr_couples_welcome = True, lr_max_guests = 2, lr_amenities = [],
            lr_extra_rules_text = None, lr_cancellation_policy = MODERATE\<rparr>,
          ls_media = [],
          ls_rate_plan = Some \<lparr>rp_currency = ''MAD'', rp_base_price = 0, rp_weekend_price = None,
            rp_deposit_policy_text = None\<rparr>,
          ls_check_in_contact = Some \<lparr>cc_full_name = hostName, cc_phone_encrypted = hostPhone, cc_role = ''OWNER'',
            cc_access_instructions = None, cc_wifi_ssid = None, cc_wifi_password = None\<rparr>,
          hl_postal_code = None, hl_landmark = None,
          hl_property_details = obj_spread (dd_property_details dto)
            (if dd_guest_house dto then [(''guest_house'', JBool True)] else []),
          hl_safety_features = [], hl_policies = [], hl_last_edited_at = date_us now, hl_created_at = clock,
          hl_updated_at = clock,
          hl_unit_types = (if roomsRequiredForType (dd_listing_type dto) (Some model) then []
                           else [entire_place (dd_listing_type dto)])\<rparr>)"

definition text_or_empty :: "string option \<Rightarrow> string" where
  "text_or_empty s = js_trim (case s of None \<Rightarrow> [] | Some t \<Rightarrow> t)"

definition createListing ::
    "uuid \<Rightarrow> time \<Rightarrow> us \<Rightarrow> uuid \<Rightarrow> draft_dto \<Rightarrow> listings_db \<Rightarrow> (uuid \<times> listing_status) result \<times> listings_db" where
  "createListing new_id now clock userId dto db =
     (case assertCanList userId db of
        Inl e \<Rightarrow> (Inl e, db)
      | Inr _ \<Rightarrow>
          let profile = find_profile userId db;
              hostName = (case profile of None \<Rightarrow> [] | Some p \<Rightarrow> text_or_empty (ha_full_name p));
              hostPhone = (case profile of None \<Rightarrow> [] | Some p \<Rightarrow> text_or_empty (ha_phone p))
          in (Inr (new_id, DRAFT),
              db\<lparr>host_listings := insert_row (draft_listing new_id now clock userId hostName hostPhone dto) (host_listings db)\<rparr>))"

section \<open>Editing\<close>

record rules_patch =
  rl_pets :: "pets_policy option"
  rl_smoking :: "smoking_policy option"
  rl_max_guests :: "int option"
  rl_amenities :: "string list option"
  rl_cancellation :: "cancellation_policy option"
  rl_couples :: "bool option"

record rate_patch =
  rt_currency :: "string option"
  rt_base_price :: "cents option"
  rt_weekend_price :: "cents option option"

record contact_patch =
  ct_full_name :: "string option"
  ct_phone :: "string option"
  ct_role :: "string option"
  ct_instructions :: "string option option"

text \<open>
  An optional field of the request is \<open>None\<close> when it is absent. Fields the code tests with
  \<^verbatim>\<open>!== undefined\<close> are a nested option, whose inner \<open>None\<close> is an explicit \<^verbatim>\<open>null\<close>.
\<close>

record listing_patch =
  pa_title :: "string option"
  pa_listing_type :: "listing_type option"
  pa_city :: "string option"
  pa_neighborhood :: "string option option"
  pa_address :: "string option option"
  pa_postal_code :: "string option option"
  pa_building_name :: "string option option"
  pa_landmark :: "string option option"
  pa_geo_lat :: "string option option"
  pa_geo_lng :: "string option option"
  pa_description :: "string option option"
  pa_checkin_time :: "string option"
  pa_checkout_time :: "string option"
  pa_instant_booking :: "bool option"
  pa_property_details :: "metadata option"
  pa_policies :: "metadata option"
  pa_safety_features :: "metadata option"
  pa_rules :: "rules_patch option"
  pa_rate_plan :: "rate_patch option"
  pa_contact :: "contact_patch option"

definition keep :: "'a \<Rightarrow> 'a option \<Rightarrow> 'a" where
  "keep old new = (case new of None \<Rightarrow> old | Some x \<Rightarrow> x)"

text \<open>\<^verbatim>\<open>value || null\<close>.\<close>

definition nonempty_or_null :: "string option \<Rightarrow> string option" where
  "nonempty_or_null s = (case s of None \<Rightarrow> None | Some t \<Rightarrow> if t = [] then None else Some t)"

definition location_locked :: "host_listing \<Rightarrow> bool" where
  "location_locked l \<longleftrightarrow> ls_status l \<in> set [LIVE, APPROVED, PAUSED]"

definition location_touched :: "listing_patch \<Rightarrow> bool" where
  "location_touched d \<longleftrightarrow>
     pa_city d \<noteq> None \<or> pa_address d \<noteq> None \<or> pa_geo_lat d \<noteq> None \<or> pa_geo_lng d \<noteq> None \<or>
     pa_neighborhood d \<noteq> None \<or> pa_postal_code d \<noteq> None \<or> pa_building_name d \<noteq> None \<or> pa_landmark d \<noteq> None"

definition patch_location :: "listing_patch \<Rightarrow> host_listing \<Rightarrow> host_listing" where
  "patch_location d l =
     l\<lparr>ls_city := keep (ls_city l) (pa_city d),
       ls_neighborhood := keep (ls_neighborhood l) (pa_neighborhood d),
       ls_address_encrypted := keep (ls_address_encrypted l) (pa_address d),
       hl_postal_code := keep (hl_postal_code l) (map_option nonempty_or_null (pa_postal_code d)),
       ls_building_name := keep (ls_building_name l) (map_option nonempty_or_null (pa_building_name d)),
       hl_landmark := keep (hl_landmark l) (map_option nonempty_or_null (pa_landmark d)),
       ls_geo_lat := keep (ls_geo_lat l) (pa_geo_lat d),
       ls_geo_lng := keep (ls_geo_lng l) (pa_geo_lng d)\<rparr>"

definition patch_columns :: "time \<Rightarrow> listing_patch \<Rightarrow> host_listing \<Rightarrow> host_listing" where
  "patch_columns now d l0 =
     (let l = (if location_locked l0 then l0 else patch_location d l0)
      in l\<lparr>ls_title := keep (ls_title l) (pa_title d),
           ls_description := keep (ls_description l) (pa_description d),
           ls_checkin_time := keep (ls_checkin_time l) (pa_checkin_time d),
           ls_checkout_time := keep (ls_checkout_time l) (pa_checkout_time d),
           ls_instant_booking := keep (ls_instant_booking l) (pa_instant_booking d),
           hl_property_details := (case pa_property_details d of None \<Rightarrow> hl_property_details l
              | Some m \<Rightarrow> obj_spread (hl_property_details l) m),
           hl_policies := (case pa_policies d of None \<Rightarrow> hl_policies l | Some m \<Rightarrow> obj_spread (hl_policies l) m),
           hl_safety_features := (case pa_safety_features d of None \<Rightarrow> hl_safety_features l
              | Some m \<Rightarrow> obj_spread (hl_safety_features l) m),
           hl_last_edited_at := date_us now\<rparr>)"

definition patch_rules :: "rules_patch option \<Rightarrow> host_listing \<Rightarrow> host_listing" where
  "patch_rules d l =
     (case (d, ls_rules l) of
        (Some p, Some r) \<Rightarrow>
          l\<lparr>ls_rules := Some (r\<lparr>
              lr_pets_policy := (case rl_pets p of None \<Rightarrow> lr_pets_policy r | Some x \<Rightarrow> Some x),
              lr_smoking_policy := (case rl_smoking p of None \<Rightarrow> lr_smoking_policy r | Some x \<Rightarrow> Some x),
              lr_max_guests := keep (lr_max_guests r) (rl_max_guests p),
              lr_amenities := keep (lr_amenities r) (rl_amenities p),
              lr_cancellation_policy := keep (lr_cancellation_policy r) (rl_cancellation p),
              lr_couples_welcome := keep (lr_couples_welcome r) (rl_couples p)\<rparr>)\<rparr>
      | _ \<Rightarrow> l)"

text \<open>The price of the only unit of an entire place follows the rate plan.\<close>

definition patch_rate_plan :: "rate_patch option \<Rightarrow> host_listing \<Rightarrow> host_listing" where
  "patch_rate_plan d l =
     (case (d, ls_rate_plan l) of
        (Some p, Some r) \<Rightarrow>
          let l1 = l\<lparr>ls_rate_plan := Some (r\<lparr>
                rp_currency := keep (rp_currency r) (rt_currency p),
                rp_base_price := keep (rp_base_price r) (rt_base_price p),
                rp_weekend_price := keep (rp_weekend_price r) (rt_weekend_price p)\<rparr>)\<rparr>
          in (case rt_base_price p of
                None \<Rightarrow> l1
              | Some price \<Rightarrow>
                  if roomsRequiredForType (ls_listing_type l) (ls_booking_model l) then l1
                  else (case hl_unit_types l of
                          [u] \<Rightarrow> l1\<lparr>hl_unit_types := [u\<lparr>ut_base_price := price\<rparr>]\<rparr>
                        | _ \<Rightarrow> l1))
      | _ \<Rightarrow> l)"

definition patch_contact :: "contact_patch option \<Rightarrow> host_listing \<Rightarrow> host_listing" where
  "patch_contact d l =
     (case (d, ls_check_in_contact l) of
        (Some p, Some c) \<Rightarrow>
          l\<lparr>ls_check_in_contact := Some (c\<lparr>
              cc_full_name := keep (cc_full_name c) (ct_full_name p),
              cc_phone_encrypted := keep (cc_phone_encrypted c) (ct_phone p),
              cc_role := keep (cc_role c) (ct_role p),
              cc_access_instructions := keep (cc_access_instructions c) (ct_instructions p)\<rparr>)\<rparr>
      | _ \<Rightarrow> l)"

definition updateListing ::
    "time \<Rightarrow> us \<Rightarrow> uuid \<Rightarrow> uuid \<Rightarrow> listing_patch \<Rightarrow> listings_db \<Rightarrow> host_listing result \<times> listings_db" where
  "updateListing now clock userId listingId dto db =
     (case assertCanList userId db of
        Inl e \<Rightarrow> (Inl e, db)
      | Inr _ \<Rightarrow>
     (case requireOwnedListing userId listingId db of
        Inl e \<Rightarrow> (Inl e, db)
      | Inr l \<Rightarrow>
          if ls_status l \<notin> set EDITABLE_STATUSES
          then (Inl (Bad_Request ''This listing cannot be edited in its current status.''), db)
          else if (case pa_listing_type dto of None \<Rightarrow> False | Some t \<Rightarrow> t \<noteq> ls_listing_type l)
          then (Inl (Bad_Request ''Property type cannot be changed after the listing is created.''), db)
          else if location_locked l \<and> location_touched dto
          then (Inl (Bad_Request ''Location changes on live listings require moderation. Contact support or wait for the next release.''), db)
          else
            let l1 = patch_contact (pa_contact dto) (patch_rate_plan (pa_rate_plan dto)
                       (patch_rules (pa_rules dto) (patch_columns now dto l)));
                db1 = save_listing clock l1 db
            in (requireOwnedListing userId listingId db1, db1)))"

section \<open>Media and unit types\<close>

record media_dto =
  md_asset_id :: string
  md_kind :: media_kind
  md_sort_order :: "int option"
  md_category :: "string option"
  md_is_cover :: "bool option"

definition listingMediaCandidates :: "uuid \<Rightarrow> string \<Rightarrow> media_kind \<Rightarrow> string list" where
  "listingMediaCandidates userId assetId kind =
     (let prefix = (if kind = WALKTHROUGH then ''walkthrough_'' else ''photo_'') @ assetId;
          exts = (if kind = WALKTHROUGH then [''.mp4'', ''.webm''] else [''.jpg'', ''.jpeg'', ''.png'', ''.webp''])
      in map (\<lambda>ext. ''host/'' @ userId @ ''/listing/'' @ prefix @ ext) exts)"

definition assertOwnedListingAsset :: "(string \<Rightarrow> bool) \<Rightarrow> uuid \<Rightarrow> media_dto \<Rightarrow> bool" where
  "assertOwnedListingAsset stored userId m \<longleftrightarrow>
     list_ex stored (listingMediaCandidates userId (md_asset_id m) (md_kind m))"

fun media_rows :: "(nat \<Rightarrow> uuid) \<Rightarrow> nat \<Rightarrow> media_dto list \<Rightarrow> listing_media list" where
  "media_rows gen i [] = []"
| "media_rows gen i (m # ms) =
     \<lparr>lm_id = gen i, lm_kind = md_kind m, lm_asset_id = md_asset_id m,
      lm_sort_order = keep (int i) (md_sort_order m), lm_is_required = (md_kind m = WALKTHROUGH),
      lm_category = md_category m, lm_unit_type_id = None, lm_is_cover = keep False (md_is_cover m)\<rparr>
     # media_rows gen (i + 1) ms"

definition getHostListingById :: "uuid \<Rightarrow> uuid \<Rightarrow> listings_db \<Rightarrow> host_listing result" where
  "getHostListingById userId listingId db = requireOwnedListing userId listingId db"

text \<open>\<^verbatim>\<open>manager.getRepository(StaysListing).update(listingId, { last_edited_at })\<close> inside the transaction.\<close>

definition touch_listing ::
    "time \<Rightarrow> us \<Rightarrow> uuid \<Rightarrow> (host_listing \<Rightarrow> host_listing) \<Rightarrow> listings_db \<Rightarrow> listings_db" where
  "touch_listing now clock listingId f db =
     db\<lparr>host_listings := update_where (\<lambda>x. ls_id x = listingId)
          (\<lambda>x. (f x)\<lparr>hl_last_edited_at := date_us now, hl_updated_at := clock\<rparr>) (host_listings db)\<rparr>"

definition replaceListingMedia ::
    "(string \<Rightarrow> bool) \<Rightarrow> (nat \<Rightarrow> uuid) \<Rightarrow> time \<Rightarrow> us \<Rightarrow> uuid \<Rightarrow> uuid \<Rightarrow> media_dto list \<Rightarrow> listings_db
     \<Rightarrow> host_listing result \<times> listings_db" where
  "replaceListingMedia stored gen now clock userId listingId media db =
     (case assertCanList userId db of
        Inl e \<Rightarrow> (Inl e, db)
      | Inr _ \<Rightarrow>
     (case requireOwnedListing userId listingId db of
        Inl e \<Rightarrow> (Inl e, db)
      | Inr l \<Rightarrow>
          if ls_status l \<notin> set EDITABLE_STATUSES
          then (Inl (Bad_Request ''Media cannot be changed in the current listing status.''), db)
          else if \<not> list_all (assertOwnedListingAsset stored userId) media
          then (Inl (Bad_Request ''Invalid media asset_id - upload the file first as this host''), db)
          else
            let db1 = touch_listing now clock listingId (\<lambda>x. x\<lparr>ls_media := media_rows gen 0 media\<rparr>) db
            in (getHostListingById userId listingId db1, db1)))"

record unit_dto =
  ud_kind :: unit_kind
  ud_name :: string
  ud_quantity :: "int option"
  ud_max_guests :: "int option"
  ud_base_price :: cents
  ud_currency :: "string option"
  ud_pricing_unit :: "pricing_unit option"
  ud_amenities :: "string list option"
  ud_bed_config :: "json list option"
  ud_size_sqm :: "rat option"
  ud_details :: metadata
  ud_sort_order :: "int option"
  ud_is_active :: "bool option"

definition unit_bed_config :: "unit_dto \<Rightarrow> json list" where
  "unit_bed_config u =
     (case ud_bed_config u of
        Some b \<Rightarrow> b
      | None \<Rightarrow>
          (case map_of (ud_details u) ''bed_config'' of
             Some (JArr xs) \<Rightarrow> xs
           | Some (JStr s) \<Rightarrow> if js_trim s = [] then [] else [JObj [(''summary'', JStr (js_trim s))]]
           | _ \<Rightarrow> []))"

text \<open>
  \<^verbatim>\<open>Number(value)\<close> of a JSON value that is not null; \<open>parse\<close> is its reading of a text, and arrays and
  objects, whose conversion goes through their text, are read by it too.
\<close>

definition json_number :: "(json \<Rightarrow> rat option) \<Rightarrow> json \<Rightarrow> rat option" where
  "json_number parse v =
     (case v of JNum r \<Rightarrow> Some r | JBool b \<Rightarrow> Some (if b then 1 else 0) | JNull \<Rightarrow> None | _ \<Rightarrow> parse v)"

definition unit_size :: "(json \<Rightarrow> rat option) \<Rightarrow> unit_dto \<Rightarrow> rat option" where
  "unit_size parse u =
     (case ud_size_sqm u of
        Some r \<Rightarrow> Some r
      | None \<Rightarrow> (case map_of (ud_details u) ''size_sqm'' of None \<Rightarrow> None | Some v \<Rightarrow> json_number parse v))"

definition drop_keys :: "string list \<Rightarrow> metadata \<Rightarrow> metadata" where
  "drop_keys ks m = filter (\<lambda>(k, v). k \<notin> set ks) m"

fun unit_rows :: "(json \<Rightarrow> rat option) \<Rightarrow> nat \<Rightarrow> unit_dto list \<Rightarrow> unit_type list" where
  "unit_rows parse i [] = []"
| "unit_rows parse i (u # us) =
     \<lparr>ut_kind = ud_kind u, ut_name = ud_name u, ut_quantity = keep 1 (ud_quantity u),
      ut_max_guests = keep 2 (ud_max_guests u), ut_bed_config = unit_bed_config u, ut_size_sqm = unit_size parse u,
      ut_amenities = keep [] (ud_amenities u), ut_pricing_unit = keep NIGHT (ud_pricing_unit u),
      ut_base_price = ud_base_price u, ut_currency = keep ''MAD'' (ud_currency u),
      ut_details = drop_keys [''bed_config'', ''size_sqm''] (ud_details u),
      ut_sort_order = keep (int i) (ud_sort_order u), ut_is_active = keep True (ud_is_active u)\<rparr>
     # unit_rows parse (i + 1) us"

definition least_unit_price :: "unit_dto list \<Rightarrow> cents" where
  "least_unit_price us = (case us of [] \<Rightarrow> 0 | u # rest \<Rightarrow> Min (set (map ud_base_price (u # rest))))"

definition replaceListingUnitTypes ::
    "(json \<Rightarrow> rat option) \<Rightarrow> time \<Rightarrow> us \<Rightarrow> uuid \<Rightarrow> uuid \<Rightarrow> unit_dto list \<Rightarrow> listings_db
     \<Rightarrow> host_listing result \<times> listings_db" where
  "replaceListingUnitTypes parse now clock userId listingId units db =
     (case assertCanList userId db of
        Inl e \<Rightarrow> (Inl e, db)
      | Inr _ \<Rightarrow>
     (case requireOwnedListing userId listingId db of
        Inl e \<Rightarrow> (Inl e, db)
      | Inr l \<Rightarrow>
          if ls_status l \<notin> set EDITABLE_STATUSES
          then (Inl (Bad_Request ''Unit types cannot be changed in the current listing status.''), db)
          else if (ls_status l = LIVE \<or> ls_status l = APPROVED) \<and> units = []
          then (Inl (Bad_Request ''Live or approved listings must keep at least one unit type.''), db)
          else
            let db1 = touch_listing now clock listingId
                  (\<lambda>x. x\<lparr>hl_unit_types := unit_rows parse 0 units,
                        ls_rate_plan := map_option (\<lambda>r. r\<lparr>rp_base_price := least_unit_price units\<rparr>) (ls_rate_plan x)\<rparr>) db
            in (getHostListingById userId listingId db1, db1)))"

section \<open>Submitting, pausing, resuming\<close>

record submit_answer =
  sa_id :: uuid
  sa_status :: listing_status
  sa_percentage :: int

definition submitListing ::
    "time \<Rightarrow> us \<Rightarrow> uuid \<Rightarrow> uuid \<Rightarrow> listings_db \<Rightarrow> submit_answer result \<times> listings_db" where
  "submitListing now clock userId listingId db =
     (case assertCanList userId db of
        Inl e \<Rightarrow> (Inl e, db)
      | Inr _ \<Rightarrow>
     (case requireOwnedListing userId listingId db of
        Inl e \<Rightarrow> (Inl e, db)
      | Inr l \<Rightarrow>
          if ls_status l \<noteq> DRAFT \<and> ls_status l \<noteq> REJECTED
          then (Inl (Bad_Request ''Only draft listings (or listings that need changes) can be submitted.''), db)
          else if ls_archived_at l \<noteq> None then (Inl (Bad_Request ''This draft has been archived.''), db)
          else (case assertCanSubmit (cpl_flags (completionPayload l)) of
                  Some err \<Rightarrow> (Inl (Bad_Request err), db)
                | None \<Rightarrow>
                    if roomsRequiredForType (ls_listing_type l) (ls_booking_model l) \<and>
                       list_ex (\<lambda>u. num (ut_base_price u) \<le> 0) (hl_unit_types l)
                    then (Inl (Bad_Request ''Each room type needs a price greater than zero.''), db)
                    else (Inr \<lparr>sa_id = ls_id l, sa_status = SUBMITTED,
                               sa_percentage = cpl_percentage (completionPayload l)\<rparr>,
                          save_listing clock (l\<lparr>ls_status := SUBMITTED, hl_last_edited_at := date_us now\<rparr>) db))))"

definition pauseListing ::
    "us \<Rightarrow> uuid \<Rightarrow> uuid \<Rightarrow> listings_db \<Rightarrow> (uuid \<times> listing_status) result \<times> listings_db" where
  "pauseListing clock userId listingId db =
     (case requireOwnedListing userId listingId db of
        Inl e \<Rightarrow> (Inl e, db)
      | Inr l \<Rightarrow>
          if ls_status l \<notin> set PAUSABLE_STATUSES
          then (Inl (Bad_Request ''Only live or approved listings can be paused.''), db)
          else (Inr (ls_id l, PAUSED),
                save_listing clock (l\<lparr>ls_paused_from_status := Some (if ls_status l = APPROVED then APPROVED else LIVE),
                  ls_status := PAUSED\<rparr>) db))"

definition resumeListing ::
    "us \<Rightarrow> uuid \<Rightarrow> uuid \<Rightarrow> listings_db \<Rightarrow> (uuid \<times> listing_status) result \<times> listings_db" where
  "resumeListing clock userId listingId db =
     (case assertCanList userId db of
        Inl e \<Rightarrow> (Inl e, db)
      | Inr _ \<Rightarrow>
     (case requireOwnedListing userId listingId db of
        Inl e \<Rightarrow> (Inl e, db)
      | Inr l \<Rightarrow>
          if ls_status l \<noteq> PAUSED then (Inl (Bad_Request ''Only paused listings can be resumed.''), db)
          else
            let restoreTo = (if ls_paused_from_status l = Some APPROVED then APPROVED else LIVE)
            in (Inr (ls_id l, restoreTo),
                save_listing clock (l\<lparr>ls_status := restoreTo, ls_paused_from_status := None\<rparr>) db)))"

section \<open>The administrator's side\<close>

text \<open>\<^verbatim>\<open>admin-stays.service.ts\<close>: approving and rejecting what was submitted, setting live, pausing, resuming.\<close>

definition find_for_admin :: "uuid \<Rightarrow> listings_db \<Rightarrow> host_listing result" where
  "find_for_admin listingId db =
     (case find_host_listing listingId db of None \<Rightarrow> Inl (Not_Found ''Listing not found'') | Some l \<Rightarrow> Inr l)"

definition publish_listing :: "uuid \<Rightarrow> listings_db \<Rightarrow> listings_db" where
  "publish_listing listingId db = db\<lparr>listing_events := listing_events db @ [(''EVENTS.LISTING_PUBLISHED'', listingId)]\<rparr>"

definition approveListing ::
    "us \<Rightarrow> uuid \<Rightarrow> string \<Rightarrow> listings_db \<Rightarrow> listing_status result \<times> listings_db" where
  "approveListing clock listingId admin db =
     (case find_for_admin listingId db of
        Inl e \<Rightarrow> (Inl e, db)
      | Inr l \<Rightarrow>
          if ls_status l \<noteq> SUBMITTED then (Inl (Bad_Request ''Only SUBMITTED listings can be approved''), db)
          else (Inr APPROVED, host_audit_row admin listingId ''LISTING_APPROVED''
                  (save_listing clock (l\<lparr>ls_status := APPROVED\<rparr>) db)))"

definition rejectListing ::
    "us \<Rightarrow> uuid \<Rightarrow> string \<Rightarrow> listings_db \<Rightarrow> listing_status result \<times> listings_db" where
  "rejectListing clock listingId admin db =
     (case find_for_admin listingId db of
        Inl e \<Rightarrow> (Inl e, db)
      | Inr l \<Rightarrow>
          if ls_status l \<noteq> SUBMITTED then (Inl (Bad_Request ''Only SUBMITTED listings can be rejected''), db)
          else (Inr REJECTED, host_audit_row admin listingId ''LISTING_REJECTED''
                  (save_listing clock (l\<lparr>ls_status := REJECTED\<rparr>) db)))"

definition setListingLive ::
    "us \<Rightarrow> uuid \<Rightarrow> string \<Rightarrow> listings_db \<Rightarrow> listing_status result \<times> listings_db" where
  "setListingLive clock listingId admin db =
     (case find_for_admin listingId db of
        Inl e \<Rightarrow> (Inl e, db)
      | Inr l \<Rightarrow>
          if ls_status l \<noteq> APPROVED then (Inl (Bad_Request ''Only APPROVED listings can be set LIVE''), db)
          else (Inr LIVE, publish_listing listingId (host_audit_row admin listingId ''LISTING_SET_LIVE''
                  (save_listing clock (l\<lparr>ls_status := LIVE\<rparr>) db))))"

definition ADMIN_PAUSABLE_STATUSES :: "listing_status list" where
  "ADMIN_PAUSABLE_STATUSES = [LIVE, APPROVED]"

definition adminPauseListing ::
    "us \<Rightarrow> uuid \<Rightarrow> string \<Rightarrow> listings_db \<Rightarrow> listing_status result \<times> listings_db" where
  "adminPauseListing clock listingId admin db =
     (case find_for_admin listingId db of
        Inl e \<Rightarrow> (Inl e, db)
      | Inr l \<Rightarrow>
          if ls_status l \<notin> set ADMIN_PAUSABLE_STATUSES
          then (Inl (Bad_Request ''Only LIVE or APPROVED listings can be paused''), db)
          else (Inr PAUSED, host_audit_row admin listingId ''LISTING_PAUSED''
                  (save_listing clock (l\<lparr>ls_paused_from_status := Some (if ls_status l = APPROVED then APPROVED else LIVE),
                     ls_status := PAUSED\<rparr>) db)))"

definition unpauseListing ::
    "us \<Rightarrow> uuid \<Rightarrow> string \<Rightarrow> listings_db \<Rightarrow> listing_status result \<times> listings_db" where
  "unpauseListing clock listingId admin db =
     (case find_for_admin listingId db of
        Inl e \<Rightarrow> (Inl e, db)
      | Inr l \<Rightarrow>
          if ls_status l \<noteq> PAUSED then (Inl (Bad_Request ''Only PAUSED listings can be resumed''), db)
          else if (case find_profile (ls_host_user_id l) db of None \<Rightarrow> False | Some p \<Rightarrow> ha_listing_frozen p)
          then (Inl (Bad_Request ''Host listing access is frozen. Unfreeze the host before resuming this listing.''), db)
          else
            let restoreTo = (if ls_paused_from_status l = Some APPROVED then APPROVED else LIVE);
                db1 = host_audit_row admin listingId ''LISTING_RESUMED''
                        (save_listing clock (l\<lparr>ls_status := restoreTo, ls_paused_from_status := None\<rparr>) db)
            in (Inr restoreTo, if restoreTo = LIVE then publish_listing listingId db1 else db1))"

definition set_frozen :: "bool \<Rightarrow> string \<Rightarrow> uuid \<Rightarrow> string \<Rightarrow> host_account \<Rightarrow> listings_db \<Rightarrow> listings_db" where
  "set_frozen b action i admin p db = host_audit_row admin i action (save_profile (p\<lparr>ha_listing_frozen := b\<rparr>) db)"

definition freezeHost :: "uuid \<Rightarrow> string \<Rightarrow> listings_db \<Rightarrow> unit result \<times> listings_db" where
  "freezeHost i admin db =
     (case find_profile_id i db of
        None \<Rightarrow> (Inl (Not_Found ''Host profile not found''), db)
      | Some p \<Rightarrow>
          if ha_verification p \<noteq> HV_APPROVED then (Inl (Bad_Request ''Only approved hosts can be frozen''), db)
          else (Inr (), set_frozen True ''HOST_LISTING_FROZEN'' i admin p db))"

definition unfreezeHost :: "uuid \<Rightarrow> string \<Rightarrow> listings_db \<Rightarrow> unit result \<times> listings_db" where
  "unfreezeHost i admin db =
     (case find_profile_id i db of
        None \<Rightarrow> (Inl (Not_Found ''Host profile not found''), db)
      | Some p \<Rightarrow> (Inr (), set_frozen False ''HOST_LISTING_UNFROZEN'' i admin p db))"

section \<open>Publication\<close>

text \<open>
  What the status of a listing needs in the audit trail: an administrator's approval for everything past
  the review, and an administrator's go-live for what is live or was live when it was paused.
\<close>

definition audited :: "host_audit list \<Rightarrow> uuid \<Rightarrow> string \<Rightarrow> bool" where
  "audited au i action \<longleftrightarrow> (\<exists>x\<in>set au. hx_entity x = i \<and> hx_action x = action)"

definition was_live :: "host_listing \<Rightarrow> bool" where
  "was_live l \<longleftrightarrow> ls_status l = LIVE \<or> ls_status l = PAUSED \<and> ls_paused_from_status l \<noteq> Some APPROVED"

definition publication_ok :: "host_audit list \<Rightarrow> host_listing \<Rightarrow> bool" where
  "publication_ok au l \<longleftrightarrow>
     (ls_status l \<in> {APPROVED, LIVE, PAUSED} \<longrightarrow> audited au (ls_id l) ''LISTING_APPROVED'') \<and>
     (was_live l \<longrightarrow> audited au (ls_id l) ''LISTING_SET_LIVE'')"

definition listings_inv :: "listings_db \<Rightarrow> bool" where
  "listings_inv db \<longleftrightarrow> keyed ls_id (host_listings db) \<and> (\<forall>l\<in>set (host_listings db). publication_ok (host_audits db) l)"

inductive host_step :: "listings_db \<Rightarrow> listings_db \<Rightarrow> bool" where
  create: "createListing i now clock u d db = (r, db') \<Longrightarrow> i \<notin> ls_id ` set (host_listings db) \<Longrightarrow> host_step db db'"
| edit: "updateListing now clock u i p db = (r, db') \<Longrightarrow> host_step db db'"
| media: "replaceListingMedia stored gen now clock u i ms db = (r, db') \<Longrightarrow> host_step db db'"
| units: "replaceListingUnitTypes parse now clock u i us db = (r, db') \<Longrightarrow> host_step db db'"
| submit: "submitListing now clock u i db = (r, db') \<Longrightarrow> host_step db db'"
| pause: "pauseListing clock u i db = (r, db') \<Longrightarrow> host_step db db'"
| resume: "resumeListing clock u i db = (r, db') \<Longrightarrow> host_step db db'"
| approve: "approveListing clock i a db = (r, db') \<Longrightarrow> host_step db db'"
| reject: "rejectListing clock i a db = (r, db') \<Longrightarrow> host_step db db'"
| go_live: "setListingLive clock i a db = (r, db') \<Longrightarrow> host_step db db'"
| admin_pause: "adminPauseListing clock i a db = (r, db') \<Longrightarrow> host_step db db'"
| admin_resume: "unpauseListing clock i a db = (r, db') \<Longrightarrow> host_step db db'"
| freeze: "freezeHost i a db = (r, db') \<Longrightarrow> host_step db db'"
| unfreeze: "unfreezeHost i a db = (r, db') \<Longrightarrow> host_step db db'"
| apply_host: "submitHostOnboarding stored i now hu d src sf req db = (r, db') \<Longrightarrow> host_step db db'"
| approve_account: "approve_host now i a db = (r, db') \<Longrightarrow> host_step db db'"
| reject_account: "reject_write now reason a p db = db' \<Longrightarrow> host_step db db'"

inductive host_reachable :: "listings_db \<Rightarrow> bool" where
  start: "host_listings db = [] \<Longrightarrow> host_reachable db"
| step: "host_reachable db \<Longrightarrow> host_step db db' \<Longrightarrow> host_reachable db'"

lemma publication_mono: "publication_ok au l \<Longrightarrow> set au \<subseteq> set au' \<Longrightarrow> publication_ok au' l"
  by (auto simp: publication_ok_def audited_def)

lemma publication_cong:
  "ls_status l' = ls_status l \<Longrightarrow> ls_paused_from_status l' = ls_paused_from_status l \<Longrightarrow> ls_id l' = ls_id l \<Longrightarrow>
   publication_ok au l' = publication_ok au l"
  by (simp add: publication_ok_def was_live_def)

lemma inv_save:
  assumes "listings_inv db" and "find_host_listing i db = Some l" and "ls_id new = ls_id l"
    and "host_listings db' = host_listings (save_listing clock new db)" and "set (host_audits db) \<subseteq> set (host_audits db')"
    and "publication_ok (host_audits db') new"
  shows "listings_inv db'"
proof -
  have "keyed ls_id (host_listings db')"
    using assms(1,3) unfolding assms(4) save_listing_def by (auto simp: listings_inv_def intro!: keyed_update_where)
  moreover have "publication_ok (host_audits db') x" if "x \<in> set (host_listings db')" for x
  proof -
    have "x = new\<lparr>hl_updated_at := clock\<rparr> \<or> x \<in> set (host_listings db)"
      using that by (auto simp: assms(4) save_listing_def set_update_where)
    then show ?thesis
      using assms(1,5,6) publication_mono publication_cong [of "new\<lparr>hl_updated_at := clock\<rparr>" new]
      by (auto simp: listings_inv_def)
  qed
  ultimately show ?thesis by (simp add: listings_inv_def)
qed

lemma inv_touch:
  assumes "listings_inv db" and "\<And>x. ls_status (f x) = ls_status x \<and> ls_paused_from_status (f x) = ls_paused_from_status x \<and> ls_id (f x) = ls_id x"
  shows "listings_inv (touch_listing now clock i f db)"
proof -
  have "publication_ok au ((f x)\<lparr>hl_last_edited_at := t, hl_updated_at := c\<rparr>) = publication_ok au x" for au x t c
    using assms(2) [of x] publication_cong [of "(f x)\<lparr>hl_last_edited_at := t, hl_updated_at := c\<rparr>" x] by simp
  then show ?thesis
    using assms by (auto simp: touch_listing_def listings_inv_def keyed_update_where set_update_where)
qed

lemma inv_frame:
  "listings_inv db \<Longrightarrow> host_listings db' = host_listings db \<Longrightarrow> set (host_audits db) \<subseteq> set (host_audits db') \<Longrightarrow> listings_inv db'"
  by (auto simp: listings_inv_def intro: publication_mono)

lemma owned_found: "requireOwnedListing u i db = Inr l \<Longrightarrow> find_host_listing i db = Some l"
  by (auto simp: requireOwnedListing_def split: option.splits if_splits)

lemma admin_found: "find_for_admin i db = Inr l \<Longrightarrow> find_host_listing i db = Some l"
  by (auto simp: find_for_admin_def split: option.splits)

lemma found_id: "find_host_listing i db = Some l \<Longrightarrow> ls_id l = i \<and> l \<in> set (host_listings db)"
  using find_where_Some [of "\<lambda>l. ls_id l = i" "host_listings db" l] by (simp add: find_host_listing_def)

definition same_status :: "host_listing \<Rightarrow> host_listing \<Rightarrow> bool" where
  "same_status l m \<longleftrightarrow> ls_status l = ls_status m \<and> ls_paused_from_status l = ls_paused_from_status m \<and> ls_id l = ls_id m"

lemma patch_location_status: "same_status (patch_location d l) l"
  by (simp add: patch_location_def same_status_def)

lemma patch_columns_status: "same_status (patch_columns now d l) l"
  using patch_location_status [of d l] by (simp add: patch_columns_def Let_def same_status_def)

lemma patch_rules_status: "same_status (patch_rules d l) l"
  by (simp add: patch_rules_def same_status_def split: option.split)

lemma patch_rate_plan_status: "same_status (patch_rate_plan d l) l"
  by (simp add: patch_rate_plan_def same_status_def Let_def split: option.split list.split)

lemma patch_contact_status: "same_status (patch_contact d l) l"
  by (simp add: patch_contact_def same_status_def split: option.split)

lemma patched_status:
  "same_status (patch_contact c (patch_rate_plan rp (patch_rules ru (patch_columns now d l)))) l"
  using patch_contact_status patch_rate_plan_status patch_rules_status patch_columns_status
  unfolding same_status_def by metis

lemma updateListing_saved:
  assumes "db' \<noteq> db" and "updateListing now clock u i p db = (r, db')"
  obtains l l1 where "requireOwnedListing u i db = Inr l" and "same_status l1 l" and "db' = save_listing clock l1 db"
proof -
  obtain l where l: "requireOwnedListing u i db = Inr l"
    using assms by (cases "requireOwnedListing u i db") (auto simp: updateListing_def split: sum.splits)
  then have "db' = save_listing clock (patch_contact (pa_contact p) (patch_rate_plan (pa_rate_plan p)
      (patch_rules (pa_rules p) (patch_columns now p l)))) db"
    using assms by (simp add: updateListing_def Let_def split: sum.splits if_splits)
  then show thesis by (rule that [OF l patched_status])
qed

lemma host_audit_frame [simp]:
  "host_listings (host_audit_row a i x db) = host_listings db"
  "set (host_audits (host_audit_row a i x db)) = insert \<lparr>hx_actor = a, hx_entity = i, hx_action = x\<rparr> (set (host_audits db))"
  by (simp_all add: host_audit_row_def set_insert_row)

lemma save_profile_frame [simp]:
  "host_listings (save_profile p db) = host_listings db" "host_audits (save_profile p db) = host_audits db"
  by (simp_all add: save_profile_def)

lemma publish_listing_frame [simp]:
  "host_listings (publish_listing i db) = host_listings db" "host_audits (publish_listing i db) = host_audits db"
  by (simp_all add: publish_listing_def)

lemma save_listing_audits [simp]: "host_audits (save_listing c l db) = host_audits db"
  by (simp add: save_listing_def)

lemma audit_row_audited [simp]:
  fixes db :: listings_db
  shows "audited (host_audits (host_audit_row a i x db)) i x"
  by (simp add: audited_def)

lemma host_step_inv:
  assumes "host_step db db'" and "listings_inv db"
  shows "listings_inv db'"
  using assms
proof (induction rule: host_step.induct)
  case (create i now clock u d db r db')
  have n: "publication_ok au (draft_listing i now clock u h p d)" "ls_id (draft_listing i now clock u h p d) = i" for au h p
    by (simp_all add: publication_ok_def was_live_def draft_listing_def Let_def)
  show ?case
    using create n
    by (auto simp: createListing_def Let_def listings_inv_def set_insert_row keyed_insert_row split: sum.splits)
next
  case (edit now clock u i p db r db')
  show ?case
  proof (cases "db' = db")
    case False
    then obtain l l1 where l: "requireOwnedListing u i db = Inr l" and same: "same_status l1 l"
      and db': "db' = save_listing clock l1 db"
      using edit(1) by (rule updateListing_saved)
    have i: "ls_id l1 = ls_id l" "publication_ok au l1 = publication_ok au l" for au
      using same by (simp_all add: same_status_def publication_cong [of l1 l])
    have "publication_ok (host_audits db') l1"
      using edit(2) found_id [OF owned_found [OF l]] by (simp add: db' i listings_inv_def)
    then show ?thesis
      by (intro inv_save [OF edit(2) owned_found [OF l] i(1), where db' = db' and clock = clock]) (simp_all add: db')
  qed (use edit in simp)
next
  case (media stored gen now clock u i ms db r db')
  then show ?case
    by (auto simp: replaceListingMedia_def Let_def split: sum.splits if_splits intro!: inv_touch)
next
  case (units parse now clock u i us db r db')
  then show ?case
    by (auto simp: replaceListingUnitTypes_def Let_def split: sum.splits if_splits intro!: inv_touch)
next
  case (submit now clock u i db r db')
  show ?case
  proof (cases "db' = db")
    case False
    then obtain l where l: "requireOwnedListing u i db = Inr l"
      and db': "db' = save_listing clock (l\<lparr>ls_status := SUBMITTED, hl_last_edited_at := date_us now\<rparr>) db"
      using submit(1) by (auto simp: submitListing_def Let_def split: sum.splits if_splits option.splits)
    show ?thesis
      by (rule inv_save [OF submit(2) owned_found [OF l], where new = "l\<lparr>ls_status := SUBMITTED, hl_last_edited_at := date_us now\<rparr>"
          and clock = clock]) (simp_all add: db' publication_ok_def was_live_def)
  qed (use submit in simp)
next
  case (pause clock u i db r db')
  show ?case
  proof (cases "db' = db")
    case False
    then obtain l where l: "requireOwnedListing u i db = Inr l" "ls_status l \<in> set PAUSABLE_STATUSES"
      and db': "db' = save_listing clock (l\<lparr>ls_paused_from_status := Some (if ls_status l = APPROVED then APPROVED else LIVE),
        ls_status := PAUSED\<rparr>) db"
      using pause(1) by (auto simp: pauseListing_def split: sum.splits if_splits)
    have "publication_ok (host_audits db) l" using pause(2) found_id [OF owned_found [OF l(1)]] by (simp add: listings_inv_def)
    then show ?thesis
      using l(2)
      by (intro inv_save [OF pause(2) owned_found [OF l(1)], where new = "l\<lparr>ls_paused_from_status :=
            Some (if ls_status l = APPROVED then APPROVED else LIVE), ls_status := PAUSED\<rparr>" and clock = clock])
        (auto simp: db' publication_ok_def was_live_def PAUSABLE_STATUSES_def)
  qed (use pause in simp)
next
  case (resume clock u i db r db')
  show ?case
  proof (cases "db' = db")
    case False
    then obtain l where l: "requireOwnedListing u i db = Inr l" "ls_status l = PAUSED"
      and db': "db' = save_listing clock (l\<lparr>ls_status := (if ls_paused_from_status l = Some APPROVED then APPROVED else LIVE),
        ls_paused_from_status := None\<rparr>) db"
      using resume(1) by (auto simp: resumeListing_def Let_def split: sum.splits if_splits)
    have "publication_ok (host_audits db) l" using resume(2) found_id [OF owned_found [OF l(1)]] by (simp add: listings_inv_def)
    then show ?thesis
      using l(2)
      by (intro inv_save [OF resume(2) owned_found [OF l(1)], where new = "l\<lparr>ls_status := (if ls_paused_from_status l = Some APPROVED
            then APPROVED else LIVE), ls_paused_from_status := None\<rparr>" and clock = clock])
        (auto simp: db' publication_ok_def was_live_def)
  qed (use resume in simp)
next
  case (approve clock i a db r db')
  show ?case
  proof (cases "db' = db")
    case False
    then obtain l where l: "find_for_admin i db = Inr l"
      and db': "db' = host_audit_row a i ''LISTING_APPROVED'' (save_listing clock (l\<lparr>ls_status := APPROVED\<rparr>) db)"
      using approve(1) by (auto simp: approveListing_def split: sum.splits if_splits)
    show ?thesis
      using found_id [OF admin_found [OF l]]
      by (intro inv_save [OF approve(2) admin_found [OF l], where new = "l\<lparr>ls_status := APPROVED\<rparr>" and clock = clock])
        (auto simp: db' publication_ok_def was_live_def)
  qed (use approve in simp)
next
  case (reject clock i a db r db')
  show ?case
  proof (cases "db' = db")
    case False
    then obtain l where l: "find_for_admin i db = Inr l"
      and db': "db' = host_audit_row a i ''LISTING_REJECTED'' (save_listing clock (l\<lparr>ls_status := REJECTED\<rparr>) db)"
      using reject(1) by (auto simp: rejectListing_def split: sum.splits if_splits)
    show ?thesis
      by (intro inv_save [OF reject(2) admin_found [OF l], where new = "l\<lparr>ls_status := REJECTED\<rparr>" and clock = clock])
        (auto simp: db' publication_ok_def was_live_def)
  qed (use reject in simp)
next
  case (go_live clock i a db r db')
  show ?case
  proof (cases "db' = db")
    case False
    then obtain l where l: "find_for_admin i db = Inr l" "ls_status l = APPROVED"
      and db': "db' = publish_listing i (host_audit_row a i ''LISTING_SET_LIVE'' (save_listing clock (l\<lparr>ls_status := LIVE\<rparr>) db))"
      using go_live(1) by (auto simp: setListingLive_def split: sum.splits if_splits)
    have "publication_ok (host_audits db) l" using go_live(2) found_id [OF admin_found [OF l(1)]] by (simp add: listings_inv_def)
    then have "audited (host_audits db') (ls_id l) ''LISTING_APPROVED''"
      using l(2) by (auto simp: publication_ok_def audited_def db')
    then show ?thesis
      using found_id [OF admin_found [OF l(1)]]
      by (intro inv_save [OF go_live(2) admin_found [OF l(1)], where new = "l\<lparr>ls_status := LIVE\<rparr>" and clock = clock])
        (auto simp: db' publication_ok_def was_live_def)
  qed (use go_live in simp)
next
  case (admin_pause clock i a db r db')
  show ?case
  proof (cases "db' = db")
    case False
    then obtain l where l: "find_for_admin i db = Inr l" "ls_status l \<in> set ADMIN_PAUSABLE_STATUSES"
      and db': "db' = host_audit_row a i ''LISTING_PAUSED'' (save_listing clock
        (l\<lparr>ls_paused_from_status := Some (if ls_status l = APPROVED then APPROVED else LIVE), ls_status := PAUSED\<rparr>) db)"
      using admin_pause(1) by (auto simp: adminPauseListing_def split: sum.splits if_splits)
    have "publication_ok (host_audits db') l"
      using admin_pause(2) found_id [OF admin_found [OF l(1)]]
      by (intro publication_mono [of "host_audits db" l "host_audits db'"]) (auto simp: listings_inv_def db')
    then show ?thesis
      using l(2)
      by (intro inv_save [OF admin_pause(2) admin_found [OF l(1)], where new = "l\<lparr>ls_paused_from_status :=
            Some (if ls_status l = APPROVED then APPROVED else LIVE), ls_status := PAUSED\<rparr>" and clock = clock])
        (auto simp: db' publication_ok_def was_live_def ADMIN_PAUSABLE_STATUSES_def)
  qed (use admin_pause in simp)
next
  case (admin_resume clock i a db r db')
  show ?case
  proof (cases "db' = db")
    case False
    then obtain l where l: "find_for_admin i db = Inr l" "ls_status l = PAUSED"
      and db': "host_listings db' = host_listings (save_listing clock
          (l\<lparr>ls_status := (if ls_paused_from_status l = Some APPROVED then APPROVED else LIVE), ls_paused_from_status := None\<rparr>) db)"
        "set (host_audits db) \<subseteq> set (host_audits db')"
      using admin_resume(1) by (auto simp: unpauseListing_def Let_def subset_insertI split: sum.splits if_splits)
    have "publication_ok (host_audits db') l"
      using admin_resume(2) found_id [OF admin_found [OF l(1)]] publication_mono db'(2) by (auto simp: listings_inv_def)
    then show ?thesis
      using l(2) by (intro inv_save [OF admin_resume(2) admin_found [OF l(1)] _ db']) (auto simp: publication_ok_def was_live_def)
  qed (use admin_resume in simp)
next
  case (freeze i a db r db')
  then have "host_listings db' = host_listings db" "set (host_audits db) \<subseteq> set (host_audits db')"
    by (auto simp: freezeHost_def set_frozen_def split: option.splits if_splits)
  then show ?case by (rule inv_frame [OF freeze(2)])
next
  case (unfreeze i a db r db')
  then have "host_listings db' = host_listings db" "set (host_audits db) \<subseteq> set (host_audits db')"
    by (auto simp: unfreezeHost_def set_frozen_def split: option.splits if_splits)
  then show ?case by (rule inv_frame [OF unfreeze(2)])
next
  case (apply_host stored i now hu d src sf req db r db')
  have "host_listings db' = host_listings db" "set (host_audits db) \<subseteq> set (host_audits db')"
    using apply_host(1) by (auto elim: submitHostOnboarding_cases)
  then show ?case by (rule inv_frame [OF apply_host(2)])
next
  case (approve_account now i a db r db')
  then have "host_listings db' = host_listings db" "set (host_audits db) \<subseteq> set (host_audits db')"
    by (auto simp: approve_host_def split: option.splits if_splits)
  then show ?case by (rule inv_frame [OF approve_account(2)])
next
  case (reject_account now reason a p db db')
  then have "host_listings db' = host_listings db" "set (host_audits db) \<subseteq> set (host_audits db')"
    by (auto simp: reject_write_def)
  then show ?case by (rule inv_frame [OF reject_account(2)])
qed

lemma host_reachable_inv: "host_reachable db \<Longrightarrow> listings_inv db"
proof (induction rule: host_reachable.induct)
  case (start db)
  then show ?case by (simp add: listings_inv_def keyed_def)
qed (rule host_step_inv)

text \<open>
  C34: nothing goes public without an administrator. In every state reachable by the operations of
  hosts and administrators a listing that is approved, live or paused has an approval in the audit
  trail, and one that is live, or returns to live when resumed, also an administrator's go-live.
\<close>

theorem live_listings_were_approved:
  assumes "host_reachable db" and "l \<in> set (host_listings db)"
  shows "(ls_status l \<in> {APPROVED, LIVE, PAUSED} \<longrightarrow>
      (\<exists>x\<in>set (host_audits db). hx_entity x = ls_id l \<and> hx_action x = ''LISTING_APPROVED'')) \<and>
    (ls_status l = LIVE \<or> ls_status l = PAUSED \<and> ls_paused_from_status l \<noteq> Some APPROVED \<longrightarrow>
      (\<exists>x\<in>set (host_audits db). hx_entity x = ls_id l \<and> hx_action x = ''LISTING_SET_LIVE''))"
  using host_reachable_inv [OF assms(1)] assms(2)
  by (auto simp: listings_inv_def publication_ok_def was_live_def audited_def)

lemma saved_found:
  assumes "find_host_listing i db = Some l" and "ls_id l1 = ls_id l"
  shows "find_host_listing i (save_listing c l1 db) = Some (l1\<lparr>hl_updated_at := c\<rparr>)"
proof -
  have i: "ls_id l = i" using found_id [OF assms(1)] by simp
  have "find_where (\<lambda>x. ls_id x = i) (update_where (\<lambda>x. ls_id x = ls_id l1) (\<lambda>_. l1\<lparr>hl_updated_at := c\<rparr>) rows) =
      Some (l1\<lparr>hl_updated_at := c\<rparr>)" if "find_where (\<lambda>x. ls_id x = i) rows = Some l" for rows
    using that assms(2) i by (induction rows) (auto split: if_splits)
  then show ?thesis using assms(1) by (simp add: find_host_listing_def save_listing_def)
qed

text \<open>
  Pausing is undone by resuming. A host who may list and pauses a live or approved listing gets it
  back by resuming, with the status and every other column it had, but for the time of the last write.
\<close>

theorem pause_then_resume:
  assumes "find_host_listing i db = Some l" and "ls_host_user_id l = u" and "canList u db"
    and "ls_status l = LIVE \<or> ls_status l = APPROVED" and "ls_paused_from_status l = None"
  shows "\<exists>db1 db2. pauseListing c1 u i db = (Inr (i, PAUSED), db1) \<and>
    resumeListing c2 u i db1 = (Inr (i, ls_status l), db2) \<and>
    find_host_listing i db2 = Some (l\<lparr>hl_updated_at := c2\<rparr>)"
proof -
  have i: "ls_id l = i" using found_id [OF assms(1)] by simp
  define l1 where "l1 = l\<lparr>ls_paused_from_status := Some (if ls_status l = APPROVED then APPROVED else LIVE), ls_status := PAUSED\<rparr>"
  define db1 where "db1 = save_listing c1 l1 db"
  have p: "pauseListing c1 u i db = (Inr (i, PAUSED), db1)"
    using assms i by (auto simp: pauseListing_def requireOwnedListing_def PAUSABLE_STATUSES_def db1_def l1_def)
  have f1: "find_host_listing i db1 = Some (l1\<lparr>hl_updated_at := c1\<rparr>)"
    unfolding db1_def by (rule saved_found [OF assms(1)]) (simp add: l1_def)
  have c: "canList u db1" using assms(3) by (simp add: canList_def find_profile_def db1_def save_listing_def)
  define l2 where "l2 = (l1\<lparr>hl_updated_at := c1\<rparr>)\<lparr>ls_status := ls_status l, ls_paused_from_status := None\<rparr>"
  have l1: "requireOwnedListing u i db1 = Inr (l1\<lparr>hl_updated_at := c1\<rparr>)" "ls_status l1 = PAUSED" "ls_id l1 = i"
      "(if ls_paused_from_status l1 = Some APPROVED then APPROVED else LIVE) = ls_status l"
    using f1 assms(2,4) i by (auto simp: requireOwnedListing_def l1_def)
  have r: "resumeListing c2 u i db1 = (Inr (i, ls_status l), save_listing c2 l2 db1)"
    using l1 c by (simp add: resumeListing_def assertCanList_def l2_def Let_def)
  have "find_host_listing i (save_listing c2 l2 db1) = Some (l2\<lparr>hl_updated_at := c2\<rparr>)"
    by (rule saved_found [OF f1]) (simp add: l2_def l1_def)
  moreover have "l2\<lparr>hl_updated_at := c2\<rparr> = l\<lparr>hl_updated_at := c2\<rparr>" using assms(5) by (simp add: l2_def l1_def)
  ultimately show ?thesis using p r by auto
qed

text \<open>
  The rule that a live listing keeps at least one unit type has a way round it. It is checked only
  while the listing is live or approved: the host pauses it, removes every unit type and resumes.
\<close>

theorem live_without_units:
  assumes "find_host_listing i db = Some l" and "ls_host_user_id l = u" and "canList u db" and "ls_status l = LIVE"
  shows "(\<exists>e. replaceListingUnitTypes parse now c u i [] db = (Inl e, db)) \<and>
    (\<exists>db1 db2 db3 l3 x. pauseListing c u i db = (Inr (i, PAUSED), db1) \<and>
       replaceListingUnitTypes parse now c u i [] db1 = (Inr x, db2) \<and>
       resumeListing c u i db2 = (Inr (i, LIVE), db3) \<and>
       find_host_listing i db3 = Some l3 \<and> ls_status l3 = LIVE \<and> hl_unit_types l3 = [])"
proof -
  have i: "ls_id l = i" using found_id [OF assms(1)] by simp
  define l1 where "l1 = l\<lparr>ls_paused_from_status := Some LIVE, ls_status := PAUSED, hl_updated_at := c\<rparr>"
  define db1 where "db1 = save_listing c (l\<lparr>ls_paused_from_status := Some LIVE, ls_status := PAUSED\<rparr>) db"
  have p: "pauseListing c u i db = (Inr (i, PAUSED), db1)"
    using assms i by (auto simp: pauseListing_def requireOwnedListing_def PAUSABLE_STATUSES_def db1_def)
  have f1: "find_host_listing i db1 = Some l1"
    unfolding db1_def l1_def by (subst saved_found [OF assms(1)]) simp_all
  have c1: "canList u db1" using assms(3) by (simp add: canList_def find_profile_def db1_def save_listing_def)
  define f where "f = (\<lambda>x :: host_listing. x\<lparr>hl_unit_types := [],
    ls_rate_plan := map_option (\<lambda>r. r\<lparr>rp_base_price := 0\<rparr>) (ls_rate_plan x)\<rparr>)"
  define l2 where "l2 = (f l1)\<lparr>hl_last_edited_at := date_us now, hl_updated_at := c\<rparr>"
  define db2 where "db2 = touch_listing now c i f db1"
  have f2: "find_host_listing i db2 = Some l2"
  proof -
    have "find_where (\<lambda>x. ls_id x = i) (update_where (\<lambda>x. ls_id x = i) g rows) = Some (g l1)"
      if "find_where (\<lambda>x. ls_id x = i) rows = Some l1" "\<And>x. ls_id (g x) = ls_id x" for rows and g :: "host_listing \<Rightarrow> host_listing"
      using that by (induction rows) (auto split: if_splits)
    then show ?thesis using f1 by (simp add: find_host_listing_def db2_def touch_listing_def l2_def f_def)
  qed
  have own: "requireOwnedListing u i db1 = Inr l1" "requireOwnedListing u i db2 = Inr l2"
    using f1 f2 assms(2) by (simp_all add: requireOwnedListing_def l1_def l2_def f_def)
  have u2: "replaceListingUnitTypes parse now c u i [] db1 = (Inr l2, db2)"
    using own c1 by (simp add: replaceListingUnitTypes_def assertCanList_def Let_def EDITABLE_STATUSES_def l1_def
        getHostListingById_def least_unit_price_def db2_def f_def)
  have c2: "canList u db2" using c1 by (simp add: canList_def find_profile_def db2_def touch_listing_def)
  define l3 where "l3 = l2\<lparr>ls_status := LIVE, ls_paused_from_status := None\<rparr>"
  have i2: "ls_id l2 = i" using i by (simp add: l2_def f_def l1_def)
  have r: "resumeListing c u i db2 = (Inr (i, LIVE), save_listing c l3 db2)"
    using own(2) c2 i2 by (simp add: resumeListing_def assertCanList_def Let_def l3_def) (simp add: l2_def f_def l1_def)
  have f3: "find_host_listing i (save_listing c l3 db2) = Some (l3\<lparr>hl_updated_at := c\<rparr>)"
    by (rule saved_found [OF f2]) (simp add: l3_def)
  have e: "\<exists>e. replaceListingUnitTypes parse now c u i [] db = (Inl e, db)"
    using assms by (simp add: replaceListingUnitTypes_def assertCanList_def requireOwnedListing_def EDITABLE_STATUSES_def)
  show ?thesis using e p u2 r f3 by (auto simp: l3_def l2_def f_def)
qed

section \<open>Witnesses\<close>

definition sample_host :: host_account where
  "sample_host = (new_profile ''p1'' \<lparr>hu_user_id = ''h1'', hu_phone = None, hu_email = None, hu_snapshot = None\<rparr> ''WEB'' ''X'')
     \<lparr>ha_application := AP_APPROVED, ha_verification := HV_APPROVED, ha_full_name := Some ''Amina''\<rparr>"

definition empty_listings :: listings_db where
  "empty_listings = \<lparr>hosts = [sample_host], host_audits = [], host_listings = [], listing_events = []\<rparr>"

definition full_patch :: listing_patch where
  "full_patch = \<lparr>pa_title = Some ''Riad Zohra'', pa_listing_type = None, pa_city = Some ''Fes'', pa_neighborhood = None,
     pa_address = Some (Some ''Derb 1''), pa_postal_code = None, pa_building_name = None, pa_landmark = None,
     pa_geo_lat = Some (Some ''34.03''), pa_geo_lng = Some (Some ''-4.98''),
     pa_description = Some (Some ''A quiet house in the medina''), pa_checkin_time = None, pa_checkout_time = None,
     pa_instant_booking = None, pa_property_details = None, pa_policies = None, pa_safety_features = None,
     pa_rules = None, pa_rate_plan = Some \<lparr>rt_currency = None, rt_base_price = Some 50000, rt_weekend_price = None\<rparr>,
     pa_contact = None\<rparr>"

definition photo :: "string \<Rightarrow> media_dto" where
  "photo a = \<lparr>md_asset_id = a, md_kind = PHOTO, md_sort_order = None, md_category = None, md_is_cover = None\<rparr>"

definition drafted :: listings_db where
  "drafted = snd (createListing ''l1'' 1 1 ''h1'' \<lparr>dd_listing_type = RIAD, dd_guest_house = False, dd_property_details = []\<rparr> empty_listings)"

definition filled_listings :: listings_db where
  "filled_listings = snd (replaceListingMedia (\<lambda>k. True) (\<lambda>n. ''m'') 3 3 ''h1'' ''l1''
     (map photo [''a'', ''b'', ''c'', ''d'', ''e'']) (snd (updateListing 2 2 ''h1'' ''l1'' full_patch drafted)))"

definition live_listings :: listings_db where
  "live_listings = snd (setListingLive 6 ''l1'' ''adm'' (snd (approveListing 5 ''l1'' ''adm''
     (snd (submitListing 4 4 ''h1'' ''l1'' filled_listings)))))"

lemma live_listings_state: "map (\<lambda>l. (ls_id l, ls_host_user_id l, ls_status l)) (host_listings live_listings) = [(''l1'', ''h1'', LIVE)]"
  by code_simp

lemma live_listings_reachable: "host_reachable live_listings"
proof -
  have "host_reachable empty_listings" by (rule host_reachable.start) (simp add: empty_listings_def)
  then have "host_reachable drafted" unfolding drafted_def
    by (rule host_reachable.step) (rule host_step.create [OF prod.collapse [symmetric]], simp add: empty_listings_def)
  then have "host_reachable (snd (updateListing 2 2 ''h1'' ''l1'' full_patch drafted))"
    by (rule host_reachable.step) (rule host_step.edit [OF prod.collapse [symmetric]])
  then have "host_reachable filled_listings" unfolding filled_listings_def
    by (rule host_reachable.step) (rule host_step.media [OF prod.collapse [symmetric]])
  then have "host_reachable (snd (submitListing 4 4 ''h1'' ''l1'' filled_listings))"
    by (rule host_reachable.step) (rule host_step.submit [OF prod.collapse [symmetric]])
  then have "host_reachable (snd (approveListing 5 ''l1'' ''adm'' (snd (submitListing 4 4 ''h1'' ''l1'' filled_listings))))"
    by (rule host_reachable.step) (rule host_step.approve [OF prod.collapse [symmetric]])
  then show ?thesis unfolding live_listings_def
    by (rule host_reachable.step) (rule host_step.go_live [OF prod.collapse [symmetric]])
qed

theorem live_listings_were_approved_witness:
  "\<exists>x l. l \<in> set (host_listings live_listings) \<and> ls_status l = LIVE \<and> x \<in> set (host_audits live_listings) \<and>
     hx_entity x = ls_id l \<and> hx_action x = ''LISTING_SET_LIVE''"
proof -
  obtain l where l: "l \<in> set (host_listings live_listings)" "ls_status l = LIVE"
    using live_listings_state by (cases "host_listings live_listings") auto
  show ?thesis using live_listings_were_approved [OF live_listings_reachable l(1)] l by blast
qed

lemma live_listing_found:
  obtains l where "find_host_listing ''l1'' live_listings = Some l" and "ls_host_user_id l = ''h1''" and "ls_status l = LIVE"
    and "ls_paused_from_status l = None" and "canList ''h1'' live_listings"
proof -
  have "map_option (\<lambda>l. (ls_host_user_id l, ls_status l, ls_paused_from_status l)) (find_host_listing ''l1'' live_listings) =
      Some (''h1'', LIVE, None)" by code_simp
  moreover have "canList ''h1'' live_listings" by code_simp
  ultimately show thesis using that by (cases "find_host_listing ''l1'' live_listings") auto
qed

theorem pause_then_resume_witness:
  "\<exists>db1 db2. pauseListing 7 ''h1'' ''l1'' live_listings = (Inr (''l1'', PAUSED), db1) \<and>
     resumeListing 8 ''h1'' ''l1'' db1 = (Inr (''l1'', LIVE), db2)"
proof -
  obtain l where l: "find_host_listing ''l1'' live_listings = Some l" "ls_host_user_id l = ''h1''" "ls_status l = LIVE"
    "ls_paused_from_status l = None" "canList ''h1'' live_listings" by (rule live_listing_found)
  show ?thesis using pause_then_resume [OF l(1,2,5) _ l(4), of 7 8] l(3) by auto
qed

theorem live_without_units_witness:
  "\<exists>db l3. find_host_listing ''l1'' db = Some l3 \<and> ls_status l3 = LIVE \<and> hl_unit_types l3 = []"
proof -
  obtain l where l: "find_host_listing ''l1'' live_listings = Some l" "ls_host_user_id l = ''h1''" "ls_status l = LIVE"
    "ls_paused_from_status l = None" "canList ''h1'' live_listings" by (rule live_listing_found)
  show ?thesis using live_without_units [OF l(1,2,5,3), of "\<lambda>j. None" 9 9] by blast
qed

end
