(* ===== verification/HostLists.thy ===== *)
theory HostLists
  imports KeysetPages HostListings
begin

text \<open>
  The paged lists of the host portal: \<^verbatim>\<open>services/host-bookings-list.service.ts\<close> with the filters and
  the urgency rank of \<^verbatim>\<open>utils/host-bookings-list-sql.util.ts\<close>, and \<^verbatim>\<open>listHostListingsPage\<close> of
  \<^verbatim>\<open>services/host-listings.service.ts\<close>. The collation of the data base is the function \<open>coll\<close> that maps
  a text to its sort key (ties are broken by the bytes of the text); a uuid is ordered by its bytes.
  \<open>occ\<close> are the occupants of a booking in the order of their ids, and \<open>today\<close> is the day in Casablanca.
\<close>

section \<open>Host bookings: filters and urgency\<close>

definition stay_active :: "booking \<Rightarrow> bool" where
  "stay_active b \<longleftrightarrow> bk_status b \<in> {CONFIRMED, CHECKED_IN}"

definition checkout_eligible :: "booking \<Rightarrow> bool" where
  "checkout_eligible b \<longleftrightarrow> bk_status b \<in> {CONFIRMED, CHECKED_IN, COMPLETED}"

definition payment_pending :: "booking \<Rightarrow> bool" where
  "payment_pending b \<longleftrightarrow> bk_status b \<in> {INITIATED, PAYMENT_PENDING}"

definition cancelled_or_expired :: "booking \<Rightarrow> bool" where
  "cancelled_or_expired b \<longleftrightarrow> bk_status b \<in> {CANCELLED_BY_GUEST, CANCELLED_BY_HOST, EXPIRED}"

definition opsUrgencyRank :: "day \<Rightarrow> booking \<Rightarrow> int" where
  "opsUrgencyRank today b =
     (if checkout_eligible b \<and> bk_checkout_date b = today then 0
      else if stay_active b \<and> bk_checkin_date b = today then 1
      else if stay_active b \<and> bk_checkin_date b = today + 1 then 2
      else if payment_pending b then 3
      else if stay_active b \<and> bk_checkin_date b \<le> today \<and> bk_checkout_date b > today then 4
      else if stay_active b \<and> bk_checkin_date b > today then 5
      else if bk_status b = COMPLETED then 6
      else if cancelled_or_expired b then 7
      else 8)"

datatype booking_filter =
  BF_all | BF_today | BF_checkin_today | BF_checkout_today | BF_upcoming | BF_current | BF_awaiting_payment
  | BF_completed | BF_cancelled

definition applyHostBookingFilter :: "day \<Rightarrow> booking_filter \<Rightarrow> booking \<Rightarrow> bool" where
  "applyHostBookingFilter today f b =
     (case f of
        BF_all \<Rightarrow> True
      | BF_today \<Rightarrow>
          (stay_active b \<and> bk_checkin_date b = today \<and> \<not> (checkout_eligible b \<and> bk_checkout_date b = today)) \<or>
          (checkout_eligible b \<and> bk_checkout_date b = today)
      | BF_checkin_today \<Rightarrow>
          stay_active b \<and> bk_checkin_date b = today \<and> \<not> (checkout_eligible b \<and> bk_checkout_date b = today)
      | BF_checkout_today \<Rightarrow> checkout_eligible b \<and> bk_checkout_date b = today
      | BF_upcoming \<Rightarrow> stay_active b \<and> bk_checkin_date b > today
      | BF_current \<Rightarrow> stay_active b \<and> bk_checkin_date b \<le> today \<and> bk_checkout_date b > today
      | BF_awaiting_payment \<Rightarrow> payment_pending b
      | BF_completed \<Rightarrow> bk_status b = COMPLETED
      | BF_cancelled \<Rightarrow> cancelled_or_expired b)"

section \<open>Host bookings: scope and order\<close>

text \<open>SQL's \<^verbatim>\<open>TRIM\<close> removes blanks only.\<close>

definition sql_trim :: "string \<Rightarrow> string" where
  "sql_trim s = rev (dropWhile (\<lambda>c. c = CHR '' '') (rev (dropWhile (\<lambda>c. c = CHR '' '') s)))"

definition guestDisplayName :: "occupant list \<Rightarrow> string option" where
  "guestDisplayName occs =
     (case find_where oc_is_primary occs of
        Some o1 \<Rightarrow> Some (sql_trim (oc_full_name o1))
      | None \<Rightarrow>
          (case find_where (\<lambda>x. sql_trim (oc_full_name x) \<noteq> []) occs of
             Some o2 \<Rightarrow> Some (sql_trim (oc_full_name o2))
           | None \<Rightarrow> (case occs of [] \<Rightarrow> None | x # _ \<Rightarrow> Some (sql_trim (oc_full_name x)))))"

definition guest_sort_name :: "occupant list \<Rightarrow> string" where
  "guest_sort_name occs = js_lower (case guestDisplayName occs of None \<Rightarrow> [] | Some n \<Rightarrow> n)"

datatype booking_sort = BS_ops | BS_checkin | BS_checkout | BS_amount | BS_guest

record bookings_query =
  bq_limit :: "int option"
  bq_filter :: "booking_filter option"
  bq_sort :: "booking_sort option"
  bq_search :: string
  bq_listing_id :: string

record bookings_view =
  bv_bookings :: "booking list"
  bv_listings :: "listing list"
  bv_occupants :: "booking \<Rightarrow> occupant list"

definition listing_of :: "bookings_view \<Rightarrow> booking \<Rightarrow> listing option" where
  "listing_of v b = find_where (\<lambda>l. ls_id l = bk_listing_id b) (bv_listings v)"

definition search_hit :: "bookings_view \<Rightarrow> string \<Rightarrow> booking \<Rightarrow> bool" where
  "search_hit v search b \<longleftrightarrow>
     search_matches search (case guestDisplayName (bv_occupants v b) of None \<Rightarrow> [] | Some n \<Rightarrow> n) \<or>
     search_matches search (case listing_of v b of None \<Rightarrow> [] | Some l \<Rightarrow> ls_title l) \<or>
     search_matches search (bk_id b) \<or> search_matches search (bk_booking_reference b) \<or>
     search_matches search (bk_listing_id b)"

definition in_scope :: "bookings_view \<Rightarrow> uuid \<Rightarrow> day \<Rightarrow> bookings_query \<Rightarrow> booking_filter \<Rightarrow> booking \<Rightarrow> bool" where
  "in_scope v host today q f b \<longleftrightarrow>
     (case listing_of v b of None \<Rightarrow> False | Some l \<Rightarrow> ls_host_user_id l = host) \<and>
     (bq_listing_id q = [] \<or> bk_listing_id b = bq_listing_id q) \<and>
     applyHostBookingFilter today f b \<and>
     (js_trim (bq_search q) = [] \<or> search_hit v (js_trim (bq_search q)) b)"

definition getHostBookingsCounts :: "bookings_view \<Rightarrow> uuid \<Rightarrow> day \<Rightarrow> bookings_query \<Rightarrow> booking_filter \<Rightarrow> nat" where
  "getHostBookingsCounts v host today q f = length (filter (in_scope v host today q f) (bv_bookings v))"

type_synonym sort_key = "int \<times> int \<times> string \<times> string \<times> string"

definition booking_key :: "(string \<Rightarrow> string) \<Rightarrow> bookings_view \<Rightarrow> day \<Rightarrow> booking_sort \<Rightarrow> booking \<Rightarrow> sort_key" where
  "booking_key coll v today s b =
     (case s of
        BS_ops \<Rightarrow> (opsUrgencyRank today b, bk_checkin_date b, [], [], bk_id b)
      | BS_checkin \<Rightarrow> (bk_checkin_date b, 0, [], [], bk_id b)
      | BS_checkout \<Rightarrow> (bk_checkout_date b, 0, [], [], bk_id b)
      | BS_amount \<Rightarrow> (bk_total_subtotal b, 0, [], [], bk_id b)
      | BS_guest \<Rightarrow> let g = guest_sort_name (bv_occupants v b) in (0, 0, coll g, g, bk_id b))"

definition ordered_bookings ::
    "(string \<Rightarrow> string) \<Rightarrow> bookings_view \<Rightarrow> uuid \<Rightarrow> day \<Rightarrow> bookings_query \<Rightarrow> booking_sort \<Rightarrow> booking_filter \<Rightarrow> booking list" where
  "ordered_bookings coll v host today q s f =
     order_by (\<lambda>x y. booking_key coll v today s x < booking_key coll v today s y)
       (filter (in_scope v host today q f) (bv_bookings v))"

section \<open>Host bookings: cursor and page\<close>

datatype booking_keys =
  Ops_Keys int day | Checkin_Keys day | Checkout_Keys day | Amount_Keys rat | Guest_Keys string

type_synonym booking_cursor = "booking_keys \<times> uuid"

text \<open>\<^verbatim>\<open>applyKeyset\<close>: the rows after the cursor, by the sort the query has (the cursor's context binds it).\<close>

definition after_booking ::
    "(string \<Rightarrow> string) \<Rightarrow> bookings_view \<Rightarrow> day \<Rightarrow> booking_cursor \<Rightarrow> booking \<Rightarrow> bool" where
  "after_booking coll v today c b =
     (case c of
        (Ops_Keys rank checkin, i) \<Rightarrow>
          opsUrgencyRank today b > rank \<or> (opsUrgencyRank today b = rank \<and> bk_checkin_date b > checkin) \<or>
          (opsUrgencyRank today b = rank \<and> bk_checkin_date b = checkin \<and> bk_id b > i)
      | (Checkin_Keys d, i) \<Rightarrow> bk_checkin_date b > d \<or> (bk_checkin_date b = d \<and> bk_id b > i)
      | (Checkout_Keys d, i) \<Rightarrow> bk_checkout_date b > d \<or> (bk_checkout_date b = d \<and> bk_id b > i)
      | (Amount_Keys a, i) \<Rightarrow> bk_total_subtotal b > col2 a \<or> (bk_total_subtotal b = col2 a \<and> bk_id b > i)
      | (Guest_Keys n, i) \<Rightarrow>
          let g = guest_sort_name (bv_occupants v b); n' = js_lower n
          in (coll g, g) > (coll n', n') \<or> (g = n' \<and> bk_id b > i))"

text \<open>
  \<^verbatim>\<open>cursorKeys(sort, last, lastRaw)\<close>: the dates and the amount are of the last booking of the page, the rank and
  the guest's name are of the raw row passed with it.
\<close>

definition cursor_keys ::
    "bookings_view \<Rightarrow> day \<Rightarrow> booking_sort \<Rightarrow> booking \<Rightarrow> booking \<Rightarrow> booking_keys" where
  "cursor_keys v today s b raw =
     (case s of
        BS_ops \<Rightarrow> Ops_Keys (opsUrgencyRank today raw) (bk_checkin_date b)
      | BS_checkin \<Rightarrow> Checkin_Keys (bk_checkin_date b)
      | BS_checkout \<Rightarrow> Checkout_Keys (bk_checkout_date b)
      | BS_amount \<Rightarrow> Amount_Keys (num (bk_total_subtotal b))
      | BS_guest \<Rightarrow> Guest_Keys (js_lower (guest_sort_name (bv_occupants v raw))))"

text \<open>
  \<^verbatim>\<open>getRawAndEntities\<close> with the occupants joined: one entity per booking, but one raw row per
  occupant (one for a booking without any). A raw row stands for its booking.
\<close>

definition raw_rows :: "bookings_view \<Rightarrow> booking list \<Rightarrow> booking list" where
  "raw_rows v entities = concat (map (\<lambda>b. replicate (max 1 (length (bv_occupants v b))) b) entities)"

definition listHostBookingsPage ::
    "(string \<Rightarrow> string) \<Rightarrow> bookings_view \<Rightarrow> uuid \<Rightarrow> day \<Rightarrow> bookings_query \<Rightarrow> booking_cursor option
     \<Rightarrow> booking list \<times> booking_cursor option" where
  "listHostBookingsPage coll v host today q c =
     (let limit = page_limit (bq_limit q);
          f = (case bq_filter q of None \<Rightarrow> BF_all | Some x \<Rightarrow> x);
          s = (case bq_sort q of None \<Rightarrow> BS_ops | Some x \<Rightarrow> x);
          entities = fetch (after_booking coll v today) limit c (ordered_bookings coll v host today q s f);
          raw = raw_rows v entities;
          hasNext = (length entities > limit);
          pageEntities = (if hasNext then take limit entities else entities);
          pageRaw = (if hasNext then take limit raw else raw)
      in (pageEntities,
          if hasNext \<and> pageEntities \<noteq> []
          then Some (cursor_keys v today s (last pageEntities) (last pageRaw), bk_id (last pageEntities)) else None))"

section \<open>Host listings: order, cursor and page\<close>

datatype listing_filter = LF_all | LF_active | LF_pending | LF_paused | LF_draft | LF_needs_changes

definition applyListingStatusFilter :: "listing_filter \<Rightarrow> host_listing \<Rightarrow> bool" where
  "applyListingStatusFilter f l =
     (case f of
        LF_all \<Rightarrow> True
      | LF_active \<Rightarrow> ls_status l = LIVE \<or> ls_status l = APPROVED
      | LF_pending \<Rightarrow> ls_status l = SUBMITTED
      | LF_paused \<Rightarrow> ls_status l = PAUSED
      | LF_draft \<Rightarrow> ls_status l = DRAFT
      | LF_needs_changes \<Rightarrow> ls_status l = REJECTED)"

datatype listing_sort = LS_default | LS_title | LS_city | LS_status | LS_updated | LS_price

record listings_query =
  lq_limit :: "int option"
  lq_filter :: "listing_filter option"
  lq_sort :: "listing_sort option"
  lq_search :: string

definition listing_status_text :: "listing_status \<Rightarrow> string" where
  "listing_status_text s = (case s of DRAFT \<Rightarrow> ''DRAFT'' | SUBMITTED \<Rightarrow> ''SUBMITTED'' | APPROVED \<Rightarrow> ''APPROVED''
     | REJECTED \<Rightarrow> ''REJECTED'' | LIVE \<Rightarrow> ''LIVE'' | PAUSED \<Rightarrow> ''PAUSED'')"

definition listing_in_scope :: "uuid \<Rightarrow> listings_query \<Rightarrow> listing_filter \<Rightarrow> host_listing \<Rightarrow> bool" where
  "listing_in_scope host q f l \<longleftrightarrow>
     ls_host_user_id l = host \<and> applyListingStatusFilter f l \<and>
     (js_trim (lq_search q) = [] \<or> search_matches (js_trim (lq_search q)) (ls_title l) \<or>
      search_matches (js_trim (lq_search q)) (ls_city l))"

definition getHostListingsCounts :: "uuid \<Rightarrow> listings_query \<Rightarrow> listings_db \<Rightarrow> listing_filter \<Rightarrow> nat" where
  "getHostListingsCounts host q db f = length (filter (listing_in_scope host q f) (host_listings db))"

text \<open>A missing price sorts last; \<open>LS_default\<close> and \<open>LS_updated\<close> sort downwards.\<close>

definition listing_key :: "(string \<Rightarrow> string) \<Rightarrow> listing_sort \<Rightarrow> host_listing \<Rightarrow> sort_key" where
  "listing_key coll s l =
     (case s of
        LS_default \<Rightarrow> (hl_created_at l, 0, [], [], ls_id l)
      | LS_title \<Rightarrow> (0, 0, coll (ls_title l), ls_title l, ls_id l)
      | LS_city \<Rightarrow> (0, 0, coll (ls_city l), ls_city l, ls_id l)
      | LS_status \<Rightarrow> let t = listing_status_text (ls_status l) in (0, 0, coll t, t, ls_id l)
      | LS_updated \<Rightarrow> (hl_last_edited_at l, 0, [], [], ls_id l)
      | LS_price \<Rightarrow> (case ls_rate_plan l of None \<Rightarrow> (1, 0, [], [], ls_id l)
                     | Some r \<Rightarrow> (0, rp_base_price r, [], [], ls_id l)))"

definition listing_before :: "(string \<Rightarrow> string) \<Rightarrow> listing_sort \<Rightarrow> host_listing \<Rightarrow> host_listing \<Rightarrow> bool" where
  "listing_before coll s x y =
     (if s = LS_default \<or> s = LS_updated then listing_key coll s x > listing_key coll s y
      else listing_key coll s x < listing_key coll s y)"

definition ordered_listings ::
    "(string \<Rightarrow> string) \<Rightarrow> uuid \<Rightarrow> listings_query \<Rightarrow> listing_sort \<Rightarrow> listing_filter \<Rightarrow> listings_db \<Rightarrow> host_listing list" where
  "ordered_listings coll host q s f db =
     order_by (listing_before coll s) (filter (listing_in_scope host q f) (host_listings db))"

text \<open>A date in a cursor is an ISO text of milliseconds.\<close>

datatype listing_keys = Created_Keys time | Title_Keys string | City_Keys string | Status_Keys string
  | Updated_Keys time | Price_Keys "rat option"

type_synonym listing_cursor = "listing_keys \<times> uuid"

definition after_text :: "(string \<Rightarrow> string) \<Rightarrow> string \<Rightarrow> uuid \<Rightarrow> string \<Rightarrow> uuid \<Rightarrow> bool" where
  "after_text coll c ci t i \<longleftrightarrow> (coll t, t) > (coll c, c) \<or> (t = c \<and> i > ci)"

text \<open>The window of one millisecond that begins at the cursor's date.\<close>

definition after_date :: "time \<Rightarrow> uuid \<Rightarrow> us \<Rightarrow> uuid \<Rightarrow> bool" where
  "after_date c ci t i \<longleftrightarrow> t < date_us c \<or> (t \<ge> date_us c \<and> t < date_us (c + 1) \<and> i < ci)"

definition after_listing :: "(string \<Rightarrow> string) \<Rightarrow> listing_cursor \<Rightarrow> host_listing \<Rightarrow> bool" where
  "after_listing coll c l =
     (case c of
        (Created_Keys t, i) \<Rightarrow> after_date t i (hl_created_at l) (ls_id l)
      | (Title_Keys t, i) \<Rightarrow> after_text coll t i (ls_title l) (ls_id l)
      | (City_Keys t, i) \<Rightarrow> after_text coll t i (ls_city l) (ls_id l)
      | (Status_Keys t, i) \<Rightarrow> after_text coll t i (listing_status_text (ls_status l)) (ls_id l)
      | (Updated_Keys t, i) \<Rightarrow> after_date t i (hl_last_edited_at l) (ls_id l)
      | (Price_Keys None, i) \<Rightarrow> ls_rate_plan l = None \<and> ls_id l > i
      | (Price_Keys (Some p), i) \<Rightarrow>
          (case ls_rate_plan l of
             None \<Rightarrow> True
           | Some r \<Rightarrow> rp_base_price r > col2 p \<or> (rp_base_price r = col2 p \<and> ls_id l > i)))"

definition us_date :: "us \<Rightarrow> time" where
  "us_date t = t div 1000"

definition listingCursorKeys :: "listing_sort \<Rightarrow> host_listing \<Rightarrow> listing_keys" where
  "listingCursorKeys s l =
     (case s of
        LS_default \<Rightarrow> Created_Keys (us_date (hl_created_at l))
      | LS_title \<Rightarrow> Title_Keys (ls_title l)
      | LS_city \<Rightarrow> City_Keys (ls_city l)
      | LS_status \<Rightarrow> Status_Keys (listing_status_text (ls_status l))
      | LS_updated \<Rightarrow> Updated_Keys (us_date (hl_last_edited_at l))
      | LS_price \<Rightarrow> Price_Keys (map_option (\<lambda>r. num (rp_base_price r)) (ls_rate_plan l)))"

definition listHostListingsPage ::
    "(string \<Rightarrow> string) \<Rightarrow> uuid \<Rightarrow> listings_query \<Rightarrow> listings_db \<Rightarrow> listing_cursor option
     \<Rightarrow> host_listing list \<times> listing_cursor option" where
  "listHostListingsPage coll host q db c =
     (let limit = page_limit (lq_limit q);
          f = (case lq_filter q of None \<Rightarrow> LF_all | Some x \<Rightarrow> x);
          s = (case lq_sort q of None \<Rightarrow> LS_default | Some x \<Rightarrow> x);
          entities = fetch (after_listing coll) limit c (ordered_listings coll host q s f db);
          hasNext = (length entities > limit);
          pageEntities = (if hasNext then take limit entities else entities)
      in (pageEntities,
          if hasNext \<and> pageEntities \<noteq> []
          then Some (listingCursorKeys s (last pageEntities), ls_id (last pageEntities)) else None))"

section \<open>Filters and urgency\<close>

text \<open>
  The filters and the order of the default list tell the same story. The two filters of today are
  the two most urgent ranks; awaiting payment is rank 3 up to a stay paid out of order; completed and
  cancelled bookings that do not check out today are the last ranks\<close>

theorem filters_match_ranks:
  assumes "bk_checkin_date b < bk_checkout_date b"
  shows "(applyHostBookingFilter today BF_checkout_today b \<longleftrightarrow> opsUrgencyRank today b = 0) \<and>
    (applyHostBookingFilter today BF_checkin_today b \<longleftrightarrow> opsUrgencyRank today b = 1) \<and>
    (applyHostBookingFilter today BF_today b \<longleftrightarrow> opsUrgencyRank today b \<le> 1) \<and>
    (applyHostBookingFilter today BF_upcoming b \<longleftrightarrow> opsUrgencyRank today b \<in> {2, 5}) \<and>
    (applyHostBookingFilter today BF_current b \<longleftrightarrow> opsUrgencyRank today b \<in> {1, 4}) \<and>
    (applyHostBookingFilter today BF_awaiting_payment b \<longleftrightarrow> opsUrgencyRank today b = 3) \<and>
    (applyHostBookingFilter today BF_cancelled b \<longleftrightarrow> opsUrgencyRank today b = 7) \<and>
    (opsUrgencyRank today b = 8 \<longleftrightarrow> bk_status b \<in> {CONFIRMED, CHECKED_IN} \<and> bk_checkout_date b < today)"
  using assms
  by (cases "bk_status b"; simp add: applyHostBookingFilter_def opsUrgencyRank_def stay_active_def
      checkout_eligible_def payment_pending_def cancelled_or_expired_def; auto)

section \<open>Paging\<close>

lemma js_lower_idem [simp]: "js_lower (js_lower s) = js_lower s"
proof -
  have "js_lower_char (js_lower_char c) = js_lower_char c" for c
    by (auto simp: js_lower_char_def)
  then show ?thesis by (simp add: js_lower_def)
qed

lemma raw_rows_single:
  assumes "\<And>b. b \<in> set bs \<Longrightarrow> length (bv_occupants v b) \<le> 1"
  shows "raw_rows v bs = bs"
  using assms
proof (induction bs)
  case (Cons b bs)
  have "max 1 (length (bv_occupants v b)) = Suc 0" using Cons.prems [of b] by simp
  then show ?case using Cons by (simp add: raw_rows_def)
qed (simp add: raw_rows_def)

lemma distinct_keys:
  assumes "keyed ident rows" and "\<And>x y. key x = key y \<Longrightarrow> ident x = ident y"
  shows "distinct (map key (filter p rows))"
proof -
  have "inj_on key (set rows)" by (rule inj_onI) (use assms(2) keyed_inj [OF assms(1)] in blast)
  moreover have "distinct rows" using assms(1) by (simp add: keyed_def distinct_map)
  ultimately show ?thesis by (auto simp: distinct_map intro: inj_on_subset)
qed

definition plain_cursor :: "bookings_view \<Rightarrow> day \<Rightarrow> booking_sort \<Rightarrow> booking \<Rightarrow> booking_cursor" where
  "plain_cursor v today s b = (cursor_keys v today s b b, bk_id b)"

lemma after_plain_cursor:
  assumes "s = BS_amount \<Longrightarrow> col2 (num (bk_total_subtotal x)) = bk_total_subtotal x"
  shows "after_booking coll v today (plain_cursor v today s x) y \<longleftrightarrow> booking_key coll v today s x < booking_key coll v today s y"
  using assms
  by (cases s) (auto simp: after_booking_def plain_cursor_def cursor_keys_def booking_key_def guest_sort_name_def Let_def)

lemma last_take_nth: "0 < k \<Longrightarrow> k < length xs \<Longrightarrow> last (take k xs) = xs ! (k - 1)"
  by (subst last_conv_nth) (auto simp: min_def)

lemma bookings_page_eq:
  fixes q c coll v host today
  defines "limit \<equiv> page_limit (bq_limit q)"
    and "f \<equiv> (case bq_filter q of None \<Rightarrow> BF_all | Some x \<Rightarrow> x)"
    and "s \<equiv> (case bq_sort q of None \<Rightarrow> BS_ops | Some x \<Rightarrow> x)"
  defines "fetched \<equiv> fetch (after_booking coll v today) limit c (ordered_bookings coll v host today q s f)"
  assumes "s \<in> {BS_checkin, BS_checkout, BS_amount} \<or> (\<forall>b\<in>set (bv_bookings v). length (bv_occupants v b) \<le> 1)"
  shows "listHostBookingsPage coll v host today q c =
    (if length fetched \<le> limit then (fetched, None)
     else (take limit fetched, Some (plain_cursor v today s (fetched ! (limit - 1)))))"
proof (cases "length fetched \<le> limit")
  case True
  then show ?thesis
    by (simp add: listHostBookingsPage_def Let_def fetched_def limit_def f_def s_def)
next
  case False
  have l: "0 < limit" by (simp add: limit_def)
  have ne: "take limit fetched \<noteq> []" using False l by auto
  have lst: "last (take limit fetched) = fetched ! (limit - 1)" using False l by (simp add: last_take_nth)
  have "cursor_keys v today s (last (take limit fetched)) (last (take limit (raw_rows v fetched))) =
      cursor_keys v today s (last (take limit fetched)) (last (take limit fetched))"
  proof (cases "s \<in> {BS_checkin, BS_checkout, BS_amount}")
    case True
    then show ?thesis by (auto simp: cursor_keys_def)
  next
    case False
    have "set fetched \<subseteq> set (bv_bookings v)"
      by (auto simp: fetched_def fetch_def after_cursor_def ordered_bookings_def dest!: in_set_takeD split: option.splits)
    then have "raw_rows v fetched = fetched" using assms(5) False by (intro raw_rows_single) auto
    then show ?thesis by simp
  qed
  then show ?thesis
    using False ne lst unfolding listHostBookingsPage_def Let_def
    by (simp add: fetched_def [symmetric] limit_def [symmetric] f_def [symmetric] s_def [symmetric] plain_cursor_def)
qed

text \<open>
  The paged list of bookings is complete. Sorted by date or amount always, and sorted by urgency or
  guest when no booking has more than one occupant, following the cursors shows every booking of the
  query exactly once, in the order of the sort, and comes to the end.
\<close>

theorem booking_pages_exact:
  fixes q
  defines "s \<equiv> (case bq_sort q of None \<Rightarrow> BS_ops | Some x \<Rightarrow> x)"
    and "f \<equiv> (case bq_filter q of None \<Rightarrow> BF_all | Some x \<Rightarrow> x)"
  assumes "keyed bk_id (bv_bookings v)" and "length (bv_bookings v) < n"
    and "\<forall>b\<in>set (bv_bookings v). \<bar>bk_total_subtotal b\<bar> \<le> 2 ^ 43"
    and "s \<in> {BS_checkin, BS_checkout, BS_amount} \<or> (\<forall>b\<in>set (bv_bookings v). length (bv_occupants v b) \<le> 1)"
  shows "\<exists>ps. walk n (listHostBookingsPage coll v host today q) None = (ps, True) \<and>
    concat ps = ordered_bookings coll v host today q s f \<and>
    mset (concat ps) = mset (filter (in_scope v host today q f) (bv_bookings v)) \<and>
    sorted_wrt (\<lambda>x y. booking_key coll v today s x < booking_key coll v today s y) (concat ps)"
proof -
  define key where "key = booking_key coll v today s"
  define ordered where "ordered = ordered_bookings coll v host today q s f"
  have lt: "by_key (<) key = (\<lambda>x y. key x < key y)" by (simp add: by_key_def fun_eq_iff)
  have o: "ordered = order_by (by_key (<) key) (filter (in_scope v host today q f) (bv_bookings v))"
    by (simp add: ordered_def ordered_bookings_def key_def by_key_def [abs_def])
  have id: "key x = key y \<Longrightarrow> bk_id x = bk_id y" for x y
    by (auto simp: key_def booking_key_def Let_def split: booking_sort.splits)
  have "distinct (map key (filter (in_scope v host today q f) (bv_bookings v)))"
    by (rule distinct_keys [OF assms(3) id])
  then have sorted: "sorted_wrt (by_key (<) key) ordered" unfolding o by (rule asc.sorted_order_by)
  have ms: "mset ordered = mset (filter (in_scope v host today q f) (bv_bookings v))" by (simp add: o)
  have sub: "set ordered \<subseteq> set (bv_bookings v)" by (auto simp: o)
  have len: "length ordered < n" using assms(4) by (simp add: o le_less_trans [OF length_filter_le])
  have aft: "after_booking coll v today (plain_cursor v today s x) y \<longleftrightarrow> by_key (<) key x y" if "x \<in> set ordered" for x y
  proof -
    have "col2 (num (bk_total_subtotal x)) = bk_total_subtotal x" using assms(5) sub that by (intro col2_num) auto
    then show ?thesis using after_plain_cursor [of s x coll v today y] by (simp add: by_key_def key_def)
  qed
  have "\<exists>ps. walk n (listHostBookingsPage coll v host today q) None = (ps, True) \<and> concat ps = ordered"
    by (rule asc.walk_exact [where key = key and limit = "page_limit (bq_limit q)" and after = "after_booking coll v today"
          and cur = "plain_cursor v today s", OF sorted page_limit_pos len aft])
      (simp_all add: bookings_page_eq [OF assms(6) [unfolded s_def]] ordered_def s_def f_def)
  then show ?thesis using ms sorted unfolding lt by (auto simp: ordered_def key_def)
qed

text \<open>
  The default list of bookings can repeat its first page for ever. The rank in the cursor is read from
  the raw rows, of which a booking with two occupants has two: when the page ends with a less urgent
  booking of an earlier check-in, the cursor goes back before the page and the rest is never shown.
\<close>

theorem ops_pages_repeat:
  assumes "ordered_bookings coll v host today q BS_ops (case bq_filter q of None \<Rightarrow> BF_all | Some x \<Rightarrow> x) = [a, b, c]"
    and "bq_sort q = None" and "bq_limit q = Some 2" and "2 \<le> length (bv_occupants v a)"
    and "opsUrgencyRank today a < opsUrgencyRank today b" and "opsUrgencyRank today a < opsUrgencyRank today c"
    and "bk_checkin_date b < bk_checkin_date a"
  shows "walk n (listHostBookingsPage coll v host today q) None = (replicate n [a, b], False)"
proof -
  let ?k = "(Ops_Keys (opsUrgencyRank today a) (bk_checkin_date b), bk_id b)"
  have l: "page_limit (bq_limit q) = 2" using assms(3) by (simp add: page_limit_def)
  obtain m where "length (bv_occupants v a) = 2 + m" using assms(4) by (auto simp: le_iff_add)
  then have m: "max 1 (length (bv_occupants v a)) = Suc (Suc m)" by simp
  have raw: "take 2 (raw_rows v [a, b, c]) = [a, a]"
    unfolding raw_rows_def by (simp only: list.map m) (simp add: numeral_2_eq_2)
  have sel: "after_cursor (after_booking coll v today) k [a, b, c] = [a, b, c]" if "k = None \<or> k = Some ?k" for k
    using that assms(5-7) by (auto simp: after_cursor_def after_booking_def)
  have page: "listHostBookingsPage coll v host today q k = ([a, b], Some ?k)" if "k = None \<or> k = Some ?k" for k
    using sel [OF that] assms(1,2) raw by (simp add: listHostBookingsPage_def Let_def fetch_def l cursor_keys_def)
  have "walk n (listHostBookingsPage coll v host today q) k = (replicate n [a, b], False)" if "k = None \<or> k = Some ?k" for k
    using that by (induction n arbitrary: k) (simp_all add: page)
  then show ?thesis by simp
qed

definition dates_by_ms :: "(host_listing \<Rightarrow> us) \<Rightarrow> host_listing list \<Rightarrow> bool" where
  "dates_by_ms d ls \<longleftrightarrow> (\<forall>x\<in>set ls. \<forall>y\<in>set ls. us_date (d x) = us_date (d y) \<longrightarrow> d x = d y)"

lemma after_date_iff:
  assumes "us_date t = us_date t' \<Longrightarrow> t = t'"
  shows "after_date (us_date t) i t' i' \<longleftrightarrow> t' < t \<or> (t' = t \<and> i' < i)"
proof -
  have lo: "t' < date_us (us_date t) \<longleftrightarrow> us_date t' < us_date t" unfolding date_us_def us_date_def by linarith
  have hi: "t' < date_us (us_date t + 1) \<longleftrightarrow> us_date t' \<le> us_date t" unfolding date_us_def us_date_def distrib_right by linarith
  have le: "us_date t' < us_date t \<Longrightarrow> t' < t" "t' < t \<Longrightarrow> us_date t' \<le> us_date t"
    unfolding us_date_def by linarith+
  show ?thesis
  proof (cases "us_date t = us_date t'")
    case True
    then have "t' = t" using assms by simp
    then show ?thesis using lo hi by (auto simp: after_date_def)
  next
    case False
    then show ?thesis using lo hi le by (auto simp: after_date_def)
  qed
qed

lemma listing_before_key:
  "listing_before coll s = (if s = LS_default \<or> s = LS_updated then by_key (>) (listing_key coll s) else by_key (<) (listing_key coll s))"
  by (auto simp: fun_eq_iff listing_before_def by_key_def)

lemma after_listing_cursor:
  assumes "s = LS_default \<Longrightarrow> us_date (hl_created_at x) = us_date (hl_created_at y) \<Longrightarrow> hl_created_at x = hl_created_at y"
    and "s = LS_updated \<Longrightarrow> us_date (hl_last_edited_at x) = us_date (hl_last_edited_at y) \<Longrightarrow> hl_last_edited_at x = hl_last_edited_at y"
    and "\<And>r. s = LS_price \<Longrightarrow> ls_rate_plan x = Some r \<Longrightarrow> col2 (num (rp_base_price r)) = rp_base_price r"
  shows "after_listing coll (listingCursorKeys s x, ls_id x) y \<longleftrightarrow> listing_before coll s x y"
proof (cases s)
  case LS_default
  then show ?thesis using assms(1) after_date_iff [of "hl_created_at x" "hl_created_at y"]
    by (auto simp: after_listing_def listingCursorKeys_def listing_before_def listing_key_def)
next
  case LS_updated
  then show ?thesis using assms(2) after_date_iff [of "hl_last_edited_at x" "hl_last_edited_at y"]
    by (auto simp: after_listing_def listingCursorKeys_def listing_before_def listing_key_def)
next
  case LS_price
  then show ?thesis using assms(3)
    by (cases "ls_rate_plan x"; cases "ls_rate_plan y")
      (auto simp: after_listing_def listingCursorKeys_def listing_before_def listing_key_def)
qed (auto simp: after_listing_def listingCursorKeys_def listing_before_def listing_key_def after_text_def Let_def)

lemma listings_page_eq:
  fixes q db host coll c
  defines "limit \<equiv> page_limit (lq_limit q)"
    and "f \<equiv> (case lq_filter q of None \<Rightarrow> LF_all | Some x \<Rightarrow> x)"
    and "s \<equiv> (case lq_sort q of None \<Rightarrow> LS_default | Some x \<Rightarrow> x)"
  defines "fetched \<equiv> fetch (after_listing coll) limit c (ordered_listings coll host q s f db)"
  shows "listHostListingsPage coll host q db c =
    (if length fetched \<le> limit then (fetched, None)
     else (take limit fetched, Some (listingCursorKeys s (fetched ! (limit - 1)), ls_id (fetched ! (limit - 1)))))"
proof -
  have "0 < limit" by (simp add: limit_def)
  then show ?thesis
    using last_take_nth [of limit fetched] unfolding listHostListingsPage_def Let_def
    by (auto simp: fetched_def [symmetric] limit_def [symmetric] f_def [symmetric] s_def [symmetric])
qed


text \<open>
  A listing can be missing from every page. Two listings created in the same millisecond, the
  later one with the smaller id: in pages of one the first page shows the later one and its cursor excludes
  the other, which the counter still counts.
\<close>

theorem listing_lost_between_pages:
  assumes "host_listings db = [x, y]" and "ls_host_user_id x = h" and "ls_host_user_id y = h"
    and "us_date (hl_created_at x) = us_date (hl_created_at y)" and "hl_created_at y < hl_created_at x" and "ls_id x < ls_id y"
  shows "walk (n + 2) (listHostListingsPage coll h \<lparr>lq_limit = Some 1, lq_filter = None, lq_sort = None, lq_search = []\<rparr> db) None =
      ([[x], []], True) \<and>
    getHostListingsCounts h \<lparr>lq_limit = Some 1, lq_filter = None, lq_sort = None, lq_search = []\<rparr> db LF_all = 2"
proof -
  let ?q = "\<lparr>lq_limit = Some 1, lq_filter = None, lq_sort = None, lq_search = []\<rparr>"
  have sc: "listing_in_scope h ?q LF_all x" "listing_in_scope h ?q LF_all y"
    using assms(2,3) by (simp_all add: listing_in_scope_def applyListingStatusFilter_def js_trim_def)
  have o: "ordered_listings coll h ?q LS_default LF_all db = [x, y]"
    using assms(1,5) sc by (simp add: ordered_listings_def order_by_def listing_before_def listing_key_def)
  have l: "page_limit (Some 1) = Suc 0" by (simp add: page_limit_def)
  let ?k = "(Created_Keys (us_date (hl_created_at x)), ls_id x)"
  have p1: "listHostListingsPage coll h ?q db None = ([x], Some ?k)"
    by (simp add: listHostListingsPage_def o fetch_def after_cursor_def l listingCursorKeys_def Let_def)
  have "\<not> after_listing coll ?k z" if "z = x \<or> z = y" for z
  proof -
    have "date_us (us_date (hl_created_at x)) \<le> hl_created_at z" using that assms(4) by (auto simp: date_us_def us_date_def)
    then show ?thesis using that assms(6) by (auto simp: after_listing_def after_date_def)
  qed
  then have p2: "listHostListingsPage coll h ?q db (Some ?k) = ([], None)"
    by (simp add: listHostListingsPage_def o fetch_def after_cursor_def l Let_def)
  show ?thesis using sc assms(1) by (simp add: p1 p2 getHostListingsCounts_def numeral_2_eq_2)
qed

section \<open>Witnesses\<close>

definition listed_booking :: "uuid \<Rightarrow> booking_status \<Rightarrow> day \<Rightarrow> day \<Rightarrow> booking" where
  "listed_booking i st d e = (sample_booking i st)\<lparr>bk_checkin_date := d, bk_checkout_date := e\<rparr>"

definition one_guest :: occupant where
  "one_guest = \<lparr>oc_booking_id = ''a'', oc_full_name = ''Guest'', oc_id_number = None, oc_is_primary = False, oc_phone = None,
     oc_email = None, oc_gender = None, oc_id_document_front_asset_id = None, oc_id_document_back_asset_id = None\<rparr>"

definition three_bookings :: bookings_view where
  "three_bookings = \<lparr>bv_bookings = [listed_booking ''c'' COMPLETED 85 90, listed_booking ''a'' CONFIRMED 95 100,
       listed_booking ''b'' COMPLETED 80 85], bv_listings = [sample_listing],
     bv_occupants = (\<lambda>b. if bk_id b = ''a'' then [one_guest, one_guest] else [])\<rparr>"

definition plain_query :: bookings_query where
  "plain_query = \<lparr>bq_limit = Some 2, bq_filter = None, bq_sort = None, bq_search = [], bq_listing_id = []\<rparr>"

theorem filters_match_ranks_witness:
  "applyHostBookingFilter 100 BF_checkout_today (listed_booking ''a'' CONFIRMED 95 100) \<and>
   opsUrgencyRank 100 (listed_booking ''a'' CONFIRMED 95 100) = 0"
proof -
  have "opsUrgencyRank 100 (listed_booking ''a'' CONFIRMED 95 100) = 0" by code_simp
  then show ?thesis using filters_match_ranks [of "listed_booking ''a'' CONFIRMED 95 100" 100]
    by (simp add: listed_booking_def)
qed

lemma three_bookings_facts:
  "keyed bk_id (bv_bookings three_bookings)" "length (bv_bookings three_bookings) = 3"
  "\<forall>b\<in>set (bv_bookings three_bookings). \<bar>bk_total_subtotal b\<bar> \<le> 2 ^ 43"
  by (simp_all add: three_bookings_def listed_booking_def sample_booking_def keyed_def)

theorem booking_pages_exact_witness:
  "\<exists>ps. walk 4 (listHostBookingsPage (\<lambda>t. t) three_bookings ''h1'' 100 (plain_query\<lparr>bq_sort := Some BS_checkin\<rparr>)) None = (ps, True) \<and>
     mset (map bk_id (concat ps)) = {#''a'', ''b'', ''c''#}"
proof -
  have "mset (map bk_id (filter (in_scope three_bookings ''h1'' 100 (plain_query\<lparr>bq_sort := Some BS_checkin\<rparr>) BF_all)
      (bv_bookings three_bookings))) = {#''a'', ''b'', ''c''#}" by code_simp
  then show ?thesis
    using booking_pages_exact [OF three_bookings_facts(1), of 4 "plain_query\<lparr>bq_sort := Some BS_checkin\<rparr>" "\<lambda>t. t" "''h1''" 100]
      three_bookings_facts(2,3) by (auto simp: plain_query_def mset_map)
qed

theorem ops_pages_repeat_witness:
  "walk 9 (listHostBookingsPage (\<lambda>t. t) three_bookings ''h1'' 100 plain_query) None =
     (replicate 9 [listed_booking ''a'' CONFIRMED 95 100, listed_booking ''b'' COMPLETED 80 85], False)"
proof -
  have "ordered_bookings (\<lambda>t. t) three_bookings ''h1'' 100 plain_query BS_ops BF_all =
      [listed_booking ''a'' CONFIRMED 95 100, listed_booking ''b'' COMPLETED 80 85, listed_booking ''c'' COMPLETED 85 90]"
    by code_simp
  then show ?thesis
    using ops_pages_repeat [of "\<lambda>t. t" three_bookings "''h1''" 100 plain_query "listed_booking ''a'' CONFIRMED 95 100"
        "listed_booking ''b'' COMPLETED 80 85" "listed_booking ''c'' COMPLETED 85 90" 9]
    by (simp add: plain_query_def three_bookings_def listed_booking_def sample_booking_def opsUrgencyRank_def
        checkout_eligible_def stay_active_def payment_pending_def cancelled_or_expired_def)
qed

definition two_drafts :: listings_db where
  "two_drafts = snd (createListing ''b'' 1 1300 ''h1'' \<lparr>dd_listing_type = RIAD, dd_guest_house = False, dd_property_details = []\<rparr>
     (snd (createListing ''a'' 1 1700 ''h1'' \<lparr>dd_listing_type = RIAD, dd_guest_house = False, dd_property_details = []\<rparr> empty_listings)))"

lemma two_drafts_rows:
  obtains x y where "host_listings two_drafts = [x, y]" and "ls_id x = ''a''" and "ls_id y = ''b''"
    and "hl_created_at x = 1700" and "hl_created_at y = 1300" and "ls_host_user_id x = ''h1''" and "ls_host_user_id y = ''h1''"
    and "hl_last_edited_at x = 1000" and "hl_last_edited_at y = 1000"
    and "map_option rp_base_price (ls_rate_plan x) = Some 0" and "map_option rp_base_price (ls_rate_plan y) = Some 0"
proof -
  have "map (\<lambda>l. ((ls_id l, hl_created_at l, ls_host_user_id l), hl_last_edited_at l, map_option rp_base_price (ls_rate_plan l)))
      (host_listings two_drafts) = [((''a'', 1700, ''h1''), 1000, Some 0), ((''b'', 1300, ''h1''), 1000, Some 0)]"
    by code_simp
  then obtain x y where "host_listings two_drafts = [x, y]" by (auto simp: map_eq_Cons_conv)
  then show thesis using that \<open>map _ _ = _\<close> by simp
qed


theorem listing_lost_between_pages_witness:
  "\<exists>x. walk 5 (listHostListingsPage (\<lambda>t. t) ''h1'' \<lparr>lq_limit = Some 1, lq_filter = None, lq_sort = None, lq_search = []\<rparr> two_drafts) None =
     ([[x], []], True) \<and> ls_id x = ''a'' \<and>
   getHostListingsCounts ''h1'' \<lparr>lq_limit = Some 1, lq_filter = None, lq_sort = None, lq_search = []\<rparr> two_drafts LF_all = 2"
proof -
  obtain x y where r: "host_listings two_drafts = [x, y]" "ls_id x = ''a''" "ls_id y = ''b''"
    "hl_created_at x = 1700" "hl_created_at y = 1300" "ls_host_user_id x = ''h1''" "ls_host_user_id y = ''h1''"
    "hl_last_edited_at x = 1000" "hl_last_edited_at y = 1000"
    "map_option rp_base_price (ls_rate_plan x) = Some 0" "map_option rp_base_price (ls_rate_plan y) = Some 0"
    by (rule two_drafts_rows)
  show ?thesis using listing_lost_between_pages [OF r(1) r(6,7), of 3 "\<lambda>t. t"] r by (auto simp: us_date_def)
qed

end
