(* ===== verification/RefreshTokens.thy ===== *)
theory RefreshTokens
  imports StaysData
begin

text \<open>
  The refresh tokens of the identity service (\<^verbatim>\<open>identity/src/modules/auth/auth.service.ts\<close>): issuing,
  rotating, revoking. \<open>hash\<close> is the keyed hash of a token, \<open>ttl\<close> the configured lifetime. The identity of a
  user is resolved by the service for unified identities, whose answer is the parameter \<open>identity\<close>; the
  signed access token is the record of the claims it carries. A rotation reads the row, and writes in
  later statements without a lock, so \<open>rotate_read\<close> and \<open>rotate_write\<close> are steps of their own.
\<close>

section \<open>Rows\<close>

record auth_user =
  us_id :: uuid
  us_account_type :: "string option"
  us_unified_identity_id :: "uuid option"
  us_phone_number :: "string option"
  us_staff_role :: "string option"
  us_authz_version :: int

record refresh_token =
  rf_user_id :: uuid
  rf_token_hash :: string
  rf_device_id :: "string option"
  rf_user_agent :: "string option"
  rf_ip :: "string option"
  rf_revoked_at :: "time option"
  rf_expires_at :: time

record refresh_context =
  rc_device_id :: "string option"
  rc_user_agent :: "string option"
  rc_ip :: "string option"

record token_db =
  auth_users :: "auth_user list"
  refresh_tokens :: "refresh_token list"

definition find_token :: "string \<Rightarrow> token_db \<Rightarrow> refresh_token option" where
  "find_token h db = find_where (\<lambda>r. rf_token_hash r = h) (refresh_tokens db)"

definition find_user :: "uuid \<Rightarrow> token_db \<Rightarrow> auth_user option" where
  "find_user i db = find_where (\<lambda>u. us_id u = i) (auth_users db)"

definition update_tokens :: "(refresh_token \<Rightarrow> bool) \<Rightarrow> (refresh_token \<Rightarrow> refresh_token) \<Rightarrow> token_db \<Rightarrow> token_db" where
  "update_tokens p f db = db\<lparr>refresh_tokens := update_where p f (refresh_tokens db)\<rparr>"

section \<open>Issuing and revoking\<close>

definition issueRefreshToken :: "(string \<Rightarrow> string) \<Rightarrow> string \<Rightarrow> time \<Rightarrow> int \<Rightarrow> uuid \<Rightarrow> refresh_context \<Rightarrow> token_db \<Rightarrow> token_db" where
  "issueRefreshToken hash plain now ttl userId ctx db =
     db\<lparr>refresh_tokens := insert_row
       \<lparr>rf_user_id = userId, rf_token_hash = hash plain, rf_device_id = rc_device_id ctx,
        rf_user_agent = rc_user_agent ctx, rf_ip = rc_ip ctx, rf_revoked_at = None,
        rf_expires_at = now + ttl * 1000\<rparr> (refresh_tokens db)\<rparr>"

definition revokeAllForUser :: "time \<Rightarrow> uuid \<Rightarrow> token_db \<Rightarrow> token_db" where
  "revokeAllForUser now userId = update_tokens (\<lambda>r. rf_user_id r = userId) (\<lambda>r. r\<lparr>rf_revoked_at := Some now\<rparr>)"

definition revokeRefreshTokens :: "time \<Rightarrow> uuid \<Rightarrow> string option \<Rightarrow> token_db \<Rightarrow> token_db" where
  "revokeRefreshTokens now userId deviceId =
     update_tokens (\<lambda>r. rf_user_id r = userId \<and> rf_revoked_at r = None \<and>
         (case deviceId of None \<Rightarrow> True | Some d \<Rightarrow> d = [] \<or> rf_device_id r = Some d))
       (\<lambda>r. r\<lparr>rf_revoked_at := Some now\<rparr>)"

definition revokeRefreshSessionByToken :: "(string \<Rightarrow> string) \<Rightarrow> string \<Rightarrow> time \<Rightarrow> token_db \<Rightarrow> token_db" where
  "revokeRefreshSessionByToken hash refreshTokenPlain now db =
     (let plain = js_trim refreshTokenPlain
      in if plain = [] then db
         else (case find_token (hash plain) db of
                 None \<Rightarrow> db
               | Some row \<Rightarrow>
                   if rf_revoked_at row \<noteq> None then db
                   else update_tokens (\<lambda>r. rf_token_hash r = hash plain) (\<lambda>r. r\<lparr>rf_revoked_at := Some now\<rparr>) db))"

section \<open>Rotation\<close>

text \<open>\<^verbatim>\<open>ctx.device_id && row.device_id && row.device_id !== ctx.device_id\<close>.\<close>

definition device_mismatch :: "refresh_context \<Rightarrow> refresh_token \<Rightarrow> bool" where
  "device_mismatch ctx row =
     (case (rc_device_id ctx, rf_device_id row) of
        (Some d, Some d') \<Rightarrow> d \<noteq> [] \<and> d' \<noteq> [] \<and> d' \<noteq> d
      | _ \<Rightarrow> False)"

definition rotate_read ::
    "(string \<Rightarrow> string) \<Rightarrow> string \<Rightarrow> time \<Rightarrow> refresh_context \<Rightarrow> token_db \<Rightarrow> (refresh_token \<times> auth_user) result \<times> token_db" where
  "rotate_read hash plain now ctx db =
     (case find_token (hash plain) db of
        None \<Rightarrow> (Inl (Unauthorized_Err ''Invalid refresh token''), db)
      | Some row \<Rightarrow>
          if rf_revoked_at row \<noteq> None
          then (Inl (Unauthorized_Err ''Refresh token was reused; all sessions revoked''),
                revokeAllForUser now (rf_user_id row) db)
          else if rf_expires_at row < now then (Inl (Unauthorized_Err ''Refresh token expired''), db)
          else if device_mismatch ctx row then (Inl (Unauthorized_Err ''Device mismatch''), db)
          else (case find_user (rf_user_id row) db of
                  None \<Rightarrow> (Inl (Unauthorized_Err ''User not found''), db)
                | Some user \<Rightarrow> (Inr (row, user), db)))"

record access_claims =
  ac_sub :: uuid
  ac_identity :: uuid
  ac_account_type :: string
  ac_role :: "string option"
  ac_av :: "int option"

record rotation_result =
  rr_access_token :: access_claims
  rr_refresh_token :: string
  rr_account_type :: string

definition staffJwtClaims :: "string option \<Rightarrow> string" where
  "staffJwtClaims staffRole = (if staffRole = Some ''SUPPORT_AGENT'' then ''SUPPORT_AGENT'' else ''ADMIN'')"

definition claims_for :: "auth_user \<Rightarrow> uuid \<Rightarrow> access_claims" where
  "claims_for user identityId =
     (let account_type = (case us_account_type user of None \<Rightarrow> ''CONSUMER'' | Some t \<Rightarrow> t);
          staff = (us_account_type user = Some ''ADMIN'')
      in \<lparr>ac_sub = us_id user, ac_identity = identityId, ac_account_type = account_type,
          ac_role = (if staff then Some (staffJwtClaims (us_staff_role user)) else None),
          ac_av = (if staff then Some (us_authz_version user) else None)\<rparr>)"

definition or_given :: "'a option \<Rightarrow> 'a option \<Rightarrow> 'a option" where
  "or_given a b = (case a of None \<Rightarrow> b | Some x \<Rightarrow> Some x)"

definition rotate_write ::
    "(string \<Rightarrow> string) \<Rightarrow> (auth_user \<Rightarrow> uuid option) \<Rightarrow> string \<Rightarrow> time \<Rightarrow> int \<Rightarrow> refresh_context
     \<Rightarrow> refresh_token \<times> auth_user \<Rightarrow> token_db \<Rightarrow> rotation_result result \<times> token_db" where
  "rotate_write hash identity fresh now ttl ctx found db =
     (case found of (row, user) \<Rightarrow>
        let db1 = update_tokens (\<lambda>r. rf_token_hash r = rf_token_hash row) (\<lambda>r. r\<lparr>rf_revoked_at := Some now\<rparr>) db;
            db2 = issueRefreshToken hash fresh now ttl (rf_user_id row)
                    \<lparr>rc_device_id = or_given (rc_device_id ctx) (rf_device_id row),
                     rc_user_agent = or_given (rc_user_agent ctx) (rf_user_agent row),
                     rc_ip = or_given (rc_ip ctx) (rf_ip row)\<rparr> db1
        in (case or_given (us_unified_identity_id user) (identity user) of
              None \<Rightarrow> (Inl (Unauthorized_Err ''User identity not found''), db2)
            | Some identityId \<Rightarrow>
                let claims = claims_for user identityId
                in (Inr \<lparr>rr_access_token = claims, rr_refresh_token = fresh, rr_account_type = ac_account_type claims\<rparr>, db2)))"

text \<open>A rotation that nothing comes between.\<close>

definition refresh ::
    "(string \<Rightarrow> string) \<Rightarrow> (auth_user \<Rightarrow> uuid option) \<Rightarrow> string \<Rightarrow> string \<Rightarrow> time \<Rightarrow> int \<Rightarrow> refresh_context
     \<Rightarrow> token_db \<Rightarrow> rotation_result result \<times> token_db" where
  "refresh hash identity plain fresh now ttl ctx db =
     (case rotate_read hash plain now ctx db of
        (Inl e, db1) \<Rightarrow> (Inl e, db1)
      | (Inr found, db1) \<Rightarrow> rotate_write hash identity fresh now ttl ctx found db1)"

section \<open>Sessions over time\<close>

text \<open>
  \<open>ts_pending i h\<close> is the rotation of the token with hash \<open>h\<close> that instance \<open>i\<close> has read and not yet
  written: \<^verbatim>\<open>refreshInFlight\<close> lets an instance run one rotation of a token at a time. The log holds the
  hashes of the tokens that were rotated, in order.
\<close>

record token_system =
  ts_db :: token_db
  ts_pending :: "nat \<Rightarrow> string \<Rightarrow> (refresh_token \<times> auth_user) option"
  ts_rotated :: "string list"

datatype token_event =
    Login uuid string time refresh_context
  | Read_Token nat string time refresh_context
  | Write_Token nat string string time refresh_context
  | Logout string time
  | Logout_All uuid "string option" time

fun token_exec ::
    "(string \<Rightarrow> string) \<Rightarrow> (auth_user \<Rightarrow> uuid option) \<Rightarrow> int \<Rightarrow> token_event \<Rightarrow> token_system \<Rightarrow> token_system option" where
  "token_exec hash identity ttl (Login userId plain now ctx) s =
     (if find_token (hash plain) (ts_db s) \<noteq> None then None
      else Some (s\<lparr>ts_db := issueRefreshToken hash plain now ttl userId ctx (ts_db s)\<rparr>))"
| "token_exec hash identity ttl (Read_Token i plain now ctx) s =
     (if ts_pending s i (hash plain) \<noteq> None then None
      else (case rotate_read hash plain now ctx (ts_db s) of
              (Inl e, db1) \<Rightarrow> Some (s\<lparr>ts_db := db1\<rparr>)
            | (Inr found, db1) \<Rightarrow> Some (s\<lparr>ts_db := db1, ts_pending := (ts_pending s)(i := (ts_pending s i)(hash plain := Some found))\<rparr>)))"
| "token_exec hash identity ttl (Write_Token i plain fresh now ctx) s =
     (case ts_pending s i (hash plain) of
        None \<Rightarrow> None
      | Some found \<Rightarrow>
          if find_token (hash fresh) (ts_db s) \<noteq> None then None
          else Some (s\<lparr>ts_db := snd (rotate_write hash identity fresh now ttl ctx found (ts_db s)),
                       ts_pending := (ts_pending s)(i := (ts_pending s i)(hash plain := None)),
                       ts_rotated := ts_rotated s @ [hash plain]\<rparr>))"
| "token_exec hash identity ttl (Logout plain now) s =
     Some (s\<lparr>ts_db := revokeRefreshSessionByToken hash plain now (ts_db s)\<rparr>)"
| "token_exec hash identity ttl (Logout_All userId deviceId now) s =
     Some (s\<lparr>ts_db := revokeRefreshTokens now userId deviceId (ts_db s)\<rparr>)"

fun on_instance_0 :: "token_event \<Rightarrow> bool" where
  "on_instance_0 (Read_Token i plain now ctx) = (i = 0)"
| "on_instance_0 (Write_Token i plain fresh now ctx) = (i = 0)"
| "on_instance_0 e = True"

inductive token_reachable ::
    "(string \<Rightarrow> string) \<Rightarrow> (auth_user \<Rightarrow> uuid option) \<Rightarrow> int \<Rightarrow> (token_event \<Rightarrow> bool) \<Rightarrow> token_system \<Rightarrow> bool"
  for hash identity ttl allowed where
  start: "refresh_tokens (ts_db s) = [] \<Longrightarrow> ts_pending s = (\<lambda>i h. None) \<Longrightarrow> ts_rotated s = []
    \<Longrightarrow> token_reachable hash identity ttl allowed s"
| step: "token_reachable hash identity ttl allowed s \<Longrightarrow> allowed e \<Longrightarrow> token_exec hash identity ttl e s = Some s'
    \<Longrightarrow> token_reachable hash identity ttl allowed s'"

fun token_execs ::
    "(string \<Rightarrow> string) \<Rightarrow> (auth_user \<Rightarrow> uuid option) \<Rightarrow> int \<Rightarrow> token_event list \<Rightarrow> token_system \<Rightarrow> token_system option" where
  "token_execs hash identity ttl [] s = Some s"
| "token_execs hash identity ttl (e # es) s =
     (case token_exec hash identity ttl e s of None \<Rightarrow> None | Some s' \<Rightarrow> token_execs hash identity ttl es s')"

section \<open>What holds of the table\<close>

definition live_tokens :: "uuid \<Rightarrow> token_db \<Rightarrow> refresh_token list" where
  "live_tokens u db = filter (\<lambda>r. rf_user_id r = u \<and> rf_revoked_at r = None) (refresh_tokens db)"

definition spent :: "string \<Rightarrow> token_db \<Rightarrow> bool" where
  "spent h db \<longleftrightarrow> (\<exists>r\<in>set (refresh_tokens db). rf_token_hash r = h \<and> rf_revoked_at r \<noteq> None)"

definition known :: "string \<Rightarrow> uuid \<Rightarrow> token_db \<Rightarrow> bool" where
  "known h u db \<longleftrightarrow> (\<exists>r\<in>set (refresh_tokens db). rf_token_hash r = h \<and> rf_user_id r = u)"

text \<open>Every operation keeps hash and user of the rows, never clears a revocation and may add one row.\<close>

definition grows :: "token_db \<Rightarrow> token_db \<Rightarrow> bool" where
  "grows db db' \<longleftrightarrow>
     (\<forall>r\<in>set (refresh_tokens db). \<exists>r'\<in>set (refresh_tokens db'). rf_token_hash r' = rf_token_hash r \<and>
        rf_user_id r' = rf_user_id r \<and> (rf_revoked_at r \<noteq> None \<longrightarrow> rf_revoked_at r' \<noteq> None))"

lemma grows_refl [simp]: "grows db db"
  by (auto simp: grows_def)

lemma grows_trans: "grows a b \<Longrightarrow> grows b c \<Longrightarrow> grows a c"
  unfolding grows_def by (metis (no_types, lifting))

lemma grows_spent: "grows db db' \<Longrightarrow> spent h db \<Longrightarrow> spent h db'"
  unfolding grows_def spent_def by (metis (no_types, lifting))

lemma grows_known: "grows db db' \<Longrightarrow> known h u db \<Longrightarrow> known h u db'"
  unfolding grows_def known_def by (metis (no_types, lifting))

lemma revoke_grows [simp]: "grows db (update_tokens p (\<lambda>r. r\<lparr>rf_revoked_at := Some now\<rparr>) db)"
  unfolding grows_def
proof
  fix r assume "r \<in> set (refresh_tokens db)"
  then have "(if p r then r\<lparr>rf_revoked_at := Some now\<rparr> else r) \<in> set (refresh_tokens (update_tokens p (\<lambda>r. r\<lparr>rf_revoked_at := Some now\<rparr>) db))"
    by (simp add: update_tokens_def set_update_where)
  then show "\<exists>r'\<in>set (refresh_tokens (update_tokens p (\<lambda>r. r\<lparr>rf_revoked_at := Some now\<rparr>) db)). rf_token_hash r' = rf_token_hash r \<and>
      rf_user_id r' = rf_user_id r \<and> (rf_revoked_at r \<noteq> None \<longrightarrow> rf_revoked_at r' \<noteq> None)"
    by (rule bexI [rotated]) simp
qed

lemma issue_grows [simp]: "grows db (issueRefreshToken hash plain now ttl u ctx db)"
  by (auto simp: grows_def issueRefreshToken_def insert_row_def)

lemma revoke_keyed [simp]:
  "keyed rf_token_hash (refresh_tokens db) \<Longrightarrow>
   keyed rf_token_hash (refresh_tokens (update_tokens p (\<lambda>r. r\<lparr>rf_revoked_at := Some now\<rparr>) db))"
  by (simp add: update_tokens_def keyed_update_where)

lemma find_token_None: "find_token h db = None \<longleftrightarrow> h \<notin> rf_token_hash ` set (refresh_tokens db)"
  by (auto simp: find_token_def find_where_None)

lemma find_token_revoke [simp]:
  "(find_token h (update_tokens p (\<lambda>r. r\<lparr>rf_revoked_at := Some now\<rparr>) db) = None) = (find_token h db = None)"
proof -
  have "map rf_token_hash (refresh_tokens (update_tokens p (\<lambda>r. r\<lparr>rf_revoked_at := Some now\<rparr>) db)) =
      map rf_token_hash (refresh_tokens db)"
    by (simp add: update_tokens_def update_where_def)
  then have "rf_token_hash ` set (refresh_tokens (update_tokens p (\<lambda>r. r\<lparr>rf_revoked_at := Some now\<rparr>) db)) =
      rf_token_hash ` set (refresh_tokens db)"
    by (metis set_map)
  then show ?thesis by (simp only: find_token_None)
qed

lemma issue_keyed:
  "keyed rf_token_hash (refresh_tokens db) \<Longrightarrow> find_token (hash plain) db = None \<Longrightarrow>
   keyed rf_token_hash (refresh_tokens (issueRefreshToken hash plain now ttl u ctx db))"
  by (simp add: issueRefreshToken_def keyed_insert_row find_token_None)

lemma found_token:
  assumes "keyed rf_token_hash (refresh_tokens db)" and "find_token h db = Some row"
  shows "spent h db \<longleftrightarrow> rf_revoked_at row \<noteq> None" and "rf_token_hash row = h" and "known h (rf_user_id row) db"
proof -
  have row: "row \<in> set (refresh_tokens db)" "rf_token_hash row = h"
    using find_where_Some assms(2) by (fastforce simp: find_token_def)+
  show "rf_token_hash row = h" "known h (rf_user_id row) db" using row by (auto simp: known_def)
  show "spent h db \<longleftrightarrow> rf_revoked_at row \<noteq> None"
  proof
    assume "spent h db"
    then obtain r where r: "r \<in> set (refresh_tokens db)" "rf_token_hash r = h" "rf_revoked_at r \<noteq> None" by (auto simp: spent_def)
    have "r = row" by (rule keyed_inj [OF assms(1) r(1) row(1)]) (simp add: r(2) row(2))
    then show "rf_revoked_at row \<noteq> None" using r(3) by simp
  qed (use row in \<open>auto simp: spent_def\<close>)
qed

lemma rotate_read_cases:
  obtains e where "rotate_read hash plain now ctx db = (Inl e, db)"
  | row where "find_token (hash plain) db = Some row" and "rf_revoked_at row \<noteq> None"
      and "rotate_read hash plain now ctx db =
        (Inl (Unauthorized_Err ''Refresh token was reused; all sessions revoked''), revokeAllForUser now (rf_user_id row) db)"
  | row user where "find_token (hash plain) db = Some row" and "rf_revoked_at row = None"
      and "rotate_read hash plain now ctx db = (Inr (row, user), db)"
proof (cases "find_token (hash plain) db")
  case None
  then show thesis using that(1) by (simp add: rotate_read_def)
next
  case (Some row)
  show thesis
  proof (cases "rf_revoked_at row = None")
    case True
    show thesis
    proof (cases "rf_expires_at row < now \<or> device_mismatch ctx row \<or> find_user (rf_user_id row) db = None")
      case True
      then have "\<exists>e. rotate_read hash plain now ctx db = (Inl e, db)"
        using Some \<open>rf_revoked_at row = None\<close> by (auto simp: rotate_read_def)
      then obtain e where "rotate_read hash plain now ctx db = (Inl e, db)" ..
      then show thesis by (rule that(1))
    next
      case False
      then obtain user where "find_user (rf_user_id row) db = Some user" by auto
      then have "rotate_read hash plain now ctx db = (Inr (row, user), db)"
        using Some False \<open>rf_revoked_at row = None\<close> by (simp add: rotate_read_def)
      then show thesis by (rule that(3) [OF Some True])
    qed
  qed (use that(2) Some in \<open>simp add: rotate_read_def\<close>)
qed

lemma rotate_write_db:
  "snd (rotate_write hash identity fresh now ttl ctx (row, user) db) =
    issueRefreshToken hash fresh now ttl (rf_user_id row)
      \<lparr>rc_device_id = or_given (rc_device_id ctx) (rf_device_id row), rc_user_agent = or_given (rc_user_agent ctx) (rf_user_agent row),
       rc_ip = or_given (rc_ip ctx) (rf_ip row)\<rparr>
      (update_tokens (\<lambda>r. rf_token_hash r = rf_token_hash row) (\<lambda>r. r\<lparr>rf_revoked_at := Some now\<rparr>) db)"
  by (simp add: rotate_write_def Let_def split: option.splits)

lemma rotate_write_spent:
  assumes "known (rf_token_hash row) u db"
  shows "spent (rf_token_hash row) (snd (rotate_write hash identity fresh now ttl ctx (row, user) db))"
proof -
  let ?db1 = "update_tokens (\<lambda>r. rf_token_hash r = rf_token_hash row) (\<lambda>r. r\<lparr>rf_revoked_at := Some now\<rparr>) db"
  obtain r where r: "r \<in> set (refresh_tokens db)" "rf_token_hash r = rf_token_hash row" using assms by (auto simp: known_def)
  have "r\<lparr>rf_revoked_at := Some now\<rparr> \<in> set (refresh_tokens ?db1)"
    using r by (auto simp: update_tokens_def set_update_where image_iff intro!: bexI [of _ r])
  then have "spent (rf_token_hash row) ?db1" unfolding spent_def by (rule bexI [rotated]) (simp add: r(2))
  then show ?thesis unfolding rotate_write_db by (rule grows_spent [OF issue_grows])
qed

lemma rotate_read_grows: "grows db (snd (rotate_read hash plain now ctx db))"
  by (rule rotate_read_cases [of hash plain now ctx db]) (simp_all add: revokeAllForUser_def)

lemma rotate_read_keyed:
  "keyed rf_token_hash (refresh_tokens db) \<Longrightarrow> keyed rf_token_hash (refresh_tokens (snd (rotate_read hash plain now ctx db)))"
  by (rule rotate_read_cases [of hash plain now ctx db]) (simp_all add: revokeAllForUser_def)

lemma rotate_write_grows: "grows db (snd (rotate_write hash identity fresh now ttl ctx found db))"
  by (cases found) (simp only: rotate_write_db, rule grows_trans [OF revoke_grows issue_grows])

lemma rotate_write_keyed:
  "keyed rf_token_hash (refresh_tokens db) \<Longrightarrow> find_token (hash fresh) db = None \<Longrightarrow>
   keyed rf_token_hash (refresh_tokens (snd (rotate_write hash identity fresh now ttl ctx found db)))"
  by (cases found) (simp add: rotate_write_db issue_keyed)

lemma token_exec_table:
  assumes "token_exec hash identity ttl e s = Some s'" and "keyed rf_token_hash (refresh_tokens (ts_db s))"
  shows "grows (ts_db s) (ts_db s') \<and> keyed rf_token_hash (refresh_tokens (ts_db s'))"
proof (cases e)
  case (Read_Token i plain now ctx)
  then show ?thesis using assms rotate_read_grows [of "ts_db s" hash plain now ctx] rotate_read_keyed [OF assms(2), of hash plain now ctx]
    by (cases "rotate_read hash plain now ctx (ts_db s)") (auto split: if_splits sum.splits)
next
  case (Write_Token i plain fresh now ctx)
  then show ?thesis using assms rotate_write_grows rotate_write_keyed by (auto split: if_splits option.splits)
next
  case (Logout plain now)
  then show ?thesis using assms by (auto simp: revokeRefreshSessionByToken_def Let_def split: if_splits option.splits)
next
  case (Logout_All u d now)
  then show ?thesis using assms by (auto simp: revokeRefreshTokens_def)
qed (use assms in \<open>auto simp: issue_keyed split: if_splits\<close>)

definition token_inv :: "token_system \<Rightarrow> bool" where
  "token_inv s \<longleftrightarrow>
     keyed rf_token_hash (refresh_tokens (ts_db s)) \<and> (\<forall>h\<in>set (ts_rotated s). spent h (ts_db s)) \<and>
     (\<forall>i h row user. ts_pending s i h = Some (row, user) \<longrightarrow> rf_token_hash row = h \<and> known h (rf_user_id row) (ts_db s))"

lemma token_inv_step:
  assumes inv: "token_inv s" and e: "token_exec hash identity ttl e s = Some s'"
  shows "token_inv s'"
proof -
  have k: "keyed rf_token_hash (refresh_tokens (ts_db s))" using inv by (simp add: token_inv_def)
  note t = token_exec_table [OF e k]
  have g: "spent h (ts_db s')" if "spent h (ts_db s)" for h using t grows_spent that by blast
  have gk: "known h u (ts_db s')" if "known h u (ts_db s)" for h u using t grows_known that by blast
  have keep: ?thesis if "ts_pending s' = ts_pending s" "ts_rotated s' = ts_rotated s"
    using inv t g gk that by (simp add: token_inv_def)
  show ?thesis
  proof (cases e)
    case (Read_Token i plain now ctx)
    have none: "ts_pending s i (hash plain) = None" using e Read_Token by (cases "ts_pending s i (hash plain)") simp_all
    show ?thesis
    proof (rule rotate_read_cases [of hash plain now ctx "ts_db s"])
      fix row user
      assume f: "find_token (hash plain) (ts_db s) = Some row" "rf_revoked_at row = None"
        and r: "rotate_read hash plain now ctx (ts_db s) = (Inr (row, user), ts_db s)"
      have s': "s' = s\<lparr>ts_pending := (ts_pending s)(i := (ts_pending s i)(hash plain := Some (row, user)))\<rparr>"
        using e Read_Token none r by simp
      have "rf_token_hash row = hash plain" "known (hash plain) (rf_user_id row) (ts_db s)" using found_token [OF k f(1)] by simp_all
      then show ?thesis using inv unfolding token_inv_def s' by (auto split: if_splits)
    qed (use e Read_Token none keep in auto)
  next
    case (Write_Token i plain fresh now ctx)
    then obtain row user where p: "ts_pending s i (hash plain) = Some (row, user)"
      and s': "s' = s\<lparr>ts_db := snd (rotate_write hash identity fresh now ttl ctx (row, user) (ts_db s)),
        ts_pending := (ts_pending s)(i := (ts_pending s i)(hash plain := None)), ts_rotated := ts_rotated s @ [hash plain]\<rparr>"
      using e by (auto split: option.splits if_splits)
    have row: "rf_token_hash row = hash plain" "known (hash plain) (rf_user_id row) (ts_db s)" using inv p unfolding token_inv_def by blast+
    have sp: "spent (hash plain) (ts_db s')" using rotate_write_spent [of row _ "ts_db s"] row by (simp add: s')
    have rot: "ts_rotated s' = ts_rotated s @ [hash plain]"
      "ts_pending s' = (ts_pending s)(i := (ts_pending s i)(hash plain := None))" by (simp_all add: s')
    have "\<forall>h\<in>set (ts_rotated s'). spent h (ts_db s')" using inv g sp by (auto simp: rot token_inv_def)
    moreover have "\<forall>i h row user. ts_pending s' i h = Some (row, user) \<longrightarrow> rf_token_hash row = h \<and> known h (rf_user_id row) (ts_db s')"
      using inv gk by (auto simp: rot token_inv_def split: if_splits)
    ultimately show ?thesis using t by (simp add: token_inv_def)
  qed (use e keep in \<open>auto split: if_splits\<close>)
qed

lemma reachable_token_inv: "token_reachable hash identity ttl allowed s \<Longrightarrow> token_inv s"
proof (induction rule: token_reachable.induct)
  case (start s)
  then show ?case by (simp add: token_inv_def keyed_def)
qed (rule token_inv_step)

section \<open>Reuse is detected\<close>


section \<open>One instance rotates a token once\<close>

definition solo_tokens :: "token_system \<Rightarrow> bool" where
  "solo_tokens s \<longleftrightarrow>
     distinct (ts_rotated s) \<and> (\<forall>i h. ts_pending s i h \<noteq> None \<longrightarrow> i = 0 \<and> h \<notin> set (ts_rotated s))"

text \<open>
  On a single instance no refresh token is ever rotated twice, however its requests interleave:
  requests with the same token that arrive during a rotation share its answer, and later ones find the
  token revoked.
\<close>

theorem one_instance_rotates_once:
  assumes "token_reachable hash identity ttl on_instance_0 s"
  shows "distinct (ts_rotated s)"
proof -
  have "solo_tokens s" using assms
  proof (induction rule: token_reachable.induct)
    case (start s)
    then show ?case by (simp add: solo_tokens_def)
  next
    case (step s e s')
    have inv: "token_inv s" by (rule reachable_token_inv [OF step.hyps(1)])
    then have k: "keyed rf_token_hash (refresh_tokens (ts_db s))" by (simp add: token_inv_def)
    have keep: ?case if "ts_pending s' = ts_pending s" "ts_rotated s' = ts_rotated s"
      using step.IH by (simp add: solo_tokens_def that)
    show ?case
    proof (cases e)
      case (Read_Token i plain now ctx)
      then have i: "i = 0" "ts_pending s i (hash plain) = None"
        using step.hyps by (simp, cases "ts_pending s i (hash plain)") simp_all
      show ?thesis
      proof (rule rotate_read_cases [of hash plain now ctx "ts_db s"])
        fix row user
        assume f: "find_token (hash plain) (ts_db s) = Some row" "rf_revoked_at row = None"
          and r: "rotate_read hash plain now ctx (ts_db s) = (Inr (row, user), ts_db s)"
        have "\<not> spent (hash plain) (ts_db s)" using found_token(1) [OF k f(1)] f(2) by simp
        then have "hash plain \<notin> set (ts_rotated s)" using inv by (auto simp: token_inv_def)
        moreover have "s' = s\<lparr>ts_pending := (ts_pending s)(i := (ts_pending s i)(hash plain := Some (row, user)))\<rparr>"
          using step.hyps(3) Read_Token i r by simp
        ultimately show ?thesis using step.IH i(1) by (auto simp: solo_tokens_def)
      qed (use step.hyps(3) Read_Token i keep in auto)
    next
      case (Write_Token i plain fresh now ctx)
      then have "ts_pending s i (hash plain) \<noteq> None" "i = 0"
        and s': "ts_rotated s' = ts_rotated s @ [hash plain]" "ts_pending s' = (ts_pending s)(i := (ts_pending s i)(hash plain := None))"
        using step.hyps by (auto split: option.splits if_splits)
      then show ?thesis using step.IH by (auto simp: solo_tokens_def split: if_splits)
    qed (use step.hyps keep in \<open>auto split: if_splits\<close>)
  qed
  then show ?thesis by (simp add: solo_tokens_def)
qed

section \<open>What a second instance and a concurrent logout can do\<close>

text \<open>
  Two instances fork a session. Both read the live token before either writes; both rotations
  succeed, and the user ends with one live token more than before, unnoticed by the detection of reuse.
\<close>

theorem two_instances_fork:
  assumes "refresh_tokens (ts_db s) = [row]" and "find_user (rf_user_id row) (ts_db s) = Some user"
    and "rf_token_hash row = hash plain" and "rf_revoked_at row = None" and "now \<le> rf_expires_at row"
    and "\<not> device_mismatch ctx row" and "ts_pending s = (\<lambda>i h. None)"
    and "hash a \<noteq> hash plain" and "hash b \<noteq> hash plain" and "hash a \<noteq> hash b"
  shows "\<exists>s'. token_execs hash identity ttl
      [Read_Token 0 plain now ctx, Read_Token 1 plain now ctx, Write_Token 0 plain a now ctx, Write_Token 1 plain b now ctx] s = Some s' \<and>
    map rf_token_hash (live_tokens (rf_user_id row) (ts_db s')) = [hash a, hash b] \<and>
    map rf_token_hash (live_tokens (rf_user_id row) (ts_db s)) = [hash plain]"
proof -
  have "rotate_read hash plain now ctx (ts_db s) = (Inr (row, user), ts_db s)"
    using assms(1-6) by (simp add: rotate_read_def find_token_def)
  then show ?thesis using assms
    by (auto simp: rotate_write_db find_token_def issueRefreshToken_def insert_row_def update_tokens_def live_tokens_def)
qed

text \<open>
  A session can outlive the logout of all devices. When the rotation of a token has read its row,
  the logout revokes everything, and the rotation then issues a new token that is live.
\<close>

theorem logout_all_survived:
  assumes "refresh_tokens (ts_db s) = [row]" and "find_user (rf_user_id row) (ts_db s) = Some user"
    and "rf_token_hash row = hash plain" and "rf_revoked_at row = None" and "now \<le> rf_expires_at row"
    and "\<not> device_mismatch ctx row" and "ts_pending s = (\<lambda>i h. None)" and "hash a \<noteq> hash plain"
  shows "\<exists>s'. token_execs hash identity ttl
      [Read_Token 0 plain now ctx, Logout_All (rf_user_id row) None now', Write_Token 0 plain a now ctx] s = Some s' \<and>
    map rf_token_hash (live_tokens (rf_user_id row) (ts_db s')) = [hash a]"
proof -
  have "rotate_read hash plain now ctx (ts_db s) = (Inr (row, user), ts_db s)"
    using assms(1-6) by (simp add: rotate_read_def find_token_def)
  then show ?thesis using assms
    by (auto simp: rotate_write_db find_token_def issueRefreshToken_def insert_row_def update_tokens_def live_tokens_def
        revokeRefreshTokens_def)
qed

section \<open>Witnesses\<close>

definition some_device :: refresh_context where
  "some_device = \<lparr>rc_device_id = Some ''d1'', rc_user_agent = None, rc_ip = None\<rparr>"

definition one_user :: token_system where
  "one_user = \<lparr>ts_db = \<lparr>auth_users = [\<lparr>us_id = ''u1'', us_account_type = Some ''CONSUMER'', us_unified_identity_id = Some ''i1'',
       us_phone_number = None, us_staff_role = None, us_authz_version = 1\<rparr>], refresh_tokens = []\<rparr>,
     ts_pending = (\<lambda>i h. None), ts_rotated = []\<rparr>"

definition logged_in :: token_system where
  "logged_in = the (token_execs (\<lambda>t. t) (\<lambda>u. None) 60 [Login ''u1'' ''t1'' 0 some_device] one_user)"

definition rotated_once :: token_system where
  "rotated_once = the (token_execs (\<lambda>t. t) (\<lambda>u. None) 60 [Read_Token 0 ''t1'' 10 some_device, Write_Token 0 ''t1'' ''t2'' 20 some_device] logged_in)"

lemma token_execs_reachable:
  "token_execs hash identity ttl es s = Some s' \<Longrightarrow> list_all allowed es \<Longrightarrow> token_reachable hash identity ttl allowed s
    \<Longrightarrow> token_reachable hash identity ttl allowed s'"
  by (induction es arbitrary: s) (auto split: option.splits intro: token_reachable.step)

lemma logged_in_facts:
  "token_execs (\<lambda>t. t) (\<lambda>u. None) 60 [Login ''u1'' ''t1'' 0 some_device] one_user = Some logged_in"
  "refresh_tokens (ts_db logged_in) = [\<lparr>rf_user_id = ''u1'', rf_token_hash = ''t1'', rf_device_id = Some ''d1'', rf_user_agent = None,
     rf_ip = None, rf_revoked_at = None, rf_expires_at = 60000\<rparr>]"
  "find_user ''u1'' (ts_db logged_in) \<noteq> None" "ts_pending logged_in = (\<lambda>i h. None)" "ts_rotated logged_in = []"
  by (simp_all add: logged_in_def one_user_def find_token_def issueRefreshToken_def insert_row_def some_device_def find_user_def)

lemma rotated_once_facts:
  "token_execs (\<lambda>t. t) (\<lambda>u. None) 60 [Read_Token 0 ''t1'' 10 some_device, Write_Token 0 ''t1'' ''t2'' 20 some_device] logged_in = Some rotated_once"
  "ts_rotated rotated_once = [''t1'']"
  using logged_in_facts
  by (auto simp: rotated_once_def find_token_def rotate_read_def device_mismatch_def some_device_def)

lemma rotated_once_reachable: "token_reachable (\<lambda>t. t) (\<lambda>u. None) 60 on_instance_0 rotated_once"
proof (rule token_execs_reachable [OF rotated_once_facts(1)])
  show "token_reachable (\<lambda>t. t) (\<lambda>u. None) 60 on_instance_0 logged_in"
    by (rule token_execs_reachable [OF logged_in_facts(1)]) (simp, rule token_reachable.start, simp_all add: one_user_def)
qed simp


theorem one_instance_rotates_once_witness: "distinct (ts_rotated rotated_once) \<and> ts_rotated rotated_once = [''t1'']"
  using one_instance_rotates_once [OF rotated_once_reachable] by (simp add: rotated_once_facts(2))

theorem two_instances_fork_witness:
  "\<exists>s'. token_execs (\<lambda>t. t) (\<lambda>u. None) 60 [Read_Token 0 ''t1'' 10 some_device, Read_Token 1 ''t1'' 10 some_device,
       Write_Token 0 ''t1'' ''t2'' 10 some_device, Write_Token 1 ''t1'' ''t3'' 10 some_device] logged_in = Some s' \<and>
     map rf_token_hash (live_tokens ''u1'' (ts_db s')) = [''t2'', ''t3'']"
proof -
  obtain user where u: "find_user ''u1'' (ts_db logged_in) = Some user" using logged_in_facts(3) by auto
  show ?thesis
    using two_instances_fork [OF logged_in_facts(2), of user "\<lambda>t. t" "''t1''" 10 some_device "''t2''" "''t3''" "\<lambda>u. None" 60]
      u logged_in_facts(4) by (auto simp: device_mismatch_def some_device_def)
qed

theorem logout_all_survived_witness:
  "\<exists>s'. token_execs (\<lambda>t. t) (\<lambda>u. None) 60 [Read_Token 0 ''t1'' 10 some_device, Logout_All ''u1'' None 11,
       Write_Token 0 ''t1'' ''t2'' 10 some_device] logged_in = Some s' \<and>
     map rf_token_hash (live_tokens ''u1'' (ts_db s')) = [''t2'']"
proof -
  obtain user where u: "find_user ''u1'' (ts_db logged_in) = Some user" using logged_in_facts(3) by auto
  show ?thesis
    using logout_all_survived [OF logged_in_facts(2), of user "\<lambda>t. t" "''t1''" 10 some_device "''t2''" "\<lambda>u. None" 60 11]
      u logged_in_facts(4) by (auto simp: device_mismatch_def some_device_def)
qed

end
