(* ===== verification/OtpSignIn.thy ===== *)
theory OtpSignIn
  imports MessagingState PhoneNumbers
begin

text \<open>
  Sending a one-time code and checking it (\<^verbatim>\<open>sendOtp\<close>, and \<^verbatim>\<open>verifyOtp\<close> up to the acceptance, in
  \<^verbatim>\<open>identity/src/modules/auth/auth.service.ts\<close>), with the lockout of \<^verbatim>\<open>otp-lockout.service.ts\<close>. The keyed
  hash of a code is the parameter \<open>oc_hmac\<close>. A code has a budget of guesses, which no interleaving exceeds;
  the lockout is an instance of the locale \<open>window_limiter\<close> of the messaging limits.
\<close>

section \<open>otp-lockout.service.ts\<close>

definition LOCKOUT_WINDOW_MS :: int where
  "LOCKOUT_WINDOW_MS = 900000"

definition MAX_FAILED_ATTEMPTS :: nat where
  "MAX_FAILED_ATTEMPTS = 5"

record otp_attempt =
  oa_phone_number :: string
  oa_ip :: string
  oa_failed_count :: nat
  oa_locked_until :: "time option"
  oa_updated_at :: time

record otp_code =
  op_id :: uuid
  op_phone_number :: string
  op_code :: string
  op_expires_at :: time
  op_attempts :: nat
  op_consumed_at :: "time option"
  op_created_at :: time

record otp_db =
  otp_attempts :: "otp_attempt list"
  otp_codes :: "otp_code list"

definition attempt_key :: "string \<Rightarrow> string \<Rightarrow> otp_attempt \<Rightarrow> bool" where
  "attempt_key phone ip a \<longleftrightarrow> oa_phone_number a = phone \<and> oa_ip a = ip"

definition new_attempt :: "time \<Rightarrow> string \<Rightarrow> string \<Rightarrow> otp_attempt" where
  "new_attempt now phone ip = \<lparr>oa_phone_number = phone, oa_ip = ip, oa_failed_count = 0, oa_locked_until = None, oa_updated_at = now\<rparr>"

text \<open>The private \<^verbatim>\<open>getOrCreate\<close>, and the \<^verbatim>\<open>save\<close> of the record it returned.\<close>

definition get_attempt :: "time \<Rightarrow> string \<Rightarrow> string \<Rightarrow> otp_db \<Rightarrow> otp_attempt \<times> otp_db" where
  "get_attempt now phone ip db =
     (case find_where (attempt_key phone ip) (otp_attempts db) of
        Some a \<Rightarrow> (a, db)
      | None \<Rightarrow> let a = new_attempt now phone ip in (a, db\<lparr>otp_attempts := insert_row a (otp_attempts db)\<rparr>))"

definition save_attempt :: "otp_attempt \<Rightarrow> otp_db \<Rightarrow> otp_db" where
  "save_attempt a db =
     db\<lparr>otp_attempts := update_where (attempt_key (oa_phone_number a) (oa_ip a)) (\<lambda>_. a) (otp_attempts db)\<rparr>"

text \<open>What the two operations do to a record.\<close>

definition unlock :: "time \<Rightarrow> otp_attempt \<Rightarrow> bool \<times> otp_attempt" where
  "unlock now a =
     (case oa_locked_until a of
        None \<Rightarrow> (False, a)
      | Some t \<Rightarrow>
          if t \<le> now then (False, a\<lparr>oa_locked_until := None, oa_failed_count := 0, oa_updated_at := now\<rparr>) else (True, a))"

definition count_failure :: "time \<Rightarrow> otp_attempt \<Rightarrow> otp_attempt" where
  "count_failure now a =
     (let failed = (if oa_updated_at a < now - LOCKOUT_WINDOW_MS then 0 else oa_failed_count a) + 1
      in a\<lparr>oa_failed_count := failed, oa_updated_at := now,
           oa_locked_until := (if failed \<ge> MAX_FAILED_ATTEMPTS then Some (now + LOCKOUT_WINDOW_MS) else oa_locked_until a)\<rparr>)"

definition isLockedOut :: "time \<Rightarrow> string \<Rightarrow> string \<Rightarrow> otp_db \<Rightarrow> bool \<times> otp_db" where
  "isLockedOut now phone ip db =
     (case get_attempt now phone ip db of
        (a, db1) \<Rightarrow> (case unlock now a of (locked, a1) \<Rightarrow> (locked, if a1 = a then db1 else save_attempt a1 db1)))"

definition recordFailure :: "time \<Rightarrow> string \<Rightarrow> string \<Rightarrow> otp_db \<Rightarrow> otp_db" where
  "recordFailure now phone ip db =
     (case get_attempt now phone ip db of (a, db1) \<Rightarrow> save_attempt (count_failure now a) db1)"

definition recordSuccess :: "time \<Rightarrow> string \<Rightarrow> string \<Rightarrow> otp_db \<Rightarrow> otp_db" where
  "recordSuccess now phone ip db =
     db\<lparr>otp_attempts := update_where (attempt_key phone ip)
          (\<lambda>a. a\<lparr>oa_failed_count := 0, oa_locked_until := None, oa_updated_at := now\<rparr>) (otp_attempts db)\<rparr>"

section \<open>Sending and checking a code\<close>

record otp_config =
  oc_env :: string
  oc_nexa_env :: "string option"
  oc_demo_code :: string
  oc_expiry_seconds :: int
  oc_hmac :: "string \<Rightarrow> string"

text \<open>\<open>random_code\<close> is what \<^verbatim>\<open>crypto.randomInt\<close> gives; the sending of the message changes no row.\<close>

definition sendOtp :: "otp_config \<Rightarrow> uuid \<Rightarrow> string \<Rightarrow> time \<Rightarrow> string \<Rightarrow> otp_db \<Rightarrow> unit result \<times> otp_db" where
  "sendOtp cfg new_id random_code now phone db =
     (case normalizePhoneOrThrow phone of
        Inl e \<Rightarrow> (Inl e, db)
      | Inr tel \<Rightarrow>
          let isDemoOtp = oc_demo_code cfg \<noteq> []
          in if oc_env cfg = ''production'' \<and> oc_nexa_env cfg \<noteq> Some ''dogfood'' \<and> isDemoOtp
             then (Inl (Bad_Request ''Demo OTP is allowed only in dogfood''), db)
             else (Inr (), db\<lparr>otp_codes := insert_row
               \<lparr>op_id = new_id, op_phone_number = tel,
                op_code = oc_hmac cfg (if isDemoOtp then oc_demo_code cfg else random_code),
                op_expires_at = now + oc_expiry_seconds cfg * 1000, op_attempts = 0, op_consumed_at = None,
                op_created_at = now\<rparr> (otp_codes db)\<rparr>))"

definition demo_code :: "otp_config \<Rightarrow> string option" where
  "demo_code cfg =
     (if (oc_env cfg \<noteq> ''production'' \<or> oc_nexa_env cfg = Some ''dogfood'') \<and>
         oc_nexa_env cfg \<noteq> Some ''production'' \<and> oc_demo_code cfg \<noteq> []
      then Some (oc_demo_code cfg) else None)"

definition update_code :: "uuid \<Rightarrow> (otp_code \<Rightarrow> otp_code) \<Rightarrow> otp_db \<Rightarrow> otp_db" where
  "update_code i f db = db\<lparr>otp_codes := update_where (\<lambda>r. op_id r = i) f (otp_codes db)\<rparr>"

text \<open>The hash, the plain text of a legacy row, or the demo code where one is allowed.\<close>

definition code_matches :: "otp_config \<Rightarrow> string \<Rightarrow> otp_code \<Rightarrow> bool" where
  "code_matches cfg submitted r \<longleftrightarrow>
     (let storedCode = js_trim (op_code r)
      in oc_hmac cfg submitted = storedCode \<or> (length storedCode \<le> 8 \<and> submitted = storedCode) \<or> demo_code cfg = Some submitted)"

definition wrong_code :: "time \<Rightarrow> otp_code \<Rightarrow> otp_code" where
  "wrong_code now r =
     r\<lparr>op_attempts := op_attempts r + 1,
       op_consumed_at := (if op_attempts r + 1 \<ge> 5 then Some now else op_consumed_at r)\<rparr>"

text \<open>The ways the check ends; the caller sees an error, \<^verbatim>\<open>verified: false\<close> or a session.\<close>

datatype otp_verdict = Locked_Out | No_Code | Spent_Code | Expired_Code | Wrong_Code | Accepted

definition verify_answer :: "otp_verdict \<Rightarrow> bool result" where
  "verify_answer v = (case v of Locked_Out \<Rightarrow> Inl (Bad_Request ''Too many attempts. Try again later.'') | Accepted \<Rightarrow> Inr True | _ \<Rightarrow> Inr False)"

definition find_code :: "string \<Rightarrow> otp_db \<Rightarrow> otp_code option" where
  "find_code phone db = find_latest op_created_at (\<lambda>r. op_phone_number r = phone) (otp_codes db)"

definition check_otp ::
    "otp_config \<Rightarrow> time \<Rightarrow> string \<Rightarrow> string \<Rightarrow> string \<Rightarrow> otp_db \<Rightarrow> otp_verdict \<times> otp_db" where
  "check_otp cfg now tel ip otp db =
     (let submitted = js_trim otp
      in case isLockedOut now tel ip db of
           (True, db1) \<Rightarrow> (Locked_Out, db1)
         | (False, db1) \<Rightarrow>
             (case find_code tel db1 of
                None \<Rightarrow> (No_Code, recordFailure now tel ip db1)
              | Some r \<Rightarrow>
                  if op_consumed_at r \<noteq> None then (Spent_Code, recordFailure now tel ip db1)
                  else if op_expires_at r < now then (Expired_Code, db1)
                  else if \<not> code_matches cfg submitted r
                  then (Wrong_Code, update_code (op_id r) (wrong_code now) (recordFailure now tel ip db1))
                  else (Accepted, update_code (op_id r) (\<lambda>x. x\<lparr>op_consumed_at := Some now\<rparr>) (recordSuccess now tel ip db1))))"

definition verifyOtp ::
    "otp_config \<Rightarrow> time \<Rightarrow> string \<Rightarrow> string \<Rightarrow> string \<Rightarrow> otp_db \<Rightarrow> bool result \<times> otp_db" where
  "verifyOtp cfg now phone ip otp db =
     (case normalizePhoneOrThrow phone of
        Inl e \<Rightarrow> (Inl e, db)
      | Inr tel \<Rightarrow> (case check_otp cfg now tel ip otp db of (v, db1) \<Rightarrow> (verify_answer v, db1)))"

section \<open>A code and its guesses\<close>

text \<open>Sends and checks in any order, of any numbers from any addresses; each check that looks at a code gives its id.\<close>

datatype otp_event = Otp_Send uuid string time string | Otp_Verify time string string string

fun otp_run :: "otp_config \<Rightarrow> otp_event list \<Rightarrow> otp_db \<Rightarrow> (uuid \<times> otp_verdict) list" where
  "otp_run cfg [] db = []"
| "otp_run cfg (Otp_Send i code now phone # es) db = otp_run cfg es (snd (sendOtp cfg i code now phone db))"
| "otp_run cfg (Otp_Verify now phone ip otp # es) db =
     (case normalizePhoneOrThrow phone of
        Inl _ \<Rightarrow> otp_run cfg es db
      | Inr tel \<Rightarrow>
          (case check_otp cfg now tel ip otp db of
             (v, db1) \<Rightarrow>
               (case find_code tel db of None \<Rightarrow> [] | Some r \<Rightarrow> [(op_id r, v)]) @ otp_run cfg es db1))"

fun sent_ids :: "otp_event list \<Rightarrow> uuid list" where
  "sent_ids [] = []"
| "sent_ids (Otp_Send i code now phone # es) = i # sent_ids es"
| "sent_ids (Otp_Verify now phone ip otp # es) = sent_ids es"

definition fresh_ids :: "otp_event list \<Rightarrow> otp_db \<Rightarrow> bool" where
  "fresh_ids es db \<longleftrightarrow> distinct (map op_id (otp_codes db) @ sent_ids es)"

definition code_row :: "uuid \<Rightarrow> otp_db \<Rightarrow> otp_code option" where
  "code_row i db = find_where (\<lambda>r. op_id r = i) (otp_codes db)"

definition guesses_left :: "uuid \<Rightarrow> otp_db \<Rightarrow> nat" where
  "guesses_left i db =
     (case code_row i db of None \<Rightarrow> 5 | Some r \<Rightarrow> if op_consumed_at r \<noteq> None then 0 else max 1 (5 - op_attempts r))"

definition uses_left :: "uuid \<Rightarrow> otp_db \<Rightarrow> nat" where
  "uses_left i db = (case code_row i db of None \<Rightarrow> 1 | Some r \<Rightarrow> if op_consumed_at r \<noteq> None then 0 else 1)"

lemma otp_codes_lockout [simp]:
  "otp_codes (snd (isLockedOut now tel ip db)) = otp_codes db"
  "otp_codes (recordFailure now tel ip db) = otp_codes db"
  "otp_codes (recordSuccess now tel ip db) = otp_codes db"
  by (simp_all add: isLockedOut_def recordFailure_def recordSuccess_def get_attempt_def save_attempt_def Let_def split: option.splits prod.splits)

lemma find_code_lockout [simp]: "find_code tel (snd (isLockedOut now tel' ip db)) = find_code tel db"
  by (simp add: find_code_def)

lemma find_code_row:
  assumes "find_code tel db = Some r" and "distinct (map op_id (otp_codes db))"
  shows "code_row (op_id r) db = Some r"
proof -
  have "r \<in> set (otp_codes db)" using assms(1) by (auto simp: find_code_def dest: find_latest_Some)
  then show ?thesis using keyed_find_where [of op_id "otp_codes db" r] assms(2) by (simp add: code_row_def keyed_def)
qed

text \<open>What a check does to the codes.\<close>

lemma check_otp_codes:
  "otp_codes (snd (check_otp cfg now tel ip otp db)) =
     (case (find_code tel db, fst (check_otp cfg now tel ip otp db)) of
        (Some r, Wrong_Code) \<Rightarrow> update_where (\<lambda>x. op_id x = op_id r) (wrong_code now) (otp_codes db)
      | (Some r, Accepted) \<Rightarrow> update_where (\<lambda>x. op_id x = op_id r) (\<lambda>x. x\<lparr>op_consumed_at := Some now\<rparr>) (otp_codes db)
      | _ \<Rightarrow> otp_codes db)"
proof -
  obtain l db1 where l: "isLockedOut now tel ip db = (l, db1)" by fastforce
  then have c: "otp_codes db1 = otp_codes db" "find_code tel db1 = find_code tel db"
    using otp_codes_lockout(1) [of now tel ip db] find_code_lockout [of tel now tel ip db] by simp_all
  show ?thesis by (auto simp: check_otp_def l c Let_def update_code_def split: option.splits bool.splits)
qed

lemma check_otp_live:
  "fst (check_otp cfg now tel ip otp db) \<in> {Wrong_Code, Accepted} \<Longrightarrow>
     \<exists>r. find_code tel db = Some r \<and> op_consumed_at r = None"
proof -
  obtain l db1 where l: "isLockedOut now tel ip db = (l, db1)" by fastforce
  then have c: "find_code tel db1 = find_code tel db" using find_code_lockout [of tel now tel ip db] by simp
  show "fst (check_otp cfg now tel ip otp db) \<in> {Wrong_Code, Accepted} \<Longrightarrow> ?thesis"
    by (auto simp: check_otp_def l c Let_def split: option.splits bool.splits if_splits)
qed

lemma code_row_update:
  assumes "\<And>x. op_id (f x) = op_id x"
  shows "find_where (\<lambda>r. op_id r = i) (update_where (\<lambda>x. op_id x = j) f rows) =
    map_option (\<lambda>r. if i = j then f r else r) (find_where (\<lambda>r. op_id r = i) rows)"
  by (induction rows) (auto simp: assms)

lemma map_id_update:
  assumes "\<And>x. op_id (f x) = op_id x"
  shows "map op_id (update_where p f rows) = map op_id rows"
  by (simp add: map_update_where assms)

lemma wrong_code_id [simp]: "op_id (wrong_code now r) = op_id r"
  by (simp add: wrong_code_def Let_def)

lemma check_otp_ids [simp]: "map op_id (otp_codes (snd (check_otp cfg now tel ip otp db))) = map op_id (otp_codes db)"
  by (auto simp: check_otp_codes map_id_update split: option.splits otp_verdict.splits)

lemma check_otp_row:
  "code_row i (snd (check_otp cfg now tel ip otp db)) =
     (case (find_code tel db, fst (check_otp cfg now tel ip otp db)) of
        (Some r, Wrong_Code) \<Rightarrow> map_option (\<lambda>x. if i = op_id r then wrong_code now x else x) (code_row i db)
      | (Some r, Accepted) \<Rightarrow> map_option (\<lambda>x. if i = op_id r then x\<lparr>op_consumed_at := Some now\<rparr> else x) (code_row i db)
      | _ \<Rightarrow> code_row i db)"
  unfolding code_row_def check_otp_codes
  by (auto simp: code_row_update split: option.splits otp_verdict.splits)

text \<open>A check spends what the code has left.\<close>

lemma check_otp_spends:
  assumes "distinct (map op_id (otp_codes db))"
  shows "guesses_left i (snd (check_otp cfg now tel ip otp db)) +
      (case find_code tel db of None \<Rightarrow> 0 | Some r \<Rightarrow> if op_id r = i \<and> fst (check_otp cfg now tel ip otp db) = Wrong_Code then 1 else 0)
      \<le> guesses_left i db \<and>
    uses_left i (snd (check_otp cfg now tel ip otp db)) +
      (case find_code tel db of None \<Rightarrow> 0 | Some r \<Rightarrow> if op_id r = i \<and> fst (check_otp cfg now tel ip otp db) = Accepted then 1 else 0)
      \<le> uses_left i db"
proof (cases "fst (check_otp cfg now tel ip otp db) \<in> {Wrong_Code, Accepted}")
  case True
  then obtain r where r: "find_code tel db = Some r" "op_consumed_at r = None" using check_otp_live by blast
  have row: "code_row (op_id r) db = Some r" using find_code_row [OF r(1) assms] .
  show ?thesis
  proof (cases "op_id r = i")
    case True
    then show ?thesis using \<open>fst _ \<in> _\<close> row r
      by (auto simp: guesses_left_def uses_left_def check_otp_row wrong_code_def Let_def)
  next
    case False
    then show ?thesis using \<open>fst _ \<in> _\<close> r
      by (auto simp: guesses_left_def uses_left_def check_otp_row option.map_ident)
  qed
next
  case False
  then have "code_row i (snd (check_otp cfg now tel ip otp db)) = code_row i db"
    by (cases "fst (check_otp cfg now tel ip otp db)") (auto simp: check_otp_row split: option.splits)
  then show ?thesis using False by (auto simp: guesses_left_def uses_left_def split: option.splits)
qed

lemma sendOtp_codes:
  "snd (sendOtp cfg j code now phone db) = db \<or>
   (\<exists>r. otp_codes (snd (sendOtp cfg j code now phone db)) = otp_codes db @ [r] \<and> op_id r = j \<and>
      op_attempts r = 0 \<and> op_consumed_at r = None)"
  by (auto simp: sendOtp_def Let_def insert_row_def split: sum.splits)

lemma send_row:
  assumes "op_attempts r = 0" and "op_consumed_at r = None" and "otp_codes db1 = otp_codes db @ [r]"
  shows "guesses_left i db1 \<le> guesses_left i db \<and> uses_left i db1 \<le> uses_left i db"
  using assms(1, 2)
  by (auto simp: guesses_left_def uses_left_def code_row_def assms(3) find_where_append split: option.splits)

lemma fresh_ids_step:
  "fresh_ids (Otp_Send i code now phone # es) db \<Longrightarrow> fresh_ids es (snd (sendOtp cfg i code now phone db))"
  "fresh_ids (Otp_Verify now phone ip otp # es) db \<Longrightarrow> fresh_ids es (snd (check_otp cfg now tel ip otp db))"
  "fresh_ids (Otp_Verify now phone ip otp # es) db \<Longrightarrow> fresh_ids es db"
  "fresh_ids es db \<Longrightarrow> distinct (map op_id (otp_codes db))"
  using sendOtp_codes [of cfg i code now phone db] by (auto simp: fresh_ids_def disjoint_iff)

lemma guesses_bounded:
  assumes "fresh_ids es db"
  shows "count_list (otp_run cfg es db) (i, Wrong_Code) \<le> guesses_left i db \<and>
    count_list (otp_run cfg es db) (i, Accepted) \<le> uses_left i db"
  using assms
proof (induction cfg es db rule: otp_run.induct)
  case (1 cfg db)
  then show ?case by simp
next
  case (2 cfg j code now phone es db)
  have "guesses_left i (snd (sendOtp cfg j code now phone db)) \<le> guesses_left i db \<and>
      uses_left i (snd (sendOtp cfg j code now phone db)) \<le> uses_left i db"
    using sendOtp_codes [of cfg j code now phone db] send_row by auto
  then show ?case using 2(1) [OF fresh_ids_step(1) [OF 2(2)]] by auto
next
  case (3 cfg now phone ip otp es db)
  show ?case
  proof (cases "normalizePhoneOrThrow phone")
    case (Inl e)
    then show ?thesis using 3 fresh_ids_step(3) by auto
  next
    case (Inr tel)
    obtain v db1 where c: "check_otp cfg now tel ip otp db = (v, db1)" by fastforce
    have s: "snd (check_otp cfg now tel ip otp db) = db1" "fst (check_otp cfg now tel ip otp db) = v" by (simp_all add: c)
    note ih = 3(2) [OF Inr c [symmetric] fresh_ids_step(2) [OF 3(3), of cfg tel, unfolded s]]
    note sp = check_otp_spends [OF fresh_ids_step(4) [OF 3(3)], of i cfg now tel ip otp, unfolded s]
    show ?thesis using ih sp by (auto simp: Inr c split: option.splits if_splits)
  qed
qed



definition plain_otp_config :: otp_config where
  "plain_otp_config = \<lparr>oc_env = ''production'', oc_nexa_env = None, oc_demo_code = [], oc_expiry_seconds = 300, oc_hmac = (\<lambda>s. s)\<rparr>"

definition guessing_events :: "otp_event list" where
  "guessing_events =
     Otp_Send ''c1'' ''123456'' 0 ''0612345678'' #
     map (\<lambda>k. Otp_Verify (1000 * k) ''+212612345678'' ''10.0.0.1'' ''111111'') [1, 2, 3, 4] @
     [Otp_Verify 5000 ''06-12-34-56-78'' ''10.0.0.2'' ''111111'', Otp_Verify 6000 ''0612345678'' ''10.0.0.3'' ''123456'']"


section \<open>Failures in any quarter of an hour\<close>

text \<open>
  A record agrees with the failures \<open>h\<close> counted since the last success: what is recent is counted, a lock
  outlasts the window of every failure, and without a lock the count is below the limit.
\<close>

definition counts :: "otp_attempt \<Rightarrow> time list \<Rightarrow> bool" where
  "counts a h \<longleftrightarrow>
     (\<forall>t\<in>set h. t \<le> oa_updated_at a) \<and>
     (\<forall>now\<ge>oa_updated_at a. length (filter (\<lambda>t. now - t < LOCKOUT_WINDOW_MS) h) \<le> oa_failed_count a) \<and>
     (case oa_locked_until a of
        None \<Rightarrow> oa_failed_count a < MAX_FAILED_ATTEMPTS
      | Some u \<Rightarrow> \<forall>t\<in>set h. t + LOCKOUT_WINDOW_MS \<le> u)"

lemma old_filtered: "(\<And>t. t \<in> set h \<Longrightarrow> \<not> now - t < (w::int)) \<Longrightarrow> filter (\<lambda>t. now - t < w) h = []"
  by (simp add: filter_empty_conv)

lemma counts_new: "counts (new_attempt now tel ip) []"
  by (simp add: counts_def new_attempt_def MAX_FAILED_ATTEMPTS_def)

lemma counts_unlock:
  assumes "counts a h" and "unlock now a = (l, a1)" and "oa_updated_at a \<le> now"
  shows "counts a1 h \<and> oa_updated_at a1 \<le> now \<and> (\<not> l \<longrightarrow> oa_locked_until a1 = None)"
proof (cases "oa_locked_until a")
  case None
  then show ?thesis using assms by (simp add: unlock_def)
next
  case (Some u)
  show ?thesis
  proof (cases "u \<le> now")
    case True
    have old: "t + LOCKOUT_WINDOW_MS \<le> now" if "t \<in> set h" for t
      using assms(1) Some True that by (auto simp: counts_def)
    have "filter (\<lambda>t. n - t < LOCKOUT_WINDOW_MS) h = []" if "now \<le> n" for n
      using old that by (intro old_filtered) fastforce
    moreover have "\<forall>t\<in>set h. t \<le> now" using assms(1, 3) by (auto simp: counts_def)
    ultimately show ?thesis using assms(2) True Some by (auto simp: unlock_def counts_def MAX_FAILED_ATTEMPTS_def)
  next
    case False
    then show ?thesis using assms Some by (auto simp: unlock_def)
  qed
qed

lemma counts_failure:
  assumes "counts a h" and "oa_updated_at a \<le> now" and "oa_locked_until a = None"
  shows "counts (count_failure now a) (h @ [now])"
proof -
  define k where "k = (if oa_updated_at a < now - LOCKOUT_WINDOW_MS then 0 else oa_failed_count a)"
  have le: "t \<le> now" if "t \<in> set h" for t using assms(1, 2) that by (auto simp: counts_def)
  have recent: "length (filter (\<lambda>t. n - t < LOCKOUT_WINDOW_MS) h) \<le> k" if "now \<le> n" for n
  proof (cases "oa_updated_at a < now - LOCKOUT_WINDOW_MS")
    case True
    have "\<not> n - t < LOCKOUT_WINDOW_MS" if "t \<in> set h" for t
      using assms(1) True \<open>now \<le> n\<close> that by (fastforce simp: counts_def)
    then show ?thesis by (simp add: old_filtered)
  next
    case False
    then show ?thesis using assms(1, 2) that by (simp add: counts_def k_def)
  qed
  have c: "oa_failed_count (count_failure now a) = k + 1" "oa_updated_at (count_failure now a) = now"
    "oa_locked_until (count_failure now a) = (if MAX_FAILED_ATTEMPTS \<le> k + 1 then Some (now + LOCKOUT_WINDOW_MS) else None)"
    using assms(3) by (simp_all add: count_failure_def k_def Let_def)
  have "length (filter (\<lambda>t. n - t < LOCKOUT_WINDOW_MS) (h @ [now])) \<le> k + 1" if "now \<le> n" for n
    using recent [OF that] by simp
  then show ?thesis using le by (auto simp: counts_def c)
qed

definition otp_admits :: "time list \<Rightarrow> time \<Rightarrow> bool" where
  "otp_admits h now \<longleftrightarrow> (\<exists>a. counts a h \<and> oa_updated_at a \<le> now \<and> oa_locked_until a = None)"

interpretation otp_lockout: window_limiter MAX_FAILED_ATTEMPTS LOCKOUT_WINDOW_MS otp_admits
  by unfold_locales (fastforce simp: otp_admits_def counts_def)

text \<open>The guesses for one number from one address, with their times and outcomes.\<close>

fun guess_run :: "otp_config \<Rightarrow> string \<Rightarrow> string \<Rightarrow> (time \<times> string) list \<Rightarrow> otp_db \<Rightarrow> (time \<times> otp_verdict) list" where
  "guess_run cfg tel ip [] db = []"
| "guess_run cfg tel ip ((now, otp) # gs) db =
     (case check_otp cfg now tel ip otp db of (v, db1) \<Rightarrow> (now, v) # guess_run cfg tel ip gs db1)"

definition failed_guess :: "otp_verdict \<Rightarrow> bool" where
  "failed_guess v \<longleftrightarrow> v = No_Code \<or> v = Spent_Code \<or> v = Wrong_Code"

definition attempt_row :: "string \<Rightarrow> string \<Rightarrow> otp_db \<Rightarrow> otp_attempt option" where
  "attempt_row tel ip db = find_where (attempt_key tel ip) (otp_attempts db)"

definition row_or_new :: "time \<Rightarrow> string \<Rightarrow> string \<Rightarrow> otp_db \<Rightarrow> otp_attempt" where
  "row_or_new now tel ip db = (case attempt_row tel ip db of None \<Rightarrow> new_attempt now tel ip | Some a \<Rightarrow> a)"

lemma attempt_row_codes [simp]: "attempt_row tel ip (update_code i f db) = attempt_row tel ip db"
  by (simp add: attempt_row_def update_code_def)

lemma find_replaced:
  "p a \<Longrightarrow> find_where p rows = Some b \<Longrightarrow> find_where p (update_where p (\<lambda>_. a) rows) = Some a"
  by (induction rows) (auto split: if_splits)

lemma get_attempt_row:
  assumes "get_attempt now tel ip db = (a, db1)"
  shows "a = row_or_new now tel ip db \<and> attempt_row tel ip db1 = Some a \<and> attempt_key tel ip a"
proof (cases "attempt_row tel ip db")
  case None
  then have "a = new_attempt now tel ip" "otp_attempts db1 = otp_attempts db @ [a]"
    using assms by (auto simp: get_attempt_def attempt_row_def insert_row_def Let_def)
  then show ?thesis using None
    by (simp add: row_or_new_def attempt_row_def find_where_append attempt_key_def new_attempt_def)
next
  case (Some b)
  then have "a = b" "db1 = db" using assms by (auto simp: get_attempt_def attempt_row_def)
  then show ?thesis using Some by (auto simp: row_or_new_def attempt_row_def dest: find_where_Some)
qed

lemma save_attempt_row:
  assumes "attempt_key tel ip a" and "attempt_row tel ip db = Some b"
  shows "attempt_row tel ip (save_attempt a db) = Some a"
  using assms find_replaced [of "attempt_key tel ip" a "otp_attempts db" b]
  by (simp add: attempt_row_def save_attempt_def attempt_key_def)

lemma unlock_key: "attempt_key tel ip (snd (unlock now a)) = attempt_key tel ip a"
  by (simp add: unlock_def attempt_key_def split: option.splits)

lemma isLockedOut_row:
  assumes "isLockedOut now tel ip db = (l, db1)"
  shows "unlock now (row_or_new now tel ip db) = (l, the (attempt_row tel ip db1)) \<and> attempt_row tel ip db1 \<noteq> None"
proof -
  obtain a db2 where g: "get_attempt now tel ip db = (a, db2)" by fastforce
  obtain l1 a1 where u: "unlock now a = (l1, a1)" by fastforce
  have "l = l1" "db1 = (if a1 = a then db2 else save_attempt a1 db2)"
    using assms by (auto simp: isLockedOut_def g u)
  moreover have "attempt_row tel ip (save_attempt a1 db2) = Some a1"
    using get_attempt_row [OF g] unlock_key [of tel ip now a] u by (intro save_attempt_row) auto
  ultimately show ?thesis using get_attempt_row [OF g] u by auto
qed

lemma recordFailure_row:
  assumes "attempt_row tel ip db = Some a"
  shows "attempt_row tel ip (recordFailure now tel ip db) = Some (count_failure now a)"
proof -
  obtain b db1 where g: "get_attempt now tel ip db = (b, db1)" by fastforce
  have b: "b = a" using get_attempt_row [OF g] assms by (simp add: row_or_new_def)
  have "attempt_key tel ip b" using get_attempt_row [OF g] by blast
  then have "attempt_key tel ip (count_failure now b)" by (simp add: attempt_key_def count_failure_def Let_def)
  then show ?thesis using save_attempt_row [of tel ip "count_failure now b" db1 b] get_attempt_row [OF g]
    by (simp add: recordFailure_def g b)
qed

lemma recordSuccess_codes_row: "oa_updated_at (count_failure now a) = now"
  by (simp add: count_failure_def Let_def)

text \<open>One guess that is not accepted, seen from the record.\<close>

lemma check_otp_record:
  assumes "check_otp cfg now tel ip otp db = (v, db1)" and "v \<noteq> Accepted"
    and "counts (row_or_new now tel ip db) h" and "oa_updated_at (row_or_new now tel ip db) \<le> now"
  shows "\<exists>a. attempt_row tel ip db1 = Some a \<and> oa_updated_at a \<le> now \<and>
    (if failed_guess v then otp_admits h now \<and> counts a (h @ [now]) else counts a h)"
proof -
  obtain l db2 where l: "isLockedOut now tel ip db = (l, db2)" by fastforce
  obtain a where a: "attempt_row tel ip db2 = Some a" "unlock now (row_or_new now tel ip db) = (l, a)"
    using isLockedOut_row [OF l] by auto
  note c = counts_unlock [OF assms(3) a(2) assms(4)]
  have admits: "otp_admits h now" if "\<not> l" using c that by (auto simp: otp_admits_def)
  have fail: "attempt_row tel ip (recordFailure now tel ip db2) = Some (count_failure now a)"
    using recordFailure_row [OF a(1)] .
  have cf: "counts (count_failure now a) (h @ [now])" if "\<not> l" using c that by (intro counts_failure) auto
  show ?thesis
  proof (cases "failed_guess v")
    case True
    then have "\<not> l \<and> attempt_row tel ip db1 = Some (count_failure now a)"
      using assms(1, 2) fail by (auto simp: check_otp_def l Let_def failed_guess_def split: bool.splits option.splits if_splits)
    then show ?thesis using True admits cf recordSuccess_codes_row [of now a] by auto
  next
    case False
    then have "db1 = db2"
      using assms(1, 2) by (auto simp: check_otp_def l Let_def failed_guess_def split: bool.splits option.splits if_splits)
    then show ?thesis using False a(1) c by auto
  qed
qed

lemma guess_run_history:
  assumes "accepted_history otp_admits h" and "sorted (map fst gs)"
    and "\<forall>g\<in>set gs. oa_updated_at (row_or_new (fst g) tel ip db) \<le> fst g"
    and "\<forall>g\<in>set gs. counts (row_or_new (fst g) tel ip db) h"
    and "\<forall>x\<in>set (guess_run cfg tel ip gs db). snd x \<noteq> Accepted"
  shows "accepted_history otp_admits (h @ map fst (filter (\<lambda>x. failed_guess (snd x)) (guess_run cfg tel ip gs db)))"
  using assms
proof (induction gs arbitrary: h db)
  case Nil
  then show ?case by simp
next
  case (Cons g gs)
  obtain now otp where g: "g = (now, otp)" by fastforce
  obtain v db1 where c: "check_otp cfg now tel ip otp db = (v, db1)" by fastforce
  have v: "v \<noteq> Accepted" using Cons.prems(5) by (simp add: g c)
  have cn: "counts (row_or_new now tel ip db) h" using Cons.prems(4) by (auto simp: g)
  have up: "oa_updated_at (row_or_new now tel ip db) \<le> now" using Cons.prems(3) by (simp add: g)
  obtain a where a: "attempt_row tel ip db1 = Some a" "oa_updated_at a \<le> now"
      "if failed_guess v then otp_admits h now \<and> counts a (h @ [now]) else counts a h"
    using check_otp_record [OF c v cn up] by blast
  have row: "row_or_new t tel ip db1 = a" for t by (simp add: row_or_new_def a(1))
  have le: "\<forall>t\<in>set h. t \<le> now" using cn up by (auto simp: counts_def)
  define h1 where "h1 = (if failed_guess v then h @ [now] else h)"
  have "accepted_history otp_admits h1"
    using Cons.prems(1) a(3) le by (auto simp: h1_def intro: accepted_history.accept)
  moreover have "\<forall>x\<in>set gs. oa_updated_at (row_or_new (fst x) tel ip db1) \<le> fst x"
    using Cons.prems(2) a(2) by (fastforce simp: row g)
  moreover have "counts (row_or_new t tel ip db1) h1" for t using a(3) by (auto simp: row h1_def split: if_splits)
  ultimately have "accepted_history otp_admits (h1 @ map fst (filter (\<lambda>x. failed_guess (snd x)) (guess_run cfg tel ip gs db1)))"
    using Cons.IH [of h1 db1] Cons.prems(2, 5) by (simp add: g c)
  then show ?case by (simp add: g c h1_def split: if_splits)
qed


definition steady_guesses :: "(time \<times> string) list" where
  "steady_guesses = map (\<lambda>k. (60000 * k, ''111111'')) [1, 2, 3, 4, 5, 6, 7, 8, 20, 21]"


end
