(* ===== verification/PinSignIn.thy ===== *)
theory PinSignIn
  imports OtpSignIn
begin

text \<open>
  Checking a PIN (\<^verbatim>\<open>verifyPin\<close> of \<^verbatim>\<open>identity/src/modules/auth/auth.service.ts\<close> up to the acceptance) with the
  growing lockout of \<^verbatim>\<open>pin-lockout.service.ts\<close>. The failures are counted from the first of a run, so the
  bound on a span of time, again by \<open>window_limiter\<close>, is twice the limit less one.
\<close>

section \<open>pin-lockout.service.ts\<close>

record pin_config =
  pc_max_attempts :: nat
  pc_window_minutes :: int
  pc_base_seconds :: int
  pc_max_seconds :: int

record pin_attempt =
  pn_user_id :: uuid
  pn_failed_count :: nat
  pn_lockout_level :: nat
  pn_first_failed_at :: "time option"
  pn_lockout_until :: "time option"

record pin_status =
  ps_locked :: bool
  ps_retry_after :: int
  ps_locked_until :: "time option"
  ps_remaining :: nat

definition get_pin :: "uuid \<Rightarrow> pin_attempt list \<Rightarrow> pin_attempt \<times> pin_attempt list" where
  "get_pin userId rows =
     (case find_where (\<lambda>a. pn_user_id a = userId) rows of
        Some a \<Rightarrow> (a, rows)
      | None \<Rightarrow> let a = \<lparr>pn_user_id = userId, pn_failed_count = 0, pn_lockout_level = 0,
                          pn_first_failed_at = None, pn_lockout_until = None\<rparr>
                in (a, insert_row a rows))"

definition save_pin :: "pin_attempt \<Rightarrow> pin_attempt list \<Rightarrow> pin_attempt list" where
  "save_pin a = update_where (\<lambda>x. pn_user_id x = pn_user_id a) (\<lambda>_. a)"

text \<open>\<^verbatim>\<open>getStatus\<close> on the user's row, with the reset of a lock that has passed; the milliseconds
  left are rounded up to seconds. The number of guesses left is only part of \<^verbatim>\<open>recordFailure\<close>'s answer.\<close>

definition pin_unlock :: "time \<Rightarrow> pin_attempt \<Rightarrow> pin_status \<times> pin_attempt" where
  "pin_unlock now a =
     (case pn_lockout_until a of
        None \<Rightarrow> (\<lparr>ps_locked = False, ps_retry_after = 0, ps_locked_until = None, ps_remaining = 0\<rparr>, a)
      | Some t \<Rightarrow>
          if t - now \<le> 0
          then (\<lparr>ps_locked = False, ps_retry_after = 0, ps_locked_until = None, ps_remaining = 0\<rparr>,
                a\<lparr>pn_lockout_until := None, pn_failed_count := 0, pn_first_failed_at := None\<rparr>)
          else (\<lparr>ps_locked = True, ps_retry_after = - ((now - t) div 1000), ps_locked_until = Some t, ps_remaining = 0\<rparr>, a))"

definition lockout_seconds :: "pin_config \<Rightarrow> nat \<Rightarrow> int" where
  "lockout_seconds c level = min (pc_base_seconds c * 2 ^ (level - 1)) (pc_max_seconds c)"

definition pin_count :: "pin_config \<Rightarrow> time \<Rightarrow> pin_attempt \<Rightarrow> pin_status \<times> pin_attempt" where
  "pin_count c now a0 =
     (let windowMs = pc_window_minutes c * 60 * 1000;
          a = (if (case pn_first_failed_at a0 of None \<Rightarrow> True | Some t \<Rightarrow> now - t > windowMs)
               then a0\<lparr>pn_failed_count := 0, pn_first_failed_at := Some now\<rparr> else a0);
          failed = pn_failed_count a + 1
      in if failed \<ge> pc_max_attempts c
         then let level = pn_lockout_level a + 1;
                  secs = lockout_seconds c level
              in (\<lparr>ps_locked = True, ps_retry_after = secs, ps_locked_until = Some (now + secs * 1000), ps_remaining = 0\<rparr>,
                  a\<lparr>pn_lockout_level := level, pn_lockout_until := Some (now + secs * 1000),
                    pn_failed_count := 0, pn_first_failed_at := None\<rparr>)
         else (\<lparr>ps_locked = False, ps_retry_after = 0, ps_locked_until = None,
                ps_remaining = pc_max_attempts c - failed\<rparr>, a\<lparr>pn_failed_count := failed\<rparr>))"

definition pinGetStatus :: "time \<Rightarrow> uuid \<Rightarrow> pin_attempt list \<Rightarrow> pin_status \<times> pin_attempt list" where
  "pinGetStatus now userId rows =
     (case get_pin userId rows of
        (a, rows1) \<Rightarrow> (case pin_unlock now a of (st, a1) \<Rightarrow> (st, if a1 = a then rows1 else save_pin a1 rows1)))"

definition pinRecordFailure :: "pin_config \<Rightarrow> time \<Rightarrow> uuid \<Rightarrow> pin_attempt list \<Rightarrow> pin_status \<times> pin_attempt list" where
  "pinRecordFailure c now userId rows =
     (case get_pin userId rows of
        (a, rows1) \<Rightarrow> (case pin_count c now a of (st, a1) \<Rightarrow> (st, save_pin a1 rows1)))"

definition pinRecordSuccess :: "uuid \<Rightarrow> pin_attempt list \<Rightarrow> pin_attempt list" where
  "pinRecordSuccess userId =
     update_where (\<lambda>a. pn_user_id a = userId)
       (\<lambda>a. a\<lparr>pn_failed_count := 0, pn_lockout_level := 0, pn_lockout_until := None, pn_first_failed_at := None\<rparr>)"

text \<open>
  The check of a PIN, up to the point where it is accepted: the account is looked up under the normal
  form, then under the number as sent. \<open>check\<close> is the library's comparison of a PIN with its hash and whether
  the hash is due for renewal, \<open>hashPin\<close> the hash.
\<close>

record pin_account =
  pk_id :: uuid
  pk_phone_number :: string
  pk_account_type :: string
  pk_pin_hash :: string

record pin_db =
  pin_accounts :: "pin_account list"
  pin_attempts :: "pin_attempt list"

definition find_pin_account :: "string \<Rightarrow> string \<Rightarrow> string \<Rightarrow> pin_db \<Rightarrow> pin_account option" where
  "find_pin_account tel phone requested db =
     (case find_where (\<lambda>k. pk_phone_number k = tel \<and> pk_account_type k = requested) (pin_accounts db) of
        Some k \<Rightarrow> Some k
      | None \<Rightarrow> if tel \<noteq> phone
          then find_where (\<lambda>k. pk_phone_number k = phone \<and> pk_account_type k = requested) (pin_accounts db) else None)"

definition check_pin ::
    "pin_config \<Rightarrow> (string \<Rightarrow> string \<Rightarrow> bool \<times> bool) \<Rightarrow> (string \<Rightarrow> string) \<Rightarrow> time \<Rightarrow> pin_account \<Rightarrow> string \<Rightarrow> pin_db
     \<Rightarrow> unit result \<times> pin_db" where
  "check_pin c check hashPin now k pin db =
     (case pinGetStatus now (pk_id k) (pin_attempts db) of
        (st, rows) \<Rightarrow>
          let db1 = db\<lparr>pin_attempts := rows\<rparr>
          in if ps_locked st then (Inl (Too_Many_Requests ''Too many PIN attempts. Try again later.''), db1)
             else (case check pin (pk_pin_hash k) of
               (valid, needsRehash) \<Rightarrow>
                 if \<not> valid
                 then (case pinRecordFailure c now (pk_id k) rows of
                         (outcome, rows2) \<Rightarrow>
                           (Inl (if ps_locked outcome then Too_Many_Requests ''Too many PIN attempts. Try again later.''
                                 else Unauthorized_Err ''Invalid PIN''), db1\<lparr>pin_attempts := rows2\<rparr>))
                 else (Inr (), db1\<lparr>pin_attempts := pinRecordSuccess (pk_id k) rows,
                         pin_accounts := (if needsRehash
                           then update_where (\<lambda>x. pk_id x = pk_id k) (\<lambda>x. x\<lparr>pk_pin_hash := hashPin pin\<rparr>) (pin_accounts db)
                           else pin_accounts db)\<rparr>)))"

definition verifyPin ::
    "pin_config \<Rightarrow> (string \<Rightarrow> string \<Rightarrow> bool \<times> bool) \<Rightarrow> (string \<Rightarrow> string) \<Rightarrow> time \<Rightarrow> string \<Rightarrow> string \<Rightarrow> string option
     \<Rightarrow> pin_db \<Rightarrow> unit result \<times> pin_db" where
  "verifyPin c check hashPin now phone pin accountType db =
     (case normalizePhoneOrThrow phone of
        Inl e \<Rightarrow> (Inl e, db)
      | Inr tel \<Rightarrow>
          let requested = (case accountType of None \<Rightarrow> ''CONSUMER'' | Some t \<Rightarrow> t)
          in (case find_pin_account tel phone requested db of
                None \<Rightarrow> (Inl (Bad_Request (''No '' @ requested @ '' account found for this phone number'')), db)
              | Some k \<Rightarrow> check_pin c check hashPin now k pin db))"

section \<open>Guesses of a PIN\<close>

text \<open>
  A record agrees with the wrong PINs \<open>h\<close> since the last right one, for spans up to \<open>d\<close>: without a first
  failure nothing recent is uncounted; with one, the failures of the run before it number at most
  \<open>m - 1\<close>, and are out of sight once the run is over.
\<close>

definition recent :: "int \<Rightarrow> time \<Rightarrow> time list \<Rightarrow> nat" where
  "recent d now h = length (filter (\<lambda>t. now - t < d) h)"

definition pin_counts :: "pin_config \<Rightarrow> int \<Rightarrow> time \<Rightarrow> pin_attempt \<Rightarrow> time list \<Rightarrow> bool" where
  "pin_counts c d lst a h \<longleftrightarrow>
     (\<forall>t\<in>set h. t \<le> lst) \<and>
     (case pn_lockout_until a of
        Some u \<Rightarrow> \<forall>t\<in>set h. t + d \<le> u
      | None \<Rightarrow> (case pn_first_failed_at a of
          None \<Rightarrow> \<forall>now\<ge>lst. recent d now h = 0
        | Some f \<Rightarrow> pn_failed_count a < pc_max_attempts c \<and>
            (\<forall>now\<ge>lst. recent d now h \<le> pc_max_attempts c - 1 + pn_failed_count a) \<and>
            (\<forall>now>f + pc_window_minutes c * 60 * 1000. recent d now h \<le> pn_failed_count a)))"

definition span_ok :: "pin_config \<Rightarrow> int \<Rightarrow> bool" where
  "span_ok c d \<longleftrightarrow> 0 < pc_max_attempts c \<and> 0 \<le> pc_base_seconds c \<and> d \<le> pc_window_minutes c * 60 * 1000 \<and>
     d \<le> min (pc_base_seconds c) (pc_max_seconds c) * 1000"

lemma recent_append [simp]: "recent d now (h @ [t]) = recent d now h + (if now - t < d then 1 else 0)"
  by (simp add: recent_def)

lemma recent_old: "(\<And>t. t \<in> set h \<Longrightarrow> t + d \<le> now) \<Longrightarrow> recent d now h = 0"
  by (simp add: recent_def filter_empty_conv) fastforce

lemma lockout_long:
  assumes "span_ok c d" and "1 \<le> level"
  shows "d \<le> lockout_seconds c level * 1000"
proof -
  have "(1::int) \<le> 2 ^ (level - 1)" by simp
  then have "pc_base_seconds c * 1 \<le> pc_base_seconds c * 2 ^ (level - 1)"
    using assms(1) by (intro mult_left_mono) (auto simp: span_ok_def)
  then show ?thesis using assms(1) by (auto simp: span_ok_def lockout_seconds_def)
qed

lemma pin_counts_unlock:
  assumes "pin_counts c d lst a h" and "lst \<le> now" and "pin_unlock now a = (st, a1)"
  shows "pin_counts c d now a1 h \<and> (\<not> ps_locked st \<longrightarrow> pn_lockout_until a1 = None)"
proof (cases "pn_lockout_until a")
  case None
  then show ?thesis using assms by (auto simp: pin_unlock_def pin_counts_def split: option.splits)
next
  case (Some u)
  have le: "\<forall>t\<in>set h. t \<le> now" and lk: "\<forall>t\<in>set h. t + d \<le> u" using assms(1, 2) Some by (auto simp: pin_counts_def)
  then have "recent d n h = 0" if "u \<le> now" "now \<le> n" for n using that by (intro recent_old) fastforce
  then show ?thesis using assms(3) Some le lk by (auto simp: pin_unlock_def pin_counts_def split: if_splits)
qed

lemma pin_counts_failure:
  assumes "pin_counts c d now a h" and "span_ok c d" and "pn_lockout_until a = None"
  shows "recent d now h < 2 * pc_max_attempts c - 1 \<and> pin_counts c d now (snd (pin_count c now a)) (h @ [now])"
proof -
  let ?w = "pc_window_minutes c * 60 * 1000" and ?m = "pc_max_attempts c"
  define new where "new = (case pn_first_failed_at a of None \<Rightarrow> True | Some t \<Rightarrow> now - t > ?w)"
  define k where "k = (if new then 0 else pn_failed_count a)"
  define f where "f = (if new then now else the (pn_first_failed_at a))"
  have le: "\<forall>t\<in>set h. t \<le> now" using assms(1) by (simp add: pin_counts_def)
  have m: "0 < ?m" "d \<le> ?w" using assms(2) by (auto simp: span_ok_def)
  have r: "recent d n h \<le> ?m - 1 + k" if "now \<le> n" for n
  proof (cases "pn_first_failed_at a")
    case None
    then show ?thesis using assms(1, 3) that by (simp add: pin_counts_def)
  next
    case (Some f0)
    then have p: "recent d n h \<le> ?m - 1 + pn_failed_count a" "pn_failed_count a < ?m"
        "f0 + ?w < n \<Longrightarrow> recent d n h \<le> pn_failed_count a"
      using assms(1, 3) that by (auto simp: pin_counts_def)
    show ?thesis
    proof (cases new)
      case True
      then have "f0 + ?w < n" using Some that by (simp add: new_def)
      then show ?thesis using p by simp
    qed (use p in \<open>simp add: k_def\<close>)
  qed
  have k: "k < ?m" using assms(1, 3) m by (auto simp: pin_counts_def k_def new_def split: option.splits)
  have out: "recent d n h \<le> k" if "f + ?w < n" for n
  proof (cases new)
    case True
    then have "recent d n h = 0" using that le m by (intro recent_old) (fastforce simp: f_def)
    then show ?thesis by simp
  next
    case False
    then show ?thesis using assms(1, 3) that by (auto simp: pin_counts_def k_def f_def new_def split: option.splits)
  qed
  have "snd (pin_count c now a) =
      (if k + 1 \<ge> ?m
       then a\<lparr>pn_lockout_level := pn_lockout_level a + 1,
          pn_lockout_until := Some (now + lockout_seconds c (pn_lockout_level a + 1) * 1000),
          pn_failed_count := 0, pn_first_failed_at := None\<rparr>
       else a\<lparr>pn_failed_count := k + 1, pn_first_failed_at := Some f\<rparr>)"
    by (auto simp: pin_count_def Let_def k_def f_def new_def split: option.splits)
  moreover have "d \<le> lockout_seconds c (pn_lockout_level a + 1) * 1000" using lockout_long [OF assms(2)] by simp
  moreover have "recent d n (h @ [now]) \<le> k + 1" if "f + ?w < n" for n using out [OF that] by simp
  moreover have "recent d n (h @ [now]) \<le> ?m - 1 + (k + 1)" if "now \<le> n" for n using r [OF that] by simp
  ultimately have "pin_counts c d now (snd (pin_count c now a)) (h @ [now])"
    using le assms(3) k by (fastforce simp: pin_counts_def)
  then show ?thesis using r [of now] k by simp
qed

definition pin_admits :: "pin_config \<Rightarrow> int \<Rightarrow> time list \<Rightarrow> time \<Rightarrow> bool" where
  "pin_admits c d h now \<longleftrightarrow> span_ok c d \<and> (\<exists>a. pin_counts c d now a h \<and> pn_lockout_until a = None)"

interpretation pin_lockout: window_limiter "2 * pc_max_attempts c - 1" d "pin_admits c d" for c d
  using pin_counts_failure by unfold_locales (auto simp: pin_admits_def recent_def)


text \<open>Guesses for one account, each with whether its PIN was compared or the account was locked.\<close>

fun pin_run ::
    "pin_config \<Rightarrow> (string \<Rightarrow> string \<Rightarrow> bool \<times> bool) \<Rightarrow> (string \<Rightarrow> string) \<Rightarrow> pin_account \<Rightarrow> (time \<times> string) list \<Rightarrow> pin_db
     \<Rightarrow> (time \<times> bool) list" where
  "pin_run c check hashPin k [] db = []"
| "pin_run c check hashPin k ((now, pin) # gs) db =
     (now, \<not> ps_locked (fst (pinGetStatus now (pk_id k) (pin_attempts db)))) #
     pin_run c check hashPin k gs (snd (check_pin c check hashPin now k pin db))"

definition pin_row :: "uuid \<Rightarrow> pin_attempt list \<Rightarrow> pin_attempt option" where
  "pin_row i rows = find_where (\<lambda>a. pn_user_id a = i) rows"

definition pin_or_new :: "uuid \<Rightarrow> pin_attempt list \<Rightarrow> pin_attempt" where
  "pin_or_new i rows = fst (get_pin i rows)"

lemma get_pin_row:
  "get_pin i rows = (a, rows1) \<Longrightarrow> pin_row i rows1 = Some a \<and> pn_user_id a = i \<and> pin_or_new i rows1 = a"
  by (auto simp: get_pin_def pin_row_def pin_or_new_def insert_row_def find_where_append Let_def
      split: option.splits dest: find_where_Some)

lemma save_pin_row:
  "pn_user_id a = i \<Longrightarrow> pin_row i rows = Some b \<Longrightarrow> pin_row i (save_pin a rows) = Some a"
  using find_replaced [of "\<lambda>x. pn_user_id x = i" a rows b] by (simp add: pin_row_def save_pin_def)

lemma pin_row_get: "pin_row i rows = Some a \<Longrightarrow> get_pin i rows = (a, rows)"
  by (simp add: pin_row_def get_pin_def)

lemma pin_keeps_user: "pn_user_id (snd (pin_unlock now a)) = pn_user_id a" "pn_user_id (snd (pin_count c now a)) = pn_user_id a"
  by (auto simp: pin_unlock_def pin_count_def Let_def split: option.splits)

lemma pinGetStatus_row:
  assumes "pinGetStatus now i rows = (st, rows1)"
  shows "\<exists>a. pin_unlock now (pin_or_new i rows) = (st, a) \<and> pin_row i rows1 = Some a"
proof -
  obtain b rows0 where g: "get_pin i rows = (b, rows0)" by fastforce
  obtain st1 a where u: "pin_unlock now b = (st1, a)" by fastforce
  have "st = st1" "rows1 = (if a = b then rows0 else save_pin a rows0)" using assms by (auto simp: pinGetStatus_def g u)
  then show ?thesis
    using get_pin_row [OF g] u pin_keeps_user(1) [of now b] save_pin_row [of a i rows0 b] by (auto simp: pin_or_new_def g)
qed

lemma pinRecordFailure_row:
  assumes "pin_row i rows = Some a"
  shows "pin_row i (snd (pinRecordFailure c now i rows)) = Some (snd (pin_count c now a))"
  using save_pin_row [of "snd (pin_count c now a)" i rows a] assms pin_keeps_user(2) [of c now a]
    get_pin_row [OF pin_row_get [OF assms]]
  by (simp add: pinRecordFailure_def pin_row_get [OF assms] case_prod_unfold)

lemma check_pin_record:
  assumes "\<not> fst (check pin (pk_pin_hash k))" and "pinGetStatus now (pk_id k) (pin_attempts db) = (st, rows)"
    and "pin_counts c d lst (pin_or_new (pk_id k) (pin_attempts db)) h" and "lst \<le> now" and "span_ok c d"
  shows "\<exists>a. pin_row (pk_id k) (pin_attempts (snd (check_pin c check hashPin now k pin db))) = Some a \<and>
    (if ps_locked st then pin_counts c d now a h else pin_admits c d h now \<and> pin_counts c d now a (h @ [now]))"
proof -
  obtain a where a: "pin_unlock now (pin_or_new (pk_id k) (pin_attempts db)) = (st, a)" "pin_row (pk_id k) rows = Some a"
    using pinGetStatus_row [OF assms(2)] by blast
  note un = pin_counts_unlock [OF assms(3, 4) a(1)]
  show ?thesis
  proof (cases "ps_locked st")
    case True
    then show ?thesis using a un by (simp add: check_pin_def assms(2) Let_def)
  next
    case False
    then have "pin_row (pk_id k) (pin_attempts (snd (check_pin c check hashPin now k pin db))) = Some (snd (pin_count c now a))"
      using assms(1) pinRecordFailure_row [OF a(2), of c now] by (simp add: check_pin_def assms(2) Let_def case_prod_unfold)
    moreover have "pin_admits c d h now" using un False assms(5) by (auto simp: pin_admits_def)
    moreover have "pin_counts c d now (snd (pin_count c now a)) (h @ [now])"
      using pin_counts_failure [of c d now a h] un False assms(5) by simp
    ultimately show ?thesis using False by simp
  qed
qed

lemma pin_run_history:
  assumes "accepted_history (pin_admits c d) h" and "sorted (lst # map fst gs)" and "span_ok c d"
    and "pin_counts c d lst (pin_or_new (pk_id k) (pin_attempts db)) h"
    and "\<forall>g\<in>set gs. \<not> fst (check (snd g) (pk_pin_hash k))"
  shows "accepted_history (pin_admits c d) (h @ map fst (filter snd (pin_run c check hashPin k gs db)))"
  using assms
proof (induction gs arbitrary: h lst db)
  case Nil
  then show ?case by simp
next
  case (Cons g gs)
  obtain now pin where g: "g = (now, pin)" by fastforce
  obtain st rows where st: "pinGetStatus now (pk_id k) (pin_attempts db) = (st, rows)" by fastforce
  define db1 where "db1 = snd (check_pin c check hashPin now k pin db)"
  have wrong: "\<not> fst (check pin (pk_pin_hash k))" and up: "lst \<le> now" using Cons.prems(2, 5) by (simp_all add: g)
  obtain a where a: "pin_row (pk_id k) (pin_attempts db1) = Some a"
      "if ps_locked st then pin_counts c d now a h else pin_admits c d h now \<and> pin_counts c d now a (h @ [now])"
    using check_pin_record [of check pin k now db st rows c d lst h hashPin, OF wrong st Cons.prems(4) up Cons.prems(3)] unfolding db1_def by blast
  have row: "pin_or_new (pk_id k) (pin_attempts db1) = a" using pin_row_get [OF a(1)] by (simp add: pin_or_new_def)
  have le: "\<forall>t\<in>set h. t \<le> now" using Cons.prems(4) up by (auto simp: pin_counts_def)
  define h1 where "h1 = (if ps_locked st then h else h @ [now])"
  have "accepted_history (pin_admits c d) h1"
    using Cons.prems(1) a(2) le by (auto simp: h1_def intro: accepted_history.accept)
  moreover have "pin_counts c d now (pin_or_new (pk_id k) (pin_attempts db1)) h1" using a(2) by (simp add: row h1_def split: if_splits)
  ultimately have "accepted_history (pin_admits c d) (h1 @ map fst (filter snd (pin_run c check hashPin k gs db1)))"
    using Cons.IH [of h1 now db1] Cons.prems(2, 3, 5) by (simp add: g)
  then show ?case by (simp add: g st h1_def flip: db1_def split: if_splits)
qed

text \<open>
  With a limit of \<open>m\<close> wrong PINs, at most \<open>2 m - 1\<close> wrong ones are compared in any span no longer than
  the counting window and the shortest lock, however they are spaced. The bound is one run that stops short
  of the lock followed by one that ends in it.
\<close>

theorem wrong_pins_bounded:
  assumes "span_ok c d" and "sorted (map fst gs)" and "pin_row (pk_id k) (pin_attempts db) = None"
    and "\<forall>g\<in>set gs. \<not> fst (check (snd g) (pk_pin_hash k))"
  shows "length (filter (\<lambda>x. snd x \<and> w \<le> fst x \<and> fst x < w + d) (pin_run c check hashPin k gs db))
    \<le> 2 * pc_max_attempts c - 1"
proof -
  define lst where "lst = (case gs of [] \<Rightarrow> 0 | g # _ \<Rightarrow> fst g)"
  define times where "times = map fst (filter snd (pin_run c check hashPin k gs db))"
  have "pin_counts c d lst (pin_or_new (pk_id k) (pin_attempts db)) []"
    using assms(3) by (simp add: pin_or_new_def get_pin_def pin_row_def pin_counts_def recent_def Let_def)
  moreover have "sorted (lst # map fst gs)" using assms(2) by (cases gs) (simp_all add: lst_def)
  ultimately have "accepted_history (pin_admits c d) ([] @ times)"
    unfolding times_def using assms(1, 4) by (intro pin_run_history) (auto intro: accepted_history.empty)
  then have "length (filter (\<lambda>t. w \<le> t \<and> t < w + d) times) \<le> 2 * pc_max_attempts c - 1"
    using pin_lockout.window_bound [of c d times w] by simp
  then show ?thesis by (simp add: times_def filter_map o_def conj_commute conj_left_commute)
qed

definition default_pin_config :: pin_config where
  "default_pin_config = \<lparr>pc_max_attempts = 5, pc_window_minutes = 15, pc_base_seconds = 60, pc_max_seconds = 3600\<rparr>"

definition an_account :: pin_account where
  "an_account = \<lparr>pk_id = ''u'', pk_phone_number = ''+212612345678'', pk_account_type = ''CONSUMER'', pk_pin_hash = ''1234''\<rparr>"

definition slow_guesses :: "(time \<times> string) list" where
  "slow_guesses = map (\<lambda>t. (t, ''0000'')) [0, 899970, 899980, 899990, 900001, 900002, 900003, 900004, 900005, 900006]"

theorem wrong_pins_bounded_witness:
  "map snd (pin_run default_pin_config (\<lambda>p h. (p = h, False)) (\<lambda>p. p) an_account slow_guesses
      \<lparr>pin_accounts = [an_account], pin_attempts = []\<rparr>) = replicate 9 True @ [False] \<and>
   length (filter (\<lambda>x. snd x \<and> 899970 \<le> fst x \<and> fst x < 899970 + 60000)
      (pin_run default_pin_config (\<lambda>p h. (p = h, False)) (\<lambda>p. p) an_account slow_guesses
        \<lparr>pin_accounts = [an_account], pin_attempts = []\<rparr>)) \<le> 9"
proof
  show "map snd (pin_run default_pin_config (\<lambda>p h. (p = h, False)) (\<lambda>p. p) an_account slow_guesses
      \<lparr>pin_accounts = [an_account], pin_attempts = []\<rparr>) = replicate 9 True @ [False]" by code_simp
  have "sorted (map fst slow_guesses)" by code_simp
  moreover have "span_ok default_pin_config 60000" by (simp add: span_ok_def default_pin_config_def)
  moreover have "\<forall>g\<in>set slow_guesses. \<not> fst ((\<lambda>p h. (p = h, False)) (snd g) (pk_pin_hash an_account))"
    by (simp add: slow_guesses_def an_account_def)
  moreover have "pin_row (pk_id an_account) (pin_attempts \<lparr>pin_accounts = [an_account], pin_attempts = []\<rparr>) = None"
    by (simp add: pin_row_def)
  ultimately have "length (filter (\<lambda>x. snd x \<and> 899970 \<le> fst x \<and> fst x < 899970 + 60000)
      (pin_run default_pin_config (\<lambda>p h. (p = h, False)) (\<lambda>p. p) an_account slow_guesses
        \<lparr>pin_accounts = [an_account], pin_attempts = []\<rparr>)) \<le> 2 * pc_max_attempts default_pin_config - 1"
    by (intro wrong_pins_bounded)
  then show "length (filter (\<lambda>x. snd x \<and> 899970 \<le> fst x \<and> fst x < 899970 + 60000)
      (pin_run default_pin_config (\<lambda>p h. (p = h, False)) (\<lambda>p. p) an_account slow_guesses
        \<lparr>pin_accounts = [an_account], pin_attempts = []\<rparr>)) \<le> 9"
    by (simp add: default_pin_config_def)
qed

end
