(* ===== verification/SignInGuards.thy ===== *)
theory SignInGuards
  imports StaysData Timeline PhoneNumbers
begin

text \<open>
  Two guards of the identity service: the limit on sending codes (\<^verbatim>\<open>otp-send-rate-limit.service.ts\<close> and its
  guard), and the version of an administrator's privilege (\<^verbatim>\<open>authz-version.service.ts\<close>, \<^verbatim>\<open>roles.guard.ts\<close>),
  which every instance caches.
\<close>

section \<open>otp-send-rate-limit.service.ts\<close>

record limit_window =
  lw_count :: nat
  lw_reset_at :: time

record send_limits =
  sl_minute :: "string \<Rightarrow> limit_window option"
  sl_day :: "string \<Rightarrow> limit_window option"

text \<open>One of the two windows: whether the call is within the limit, and the window after it.\<close>

definition hit_window :: "nat \<Rightarrow> int \<Rightarrow> time \<Rightarrow> limit_window option \<Rightarrow> limit_window option" where
  "hit_window max_hits len now w =
     (case w of
        None \<Rightarrow> Some \<lparr>lw_count = 1, lw_reset_at = now + len\<rparr>
      | Some x \<Rightarrow>
          if now \<ge> lw_reset_at x then Some \<lparr>lw_count = 1, lw_reset_at = now + len\<rparr>
          else if lw_count x \<ge> max_hits then None else Some (x\<lparr>lw_count := lw_count x + 1\<rparr>))"

definition limit_key :: "string \<Rightarrow> string \<Rightarrow> string" where
  "limit_key phone ip = phone @ '':'' @ ip"

definition checkAndIncrement :: "nat \<Rightarrow> nat \<Rightarrow> string \<Rightarrow> string \<Rightarrow> time \<Rightarrow> send_limits \<Rightarrow> bool \<times> send_limits" where
  "checkAndIncrement maxPerMinute maxPerDay phone ip now st =
     (let k = limit_key phone ip
      in case hit_window maxPerMinute 60000 now (sl_minute st k) of
           None \<Rightarrow> (False, st)
         | Some m \<Rightarrow>
             let st1 = st\<lparr>sl_minute := (sl_minute st)(k := Some m)\<rparr>
             in (case hit_window maxPerDay 86400000 now (sl_day st1 k) of
                   None \<Rightarrow> (False, st1)
                 | Some d \<Rightarrow> (True, st1\<lparr>sl_day := (sl_day st1)(k := Some d)\<rparr>)))"

text \<open>The guard counts the phone number as it is spelled in the request.\<close>

definition otpSendGuard :: "nat \<Rightarrow> nat \<Rightarrow> string \<Rightarrow> string \<Rightarrow> time \<Rightarrow> send_limits \<Rightarrow> unit result \<times> send_limits" where
  "otpSendGuard maxPerMinute maxPerDay phone ip now st =
     (if phone = [] then (Inr (), st)
      else (case checkAndIncrement maxPerMinute maxPerDay (js_trim phone) (js_trim ip) now st of
              (True, st1) \<Rightarrow> (Inr (), st1)
            | (False, st1) \<Rightarrow> (Inl (Too_Many_Requests ''Too many OTP requests. Try again later.''), st1)))"

section \<open>authz-version.service.ts, roles.guard.ts\<close>

record staff_row =
  sf_id :: uuid
  sf_authz_version :: "int option"
  sf_status :: string
  sf_account_type :: string
  sf_staff_role :: "string option"

record authz_state =
  as_version :: int
  as_status :: string
  as_account_type :: string
  as_staff_role :: string

record authz_entry =
  az_state :: authz_state
  az_expires_at :: time

definition CACHE_TTL_MS :: int where
  "CACHE_TTL_MS = 30000"

type_synonym authz_cache = "uuid \<Rightarrow> authz_entry option"

definition unknown_state :: authz_state where
  "unknown_state = \<lparr>as_version = -1, as_status = ''UNKNOWN'', as_account_type = ''CONSUMER'', as_staff_role = ''ADMIN''\<rparr>"

definition staff_state :: "staff_row \<Rightarrow> authz_state" where
  "staff_state u =
     \<lparr>as_version = (case sf_authz_version u of None \<Rightarrow> 1 | Some v \<Rightarrow> v), as_status = sf_status u,
      as_account_type = sf_account_type u,
      as_staff_role = (case sf_staff_role u of None \<Rightarrow> ''ADMIN'' | Some r \<Rightarrow> if r = [] then ''ADMIN'' else r)\<rparr>"

definition find_staff :: "uuid \<Rightarrow> staff_row list \<Rightarrow> staff_row option" where
  "find_staff i users = find_where (\<lambda>u. sf_id u = i) users"

definition load_state :: "time \<Rightarrow> uuid \<Rightarrow> staff_row list \<Rightarrow> authz_cache \<Rightarrow> authz_state \<times> authz_cache" where
  "load_state now userId users cache =
     (case find_staff userId users of
        None \<Rightarrow> (unknown_state, cache)
      | Some u \<Rightarrow> (staff_state u, cache(userId := Some \<lparr>az_state = staff_state u, az_expires_at = now + CACHE_TTL_MS\<rparr>)))"

definition getAuthzState :: "time \<Rightarrow> uuid \<Rightarrow> staff_row list \<Rightarrow> authz_cache \<Rightarrow> authz_state \<times> authz_cache" where
  "getAuthzState now userId users cache =
     (case cache userId of
        Some e \<Rightarrow> if az_expires_at e > now then (az_state e, cache) else load_state now userId users cache
      | None \<Rightarrow> load_state now userId users cache)"

definition invalidate :: "uuid \<Rightarrow> authz_cache \<Rightarrow> authz_cache" where
  "invalidate userId cache = cache(userId := None)"

text \<open>SQL adds one to the column; NULL stays NULL.\<close>

definition bump_row :: "staff_row \<Rightarrow> staff_row" where
  "bump_row u = u\<lparr>sf_authz_version := map_option (\<lambda>v. v + 1) (sf_authz_version u)\<rparr>"

definition bump_version :: "uuid \<Rightarrow> staff_row list \<Rightarrow> authz_cache \<Rightarrow> int \<times> staff_row list \<times> authz_cache" where
  "bump_version userId users cache =
     (let users1 = update_where (\<lambda>u. sf_id u = userId) bump_row users
      in (case find_staff userId users1 of
            None \<Rightarrow> 1
          | Some u \<Rightarrow> (case sf_authz_version u of None \<Rightarrow> 1 | Some v \<Rightarrow> v), users1, invalidate userId cache))"

text \<open>The verified token the request carries; \<open>ju_av\<close> is absent when it is no number.\<close>

record jwt_user =
  ju_user_id :: uuid
  ju_roles :: "string list"
  ju_role :: string
  ju_av :: "int option"

definition jwtRoles :: "jwt_user \<Rightarrow> string list" where
  "jwtRoles u = (if ju_roles u \<noteq> [] then ju_roles u else if ju_role u \<noteq> [] then [ju_role u] else [])"

definition isStaffRole :: "string \<Rightarrow> bool" where
  "isStaffRole role \<longleftrightarrow> role = ''ADMIN'' \<or> role = ''SUPPORT_AGENT''"

definition privilege_revoked :: http_error where
  "privilege_revoked = Forbidden_Err ''Administrator privilege revoked''"

definition staff_allowed :: "jwt_user \<Rightarrow> authz_state \<Rightarrow> bool" where
  "staff_allowed u state \<longleftrightarrow>
     as_account_type state = ''ADMIN'' \<and> as_status state \<notin> set [''FROZEN'', ''SUSPENDED'', ''BANNED''] \<and>
     ju_av u = Some (as_version state)"

definition rolesGuard ::
    "time \<Rightarrow> string list \<Rightarrow> jwt_user option \<Rightarrow> staff_row list \<Rightarrow> authz_cache \<Rightarrow> unit result \<times> authz_cache" where
  "rolesGuard now required user users cache =
     (if required = [] then (Inr (), cache)
      else case user of
        None \<Rightarrow> (Inl (Forbidden_Err ''User not authenticated''), cache)
      | Some u \<Rightarrow>
          let userRoles = jwtRoles u
          in if \<not> list_ex (\<lambda>r. r \<in> set userRoles) required
             then (Inl (Forbidden_Err (''Insufficient permissions. Required roles: '' @ join_strings '', '' required)), cache)
             else if list_ex isStaffRole required \<or> list_ex isStaffRole userRoles
             then (case getAuthzState now (ju_user_id u) users cache of
                     (state, cache1) \<Rightarrow>
                       if staff_allowed u state then (Inr (), cache1) else (Inl privilege_revoked, cache1))
             else (Inr (), cache))"

section \<open>Spellings of a number\<close>

definition dashed :: "nat \<Rightarrow> string \<Rightarrow> string" where
  "dashed n tel = hd tel # replicate n (CHR ''-'') @ tl tel"

lemma normalized_plus: "normalizePhoneOrThrow phone = Inr tel \<Longrightarrow> normalizePhoneNumber tel = Inr tel \<and> e164 tel \<and> 11 \<le> length tel \<and> length tel \<le> 16"
  using normalize_facts
  by (auto simp: normalizePhoneOrThrow_def validatePhoneNumber_def Let_def split: sum.splits if_splits)

lemma dashed_trim:
  assumes "e164 tel"
  shows "js_trim (dashed n tel) = dashed n tel"
proof -
  obtain r where r: "tel = CHR ''+'' # r" "digit_run 1 14 r" using assms by (auto simp: e164_iff)
  have ne: "r \<noteq> []" "is_digit (last r)" using r(2) by (auto simp: digit_run_iff list_all_iff)
  then obtain s d where s: "r = s @ [d]" "is_digit d" by (cases r rule: rev_cases) auto
  have "\<not> js_space d" "\<not> js_space (CHR ''+'')" using digit_no_space s(2) by (auto simp: js_space_def)
  then show ?thesis by (simp add: js_trim_def dashed_def r(1) s(1))
qed

lemma dashed_digits: "e164 tel \<Longrightarrow> filter is_digit (dashed n tel) = tl tel"
  using filter_digits_e164 [of "tl tel"] by (auto simp: dashed_def e164_iff is_digit_def)

lemma dashed_normal:
  assumes "e164 tel" and "normalizePhoneNumber tel = Inr tel" and "11 \<le> length tel" and "length tel \<le> 16"
  shows "normalizePhoneOrThrow (dashed n tel) = Inr tel"
proof -
  obtain r where r: "tel = CHR ''+'' # r" "digit_run 1 14 r" using assms(1) by (auto simp: e164_iff)
  have run: "digit_run 9 14 r" using r assms(3) by (auto simp: digit_run_iff)
  have same: "phone_digits (dashed n tel) = phone_digits tel"
    using assms(1) dashed_digits [of tel n] filter_digits_e164 [of r] by (simp add: phone_digits_def r(1))
  have "phone_digits tel = r"
  proof -
    have p: "phone_digits tel = canonicalizeMoroccoTrunkZero r" using filter_digits_e164 [of r] assms(1) by (simp add: phone_digits_def r(1))
    have "length r \<le> 12 \<or> r = canonicalizeMoroccoTrunkZero r"
    proof (rule ccontr)
      assume "\<not> ?thesis"
      then have c: "length r > 12" "starts_with ''2120'' r" "canonicalizeMoroccoTrunkZero r = ''212'' @ take 9 (drop 4 r)"
        by (auto simp: canonicalizeMoroccoTrunkZero_def Let_def split: if_splits)
      have "length (canonicalizeMoroccoTrunkZero r) = 12" using c by simp
      moreover have "length (national_form (canonicalizeMoroccoTrunkZero r)) \<le> 13"
        using calculation by (intro national_form_length) simp
      ultimately have "length tel \<le> 13"
        using assms(2) unfolding normalizePhoneNumber_def Let_def trim_plus_digits [OF assms(1)] p
        by (auto split: if_splits)
      then show False using c(1) by (simp add: r(1))
    qed
    then show ?thesis using p canonical_short by metis
  qed
  then have n: "normalizePhoneNumber (dashed n tel) = Inr tel"
    unfolding normalizePhoneNumber_def Let_def dashed_trim [OF assms(1)] same
    using run assms(1) by (simp add: dashed_def starts_with_def r(1))
  have "\<not> list_all (\<lambda>c. c = CHR ''0'') r" "\<not> starts_with ''0'' r"
    using r(2) by (auto simp: digit_run_iff nonzero_digit_def starts_with_def neq_Nil_conv)
  then show ?thesis
    using assms(3, 4) n dashed_digits [OF assms(1), of n] dashed_trim [OF assms(1), of n]
    by (simp add: normalizePhoneOrThrow_def validatePhoneNumber_def Let_def r(1)) (simp add: dashed_def)
qed

lemma dashed_inject: "tel \<noteq> [] \<Longrightarrow> inj (\<lambda>n. limit_key (dashed n tel) ip)"
  by (rule injI) (auto simp: limit_key_def dashed_def dest!: arg_cong [where f = length])

text \<open>
  C33: the limit on sent codes counts the number as it is written in the request. Whatever was sent
  before, another spelling of the same number passes, and the code goes to that number.
\<close>

theorem send_limit_by_spelling:
  assumes "normalizePhoneOrThrow phone = Inr tel"
    and "finite (dom (sl_minute st))" and "finite (dom (sl_day st))"
  shows "\<exists>spelling. normalizePhoneOrThrow spelling = Inr tel \<and>
    fst (otpSendGuard maxPerMinute maxPerDay spelling ip now st) = Inr ()"
proof -
  note t = normalized_plus [OF assms(1)]
  then have ne: "tel \<noteq> []" by auto
  have "infinite (range (\<lambda>n. limit_key (dashed n tel) (js_trim ip)))"
    using dashed_inject [OF ne] finite_imageD infinite_UNIV_nat by blast
  then obtain n where n: "limit_key (dashed n tel) (js_trim ip) \<notin> dom (sl_minute st) \<union> dom (sl_day st)"
    using assms(2, 3) by (meson finite_UnI finite_subset image_subset_iff)
  then have k: "sl_minute st (limit_key (dashed n tel) (js_trim ip)) = None" "sl_day st (limit_key (dashed n tel) (js_trim ip)) = None"
    by auto
  have "fst (otpSendGuard maxPerMinute maxPerDay (dashed n tel) ip now st) = Inr ()"
    using dashed_trim [of tel n] t k
    by (simp add: otpSendGuard_def checkAndIncrement_def Let_def hit_window_def)
  moreover have "normalizePhoneOrThrow (dashed n tel) = Inr tel" using t dashed_normal by blast
  ultimately show ?thesis by blast
qed

theorem send_limit_by_spelling_witness:
  "\<exists>spelling. normalizePhoneOrThrow spelling = Inr ''+212612345678'' \<and>
    fst (otpSendGuard 5 20 spelling ''10.0.0.1'' 0
      \<lparr>sl_minute = [''0612345678:10.0.0.1'' \<mapsto> \<lparr>lw_count = 5, lw_reset_at = 60000\<rparr>], sl_day = Map.empty\<rparr>) = Inr ()"
proof -
  have "normalizePhoneOrThrow ''0612345678'' = Inr ''+212612345678''" by code_simp
  then show ?thesis by (rule send_limit_by_spelling) simp_all
qed

section \<open>A privilege taken away\<close>

text \<open>The requests one instance serves, while the row of the user does not change.\<close>

fun guard_run :: "(time \<times> string list \<times> jwt_user option) list \<Rightarrow> staff_row list \<Rightarrow> authz_cache \<Rightarrow> authz_cache" where
  "guard_run [] users cache = cache"
| "guard_run ((now, required, user) # rs) users cache = guard_run rs users (snd (rolesGuard now required user users cache))"

text \<open>An entry was read before \<open>t0\<close> and expires with its lifetime, or shows the row as it is.\<close>

definition entry_ok :: "time \<Rightarrow> staff_row list \<Rightarrow> uuid \<Rightarrow> authz_entry \<Rightarrow> bool" where
  "entry_ok t0 users i e \<longleftrightarrow>
     az_expires_at e \<le> t0 + CACHE_TTL_MS \<or> (\<exists>u. find_staff i users = Some u \<and> az_state e = staff_state u)"

definition cache_ok :: "time \<Rightarrow> staff_row list \<Rightarrow> authz_cache \<Rightarrow> bool" where
  "cache_ok t0 users cache \<longleftrightarrow> (\<forall>i e. cache i = Some e \<longrightarrow> entry_ok t0 users i e)"

lemma load_state_cache_ok: "cache_ok t0 users cache \<Longrightarrow> cache_ok t0 users (snd (load_state now i users cache))"
  by (auto simp: load_state_def cache_ok_def entry_ok_def split: option.splits)

lemma getAuthzState_cache_ok: "cache_ok t0 users cache \<Longrightarrow> cache_ok t0 users (snd (getAuthzState now i users cache))"
  by (simp add: getAuthzState_def load_state_cache_ok split: option.split)

lemma rolesGuard_cache:
  "snd (rolesGuard now required user users cache) \<in>
     insert cache (range (\<lambda>i. snd (getAuthzState now i users cache)))"
  by (cases user) (auto simp: rolesGuard_def Let_def case_prod_unfold)

lemma rolesGuard_cache_ok: "cache_ok t0 users cache \<Longrightarrow> cache_ok t0 users (snd (rolesGuard now required user users cache))"
  using rolesGuard_cache [of now required user users cache] getAuthzState_cache_ok by auto

lemma guard_run_cache_ok: "cache_ok t0 users cache \<Longrightarrow> cache_ok t0 users (guard_run rs users cache)"
  by (induction rs users cache rule: guard_run.induct) (simp_all add: rolesGuard_cache_ok)

lemma fresh_read:
  assumes "cache_ok t0 users cache" and "t0 + CACHE_TTL_MS \<le> now" and "find_staff i users = Some u"
  shows "fst (getAuthzState now i users cache) = staff_state u"
proof (cases "\<exists>e. cache i = Some e \<and> az_expires_at e > now")
  case True
  then obtain e where e: "cache i = Some e" "az_expires_at e > now" by blast
  then have "entry_ok t0 users i e" using assms(1) by (auto simp: cache_ok_def)
  then have "az_state e = staff_state u" using assms(2, 3) e(2) by (auto simp: entry_ok_def)
  then show ?thesis by (simp add: getAuthzState_def e)
qed (use assms(3) in \<open>auto simp: getAuthzState_def load_state_def split: option.splits\<close>)

lemma bumped_staff:
  assumes "find_staff i users = Some u"
  shows "find_staff i (fst (snd (bump_version i users cache))) = Some (bump_row u)"
  using assms
  by (induction users) (auto simp: find_staff_def bump_version_def Let_def bump_row_def split: if_splits)

text \<open>
  C32: once an administrator's version is raised, every instance refuses tokens of the old version after
  the thirty seconds its cache may keep, whatever it served meanwhile, and the instance that raised it
  refuses them at once.
\<close>

theorem old_privilege_refused:
  assumes "find_staff i users = Some u" and "sf_authz_version u = Some v"
    and "bump_version i users own = (v', users1, own1)"
    and "\<And>j e. cache j = Some e \<Longrightarrow> az_expires_at e \<le> t0 + CACHE_TTL_MS"
    and "list_ex isStaffRole required" and "ju_user_id ju = i" and "ju_av ju = Some v"
  shows "(t0 + CACHE_TTL_MS \<le> now \<longrightarrow> fst (rolesGuard now required (Some ju) users1 (guard_run rs users1 cache)) \<noteq> Inr ()) \<and>
    fst (rolesGuard now required (Some ju) users1 own1) \<noteq> Inr ()"
proof -
  have row: "find_staff i users1 = Some (bump_row u)" using bumped_staff [OF assms(1), of own] by (simp add: assms(3))
  have old: "\<not> staff_allowed ju (staff_state (bump_row u))"
    using assms(2, 7) by (simp add: staff_allowed_def staff_state_def bump_row_def)
  have no: "fst (rolesGuard now required (Some ju) users1 c) \<noteq> Inr ()" if "fst (getAuthzState now i users1 c) = staff_state (bump_row u)" for c
    using that old assms(5, 6) by (auto simp: rolesGuard_def Let_def split: prod.splits)
  have "own1 = invalidate i own" using assms(3) by (simp add: bump_version_def Let_def)
  then have "fst (getAuthzState now i users1 own1) = staff_state (bump_row u)"
    by (simp add: getAuthzState_def load_state_def invalidate_def row)
  moreover have "cache_ok t0 users1 cache" using assms(4) by (auto simp: cache_ok_def entry_ok_def)
  then have "fst (getAuthzState now i users1 (guard_run rs users1 cache)) = staff_state (bump_row u)" if "t0 + CACHE_TTL_MS \<le> now"
    using fresh_read guard_run_cache_ok row that by blast
  ultimately show ?thesis using no by blast
qed

definition an_admin :: staff_row where
  "an_admin = \<lparr>sf_id = ''a'', sf_authz_version = Some 1, sf_status = ''ACTIVE'', sf_account_type = ''ADMIN'', sf_staff_role = None\<rparr>"

definition admin_token :: jwt_user where
  "admin_token = \<lparr>ju_user_id = ''a'', ju_roles = [''ADMIN''], ju_role = [], ju_av = Some 1\<rparr>"

theorem old_privilege_refused_witness:
  "let cache = snd (rolesGuard 0 [''ADMIN''] (Some admin_token) [an_admin] Map.empty);
       users1 = fst (snd (bump_version ''a'' [an_admin] Map.empty))
   in fst (rolesGuard 29999 [''ADMIN''] (Some admin_token) users1 cache) = Inr () \<and>
      fst (rolesGuard 30000 [''ADMIN''] (Some admin_token) users1 (guard_run [(20000, [''ADMIN''], Some admin_token)] users1 cache)) \<noteq> Inr ()"
proof -
  let ?cache = "snd (rolesGuard 0 [''ADMIN''] (Some admin_token) [an_admin] Map.empty)"
  let ?b = "bump_version ''a'' [an_admin] Map.empty"
  have c: "?cache = [''a'' \<mapsto> \<lparr>az_state = staff_state an_admin, az_expires_at = 30000\<rparr>]"
    by (simp add: rolesGuard_def jwtRoles_def admin_token_def isStaffRole_def getAuthzState_def load_state_def find_staff_def
        an_admin_def staff_state_def staff_allowed_def CACHE_TTL_MS_def Let_def)
  have "fst (rolesGuard 29999 [''ADMIN''] (Some admin_token) (fst (snd ?b)) ?cache) = Inr ()"
    unfolding c by (simp add: rolesGuard_def jwtRoles_def admin_token_def isStaffRole_def getAuthzState_def
        an_admin_def staff_state_def staff_allowed_def Let_def)
  moreover have "fst (rolesGuard 30000 [''ADMIN''] (Some admin_token) (fst (snd ?b))
      (guard_run [(20000, [''ADMIN''], Some admin_token)] (fst (snd ?b)) ?cache)) \<noteq> Inr ()"
  proof (rule old_privilege_refused [of "''a''" "[an_admin]" an_admin 1 Map.empty "fst ?b" "fst (snd ?b)" "snd (snd ?b)" ?cache 0,
        THEN conjunct1, rule_format])
    show "\<And>j e. ?cache j = Some e \<Longrightarrow> az_expires_at e \<le> 0 + CACHE_TTL_MS"
      unfolding c by (auto simp: CACHE_TTL_MS_def split: if_splits)
  qed (simp_all add: find_staff_def an_admin_def admin_token_def isStaffRole_def CACHE_TTL_MS_def)
  ultimately show ?thesis unfolding Let_def by blast
qed

end
