(* ===== verification/SupportRouting.thy ===== *)
theory SupportRouting
  imports Timeline KeysetPages
begin

text \<open>
  Support tickets and who works on them: the row of a ticket (\<^verbatim>\<open>support/entities\<close>), the service levels of
  \<^verbatim>\<open>support-sla.config.ts\<close> with their SQL form in \<^verbatim>\<open>operational-intelligence.service.ts\<close>, the score and
  the tiers of \<^verbatim>\<open>support-routing.config.ts\<close>, and \<^verbatim>\<open>support-assignment.service.ts\<close>. The identity service is
  a parameter: the roster of agents and the state of each. \<^verbatim>\<open>localeCompare\<close> orders by the sort key \<open>coll\<close>.
\<close>

section \<open>Rows\<close>

datatype ticket_party = T_GUEST | T_HOST

datatype ticket_category =
  TC_BOOKING | TC_PAYMENT | TC_REFUND | TC_CANCELLATION | TC_HOST | TC_GUEST | TC_LISTING | TC_KYC
  | TC_TECHNICAL | TC_FRAUD | TC_OTHER

datatype ticket_status =
  TS_OPEN | TS_IN_PROGRESS | TS_WAITING_FOR_CUSTOMER | TS_WAITING_FOR_HOST | TS_ESCALATED | TS_RESOLVED | TS_CLOSED

datatype ticket_priority = TP_LOW | TP_NORMAL | TP_HIGH | TP_URGENT

record support_ticket =
  tk_id :: uuid
  tk_ticket_number :: string
  tk_requester_user_id :: uuid
  tk_party :: ticket_party
  tk_category :: ticket_category
  tk_requester_language :: "string option"
  tk_subject :: string
  tk_status :: ticket_status
  tk_priority :: ticket_priority
  tk_resolution_type :: "string option"
  tk_assigned_admin_id :: "uuid option"
  tk_conversation_id :: uuid
  tk_booking_id :: "uuid option"
  tk_listing_id :: "uuid option"
  tk_report_id :: "uuid option"
  tk_safety_issue_id :: "uuid option"
  tk_unread_for_support :: bool
  tk_last_message_preview :: "string option"
  tk_customer_name :: "string option"
  tk_requester_email :: "string option"
  tk_resolved_at :: "time option"
  tk_first_admin_response_at :: "time option"
  tk_closed_at :: "time option"
  tk_review_agent_id :: "uuid option"
  tk_review_agent_name :: "string option"
  tk_created_at :: time
  tk_updated_at :: time

fun category_name :: "ticket_category \<Rightarrow> string" where
  "category_name TC_BOOKING = ''BOOKING''"
| "category_name TC_PAYMENT = ''PAYMENT''"
| "category_name TC_REFUND = ''REFUND''"
| "category_name TC_CANCELLATION = ''CANCELLATION''"
| "category_name TC_HOST = ''HOST''"
| "category_name TC_GUEST = ''GUEST''"
| "category_name TC_LISTING = ''LISTING''"
| "category_name TC_KYC = ''KYC''"
| "category_name TC_TECHNICAL = ''TECHNICAL''"
| "category_name TC_FRAUD = ''FRAUD''"
| "category_name TC_OTHER = ''OTHER''"

fun priority_name :: "ticket_priority \<Rightarrow> string" where
  "priority_name TP_LOW = ''LOW''"
| "priority_name TP_NORMAL = ''NORMAL''"
| "priority_name TP_HIGH = ''HIGH''"
| "priority_name TP_URGENT = ''URGENT''"

definition open_statuses :: "ticket_status list" where
  "open_statuses = [TS_OPEN, TS_IN_PROGRESS, TS_WAITING_FOR_CUSTOMER, TS_WAITING_FOR_HOST, TS_ESCALATED]"

section \<open>support-sla.config.ts\<close>

datatype sla_state = ON_TRACK | AT_RISK | BREACHED

fun first_response_hours :: "ticket_priority \<Rightarrow> int" where
  "first_response_hours TP_LOW = 24"
| "first_response_hours TP_NORMAL = 12"
| "first_response_hours TP_HIGH = 4"
| "first_response_hours TP_URGENT = 1"

fun resolution_hours :: "ticket_priority \<Rightarrow> int" where
  "resolution_hours TP_LOW = 120"
| "resolution_hours TP_NORMAL = 72"
| "resolution_hours TP_HIGH = 24"
| "resolution_hours TP_URGENT = 8"

definition addHours :: "time \<Rightarrow> int \<Rightarrow> time" where
  "addHours base hours = base + hours * 60 * 60 * 1000"

definition slaStateFor :: "time \<Rightarrow> time \<Rightarrow> time option \<Rightarrow> time \<Rightarrow> sla_state" where
  "slaStateFor createdAt targetAt completedAt now =
     (case completedAt of
        Some c \<Rightarrow> if c \<le> targetAt then ON_TRACK else BREACHED
      | None \<Rightarrow>
          let windowMs = targetAt - createdAt
          in if windowMs \<le> 0 then BREACHED
             else let ratio = js_div (of_int (now - createdAt)) (of_int windowMs)
                  in if ratio < fl (8 / 10) then ON_TRACK else if ratio < 1 then AT_RISK else BREACHED)"

record sla_leg =
  sg_target_at :: time
  sg_completed_at :: "time option"
  sg_state :: sla_state

record sla_payload =
  sl_first_response :: sla_leg
  sl_resolution :: sla_leg

definition sla_leg_for :: "time \<Rightarrow> int \<Rightarrow> time option \<Rightarrow> time \<Rightarrow> sla_leg" where
  "sla_leg_for createdAt hours completedAt now =
     \<lparr>sg_target_at = addHours createdAt hours, sg_completed_at = completedAt,
      sg_state = slaStateFor createdAt (addHours createdAt hours) completedAt now\<rparr>"

definition computeSupportSla :: "time \<Rightarrow> ticket_priority \<Rightarrow> time option \<Rightarrow> time option \<Rightarrow> time \<Rightarrow> sla_payload" where
  "computeSupportSla createdAt priority firstAdminResponseAt resolvedAt now =
     \<lparr>sl_first_response = sla_leg_for createdAt (first_response_hours priority) firstAdminResponseAt now,
      sl_resolution = sla_leg_for createdAt (resolution_hours priority) resolvedAt now\<rparr>"

definition ticket_sla :: "support_ticket \<Rightarrow> time \<Rightarrow> sla_payload" where
  "ticket_sla t now = computeSupportSla (tk_created_at t) (tk_priority t) (tk_first_admin_response_at t) (tk_resolved_at t) now"

text \<open>The same in SQL, on numerics: \<^verbatim>\<open>EXTRACT(EPOCH FROM now - created_at)\<close> is the elapsed milliseconds over 1000.\<close>

definition slaLegSql :: "time \<Rightarrow> time option \<Rightarrow> int \<Rightarrow> time \<Rightarrow> sla_state" where
  "slaLegSql created_at completed hours now =
     (case completed of
        Some c \<Rightarrow> if c \<le> created_at + hours * 3600000 then ON_TRACK else BREACHED
      | None \<Rightarrow>
          let epoch = (of_int (now - created_at) :: rat) / 1000
          in if epoch < 8 / 10 * of_int hours * 3600 then ON_TRACK
             else if epoch < of_int hours * 3600 then AT_RISK else BREACHED)"

definition liveSlaStateSql :: "support_ticket \<Rightarrow> time \<Rightarrow> sla_state" where
  "liveSlaStateSql t now =
     (let fr = slaLegSql (tk_created_at t) (tk_first_admin_response_at t) (first_response_hours (tk_priority t)) now;
          res = slaLegSql (tk_created_at t) (tk_resolved_at t) (resolution_hours (tk_priority t)) now
      in if fr = BREACHED \<or> res = BREACHED then BREACHED
         else if fr = AT_RISK \<or> res = AT_RISK then AT_RISK else ON_TRACK)"

fun priority_rank :: "ticket_priority \<Rightarrow> nat" where
  "priority_rank TP_LOW = 1"
| "priority_rank TP_NORMAL = 2"
| "priority_rank TP_HIGH = 3"
| "priority_rank TP_URGENT = 4"

definition category_min_priority :: "ticket_category \<Rightarrow> ticket_priority" where
  "category_min_priority c =
     (if c = TC_FRAUD \<or> c = TC_KYC then TP_HIGH
      else if c = TC_LISTING \<or> c = TC_OTHER then TP_LOW else TP_NORMAL)"

definition suggestRouting :: "ticket_category \<Rightarrow> ticket_priority \<Rightarrow> bool \<Rightarrow> bool \<Rightarrow> ticket_priority \<times> string" where
  "suggestRouting category currentPriority hasReportId hasSafetyIssueId =
     (let (suggested, reason) =
            (if hasSafetyIssueId then (TP_HIGH, ''Linked safety issue -> HIGH minimum'')
             else if hasReportId then (TP_HIGH, ''Linked conversation report -> HIGH minimum'')
             else (category_min_priority category,
                   ''Category '' @ category_name category @ '' -> '' @ priority_name (category_min_priority category)))
      in if priority_rank currentPriority > priority_rank suggested
         then (currentPriority, ''Keep '' @ priority_name currentPriority @ '' (never downgrade)'')
         else (suggested, reason))"

section \<open>support-routing.config.ts\<close>

record agent_workload =
  wl_assigned :: nat
  wl_in_progress :: nat
  wl_waiting :: nat
  wl_at_risk :: nat
  wl_breached :: nat

record agent_skills =
  sk_languages :: "string list"
  sk_categories :: "ticket_category list"

definition isSupportAutoAssignEnabled :: "env \<Rightarrow> bool" where
  "isSupportAutoAssignEnabled env =
     (case env ''SUPPORT_AUTO_ASSIGN'' of
        None \<Rightarrow> True
      | Some raw \<Rightarrow> js_trim raw = [] \<or> js_lower (js_trim raw) \<notin> set [''0'', ''false'', ''off'', ''no''])"

definition maxActiveTicketsPerAgent :: "env \<Rightarrow> nat" where
  "maxActiveTicketsPerAgent env =
     (case env ''SUPPORT_MAX_ACTIVE_TICKETS_PER_AGENT'' of
        None \<Rightarrow> 20
      | Some raw \<Rightarrow> (case js_number raw of None \<Rightarrow> 20 | Some n \<Rightarrow> if n < 1 then 20 else nat \<lfloor>n\<rfloor>))"

definition emptyWorkload :: agent_workload where
  "emptyWorkload = \<lparr>wl_assigned = 0, wl_in_progress = 0, wl_waiting = 0, wl_at_risk = 0, wl_breached = 0\<rparr>"

definition calculateRoutingScore :: "agent_workload \<Rightarrow> rat" where
  "calculateRoutingScore w =
     js_add (js_add (js_add (js_add (js_mul (of_nat (wl_assigned w)) 1)
       (js_mul (of_nat (wl_in_progress w)) (3 / 2)))
       (js_mul (of_nat (wl_waiting w)) (1 / 2)))
       (js_mul (of_nat (wl_at_risk w)) 4))
       (js_mul (of_nat (wl_breached w)) 8)"

definition prefersUrgentHeadroom :: "ticket_priority \<Rightarrow> bool" where
  "prefersUrgentHeadroom p \<longleftrightarrow> p = TP_HIGH \<or> p = TP_URGENT"

text \<open>\<^verbatim>\<open>[...new Set(ids.filter(Boolean))]\<close> keeps the first of equal ids.\<close>

definition unique_ids :: "uuid list \<Rightarrow> uuid list" where
  "unique_ids ids = rev (remdups (rev (filter (\<lambda>i. i \<noteq> []) ids)))"

definition capacityEligibleAgentIds :: "uuid list \<Rightarrow> (uuid \<Rightarrow> agent_workload) \<Rightarrow> ticket_priority \<Rightarrow> nat \<Rightarrow> uuid list" where
  "capacityEligibleAgentIds agentIds workloads priority maxActive =
     (let underCap = filter (\<lambda>i. wl_assigned (workloads i) < maxActive) (unique_ids agentIds);
          preferred = filter (\<lambda>i. of_nat (wl_assigned (workloads i)) < js_mul (of_nat maxActive) (fl (7 / 10))) underCap
      in if prefersUrgentHeadroom priority \<and> preferred \<noteq> [] then preferred else underCap)"

definition matchesCategory :: "agent_skills option \<Rightarrow> ticket_category \<Rightarrow> bool" where
  "matchesCategory skills category = (case skills of None \<Rightarrow> False | Some s \<Rightarrow> category \<in> set (sk_categories s))"

definition matchesLanguage :: "agent_skills option \<Rightarrow> string option \<Rightarrow> bool" where
  "matchesLanguage skills language =
     (case (skills, language) of (Some s, Some l) \<Rightarrow> l \<noteq> [] \<and> l \<in> set (sk_languages s) | _ \<Rightarrow> False)"

datatype skill_tier = CATEGORY_AND_LANGUAGE | CATEGORY | LANGUAGE | GENERAL

definition pickSkillTier ::
    "uuid list \<Rightarrow> (uuid \<Rightarrow> agent_skills option) \<Rightarrow> ticket_category \<Rightarrow> string option \<Rightarrow> uuid list \<times> skill_tier" where
  "pickSkillTier agentIds skills category language =
     (let catLang = filter (\<lambda>i. matchesCategory (skills i) category \<and> matchesLanguage (skills i) language) agentIds;
          cat = filter (\<lambda>i. matchesCategory (skills i) category) agentIds;
          lang = filter (\<lambda>i. matchesLanguage (skills i) language) agentIds
      in if catLang \<noteq> [] then (catLang, CATEGORY_AND_LANGUAGE)
         else if cat \<noteq> [] then (cat, CATEGORY)
         else if lang \<noteq> [] then (lang, LANGUAGE)
         else (agentIds, GENERAL))"

type_synonym agent_key = "rat \<times> nat \<times> int \<times> string"

definition agent_rank :: "(string \<Rightarrow> string) \<Rightarrow> (uuid \<Rightarrow> agent_workload) \<Rightarrow> (uuid \<Rightarrow> time option) \<Rightarrow> uuid \<Rightarrow> agent_key" where
  "agent_rank coll workloads lastAssignedAt i =
     (calculateRoutingScore (workloads i), wl_assigned (workloads i),
      case lastAssignedAt i of None \<Rightarrow> 0 | Some t \<Rightarrow> t, coll i)"

definition selectBestAgent ::
    "(string \<Rightarrow> string) \<Rightarrow> uuid list \<Rightarrow> (uuid \<Rightarrow> agent_workload) \<Rightarrow> (uuid \<Rightarrow> time option) \<Rightarrow> ticket_priority \<Rightarrow> nat
     \<Rightarrow> uuid option" where
  "selectBestAgent coll agentIds workloads lastAssignedAt priority maxActive =
     (case sort_key (agent_rank coll workloads lastAssignedAt)
             (capacityEligibleAgentIds agentIds workloads priority maxActive) of
        [] \<Rightarrow> None | i # _ \<Rightarrow> Some i)"

section \<open>The state of the support desk\<close>

record support_csat =
  cs_ticket_id :: uuid
  cs_rating :: rat
  cs_comment :: "string option"
  cs_agent_id :: "uuid option"
  cs_agent_rating :: "rat option"
  cs_problem_solved :: bool

record support_note =
  nt_id :: uuid
  nt_ticket_id :: uuid
  nt_author_admin_id :: uuid
  nt_body :: string

record trust_report =
  rp_id :: uuid
  rp_conversation_id :: uuid
  rp_reporter_user_id :: uuid
  rp_text :: "string option"
  rp_category :: "string option"
  rp_status :: string
  rp_booking_id :: "uuid option"
  rp_listing_id :: "uuid option"
  rp_reported_user_id :: "uuid option"

text \<open>
  The tables of the support desk beside those of the stays service, whose conversations and messages it
  uses. The audit rows carry the time they were written at; reports and safety issues have one row type.
\<close>

record support_db =
  sp_stays :: stays_db
  sp_tickets :: "support_ticket list"
  sp_reports :: "trust_report list"
  sp_safety_issues :: "trust_report list"
  sp_csats :: "support_csat list"
  sp_notes :: "support_note list"
  sp_agent_skills :: "uuid \<Rightarrow> agent_skills option"
  sp_ticket_counters :: "int \<rightharpoonup> nat"
  sp_audit :: "(audit_entry \<times> time) list"

definition find_ticket :: "uuid \<Rightarrow> support_db \<Rightarrow> support_ticket option" where
  "find_ticket i db = find_where (\<lambda>t. tk_id t = i) (sp_tickets db)"

definition save_ticket :: "support_ticket \<Rightarrow> support_db \<Rightarrow> support_db" where
  "save_ticket t db = db\<lparr>sp_tickets := update_where (\<lambda>x. tk_id x = tk_id t) (\<lambda>_. t) (sp_tickets db)\<rparr>"

definition support_audit :: "time \<Rightarrow> uuid \<Rightarrow> string \<Rightarrow> string \<Rightarrow> uuid \<Rightarrow> string \<Rightarrow> metadata \<Rightarrow> support_db \<Rightarrow> support_db" where
  "support_audit now actor role entityType entityId action metadata db =
     db\<lparr>sp_audit := sp_audit db @
       [(\<lparr>al_actor_user_id = Some actor, al_actor_role = Some role, al_entity_type = entityType,
          al_entity_id = Some entityId, al_action = action, al_metadata = metadata, al_ip = None,
          al_user_agent = None\<rparr>, now)]\<rparr>"

section \<open>support-assignment.service.ts\<close>

record roster_row =
  ro_id :: uuid
  ro_status :: string
  ro_staff_role :: string

record agent_authz =
  ga_account_type :: string
  ga_staff_role :: string
  ga_status :: string

definition agent_tickets :: "uuid \<Rightarrow> support_ticket list \<Rightarrow> support_ticket list" where
  "agent_tickets i ts = filter (\<lambda>t. tk_assigned_admin_id t = Some i \<and> tk_status t \<in> set open_statuses) ts"

definition queryAssignedAgentWorkload :: "time \<Rightarrow> support_ticket list \<Rightarrow> uuid \<Rightarrow> agent_workload" where
  "queryAssignedAgentWorkload now ts i =
     (let mine = agent_tickets i ts
      in \<lparr>wl_assigned = length mine,
          wl_in_progress = affected (\<lambda>t. tk_status t = TS_IN_PROGRESS) mine,
          wl_waiting = affected (\<lambda>t. tk_status t = TS_WAITING_FOR_CUSTOMER \<or> tk_status t = TS_WAITING_FOR_HOST) mine,
          wl_at_risk = affected (\<lambda>t. liveSlaStateSql t now = AT_RISK) mine,
          wl_breached = affected (\<lambda>t. liveSlaStateSql t now = BREACHED) mine\<rparr>)"

definition queryLastAssignmentTimes :: "(audit_entry \<times> time) list \<Rightarrow> uuid \<Rightarrow> time option" where
  "queryLastAssignmentTimes entries i =
     (case filter (\<lambda>(e, t). al_action e = ''support_ticket_assigned'' \<and>
             map_of (al_metadata e) ''toAdminId'' = Some (JStr i)) entries of
        [] \<Rightarrow> None | rows \<Rightarrow> Some (Max (snd ` set rows)))"

definition eligible_roster :: "roster_row list \<Rightarrow> uuid list" where
  "eligible_roster roster =
     map ro_id (filter (\<lambda>r. ro_status r = ''ACTIVE'' \<and> ro_staff_role r = ''SUPPORT_AGENT'' \<and> ro_id r \<noteq> []) roster)"

definition agent_authorised :: "(uuid \<Rightarrow> agent_authz option) \<Rightarrow> uuid \<Rightarrow> bool" where
  "agent_authorised authz i =
     (case authz i of
        None \<Rightarrow> False
      | Some a \<Rightarrow> ga_account_type a = ''ADMIN'' \<and> ga_staff_role a = ''SUPPORT_AGENT'' \<and> ga_status a = ''ACTIVE'')"

text \<open>
  The loop that asks the identity service about the best agent and strikes it out if it may not work:
  \<open>best\<close> is \<open>selectBestAgent\<close> of the agents that are left.
\<close>

lemma strike_less:
  assumes "c \<in> set ids" and "c \<notin> set bad"
  shows "length (filter (\<lambda>i. i \<noteq> c \<and> i \<notin> set bad) ids) < length (filter (\<lambda>i. i \<notin> set bad) ids)"
  using assms length_filter_less [of c "filter (\<lambda>i. i \<notin> set bad) ids" "\<lambda>i. i \<noteq> c"] by (simp add: conj_commute)

function pick_agent :: "(uuid list \<Rightarrow> uuid option) \<Rightarrow> (uuid \<Rightarrow> bool) \<Rightarrow> uuid list \<Rightarrow> uuid list \<Rightarrow> uuid option" where
  "pick_agent best ok agentIds ineligible =
     (case best (filter (\<lambda>i. i \<notin> set ineligible) agentIds) of
        None \<Rightarrow> None
      | Some candidate \<Rightarrow>
          if candidate \<notin> set (filter (\<lambda>i. i \<notin> set ineligible) agentIds) then None
          else if ok candidate then Some candidate
          else pick_agent best ok agentIds (candidate # ineligible))"
  by pat_completeness auto
termination
  by (relation "measure (\<lambda>(best, ok, agentIds, ineligible). length (filter (\<lambda>i. i \<notin> set ineligible) agentIds))")
    (auto intro: strike_less)

declare pick_agent.simps [simp del]

fun tier_name :: "skill_tier \<Rightarrow> string" where
  "tier_name CATEGORY_AND_LANGUAGE = ''CATEGORY_AND_LANGUAGE''"
| "tier_name CATEGORY = ''CATEGORY''"
| "tier_name LANGUAGE = ''LANGUAGE''"
| "tier_name GENERAL = ''GENERAL''"

definition assign_choice ::
    "(string \<Rightarrow> string) \<Rightarrow> env \<Rightarrow> uuid list \<Rightarrow> (uuid \<Rightarrow> agent_authz option) \<Rightarrow> time \<Rightarrow> support_ticket \<Rightarrow> support_db
     \<Rightarrow> (uuid \<times> skill_tier \<times> nat) option" where
  "assign_choice coll env ids authz now t db =
     (let workloads = queryAssignedAgentWorkload now (sp_tickets db);
          lastAssignedAt = queryLastAssignmentTimes (sp_audit db);
          maxActive = maxActiveTicketsPerAgent env;
          remaining = capacityEligibleAgentIds ids workloads (tk_priority t) maxActive;
          (tier, skillTier) = pickSkillTier remaining (sp_agent_skills db) (tk_category t) (tk_requester_language t)
      in if remaining = [] then None
         else map_option (\<lambda>i. (i, skillTier, length tier))
           (pick_agent (\<lambda>is. selectBestAgent coll is workloads lastAssignedAt (tk_priority t) maxActive)
              (agent_authorised authz) tier []))"

definition assignLocked ::
    "(string \<Rightarrow> string) \<Rightarrow> env \<Rightarrow> roster_row list \<Rightarrow> (uuid \<Rightarrow> agent_authz option) \<Rightarrow> time \<Rightarrow> uuid \<Rightarrow> support_db
     \<Rightarrow> bool \<times> support_db" where
  "assignLocked coll env roster authz now ticketId db =
     (let ids = eligible_roster roster
      in if ids = [] then (False, db)
         else (case find_ticket ticketId db of
           None \<Rightarrow> (False, db)
         | Some t \<Rightarrow>
             if truthy (tk_assigned_admin_id t) then (False, db)
             else (case assign_choice coll env ids authz now t db of
                 None \<Rightarrow> (False, db)
               | Some (picked, skillTier, eligible) \<Rightarrow>
                   (True, support_audit now ''system'' ''SYSTEM'' ''support_ticket'' (tk_id t) ''support_ticket_assigned''
                     [(''fromAdminId'', json_of_opt JStr (tk_assigned_admin_id t)), (''toAdminId'', JStr picked),
                      (''source'', JStr ''AUTO''), (''reason'', JStr ''LOWEST_ROUTING_SCORE''),
                      (''skillTier'', JStr (tier_name skillTier)),
                      (''categoryMatch'', JBool (skillTier = CATEGORY_AND_LANGUAGE \<or> skillTier = CATEGORY)),
                      (''languageMatch'', JBool (skillTier = CATEGORY_AND_LANGUAGE \<or> skillTier = LANGUAGE)),
                      (''language'', json_of_opt JStr (tk_requester_language t)),
                      (''routingScore'', JNum (calculateRoutingScore (queryAssignedAgentWorkload now (sp_tickets db) picked))),
                      (''eligibleAgents'', JNum (of_nat eligible))]
                     (save_ticket (t\<lparr>tk_assigned_admin_id := Some picked, tk_updated_at := now\<rparr>) db)))))"

definition attemptAutoAssignment ::
    "(string \<Rightarrow> string) \<Rightarrow> env \<Rightarrow> roster_row list option \<Rightarrow> (uuid \<Rightarrow> agent_authz option) \<Rightarrow> time \<Rightarrow> uuid \<Rightarrow> support_db \<Rightarrow> support_db" where
  "attemptAutoAssignment coll env roster authz now ticketId db =
     (if ticketId = [] \<or> \<not> isSupportAutoAssignEnabled env then db
      else (case roster of None \<Rightarrow> db | Some rows \<Rightarrow> snd (assignLocked coll env rows authz now ticketId db)))"

section \<open>Two views of the service levels\<close>

lemma sla_ratio:
  fixes e w :: int
  assumes "0 < w" and "w \<le> 2 ^ 40"
  shows "fl (of_int e / of_int w) < fl (8 / 10) \<longleftrightarrow> (of_int e / of_int w :: rat) < 8 / 10"
    and "fl (of_int e / of_int w) < 1 \<longleftrightarrow> e < w"
proof -
  define x :: rat where "x = of_int e / of_int w"
  define d :: rat where "d = 1 / of_int w"
  have w: "(0::rat) < of_int w" using assms(1) by simp
  have wle: "(of_int w :: rat) \<le> 2 ^ 40" using assms(2) by (metis of_int_le_iff of_int_numeral of_int_power)
  have d: "0 < d" "1 / 2 ^ 40 \<le> d" using w wle by (auto simp: d_def field_simps)
  have err: "fl x \<le> x + \<bar>x\<bar> / 2 ^ 53" "x - \<bar>x\<bar> / 2 ^ 53 \<le> fl x" using b64.rnd_bounds [of x] by auto
  have f: "fl (8 / 10) \<le> 8 / 10 + 1 / 2 ^ 53" "8 / 10 \<le> fl (8 / 10)" by code_simp+
  have lt: "fl x < fl (8 / 10)" if "5 * e < 4 * w"
  proof -
    have "5 * e + 1 \<le> 4 * w" using that by simp
    then have "(of_int (5 * e + 1) :: rat) \<le> of_int (4 * w)" by (simp only: of_int_le_iff)
    then have "5 * x + d \<le> 4" using w by (simp add: x_def d_def field_simps)
    then have xs: "x \<le> 4 / 5 - d / 5" by simp
    show ?thesis
    proof (cases "0 \<le> x")
      case True
      then have "fl x \<le> x + x / 2 ^ 53" using err by simp
      then show ?thesis using xs d f(2) by simp
    next
      case False
      then have "fl x \<le> 0" using err(1) by simp
      then show ?thesis using f(2) by simp
    qed
  qed
  have ge: "fl (8 / 10) \<le> fl x" if "4 * w < 5 * e"
  proof -
    have "4 * w + 1 \<le> 5 * e" using that by simp
    then have "(of_int (4 * w + 1) :: rat) \<le> of_int (5 * e)" by (simp only: of_int_le_iff)
    then have "(of_int (4 * w + 1) :: rat) / of_int w \<le> of_int (5 * e) / of_int w" using w by (intro divide_right_mono) auto
    then have "4 + d \<le> 5 * x" using w by (simp add: x_def d_def add_divide_distrib)
    then have "0 \<le> x" and "8 / 10 + 1 / 2 ^ 53 \<le> x - x / 2 ^ 53" using d(2) by simp_all
    then show ?thesis using err(2) f(1) by simp
  qed
  have eq: "x = 8 / 10" if "5 * e = 4 * w"
  proof -
    have "(of_int (5 * e) :: rat) = of_int (4 * w)" using that by (simp only:)
    then show ?thesis using w by (simp add: x_def field_simps)
  qed
  have x: "x < 8 / 10 \<longleftrightarrow> 5 * e < 4 * w"
  proof -
    have "x < 8 / 10 \<longleftrightarrow> (of_int (5 * e) :: rat) < of_int (4 * w)" using w by (simp add: x_def field_simps)
    then show ?thesis by (simp only: of_int_less_iff)
  qed
  show "fl (of_int e / of_int w) < fl (8 / 10) \<longleftrightarrow> (of_int e / of_int w :: rat) < 8 / 10"
  proof (cases "5 * e < 4 * w")
    case True
    then show ?thesis using lt x by (simp add: x_def)
  next
    case False
    then have "fl (8 / 10) \<le> fl x" by (cases "5 * e = 4 * w") (simp_all only: eq order_refl, use ge in simp)
    then show ?thesis using False x by (auto simp: x_def)
  qed
  show "fl (of_int e / of_int w) < 1 \<longleftrightarrow> e < w"
  proof (cases "e < w")
    case True
    then have "e + 1 \<le> w" by simp
    then have "(of_int (e + 1) :: rat) \<le> of_int w" by (simp only: of_int_le_iff)
    then have "x + d \<le> 1" using w by (simp add: x_def d_def field_simps)
    then have "fl x < 1" using err(1) d by (cases "0 \<le> x") simp_all
    then show ?thesis using True by (simp add: x_def)
  next
    case False
    then have "(of_int w :: rat) \<le> of_int e" by simp
    then have "1 \<le> x" using w by (simp add: x_def)
    have "1 \<le> fl x"
    proof (cases "e = w")
      case True
      then have "x = of_int 1" using w by (simp add: x_def)
      then show ?thesis using fl_of_int [of 1] by simp
    next
      case False
      then have "w + 1 \<le> e" using \<open>\<not> e < w\<close> by simp
      then have "(of_int (w + 1) :: rat) \<le> of_int e" by (simp only: of_int_le_iff)
      then have "(of_int (w + 1) :: rat) / of_int w \<le> of_int e / of_int w" using w by (intro divide_right_mono) auto
      then have "1 + d \<le> x" using w by (simp add: x_def d_def add_divide_distrib)
      then have "1 \<le> x - x / 2 ^ 53" using d(2) by simp
      then show ?thesis using err(2) \<open>1 \<le> x\<close> by simp
    qed
    then show ?thesis using False by (simp add: x_def)
  qed
qed

lemma slaLeg_agrees:
  assumes "0 < hours" and "hours \<le> 1000"
  shows "slaLegSql c completed hours now = slaStateFor c (addHours c hours) completed now"
proof -
  define w where "w = hours * 3600000"
  have w: "0 < w" "w \<le> 2 ^ 40" and t: "addHours c hours = c + w" using assms by (auto simp: w_def addHours_def)
  have wr: "(of_int w :: rat) = of_int hours * 3600000" by (simp add: w_def)
  have r: "(of_int (now - c) / of_int w :: rat) < 8 / 10 \<longleftrightarrow> (of_int (now - c) :: rat) / 1000 < 8 / 10 * of_int hours * 3600"
    using assms(1) by (simp add: wr divide_less_eq) linarith
  have s: "now - c < w \<longleftrightarrow> (of_int (now - c) :: rat) / 1000 < of_int hours * 3600"
  proof -
    have "now - c < w \<longleftrightarrow> (of_int (now - c) :: rat) < of_int w" by (simp only: of_int_less_iff)
    then show ?thesis by (simp add: wr field_simps)
  qed
  show ?thesis
    using w sla_ratio [OF w, of "now - c"]
    by (simp only: slaLegSql_def slaStateFor_def t js_div_def r s Let_def)
      (simp add: w_def mult.commute split: option.split)
qed


section \<open>Who gets a ticket\<close>

definition within_capacity :: "(uuid \<Rightarrow> agent_workload) \<Rightarrow> ticket_priority \<Rightarrow> nat \<Rightarrow> uuid list \<Rightarrow> bool" where
  "within_capacity workloads priority maxActive ids \<longleftrightarrow>
     distinct ids \<and> [] \<notin> set ids \<and> (\<forall>i\<in>set ids. wl_assigned (workloads i) < maxActive) \<and>
     (prefersUrgentHeadroom priority \<longrightarrow>
        (\<forall>i\<in>set ids. of_nat (wl_assigned (workloads i)) < js_mul (of_nat maxActive) (fl (7 / 10))) \<or>
        (\<forall>i\<in>set ids. \<not> of_nat (wl_assigned (workloads i)) < js_mul (of_nat maxActive) (fl (7 / 10))))"

lemma unique_ids_facts: "distinct (unique_ids ids)" "set (unique_ids ids) = set ids - {[]}"
  by (auto simp: unique_ids_def)

lemma unique_ids_same: "distinct ids \<Longrightarrow> [] \<notin> set ids \<Longrightarrow> unique_ids ids = ids"
proof -
  assume "distinct ids" "[] \<notin> set ids"
  moreover have "filter (\<lambda>i. i \<noteq> []) ids = ids" using calculation(2) by (auto intro: filter_True)
  ultimately show "unique_ids ids = ids" by (simp add: unique_ids_def distinct_remdups_id)
qed

lemma capacity_within: "within_capacity w p m (capacityEligibleAgentIds ids w p m)"
  using unique_ids_facts [of ids]
  by (auto simp: within_capacity_def capacityEligibleAgentIds_def Let_def filter_empty_conv)

lemma capacity_subset: "set (capacityEligibleAgentIds ids w p m) \<subseteq> set ids"
  using unique_ids_facts(2) [of ids] by (auto simp: capacityEligibleAgentIds_def Let_def)

lemma within_filter: "within_capacity w p m ids \<Longrightarrow> within_capacity w p m (filter q ids)"
  by (auto simp: within_capacity_def)

lemma within_same:
  assumes "within_capacity w p m ids"
  shows "capacityEligibleAgentIds ids w p m = ids"
proof -
  have u: "unique_ids ids = ids" using assms by (simp add: within_capacity_def unique_ids_same)
  have f: "filter (\<lambda>i. wl_assigned (w i) < m) ids = ids" using assms by (auto simp: within_capacity_def intro: filter_True)
  show ?thesis
    using assms by (auto simp: capacityEligibleAgentIds_def Let_def u f within_capacity_def filter_empty_conv intro!: filter_True)
qed

lemma tier_filter: "\<exists>q. fst (pickSkillTier ids skills category language) = filter q ids"
  by (auto simp: pickSkillTier_def Let_def intro: exI [of _ "\<lambda>_. True"])

text \<open>The loop asks the agents in the order of their ranks.\<close>

lemma pick_agent_in_order:
  assumes "within_capacity w p m ids"
  shows "pick_agent (\<lambda>is. selectBestAgent coll is w lst p m) ok ids bad =
    find_where ok (filter (\<lambda>i. i \<notin> set bad) (sort_key (agent_rank coll w lst) ids))"
proof (induction "length (filter (\<lambda>i. i \<notin> set bad) ids)" arbitrary: bad rule: less_induct)
  case less
  let ?left = "filter (\<lambda>i. i \<notin> set bad) ids" and ?r = "agent_rank coll w lst"
  have cap: "capacityEligibleAgentIds ?left w p m = ?left" using within_same within_filter [OF assms] by blast
  have s: "sort_key ?r ?left = filter (\<lambda>i. i \<notin> set bad) (sort_key ?r ids)" by (simp add: filter_sort)
  show ?case
  proof (cases "sort_key ?r ?left")
    case Nil
    then show ?thesis by (simp add: pick_agent.simps [of _ _ _ bad] selectBestAgent_def cap flip: s)
  next
    case (Cons c rest)
    have c: "c \<in> set ids" "c \<notin> set bad" 
    proof -
      have "c \<in> set (sort_key ?r ?left)" using Cons by simp
      then show "c \<in> set ids" "c \<notin> set bad" by simp_all
    qed
    have d: "distinct (c # rest)"
      using Cons assms distinct_filter [of ids "\<lambda>i. i \<notin> set bad"] distinct_sort [of ?r ?left] by (simp add: within_capacity_def)
    have rest: "filter (\<lambda>i. i \<notin> set (c # bad)) (sort_key ?r ids) = rest"
    proof -
      have "filter (\<lambda>i. i \<notin> set (c # bad)) (sort_key ?r ids) = filter (\<lambda>i. i \<noteq> c) (sort_key ?r ?left)"
        by (simp add: s conj_commute)
      also have "\<dots> = rest" using Cons d by (auto intro: filter_True)
      finally show ?thesis .
    qed
    have "pick_agent (\<lambda>is. selectBestAgent coll is w lst p m) ok ids (c # bad) = find_where ok rest" if "\<not> ok c"
      using less [of "c # bad"] strike_less [of c ids bad] c by (simp only: rest) simp
    then show ?thesis
      using Cons c by (simp add: pick_agent.simps [of _ _ _ bad] selectBestAgent_def cap flip: s)
  qed
qed

lemma find_where_filter: "find_where ok xs = Some i \<Longrightarrow> \<exists>rest. filter ok xs = i # rest"
  by (induction xs) (auto split: if_splits)

lemma find_sorted_best:
  assumes "find_where ok (sort_key r ids) = Some i"
  shows "i \<in> set ids \<and> ok i \<and> (\<forall>j\<in>set ids. ok j \<longrightarrow> r i \<le> r j)"
proof -
  obtain rest where "filter ok (sort_key r ids) = i # rest" using find_where_filter [OF assms] by blast
  then have e: "sort_key r (filter ok ids) = i # rest" by (simp add: filter_sort)
  have "sorted (map r (i # rest))" using sorted_sort_key [of r "filter ok ids"] by (simp only: e)
  moreover have s: "set (i # rest) = set (filter ok ids)" using set_sort [of r "filter ok ids"] by (simp only: e)
  ultimately have "\<forall>j\<in>set (filter ok ids). r i \<le> r j" by auto
  moreover have "i \<in> set (filter ok ids)" using s by auto
  ultimately show ?thesis by auto
qed

definition tier_value :: "agent_skills option \<Rightarrow> ticket_category \<Rightarrow> string option \<Rightarrow> nat" where
  "tier_value s category language =
     (if matchesCategory s category then (if matchesLanguage s language then 3 else 2)
      else if matchesLanguage s language then 1 else 0)"

lemma tier_best:
  assumes "i \<in> set (fst (pickSkillTier ids skills category language))"
  shows "i \<in> set ids \<and> (\<forall>j\<in>set ids. tier_value (skills j) category language \<le> tier_value (skills i) category language \<and>
    (tier_value (skills j) category language = tier_value (skills i) category language \<longrightarrow>
      j \<in> set (fst (pickSkillTier ids skills category language))))"
  using assms by (auto simp: pickSkillTier_def Let_def tier_value_def filter_empty_conv split: if_splits)

text \<open>The best choice for a ticket: the best tier of skills, and in it the lowest rank of those who may work.\<close>

definition best_agent ::
    "(string \<Rightarrow> string) \<Rightarrow> env \<Rightarrow> uuid list \<Rightarrow> (uuid \<Rightarrow> agent_authz option) \<Rightarrow> time \<Rightarrow> support_ticket \<Rightarrow> support_db \<Rightarrow> uuid \<Rightarrow> bool" where
  "best_agent coll env ids authz now t db i \<longleftrightarrow>
     (let w = queryAssignedAgentWorkload now (sp_tickets db);
          remaining = capacityEligibleAgentIds ids w (tk_priority t) (maxActiveTicketsPerAgent env);
          r = agent_rank coll w (queryLastAssignmentTimes (sp_audit db));
          v = (\<lambda>j. tier_value (sp_agent_skills db j) (tk_category t) (tk_requester_language t))
      in i \<in> set remaining \<and> agent_authorised authz i \<and>
         length (agent_tickets i (sp_tickets db)) < maxActiveTicketsPerAgent env \<and>
         (\<forall>j\<in>set remaining. v j \<le> v i \<and> (v j = v i \<and> agent_authorised authz j \<longrightarrow> r i \<le> r j)))"

lemma assign_choice_order:
  "assign_choice coll env ids authz now t db =
     (let w = queryAssignedAgentWorkload now (sp_tickets db);
          remaining = capacityEligibleAgentIds ids w (tk_priority t) (maxActiveTicketsPerAgent env);
          tier = pickSkillTier remaining (sp_agent_skills db) (tk_category t) (tk_requester_language t)
      in if remaining = [] then None
         else map_option (\<lambda>i. (i, snd tier, length (fst tier)))
           (find_where (agent_authorised authz)
              (sort_key (agent_rank coll w (queryLastAssignmentTimes (sp_audit db))) (fst tier))))"
proof -
  let ?w = "queryAssignedAgentWorkload now (sp_tickets db)"
  let ?remaining = "capacityEligibleAgentIds ids ?w (tk_priority t) (maxActiveTicketsPerAgent env)"
  obtain q where q: "fst (pickSkillTier ?remaining (sp_agent_skills db) (tk_category t) (tk_requester_language t)) = filter q ?remaining"
    using tier_filter by blast
  have "within_capacity ?w (tk_priority t) (maxActiveTicketsPerAgent env) (filter q ?remaining)"
    using within_filter [OF capacity_within] .
  from pick_agent_in_order [OF this, where bad = "[]"] show ?thesis
    by (simp add: assign_choice_def Let_def case_prod_unfold q)
qed

lemma assign_choice_best:
  assumes "assign_choice coll env ids authz now t db = Some (i, st, n)"
  shows "best_agent coll env ids authz now t db i"
proof -
  define w where "w = queryAssignedAgentWorkload now (sp_tickets db)"
  define remaining where "remaining = capacityEligibleAgentIds ids w (tk_priority t) (maxActiveTicketsPerAgent env)"
  define tier where "tier = fst (pickSkillTier remaining (sp_agent_skills db) (tk_category t) (tk_requester_language t))"
  have f: "find_where (agent_authorised authz) (sort_key (agent_rank coll w (queryLastAssignmentTimes (sp_audit db))) tier) = Some i"
    using assms by (auto simp: assign_choice_order Let_def w_def remaining_def tier_def split: if_splits)
  note b = find_sorted_best [OF f]
  then have "i \<in> set tier" by blast
  note tb = tier_best [OF this [unfolded tier_def], folded tier_def]
  have "wl_assigned (w i) < maxActiveTicketsPerAgent env"
    using capacity_within [of w "tk_priority t" "maxActiveTicketsPerAgent env" ids] tb by (auto simp: within_capacity_def remaining_def)
  then have "length (agent_tickets i (sp_tickets db)) < maxActiveTicketsPerAgent env"
    by (simp add: w_def queryAssignedAgentWorkload_def Let_def)
  then show ?thesis using b tb unfolding best_agent_def Let_def w_def [symmetric] remaining_def [symmetric] by blast
qed

lemma attempt_cases:
  obtains "attemptAutoAssignment coll env roster authz now ticketId db = db"
  | t rows i st n where "find_ticket ticketId db = Some t" "roster = Some rows" "\<not> truthy (tk_assigned_admin_id t)"
      "assign_choice coll env (eligible_roster rows) authz now t db = Some (i, st, n)"
      "sp_tickets (attemptAutoAssignment coll env roster authz now ticketId db) =
         sp_tickets (save_ticket (t\<lparr>tk_assigned_admin_id := Some i, tk_updated_at := now\<rparr>) db)"
proof (cases "attemptAutoAssignment coll env roster authz now ticketId db = db")
  case False
  then obtain rows where r: "roster = Some rows"
      "attemptAutoAssignment coll env roster authz now ticketId db = snd (assignLocked coll env rows authz now ticketId db)"
    by (auto simp: attemptAutoAssignment_def split: option.splits if_splits)
  then obtain t where t: "find_ticket ticketId db = Some t" "\<not> truthy (tk_assigned_admin_id t)"
    using False by (auto simp: assignLocked_def Let_def split: option.splits if_splits)
  then obtain i st n where c: "assign_choice coll env (eligible_roster rows) authz now t db = Some (i, st, n)"
    using False r by (auto simp: assignLocked_def Let_def split: option.splits if_splits)
  moreover have "sp_tickets (attemptAutoAssignment coll env roster authz now ticketId db) =
      sp_tickets (save_ticket (t\<lparr>tk_assigned_admin_id := Some i, tk_updated_at := now\<rparr>) db)"
    using False t c unfolding r(2) by (auto simp: assignLocked_def support_audit_def Let_def split: if_splits)
  ultimately show ?thesis using that(2) t r(1) by blast
qed

text \<open>
  C18: Automatic assignment changes no ticket or gives an unassigned one to the best agent: active on the
  roster and allowed to work, below the limit of active tickets, of the best tier of skills, and in that
  tier with the lowest score, load and age of the last assignment among those allowed to work.
\<close>

theorem auto_assign_best:
  "attemptAutoAssignment coll env roster authz now ticketId db = db \<or>
   (\<exists>t rows i. find_ticket ticketId db = Some t \<and> roster = Some rows \<and> tk_assigned_admin_id t \<in> {None, Some []} \<and>
      best_agent coll env (eligible_roster rows) authz now t db i \<and>
      sp_tickets (attemptAutoAssignment coll env roster authz now ticketId db) =
        update_where (\<lambda>x. tk_id x = tk_id t) (\<lambda>_. t\<lparr>tk_assigned_admin_id := Some i, tk_updated_at := now\<rparr>) (sp_tickets db))"
proof (cases rule: attempt_cases [of coll env roster authz now ticketId db])
  case 1
  then show ?thesis by blast
next
  case (2 t rows i st n)
  have "tk_assigned_admin_id t \<in> {None, Some []}" using 2(3) by (auto simp: truthy_def split: option.splits)
  then show ?thesis using 2 assign_choice_best [OF 2(4)] by (auto simp: save_ticket_def)
qed

lemma load_update:
  assumes "keyed tk_id ts"
  shows "length (agent_tickets i (update_where (\<lambda>x. tk_id x = k) f ts)) \<le> Suc (length (agent_tickets i ts))"
  using assms
proof (induction ts)
  case (Cons t ts)
  then show ?case
  proof (cases "tk_id t = k")
    case True
    then have "update_where (\<lambda>x. tk_id x = k) f ts = ts"
      using Cons.prems by (intro update_where_none) (auto simp: keyed_def image_iff)
    then show ?thesis using True by (simp add: agent_tickets_def)
  next
    case False
    then show ?thesis using Cons by (auto simp: agent_tickets_def keyed_def)
  qed
qed (simp add: agent_tickets_def)

lemma load_other:
  "(\<And>x. tk_assigned_admin_id (f x) \<noteq> Some i) \<Longrightarrow>
   length (agent_tickets i (update_where p f ts)) \<le> length (agent_tickets i ts)"
  by (induction ts) (auto simp: agent_tickets_def)

text \<open>
  Automatic assignment never takes an agent above the limit of active tickets; agents whose load
  others put there keep it at most.
\<close>

theorem auto_assign_within_limit:
  assumes "keyed tk_id (sp_tickets db)"
  shows "length (agent_tickets i (sp_tickets (attemptAutoAssignment coll env roster authz now ticketId db)))
    \<le> max (length (agent_tickets i (sp_tickets db))) (maxActiveTicketsPerAgent env)"
proof (cases rule: attempt_cases [of coll env roster authz now ticketId db])
  case 1
  then show ?thesis by simp
next
  case (2 t rows j st n)
  let ?f = "\<lambda>_. t\<lparr>tk_assigned_admin_id := Some j, tk_updated_at := now\<rparr>"
  have s: "sp_tickets (attemptAutoAssignment coll env roster authz now ticketId db) = update_where (\<lambda>x. tk_id x = tk_id t) ?f (sp_tickets db)"
    using 2(5) by (simp add: save_ticket_def)
  show ?thesis
  proof (cases "i = j")
    case True
    have "length (agent_tickets i (sp_tickets db)) < maxActiveTicketsPerAgent env"
      using assign_choice_best [OF 2(4)] True by (simp add: best_agent_def Let_def)
    then show ?thesis using load_update [OF assms, of i "tk_id t" ?f] by (simp add: s)
  next
    case False
    then show ?thesis using load_other [of ?f i "\<lambda>x. tk_id x = tk_id t" "sp_tickets db"] by (simp add: s)
  qed
qed

text \<open>
  C19: The tier of skills is fixed before the identity service is asked. If nobody of the best tier may
  work any more, the ticket stays unassigned although another agent with capacity may.
\<close>

theorem tier_blocks_assignment:
  assumes "find_ticket ticketId db = Some t" and "b \<in> set (eligible_roster rows)"
    and "length (agent_tickets b (sp_tickets db)) < maxActiveTicketsPerAgent env"
    and "\<not> prefersUrgentHeadroom (tk_priority t)"
    and "a \<in> set (eligible_roster rows)" and "length (agent_tickets a (sp_tickets db)) < maxActiveTicketsPerAgent env"
    and "matchesCategory (sp_agent_skills db a) (tk_category t)"
    and "\<forall>j. matchesCategory (sp_agent_skills db j) (tk_category t) \<longrightarrow> \<not> agent_authorised authz j"
  shows "attemptAutoAssignment coll env (Some rows) authz now ticketId db = db \<and>
    b \<in> set (capacityEligibleAgentIds (eligible_roster rows) (queryAssignedAgentWorkload now (sp_tickets db))
      (tk_priority t) (maxActiveTicketsPerAgent env))"
proof -
  let ?w = "queryAssignedAgentWorkload now (sp_tickets db)"
  let ?remaining = "capacityEligibleAgentIds (eligible_roster rows) ?w (tk_priority t) (maxActiveTicketsPerAgent env)"
  have mem: "j \<in> set ?remaining" if "j \<in> set (eligible_roster rows)" "length (agent_tickets j (sp_tickets db)) < maxActiveTicketsPerAgent env" for j
    using that assms(4) unique_ids_facts(2) [of "eligible_roster rows"]
    by (auto simp: capacityEligibleAgentIds_def Let_def queryAssignedAgentWorkload_def eligible_roster_def)
  have "a \<in> set ?remaining" using mem assms(5, 6) by blast
  have "None = assign_choice coll env (eligible_roster rows) authz now t db"
  proof (cases "assign_choice coll env (eligible_roster rows) authz now t db")
    case (Some c)
    obtain i st n where c: "c = (i, st, n)" by (cases c)
    have "tier_value (sp_agent_skills db a) (tk_category t) (tk_requester_language t)
        \<le> tier_value (sp_agent_skills db i) (tk_category t) (tk_requester_language t)" "agent_authorised authz i"
      using assign_choice_best [OF Some [unfolded c]] \<open>a \<in> set ?remaining\<close> by (auto simp: best_agent_def Let_def)
    then show ?thesis using assms(7, 8) by (auto simp: tier_value_def split: if_splits)
  qed simp
  then have "attemptAutoAssignment coll env (Some rows) authz now ticketId db = db"
    using assms(1) by (auto simp: attemptAutoAssignment_def assignLocked_def Let_def split: option.splits)
  then show ?thesis using mem assms(2, 3) by blast
qed


definition a_ticket :: "uuid \<Rightarrow> support_ticket" where
  "a_ticket i =
     \<lparr>tk_id = i, tk_ticket_number = ''SUP-2026-000001'', tk_requester_user_id = ''u'', tk_party = T_GUEST,
      tk_category = TC_PAYMENT, tk_requester_language = Some ''fr'', tk_subject = ''s'', tk_status = TS_OPEN,
      tk_priority = TP_NORMAL, tk_resolution_type = None, tk_assigned_admin_id = None, tk_conversation_id = ''c'' @ i,
      tk_booking_id = None, tk_listing_id = None, tk_report_id = None, tk_safety_issue_id = None,
      tk_unread_for_support = True, tk_last_message_preview = None, tk_customer_name = None,
      tk_requester_email = None, tk_resolved_at = None, tk_first_admin_response_at = None, tk_closed_at = None,
      tk_review_agent_id = None, tk_review_agent_name = None, tk_created_at = 0, tk_updated_at = 0\<rparr>"

definition a_desk :: support_db where
  "a_desk =
     \<lparr>sp_stays = no_rows, sp_tickets = [a_ticket ''1''], sp_reports = [], sp_safety_issues = [], sp_csats = [],
      sp_notes = [], sp_agent_skills = [''a'' \<mapsto> \<lparr>sk_languages = [], sk_categories = [TC_PAYMENT]\<rparr>],
      sp_ticket_counters = Map.empty, sp_audit = []\<rparr>"

definition two_agents :: "roster_row list" where
  "two_agents = [\<lparr>ro_id = ''a'', ro_status = ''ACTIVE'', ro_staff_role = ''SUPPORT_AGENT''\<rparr>,
     \<lparr>ro_id = ''b'', ro_status = ''ACTIVE'', ro_staff_role = ''SUPPORT_AGENT''\<rparr>]"

definition authz_only :: "uuid list \<Rightarrow> uuid \<Rightarrow> agent_authz option" where
  "authz_only ids i =
     Some \<lparr>ga_account_type = ''ADMIN'', ga_staff_role = ''SUPPORT_AGENT'',
           ga_status = (if i \<in> set ids then ''ACTIVE'' else ''SUSPENDED'')\<rparr>"

theorem tier_blocks_assignment_witness:
  "attemptAutoAssignment (\<lambda>s. s) Map.empty (Some two_agents) (authz_only [''b'']) 0 ''1'' a_desk = a_desk \<and>
   agent_authorised (authz_only [''b'']) ''b''"
proof -
  have t: "find_ticket ''1'' a_desk = Some (a_ticket ''1'')" by code_simp
  have n: "\<forall>j. matchesCategory (sp_agent_skills a_desk j) (tk_category (a_ticket ''1'')) \<longrightarrow> \<not> agent_authorised (authz_only [''b'']) j"
    by (simp add: a_desk_def matchesCategory_def agent_authorised_def authz_only_def)
  have "attemptAutoAssignment (\<lambda>s. s) Map.empty (Some two_agents) (authz_only [''b'']) 0 ''1'' a_desk = a_desk"
    by (rule tier_blocks_assignment [OF t _ _ _ _ _ _ n, where a = "''a''" and b = "''b''", THEN conjunct1])
      (simp_all add: two_agents_def eligible_roster_def a_desk_def a_ticket_def agent_tickets_def
        maxActiveTicketsPerAgent_def prefersUrgentHeadroom_def matchesCategory_def)
  then show ?thesis by (simp add: agent_authorised_def authz_only_def)
qed

theorem auto_assign_best_witness:
  "\<exists>i. best_agent (\<lambda>s. s) Map.empty (eligible_roster two_agents) (authz_only [''a'', ''b'']) 0 (a_ticket ''1'') a_desk i"
proof -
  have "attemptAutoAssignment (\<lambda>s. s) Map.empty (Some two_agents) (authz_only [''a'', ''b'']) 0 ''1'' a_desk \<noteq> a_desk"
  proof
    assume "attemptAutoAssignment (\<lambda>s. s) Map.empty (Some two_agents) (authz_only [''a'', ''b'']) 0 ''1'' a_desk = a_desk"
    then have "map tk_assigned_admin_id (sp_tickets
        (attemptAutoAssignment (\<lambda>s. s) Map.empty (Some two_agents) (authz_only [''a'', ''b'']) 0 ''1'' a_desk)) = [None]"
      by (simp add: a_desk_def a_ticket_def)
    moreover have "map tk_assigned_admin_id (sp_tickets
        (attemptAutoAssignment (\<lambda>s. s) Map.empty (Some two_agents) (authz_only [''a'', ''b'']) 0 ''1'' a_desk)) = [Some ''a'']"
      by code_simp
    ultimately show False by simp
  qed
  moreover have "find_ticket ''1'' a_desk = Some (a_ticket ''1'')" by code_simp
  ultimately show ?thesis
    using auto_assign_best [of "\<lambda>s. s" Map.empty "Some two_agents" "authz_only [''a'', ''b'']" 0 "''1''" a_desk] by auto
qed

theorem auto_assign_within_limit_witness:
  "length (agent_tickets ''a'' (sp_tickets
     (attemptAutoAssignment (\<lambda>s. s) Map.empty (Some two_agents) (authz_only [''a'', ''b'']) 0 ''1'' a_desk))) \<le> 20"
  using auto_assign_within_limit [of a_desk "''a''" "\<lambda>s. s" Map.empty "Some two_agents" "authz_only [''a'', ''b'']" 0 "''1''"]
  by (simp add: keyed_def a_desk_def agent_tickets_def a_ticket_def maxActiveTicketsPerAgent_def)

end
