(* ===== verification/SupportTickets.thy ===== *)
theory SupportTickets
  imports SupportRouting PhoneNumbers
begin

text \<open>
  \<^verbatim>\<open>support-tickets.service.ts\<close>: opening tickets, the agents' changes, replies of both sides, notes and
  ratings, with \<^verbatim>\<open>support-ticket-state.ts\<close>, \<^verbatim>\<open>support-staff-access.ts\<close> and \<^verbatim>\<open>support-language.ts\<close>. Profiles and
  privileges come from the identity service (\<open>profile\<close>, \<open>authz\<close>). Operational signals and quality
  scores, which every handler asks for after its transaction and which never fail it, are not part of the state.
\<close>

section \<open>Access and transitions\<close>

datatype staff_role = Staff_Admin | Staff_Agent

record staff_actor =
  ac_user_id :: uuid
  ac_role :: staff_role

definition staffActorFromUser :: "uuid \<Rightarrow> string list \<Rightarrow> string \<Rightarrow> staff_actor" where
  "staffActorFromUser userId roles role =
     (let rs = (if roles \<noteq> [] then roles else if role \<noteq> [] then [role] else [])
      in \<lparr>ac_user_id = userId, ac_role = (if ''ADMIN'' \<in> set rs then Staff_Admin else Staff_Agent)\<rparr>)"

definition assertCanAccessTicket :: "support_ticket option \<Rightarrow> staff_actor \<Rightarrow> support_ticket result" where
  "assertCanAccessTicket t actor =
     (case t of
        None \<Rightarrow> Inl (Not_Found ''Ticket not found'')
      | Some x \<Rightarrow>
          if ac_role actor = Staff_Admin then Inr x
          else if tk_assigned_admin_id x = Some (ac_user_id actor) then Inr x
          else Inl (Not_Found ''Ticket not found''))"

fun nextStatusAfterCustomerMessage :: "ticket_status \<Rightarrow> ticket_party \<Rightarrow> ticket_status" where
  "nextStatusAfterCustomerMessage TS_RESOLVED party = TS_OPEN"
| "nextStatusAfterCustomerMessage TS_WAITING_FOR_CUSTOMER party = TS_IN_PROGRESS"
| "nextStatusAfterCustomerMessage TS_WAITING_FOR_HOST party = (if party = T_HOST then TS_OPEN else TS_WAITING_FOR_HOST)"
| "nextStatusAfterCustomerMessage status party = status"

definition CLOSED_SUPPORT_TICKET_MESSAGE :: string where
  "CLOSED_SUPPORT_TICKET_MESSAGE = ''This support ticket is closed.''"

definition TICKET_MUST_BE_REOPENED_MESSAGE :: string where
  "TICKET_MUST_BE_REOPENED_MESSAGE = ''Ticket must be reopened using the reopen action''"

definition TICKET_IS_NOT_CLOSED_MESSAGE :: string where
  "TICKET_IS_NOT_CLOSED_MESSAGE = ''Ticket is not closed''"

text \<open>\<^verbatim>\<open>String(raw).trim().toLowerCase().split(/[-_]/)[0]\<close>, one of the three languages or none.\<close>

definition canonicalizeRequesterLanguage :: "string option \<Rightarrow> string option" where
  "canonicalizeRequesterLanguage raw =
     (case raw of
        None \<Rightarrow> None
      | Some s \<Rightarrow>
          let primary = takeWhile (\<lambda>c. c \<noteq> CHR ''-'' \<and> c \<noteq> CHR ''_'') (js_lower (js_trim s))
          in if primary \<in> set [''ar'', ''fr'', ''en''] then Some primary else None)"

section \<open>Opening a ticket\<close>

record profile_summary =
  pf_full_name :: "string option"
  pf_email :: "string option"
  pf_preferred_language :: "string option"

record create_ticket_dto =
  ct_category :: ticket_category
  ct_subject :: string
  ct_message :: string
  ct_booking_id :: "uuid option"
  ct_listing_id :: "uuid option"
  ct_report_id :: "uuid option"
  ct_safety_issue_id :: "uuid option"
  ct_client_request_id :: "uuid option"

record owned_links =
  ol_booking_id :: "uuid option"
  ol_listing_id :: "uuid option"
  ol_report_id :: "uuid option"
  ol_safety_issue_id :: "uuid option"

definition given :: "string option \<Rightarrow> string option" where
  "given s = (if truthy s then s else None)"

definition support_transaction :: "(support_db \<Rightarrow> 'a result \<times> support_db) \<Rightarrow> support_db \<Rightarrow> 'a result \<times> support_db" where
  "support_transaction body db = (case body db of (Inl e, db1) \<Rightarrow> (Inl e, db) | (Inr a, db1) \<Rightarrow> (Inr a, db1))"

definition resolveParty :: "uuid \<Rightarrow> support_db \<Rightarrow> ticket_party" where
  "resolveParty userId db =
     (if find_where (\<lambda>h. hp_user_id h = userId) (host_profiles (sp_stays db)) \<noteq> None then T_HOST else T_GUEST)"

definition no_ticket :: http_error where
  "no_ticket = Not_Found ''Ticket not found''"

definition booking_link :: "uuid \<Rightarrow> uuid option \<Rightarrow> stays_db \<Rightarrow> (uuid \<times> uuid) option result" where
  "booking_link userId bookingId db =
     (case given bookingId of
        None \<Rightarrow> Inr None
      | Some i \<Rightarrow>
          (case find_booking i db of
             None \<Rightarrow> Inl no_ticket
           | Some b \<Rightarrow>
               if bk_guest_user_id b \<noteq> userId \<and>
                  map_option ls_host_user_id (find_listing (bk_listing_id b) db) \<noteq> Some userId
               then Inl no_ticket else Inr (Some (bk_id b, bk_listing_id b))))"

definition listing_link :: "uuid \<Rightarrow> ticket_party \<Rightarrow> (uuid \<times> uuid) option \<Rightarrow> uuid option \<Rightarrow> stays_db \<Rightarrow> uuid option result" where
  "listing_link userId party booked listingId db =
     (case given listingId of
        None \<Rightarrow> Inr (map_option snd booked)
      | Some i \<Rightarrow>
          (case find_listing i db of
             None \<Rightarrow> Inl no_ticket
           | Some l \<Rightarrow>
               if party = T_HOST \<and> ls_host_user_id l \<noteq> userId then Inl no_ticket
               else if party = T_GUEST \<and> booked = None \<and> ls_host_user_id l \<noteq> userId then Inl no_ticket
               else Inr (Some (ls_id l))))"

definition report_link :: "uuid \<Rightarrow> uuid option \<Rightarrow> trust_report list \<Rightarrow> uuid option result" where
  "report_link userId reportId rows =
     (case given reportId of
        None \<Rightarrow> Inr None
      | Some i \<Rightarrow>
          (case find_where (\<lambda>r. rp_id r = i) rows of
             None \<Rightarrow> Inl no_ticket
           | Some r \<Rightarrow> if rp_reporter_user_id r \<noteq> userId then Inl no_ticket else Inr (Some (rp_id r))))"

definition resolveOwnedLinks :: "uuid \<Rightarrow> ticket_party \<Rightarrow> create_ticket_dto \<Rightarrow> support_db \<Rightarrow> owned_links result" where
  "resolveOwnedLinks userId party dto db =
     (case booking_link userId (ct_booking_id dto) (sp_stays db) of
        Inl e \<Rightarrow> Inl e
      | Inr booked \<Rightarrow>
          (case listing_link userId party booked (ct_listing_id dto) (sp_stays db) of
             Inl e \<Rightarrow> Inl e
           | Inr listing \<Rightarrow>
               (case report_link userId (ct_report_id dto) (sp_reports db) of
                  Inl e \<Rightarrow> Inl e
                | Inr report \<Rightarrow>
                    (case report_link userId (ct_safety_issue_id dto) (sp_safety_issues db) of
                       Inl e \<Rightarrow> Inl e
                     | Inr safety \<Rightarrow>
                         Inr \<lparr>ol_booking_id = map_option fst booked, ol_listing_id = listing,
                              ol_report_id = report, ol_safety_issue_id = safety\<rparr>))))"

definition allocateTicketNumber :: "time \<Rightarrow> support_db \<Rightarrow> string \<times> support_db" where
  "allocateTicketNumber now db =
     (let year = year_from_day (now div ms_per_day);
          counter = (case sp_ticket_counters db year of None \<Rightarrow> 1 | Some n \<Rightarrow> n + 1)
      in (''SUP-'' @ int_str year @ ''-'' @ pad_start 6 (CHR ''0'') (nat_str counter),
          db\<lparr>sp_ticket_counters := (sp_ticket_counters db)(year \<mapsto> counter)\<rparr>))"

definition support_conversation :: "uuid \<Rightarrow> uuid \<Rightarrow> ticket_party \<Rightarrow> uuid option \<Rightarrow> string \<Rightarrow> string \<Rightarrow> conversation" where
  "support_conversation i userId party listingId subject ticketNumber =
     \<lparr>cv_id = i, cv_booking_id = None, cv_type = ''SUPPORT'', cv_messaging_state = ACTIVE,
      cv_guest_visibility = V_ACTIVE, cv_host_visibility = V_ACTIVE, cv_conversation_version = 1,
      cv_snapshot_version = 1, cv_attachment_version = 1,
      cv_reservation_snapshot =
        [(''listingTitle'', JStr subject), (''listingId'', null_or_str listingId),
         (''bookingReference'', JStr ticketNumber), (''hostDisplayName'', JStr ''Nexa Support''),
         (''checkinDate'', JStr []), (''checkoutDate'', JStr []), (''guestCount'', JNum 0)],
      cv_listing_id = listingId,
      cv_host_user_id = (if party = T_HOST then Some userId else None),
      cv_guest_user_id = (if party = T_GUEST then Some userId else None),
      cv_last_message_id = None, cv_last_message_sequence = 0, cv_last_message_preview = None,
      cv_last_message_at = None,
      cv_guest_last_read_at = None, cv_host_last_read_at = None, cv_guest_last_read_message_id = None,
      cv_host_last_read_message_id = None, cv_unread_guest = 0, cv_unread_host = 0,
      cv_notification_level_guest = N_ALL, cv_notification_level_host = N_ALL,
      cv_blocked_by_guest = False, cv_blocked_by_host = False, cv_locked_at = None,
      cv_read_only_at = None, cv_archived_at = None, cv_post_stay_ends_at = None,
      cv_auto_archive_disabled = False, cv_auto_archive_disabled_reason = None, cv_archive_reason = None\<rparr>"

definition user_meta :: metadata where
  "user_meta = [(''source'', JStr ''USER''), (''schemaVersion'', JNum 1), (''cardVersion'', JNum 1), (''presentationVersion'', JNum 1)]"

record ticket_options =
  to_party :: "ticket_party option"
  to_customer_name :: "string option"
  to_priority :: "ticket_priority option"

definition on_stays :: "(stays_db \<Rightarrow> 'a result \<times> stays_db) \<Rightarrow> support_db \<Rightarrow> 'a result \<times> support_db" where
  "on_stays f db = (case f (sp_stays db) of (r, s) \<Rightarrow> (r, db\<lparr>sp_stays := s\<rparr>))"

definition new_ticket ::
    "uuid \<Rightarrow> uuid \<Rightarrow> time \<Rightarrow> string \<Rightarrow> uuid \<Rightarrow> ticket_party \<Rightarrow> create_ticket_dto \<Rightarrow> ticket_options \<Rightarrow> owned_links
     \<Rightarrow> profile_summary option \<Rightarrow> support_ticket" where
  "new_ticket i conversationId now ticketNumber userId party dto options links identity =
     \<lparr>tk_id = i, tk_ticket_number = ticketNumber, tk_requester_user_id = userId, tk_party = party,
      tk_category = ct_category dto,
      tk_requester_language = canonicalizeRequesterLanguage (case identity of None \<Rightarrow> None | Some p \<Rightarrow> pf_preferred_language p),
      tk_subject = js_trim (ct_subject dto), tk_status = TS_OPEN,
      tk_priority = (case to_priority options of None \<Rightarrow> TP_NORMAL | Some p \<Rightarrow> p), tk_resolution_type = None,
      tk_assigned_admin_id = None, tk_conversation_id = conversationId, tk_booking_id = ol_booking_id links,
      tk_listing_id = ol_listing_id links, tk_report_id = ol_report_id links,
      tk_safety_issue_id = ol_safety_issue_id links, tk_unread_for_support = True,
      tk_last_message_preview = Some (take 200 (js_trim (ct_message dto))),
      tk_customer_name = or_else (trim_or_none (to_customer_name options))
        (given (case identity of None \<Rightarrow> None | Some p \<Rightarrow> pf_full_name p)),
      tk_requester_email = given (case identity of None \<Rightarrow> None | Some p \<Rightarrow> pf_email p),
      tk_resolved_at = None, tk_first_admin_response_at = None, tk_closed_at = None,
      tk_review_agent_id = None, tk_review_agent_name = None, tk_created_at = now, tk_updated_at = now\<rparr>"

definition insert_ticket ::
    "(nat \<Rightarrow> uuid) \<Rightarrow> time \<Rightarrow> uuid \<Rightarrow> ticket_party \<Rightarrow> create_ticket_dto \<Rightarrow> ticket_options \<Rightarrow> owned_links
     \<Rightarrow> profile_summary option \<Rightarrow> support_db \<Rightarrow> support_ticket result \<times> support_db" where
  "insert_ticket gen now userId party dto options links identity db =
     (case allocateTicketNumber now db of (ticketNumber, db1) \<Rightarrow>
        let conv = support_conversation (gen 0) userId party (ol_listing_id links) (js_trim (ct_subject dto)) ticketNumber;
            t = new_ticket (gen 1) (gen 0) now ticketNumber userId party dto options links identity;
            db2 = db1\<lparr>sp_stays := (sp_stays db1)\<lparr>conversations := insert_row conv (conversations (sp_stays db1))\<rparr>,
                      sp_tickets := insert_row t (sp_tickets db1)\<rparr>
        in (case on_stays (insertMessage (gen 2) now conv
                   \<lparr>sd_type = M_TEXT, sd_body = Some (js_trim (ct_message dto)),
                    sd_metadata = user_meta @ [(''supportTicketId'', JStr (tk_id t))] @
                      opt_field ''clientRequestId'' (given (ct_client_request_id dto))\<rparr>
                   (Some userId) (ct_client_request_id dto)
                   (Some (case tk_customer_name t of None \<Rightarrow> ''Customer'' | Some n \<Rightarrow> n))) db2 of
              (Inl e, db3) \<Rightarrow> (Inl e, db3)
            | (Inr _, db3) \<Rightarrow> (Inr t, db3)))"

definition ticket_of_report :: "uuid \<Rightarrow> uuid option \<Rightarrow> (support_ticket \<Rightarrow> uuid option) \<Rightarrow> support_db \<Rightarrow> support_ticket option" where
  "ticket_of_report userId i link db =
     (if truthy i then find_where (\<lambda>t. link t = i \<and> tk_requester_user_id t = userId) (sp_tickets db) else None)"

definition createTicketForUser ::
    "(uuid \<Rightarrow> profile_summary option) \<Rightarrow> (nat \<Rightarrow> uuid) \<Rightarrow> time \<Rightarrow> uuid \<Rightarrow> create_ticket_dto \<Rightarrow> ticket_options \<Rightarrow> support_db
     \<Rightarrow> support_ticket result \<times> support_db" where
  "createTicketForUser profile gen now userId dto options db =
     (case or_else (ticket_of_report userId (ct_report_id dto) tk_report_id db)
                   (ticket_of_report userId (ct_safety_issue_id dto) tk_safety_issue_id db) of
        Some existing \<Rightarrow> (Inr existing, db)
      | None \<Rightarrow>
          let party = (case to_party options of None \<Rightarrow> resolveParty userId db | Some p \<Rightarrow> p)
          in (case resolveOwnedLinks userId party dto db of
                Inl e \<Rightarrow> (Inl e, db)
              | Inr links \<Rightarrow>
                  support_transaction (insert_ticket gen now userId party dto options links (profile userId)) db))"

section \<open>Reports and safety issues\<close>

definition partyFromConversation :: "conversation \<Rightarrow> uuid \<Rightarrow> ticket_party" where
  "partyFromConversation c reporterUserId = (if cv_host_user_id c = Some reporterUserId then T_HOST else T_GUEST)"

record report_input =
  ri_reporter_user_id :: uuid
  ri_text :: "string option"
  ri_category :: "string option"
  ri_booking_id :: "uuid option"
  ri_listing_id :: "uuid option"
  ri_reported_user_id :: "uuid option"

definition report_row :: "uuid \<Rightarrow> uuid \<Rightarrow> report_input \<Rightarrow> trust_report" where
  "report_row i conversationId input =
     \<lparr>rp_id = i, rp_conversation_id = conversationId, rp_reporter_user_id = ri_reporter_user_id input,
      rp_text = trim_or_none (ri_text input), rp_category = ri_category input, rp_status = ''OPEN'',
      rp_booking_id = ri_booking_id input, rp_listing_id = ri_listing_id input,
      rp_reported_user_id = ri_reported_user_id input\<rparr>"

definition createReport :: "uuid \<Rightarrow> uuid \<Rightarrow> report_input \<Rightarrow> support_db \<Rightarrow> trust_report \<times> support_db" where
  "createReport i conversationId input db =
     (let row = (report_row i conversationId input)\<lparr>rp_category := None\<rparr>
      in (row, db\<lparr>sp_reports := insert_row row (sp_reports db)\<rparr>))"

definition createSafetyIssue :: "uuid \<Rightarrow> uuid \<Rightarrow> report_input \<Rightarrow> support_db \<Rightarrow> trust_report \<times> support_db" where
  "createSafetyIssue i conversationId input db =
     (let row = report_row i conversationId input
      in (row, db\<lparr>sp_safety_issues := insert_row row (sp_safety_issues db)\<rparr>))"

definition ensured :: "support_ticket result \<times> support_db \<Rightarrow> support_ticket result \<times> support_db" where
  "ensured created =
     (case created of
        (Inl e, db1) \<Rightarrow> (Inl e, db1)
      | (Inr t, db1) \<Rightarrow>
          (case find_ticket (tk_id t) db1 of
             None \<Rightarrow> (Inl (Server_Error ''Failed to ensure support ticket.''), db1)
           | Some t1 \<Rightarrow> (Inr t1, db1)))"

definition ensureTicketForReport ::
    "(uuid \<Rightarrow> profile_summary option) \<Rightarrow> (nat \<Rightarrow> uuid) \<Rightarrow> time \<Rightarrow> trust_report \<Rightarrow> conversation \<Rightarrow> support_db
     \<Rightarrow> support_ticket result \<times> support_db" where
  "ensureTicketForReport profile gen now report source db =
     (case find_where (\<lambda>t. tk_report_id t = Some (rp_id report)) (sp_tickets db) of
        Some existing \<Rightarrow> (Inr existing, db)
      | None \<Rightarrow>
          let reason = (case trim_or_none (rp_text report) of None \<Rightarrow> ''Conversation reported by customer'' | Some r \<Rightarrow> r)
          in ensured (createTicketForUser profile gen now (rp_reporter_user_id report)
               \<lparr>ct_category = TC_OTHER, ct_subject = take 120 reason, ct_message = reason,
                ct_booking_id = given (cv_booking_id source), ct_listing_id = given (cv_listing_id source),
                ct_report_id = Some (rp_id report), ct_safety_issue_id = None, ct_client_request_id = None\<rparr>
               \<lparr>to_party = Some (partyFromConversation source (rp_reporter_user_id report)),
                to_customer_name = None, to_priority = None\<rparr> db))"

definition ensureTicketForSafetyIssue ::
    "(uuid \<Rightarrow> profile_summary option) \<Rightarrow> (nat \<Rightarrow> uuid) \<Rightarrow> time \<Rightarrow> trust_report \<Rightarrow> conversation \<Rightarrow> support_db
     \<Rightarrow> support_ticket result \<times> support_db" where
  "ensureTicketForSafetyIssue profile gen now safety source db =
     (case find_where (\<lambda>t. tk_safety_issue_id t = Some (rp_id safety)) (sp_tickets db) of
        Some existing \<Rightarrow> (Inr existing, db)
      | None \<Rightarrow>
          let category = (case rp_category safety of None \<Rightarrow> [] | Some c \<Rightarrow> c);
              message = ''['' @ category @ ''] '' @
                (case trim_or_none (rp_text safety) of None \<Rightarrow> ''Safety issue reported'' | Some d \<Rightarrow> d)
          in ensured (createTicketForUser profile gen now (rp_reporter_user_id safety)
               \<lparr>ct_category = TC_FRAUD, ct_subject = take 120 message, ct_message = message,
                ct_booking_id = given (cv_booking_id source), ct_listing_id = given (cv_listing_id source),
                ct_report_id = None, ct_safety_issue_id = Some (rp_id safety), ct_client_request_id = None\<rparr>
               \<lparr>to_party = Some (partyFromConversation source (rp_reporter_user_id safety)),
                to_customer_name = None, to_priority = Some TP_HIGH\<rparr> db))"

definition provisionReportWithTicket ::
    "(uuid \<Rightarrow> profile_summary option) \<Rightarrow> (nat \<Rightarrow> uuid) \<Rightarrow> time \<Rightarrow> report_input \<Rightarrow> conversation \<Rightarrow> support_db
     \<Rightarrow> (trust_report \<times> support_ticket) result \<times> support_db" where
  "provisionReportWithTicket profile gen now input source =
     support_transaction (\<lambda>db. case createReport (gen 3) (cv_id source) input db of
       (report, db1) \<Rightarrow> (case ensureTicketForReport profile gen now report source db1 of
           (Inl e, db2) \<Rightarrow> (Inl e, db2)
         | (Inr t, db2) \<Rightarrow> (Inr (report, t), db2)))"

definition provisionSafetyIssueWithTicket ::
    "(uuid \<Rightarrow> profile_summary option) \<Rightarrow> (nat \<Rightarrow> uuid) \<Rightarrow> time \<Rightarrow> report_input \<Rightarrow> conversation \<Rightarrow> support_db
     \<Rightarrow> (trust_report \<times> support_ticket) result \<times> support_db" where
  "provisionSafetyIssueWithTicket profile gen now input source =
     support_transaction (\<lambda>db. case createSafetyIssue (gen 3) (cv_id source) input db of
       (safety, db1) \<Rightarrow> (case ensureTicketForSafetyIssue profile gen now safety source db1 of
           (Inl e, db2) \<Rightarrow> (Inl e, db2)
         | (Inr t, db2) \<Rightarrow> (Inr (safety, t), db2)))"

section \<open>What agents change\<close>

text \<open>\<open>None\<close> is a property the patch leaves out, \<open>Some None\<close> one it sets to null.\<close>

record ticket_patch =
  pt_status :: "ticket_status option"
  pt_priority :: "ticket_priority option"
  pt_assigned_admin_id :: "uuid option option"
  pt_resolution_type :: "string option option"

definition assertEligibleAssignee :: "(uuid \<Rightarrow> agent_authz option) \<Rightarrow> uuid \<Rightarrow> unit result" where
  "assertEligibleAssignee authz userId =
     (case authz userId of
        None \<Rightarrow> Inl (Not_Found ''Admin user not found'')
      | Some a \<Rightarrow>
          if ga_account_type a \<noteq> ''ADMIN'' \<or> ga_staff_role a \<noteq> ''SUPPORT_AGENT'' \<or> ga_status a \<noteq> ''ACTIVE''
          then Inl (Unprocessable_Err ''Support agent is not eligible for assignment'') else Inr ())"

definition close_ticket :: "(uuid \<Rightarrow> profile_summary option) \<Rightarrow> time \<Rightarrow> support_ticket \<Rightarrow> support_ticket" where
  "close_ticket profile now t =
     (let firstClose = (tk_closed_at t = None);
          t1 = t\<lparr>tk_closed_at := or_else (tk_closed_at t) (Some now), tk_resolved_at := or_else (tk_resolved_at t) (Some now)\<rparr>
      in if firstClose \<and> tk_review_agent_id t = None
         then let t2 = t1\<lparr>tk_review_agent_id := tk_assigned_admin_id t\<rparr>
              in if truthy (tk_assigned_admin_id t)
                 then t2\<lparr>tk_review_agent_name :=
                   or_else (trim_or_none (case profile (the (tk_assigned_admin_id t)) of None \<Rightarrow> None | Some p \<Rightarrow> pf_full_name p))
                     (given (tk_review_agent_name t))\<rparr>
                 else t2
         else t1)"

definition archive_conversation :: "time \<Rightarrow> uuid \<Rightarrow> stays_db \<Rightarrow> stays_db" where
  "archive_conversation now i db =
     (case find_conversation i db of
        None \<Rightarrow> db
      | Some c \<Rightarrow>
          if cv_messaging_state c = ARCHIVED then db
          else update_conversation i (\<lambda>_. c\<lparr>cv_messaging_state := ARCHIVED,
                 cv_archived_at := or_else (cv_archived_at c) (Some now), cv_read_only_at := or_else (cv_read_only_at c) (Some now),
                 cv_archive_reason := Some ''SUPPORT'', cv_conversation_version := cv_conversation_version c + 1\<rparr>) db)"

definition set_status :: "(uuid \<Rightarrow> profile_summary option) \<Rightarrow> time \<Rightarrow> ticket_status option \<Rightarrow> support_ticket \<Rightarrow> support_ticket" where
  "set_status profile now status t =
     (case status of
        None \<Rightarrow> t
      | Some TS_RESOLVED \<Rightarrow> t\<lparr>tk_status := TS_RESOLVED, tk_resolved_at := or_else (tk_resolved_at t) (Some now)\<rparr>
      | Some TS_CLOSED \<Rightarrow> close_ticket profile now (t\<lparr>tk_status := TS_CLOSED\<rparr>)
      | Some st \<Rightarrow> t\<lparr>tk_status := st\<rparr>)"

definition patch_ticket :: "(uuid \<Rightarrow> profile_summary option) \<Rightarrow> time \<Rightarrow> ticket_patch \<Rightarrow> support_ticket \<Rightarrow> support_ticket" where
  "patch_ticket profile now patch t =
     (let t1 = (case pt_assigned_admin_id patch of None \<Rightarrow> t | Some a \<Rightarrow> t\<lparr>tk_assigned_admin_id := a\<rparr>);
          t2 = set_status profile now (pt_status patch) t1;
          t3 = (case pt_priority patch of None \<Rightarrow> t2 | Some p \<Rightarrow> t2\<lparr>tk_priority := p\<rparr>);
          t4 = (case pt_resolution_type patch of None \<Rightarrow> t3 | Some r \<Rightarrow> t3\<lparr>tk_resolution_type := r\<rparr>)
      in t4\<lparr>tk_updated_at := now\<rparr>)"

definition patch_body ::
    "(uuid \<Rightarrow> profile_summary option) \<Rightarrow> time \<Rightarrow> uuid \<Rightarrow> ticket_patch \<Rightarrow> staff_actor \<Rightarrow> support_db
     \<Rightarrow> (support_ticket \<times> support_ticket) result \<times> support_db" where
  "patch_body profile now ticketId patch actor db =
     (case assertCanAccessTicket (find_ticket ticketId db) actor of
        Inl e \<Rightarrow> (Inl e, db)
      | Inr locked \<Rightarrow>
          if ac_role actor = Staff_Agent \<and> pt_assigned_admin_id patch \<noteq> None
          then (Inl (Forbidden_Err ''Support agents cannot change ticket assignment''), db)
          else if ac_role actor = Staff_Agent \<and> pt_priority patch \<noteq> None
          then (Inl (Forbidden_Err ''Support agents cannot change ticket priority''), db)
          else if tk_status locked = TS_CLOSED \<and> pt_status patch \<notin> {None, Some TS_CLOSED}
          then (Inl (Conflict_Err TICKET_MUST_BE_REOPENED_MESSAGE), db)
          else let saved = patch_ticket profile now patch locked;
                   firstClose = (pt_status patch = Some TS_CLOSED \<and> tk_closed_at locked = None);
                   db1 = (if firstClose \<and> tk_conversation_id locked \<noteq> []
                          then db\<lparr>sp_stays := archive_conversation now (tk_conversation_id locked) (sp_stays db)\<rparr> else db)
               in (Inr (locked, saved), save_ticket saved db1))"

fun status_name :: "ticket_status \<Rightarrow> string" where
  "status_name TS_OPEN = ''OPEN''"
| "status_name TS_IN_PROGRESS = ''IN_PROGRESS''"
| "status_name TS_WAITING_FOR_CUSTOMER = ''WAITING_FOR_CUSTOMER''"
| "status_name TS_WAITING_FOR_HOST = ''WAITING_FOR_HOST''"
| "status_name TS_ESCALATED = ''ESCALATED''"
| "status_name TS_RESOLVED = ''RESOLVED''"
| "status_name TS_CLOSED = ''CLOSED''"

text \<open>The audit rows after the transaction, one for each thing the patch changed.\<close>

definition patch_audits :: "time \<Rightarrow> uuid \<Rightarrow> ticket_patch \<Rightarrow> support_ticket \<Rightarrow> support_ticket \<Rightarrow> support_db \<Rightarrow> support_db" where
  "patch_audits now auditUserId patch before saved db =
     (let log = (\<lambda>action meta. support_audit now auditUserId ''ADMIN'' ''support_ticket'' (tk_id saved) action meta);
          db1 = (if pt_assigned_admin_id patch \<noteq> None
                 then log ''support_ticket_assigned'' [(''fromAdminId'', null_or_str (tk_assigned_admin_id before)),
                   (''toAdminId'', null_or_str (tk_assigned_admin_id saved))] db else db);
          db2 = (if pt_status patch \<notin> {None, Some (tk_status before)}
                 then log ''ticket_status_changed'' [(''from'', JStr (status_name (tk_status before))),
                   (''to'', JStr (status_name (tk_status saved)))] db1 else db1);
          db3 = (if pt_priority patch \<notin> {None, Some (tk_priority before)}
                 then log ''ticket_priority_changed'' [(''from'', JStr (priority_name (tk_priority before))),
                   (''to'', JStr (priority_name (tk_priority saved)))] db2 else db2)
      in if pt_resolution_type patch \<notin> {None, Some (tk_resolution_type before)}
         then log ''support_ticket_resolution_changed'' [(''previousResolutionType'', null_or_str (tk_resolution_type before)),
           (''newResolutionType'', null_or_str (tk_resolution_type saved))] db3 else db3)"

definition patchForAdmin ::
    "(uuid \<Rightarrow> agent_authz option) \<Rightarrow> (uuid \<Rightarrow> profile_summary option) \<Rightarrow> time \<Rightarrow> uuid \<Rightarrow> ticket_patch \<Rightarrow> uuid \<Rightarrow> staff_actor
     \<Rightarrow> support_db \<Rightarrow> support_ticket result \<times> support_db" where
  "patchForAdmin authz profile now ticketId patch auditUserId actor db =
     (case (case pt_assigned_admin_id patch of
              Some (Some a) \<Rightarrow> if a = [] then Inr () else assertEligibleAssignee authz a
            | _ \<Rightarrow> Inr ()) of
        Inl e \<Rightarrow> (Inl e, db)
      | Inr _ \<Rightarrow>
          (case support_transaction (patch_body profile now ticketId patch actor) db of
             (Inl e, db1) \<Rightarrow> (Inl e, db1)
           | (Inr (before, saved), db1) \<Rightarrow> (Inr saved, patch_audits now auditUserId patch before saved db1)))"

definition reopen_body :: "time \<Rightarrow> uuid \<Rightarrow> support_db \<Rightarrow> (support_ticket \<times> support_ticket) result \<times> support_db" where
  "reopen_body now ticketId db =
     (case find_ticket ticketId db of
        None \<Rightarrow> (Inl no_ticket, db)
      | Some locked \<Rightarrow>
          if tk_status locked \<noteq> TS_CLOSED then (Inl (Conflict_Err TICKET_IS_NOT_CLOSED_MESSAGE), db)
          else let saved = locked\<lparr>tk_status := (if truthy (tk_assigned_admin_id locked) then TS_IN_PROGRESS else TS_OPEN),
                             tk_closed_at := None, tk_updated_at := now\<rparr>;
                   db1 = save_ticket saved db
               in (Inr (locked, saved),
                   if tk_conversation_id locked = [] then db1
                   else db1\<lparr>sp_stays := update_conversation (tk_conversation_id locked)
                     (\<lambda>c. c\<lparr>cv_messaging_state := ACTIVE, cv_archived_at := None, cv_read_only_at := None,
                            cv_archive_reason := None, cv_conversation_version := cv_conversation_version c + 1\<rparr>) (sp_stays db1)\<rparr>))"

definition reopenForAdmin :: "time \<Rightarrow> uuid \<Rightarrow> uuid \<Rightarrow> string \<Rightarrow> staff_actor \<Rightarrow> support_db \<Rightarrow> support_ticket result \<times> support_db" where
  "reopenForAdmin now ticketId actorUserId reason actor db =
     (if ac_role actor = Staff_Agent then (Inl (Forbidden_Err ''Support agents cannot reopen tickets''), db)
      else (case support_transaction (reopen_body now ticketId) db of
              (Inl e, db1) \<Rightarrow> (Inl e, db1)
            | (Inr (before, saved), db1) \<Rightarrow>
                (Inr saved, support_audit now actorUserId ''ADMIN'' ''support_ticket'' (tk_id saved) ''support_ticket_reopened''
                  [(''reason'', JStr reason), (''previousStatus'', JStr (status_name (tk_status before))),
                   (''previousAgentId'', null_or_str (tk_assigned_admin_id before)), (''reopenedBy'', JStr ''ADMIN'')] db1)))"

section \<open>Replies, notes and ratings\<close>

definition update_ticket :: "uuid \<Rightarrow> (support_ticket \<Rightarrow> support_ticket) \<Rightarrow> support_db \<Rightarrow> support_db" where
  "update_ticket i f db = db\<lparr>sp_tickets := update_where (\<lambda>t. tk_id t = i) f (sp_tickets db)\<rparr>"

definition admin_reply_meta :: "uuid \<Rightarrow> metadata" where
  "admin_reply_meta ticketId =
     [(''source'', JStr ''SUPPORT_AGENT''), (''schemaVersion'', JNum 1), (''cardVersion'', JNum 1),
      (''presentationVersion'', JNum 1), (''supportTicketId'', JStr ticketId)]"

definition after_reply :: "time \<Rightarrow> uuid \<Rightarrow> string \<Rightarrow> support_ticket \<Rightarrow> support_ticket \<Rightarrow> support_ticket" where
  "after_reply now adminUserId trimmed locked t =
     t\<lparr>tk_unread_for_support := False, tk_last_message_preview := Some (take 200 trimmed),
       tk_assigned_admin_id := or_else (tk_assigned_admin_id locked) (Some adminUserId),
       tk_status := (if tk_status locked = TS_OPEN \<or> tk_status locked = TS_WAITING_FOR_CUSTOMER
                     then TS_IN_PROGRESS else tk_status locked),
       tk_first_admin_response_at := or_else (tk_first_admin_response_at locked) (Some now),
       tk_updated_at := now\<rparr>"

definition send_body ::
    "uuid \<Rightarrow> time \<Rightarrow> uuid \<Rightarrow> uuid \<Rightarrow> string \<Rightarrow> staff_actor \<Rightarrow> support_db
     \<Rightarrow> (message \<times> support_ticket \<times> conversation) result \<times> support_db" where
  "send_body new_id now ticketId adminUserId trimmed actor db =
     (case assertCanAccessTicket (find_ticket ticketId db) actor of
        Inl e \<Rightarrow> (Inl e, db)
      | Inr t \<Rightarrow>
          if tk_status t = TS_CLOSED then (Inl (Conflict_Err CLOSED_SUPPORT_TICKET_MESSAGE), db)
          else (case find_conversation (tk_conversation_id t) (sp_stays db) of
                  None \<Rightarrow> (Inl no_ticket, db)
                | Some conv \<Rightarrow>
                    (case on_stays (insertMessage new_id now conv
                            \<lparr>sd_type = M_TEXT, sd_body = Some trimmed, sd_metadata = admin_reply_meta (tk_id t)\<rparr>
                            (Some adminUserId) None (Some ''Support'')) db of
                       (Inl e, db1) \<Rightarrow> (Inl e, db1)
                     | (Inr m, db1) \<Rightarrow>
                         (Inr (m, t, conv),
                          update_ticket (tk_id t) (after_reply now adminUserId trimmed t)
                            (db1\<lparr>sp_stays := update_conversation (cv_id conv)
                              (\<lambda>c. if tk_party t = T_GUEST then c\<lparr>cv_unread_guest := cv_unread_guest conv + 1\<rparr>
                                   else c\<lparr>cv_unread_host := cv_unread_host conv + 1\<rparr>) (sp_stays db1)\<rparr>)))))"

definition sendAdminMessage ::
    "(nat \<Rightarrow> uuid) \<Rightarrow> time \<Rightarrow> uuid \<Rightarrow> uuid \<Rightarrow> string \<Rightarrow> staff_actor \<Rightarrow> support_db \<Rightarrow> message result \<times> support_db" where
  "sendAdminMessage gen now ticketId adminUserId body actor db =
     (let trimmed = js_trim body
      in if trimmed = [] then (Inl (Bad_Request ''Message body required''), db)
         else (case support_transaction (send_body (gen 0) now ticketId adminUserId trimmed actor) db of
                 (Inl e, db1) \<Rightarrow> (Inl e, db1)
               | (Inr (m, t, conv), db1) \<Rightarrow>
                   (Inr m,
                    if tk_requester_user_id t = [] then db1
                    else db1\<lparr>sp_stays := enqueueDirect (gen 1) now ''EVENTS.MESSAGE_RECEIVED''
                      [(''messageId'', JStr (mg_id m)), (''conversationId'', JStr (cv_id conv)),
                       (''recipientUserId'', JStr (tk_requester_user_id t)), (''senderUserId'', JStr adminUserId),
                       (''senderName'', JStr ''Support''), (''preview'', JStr (take 120 trimmed)),
                       (''bookingId'', null_or_str (cv_booking_id conv)),
                       (''conversationVersion'', JNum (of_int (cv_conversation_version conv + 1))),
                       (''lastMessageId'', JStr (mg_id m)),
                       (''lastMessageSequence'', JNum (of_int (mg_conversation_sequence m))),
                       (''listingTitle'', JStr [])] (sp_stays db1)\<rparr>)))"

definition lockTicketForCustomerSend :: "uuid \<Rightarrow> support_db \<Rightarrow> support_ticket option result" where
  "lockTicketForCustomerSend conversationId db =
     (case find_where (\<lambda>t. tk_conversation_id t = conversationId) (sp_tickets db) of
        None \<Rightarrow> Inr None
      | Some t \<Rightarrow> if tk_status t = TS_CLOSED then Inl (Conflict_Err CLOSED_SUPPORT_TICKET_MESSAGE) else Inr (Some t))"

definition applyCustomerSupportMessageEffects :: "time \<Rightarrow> support_ticket \<Rightarrow> string \<Rightarrow> support_db \<Rightarrow> support_db" where
  "applyCustomerSupportMessageEffects now ticket preview =
     update_ticket (tk_id ticket)
       (\<lambda>t. t\<lparr>tk_unread_for_support := True, tk_last_message_preview := Some (take 200 preview),
              tk_status := nextStatusAfterCustomerMessage (tk_status ticket) (tk_party ticket), tk_updated_at := now\<rparr>)"

definition createNoteForAdmin ::
    "uuid \<Rightarrow> time \<Rightarrow> uuid \<Rightarrow> uuid \<Rightarrow> string \<Rightarrow> staff_actor \<Rightarrow> support_db \<Rightarrow> support_note result \<times> support_db" where
  "createNoteForAdmin new_id now ticketId authorAdminId body actor db =
     (let trimmed = js_trim body
      in if trimmed = [] then (Inl (Bad_Request ''Note body required''), db)
         else if length trimmed > 5000 then (Inl (Bad_Request ''Note body too long''), db)
         else (case assertCanAccessTicket (find_ticket ticketId db) actor of
                 Inl e \<Rightarrow> (Inl e, db)
               | Inr _ \<Rightarrow>
                   let note = \<lparr>nt_id = new_id, nt_ticket_id = ticketId, nt_author_admin_id = authorAdminId, nt_body = trimmed\<rparr>
                   in (Inr note, support_audit now authorAdminId ''ADMIN'' ''support_ticket'' ticketId ''support_ticket_note_added''
                         [(''ticketId'', JStr ticketId), (''noteId'', JStr new_id)]
                         (db\<lparr>sp_notes := insert_row note (sp_notes db)\<rparr>))))"

text \<open>\<^verbatim>\<open>Math.round(Number(raw) * 2) / 2\<close> must be one of 0.5, 1, ..., 5; \<open>None\<close> is not a number.\<close>

definition parseCsatRating :: "rat option \<Rightarrow> string \<Rightarrow> rat result" where
  "parseCsatRating raw label =
     (case raw of
        None \<Rightarrow> Inl (Bad_Request (label @ '' must be in 0.5 increments from 0.5 to 5''))
      | Some r \<Rightarrow>
          let n = js_div (of_int (math_round (js_mul r 2))) 2
          in if n \<in> set [1 / 2, 1, 3 / 2, 2, 5 / 2, 3, 7 / 2, 4, 9 / 2, 5] then Inr n
             else Inl (Bad_Request (label @ '' must be in 0.5 increments from 0.5 to 5'')))"

record csat_input =
  ci_rating :: "rat option"
  ci_comment :: "string option"
  ci_agent_rating :: "rat option"
  ci_problem_solved :: bool

definition submitCsatForUser :: "uuid \<Rightarrow> uuid \<Rightarrow> csat_input \<Rightarrow> support_db \<Rightarrow> support_csat result \<times> support_db" where
  "submitCsatForUser userId ticketId input db =
     (case parseCsatRating (ci_rating input) ''Rating'' of
        Inl e \<Rightarrow> (Inl e, db)
      | Inr rating \<Rightarrow>
          let comment = trim_or_none (ci_comment input)
          in if (case comment of None \<Rightarrow> False | Some c \<Rightarrow> length c > 2000)
             then (Inl (Bad_Request ''Comment too long''), db)
             else (case find_where (\<lambda>t. tk_id t = ticketId \<and> tk_requester_user_id t = userId) (sp_tickets db) of
               None \<Rightarrow> (Inl no_ticket, db)
             | Some t \<Rightarrow>
                 if tk_status t \<noteq> TS_CLOSED then (Inl (Conflict_Err ''Ticket is not closed''), db)
                 else (case (if truthy (tk_review_agent_id t)
                             then map_sum id Some (parseCsatRating (ci_agent_rating input) ''Agent rating'')
                             else if ci_agent_rating input \<noteq> None
                             then Inl (Bad_Request ''Agent rating is not available for this ticket'')
                             else Inr None) of
                   Inl e \<Rightarrow> (Inl e, db)
                 | Inr agentRating \<Rightarrow>
                     if find_where (\<lambda>c. cs_ticket_id c = ticketId) (sp_csats db) \<noteq> None
                     then (Inl (Conflict_Err ''CSAT already submitted for this ticket''), db)
                     else let row = \<lparr>cs_ticket_id = ticketId, cs_rating = rating, cs_comment = comment,
                                     cs_agent_id = tk_review_agent_id t, cs_agent_rating = agentRating,
                                     cs_problem_solved = ci_problem_solved input\<rparr>
                          in (Inr row, db\<lparr>sp_csats := insert_row row (sp_csats db)\<rparr>))))"

text \<open>\<^verbatim>\<open>getCsatForUser\<close>: whether there is a rating and whether one may be given.\<close>

definition getCsatForUser :: "uuid \<Rightarrow> uuid \<Rightarrow> support_db \<Rightarrow> (support_csat option \<times> bool) result" where
  "getCsatForUser userId ticketId db =
     (case find_where (\<lambda>t. tk_id t = ticketId \<and> tk_requester_user_id t = userId) (sp_tickets db) of
        None \<Rightarrow> Inl no_ticket
      | Some t \<Rightarrow>
          let row = find_where (\<lambda>c. cs_ticket_id c = ticketId) (sp_csats db)
          in Inr (row, tk_status t = TS_CLOSED \<and> row = None))"

section \<open>The outcome of a report\<close>

definition update_report :: "bool \<Rightarrow> uuid \<Rightarrow> string \<Rightarrow> support_db \<Rightarrow> support_db" where
  "update_report safety i status db =
     (if safety
      then db\<lparr>sp_safety_issues := update_where (\<lambda>r. rp_id r = i) (\<lambda>r. r\<lparr>rp_status := status\<rparr>) (sp_safety_issues db)\<rparr>
      else db\<lparr>sp_reports := update_where (\<lambda>r. rp_id r = i) (\<lambda>r. r\<lparr>rp_status := status\<rparr>) (sp_reports db)\<rparr>)"

definition ticket_about :: "bool \<Rightarrow> uuid \<Rightarrow> support_db \<Rightarrow> support_ticket option" where
  "ticket_about safety i db =
     find_where (\<lambda>t. (if safety then tk_safety_issue_id t else tk_report_id t) = Some i) (sp_tickets db)"

definition escalate_body ::
    "(uuid \<Rightarrow> profile_summary option) \<Rightarrow> (nat \<Rightarrow> uuid) \<Rightarrow> time \<Rightarrow> bool \<Rightarrow> trust_report \<Rightarrow> support_db
     \<Rightarrow> support_ticket result \<times> support_db" where
  "escalate_body profile gen now safety row db =
     (case (case ticket_about safety (rp_id row) db of
              Some t \<Rightarrow> (Inr t, db)
            | None \<Rightarrow>
                (case find_conversation (rp_conversation_id row) (sp_stays db) of
                   None \<Rightarrow> (Inl (Server_Error ''Failed to ensure support ticket.''), db)
                 | Some conv \<Rightarrow>
                     if safety then ensureTicketForSafetyIssue profile gen now row conv db
                     else ensureTicketForReport profile gen now row conv db)) of
        (Inl e, db1) \<Rightarrow> (Inl e, db1)
      | (Inr t, db1) \<Rightarrow>
          let db2 = (if tk_priority t = TP_URGENT then db1
                     else update_ticket (tk_id t) (\<lambda>x. x\<lparr>tk_priority := TP_HIGH, tk_updated_at := now\<rparr>) db1)
          in (Inr t, update_report safety (rp_id row) ''ESCALATED'' db2))"

definition applyTrustStatus ::
    "(uuid \<Rightarrow> profile_summary option) \<Rightarrow> (nat \<Rightarrow> uuid) \<Rightarrow> time \<Rightarrow> bool \<Rightarrow> trust_report \<Rightarrow> string \<Rightarrow> uuid \<Rightarrow> support_db
     \<Rightarrow> unit result \<times> support_db" where
  "applyTrustStatus profile gen now safety row status actorUserId db =
     (let log = (\<lambda>ticketId. support_audit now actorUserId ''ADMIN'' (if safety then ''safety_issue'' else ''conversation_report'')
                  (rp_id row) ''status_changed''
                  [(''from'', JStr (rp_status row)), (''to'', JStr status), (''ticketId'', null_or_str ticketId)])
      in if status \<noteq> ''ESCALATED''
         then (Inr (), log (map_option tk_id (ticket_about safety (rp_id row) db)) (update_report safety (rp_id row) status db))
         else (case support_transaction (escalate_body profile gen now safety row) db of
                 (Inl e, db1) \<Rightarrow> (Inl e, db1)
               | (Inr t, db1) \<Rightarrow> (Inr (), log (Some (tk_id t)) db1)))"

definition patchReportForAdmin ::
    "(uuid \<Rightarrow> profile_summary option) \<Rightarrow> (nat \<Rightarrow> uuid) \<Rightarrow> time \<Rightarrow> uuid \<Rightarrow> bool \<Rightarrow> string \<Rightarrow> uuid \<Rightarrow> support_db
     \<Rightarrow> unit result \<times> support_db" where
  "patchReportForAdmin profile gen now i safety status actorUserId db =
     (case find_where (\<lambda>r. rp_id r = i) (if safety then sp_safety_issues db else sp_reports db) of
        None \<Rightarrow> (Inl (Not_Found ''Report not found''), db)
      | Some row \<Rightarrow> applyTrustStatus profile gen now safety row status actorUserId db)"

end
