(* ===== verification/Messages.thy ===== *)
theory Messages
  imports MessagingState SupportTickets
begin

text \<open>
  \<^verbatim>\<open>messaging/messages.service.ts\<close>: reading a conversation page by page, sending text and marking as read.
  A handler that reads before its transaction is two definitions, so that other requests can come in between.
  The identity service's names are the parameter \<open>identity\<close>. Pushes to connected clients, the shape of the
  answer (\<^verbatim>\<open>toDto\<close>) and messages with attachments are not part of the model.
\<close>

section \<open>Access\<close>

definition no_conversation :: http_error where
  "no_conversation = Not_Found ''Conversation not found''"

definition getParticipantConversation :: "uuid \<Rightarrow> uuid \<Rightarrow> stays_db \<Rightarrow> conversation result" where
  "getParticipantConversation conversationId userId db =
     (case find_conversation conversationId db of
        None \<Rightarrow> Inl no_conversation
      | Some conv \<Rightarrow> if isParticipant conv userId False then Inr conv else Inl no_conversation)"

section \<open>Reading\<close>

definition shown_messages :: "conversation \<Rightarrow> stays_db \<Rightarrow> message list" where
  "shown_messages conv db =
     filter (\<lambda>m. mg_conversation_id m = cv_id conv \<and> mg_type m \<noteq> M_SYSTEM_INTERNAL \<and> mg_deleted_at m = None) (messages db)"

definition newest_first :: "message list \<Rightarrow> message list" where
  "newest_first = order_by (by_key (>) mg_conversation_sequence)"

definition page_take :: "int \<Rightarrow> nat" where
  "page_take limit = nat (min (max limit 1) 50)"

definition message_rows :: "conversation \<Rightarrow> int \<Rightarrow> int option \<Rightarrow> stays_db \<Rightarrow> message list" where
  "message_rows conv limit beforeSequence db =
     fetch (\<lambda>sq m. mg_conversation_sequence m < sq) (page_take limit) beforeSequence (newest_first (shown_messages conv db))"

definition mark_delivered :: "time \<Rightarrow> uuid \<Rightarrow> message list \<Rightarrow> stays_db \<Rightarrow> stays_db" where
  "mark_delivered now userId slice db =
     (let unreadFromOther = filter (\<lambda>m. truthy (mg_sender_id m) \<and> mg_sender_id m \<noteq> Some userId \<and> mg_status m \<noteq> S_READ) slice
      in db\<lparr>messages := update_where (\<lambda>m. mg_id m \<in> mg_id ` set unreadFromOther \<and> mg_status m = S_PERSISTED)
              (\<lambda>m. m\<lparr>mg_status := S_DELIVERED, mg_delivered_at := Some now\<rparr>) (messages db)\<rparr>)"

definition listMessages ::
    "time \<Rightarrow> uuid \<Rightarrow> uuid \<Rightarrow> int \<Rightarrow> int option \<Rightarrow> stays_db \<Rightarrow> (message list \<times> bool) result \<times> stays_db" where
  "listMessages now conversationId userId limit beforeSequence db =
     (case getParticipantConversation conversationId userId db of
        Inl e \<Rightarrow> (Inl e, db)
      | Inr conv \<Rightarrow>
          let rows = message_rows conv limit beforeSequence db;
              hasMore = (length rows > page_take limit);
              slice = rev (if hasMore then take (page_take limit) rows else rows)
          in (Inr (slice, hasMore), mark_delivered now userId slice db))"

section \<open>Sending\<close>

definition guest_sender_name :: "(uuid \<Rightarrow> string option) \<Rightarrow> conversation \<Rightarrow> uuid \<Rightarrow> stays_db \<Rightarrow> string" where
  "guest_sender_name identity conv userId db =
     (if \<not> truthy (cv_booking_id conv) then ''Guest''
      else (case resolveGuestDisplayName identity (the (cv_booking_id conv)) (Some userId) db of
              None \<Rightarrow> ''Guest'' | Some n \<Rightarrow> n))"

definition resolveSenderDisplayName :: "(uuid \<Rightarrow> string option) \<Rightarrow> conversation \<Rightarrow> uuid \<Rightarrow> stays_db \<Rightarrow> string" where
  "resolveSenderDisplayName identity conv userId db =
     (if cv_guest_user_id conv = Some userId then guest_sender_name identity conv userId db
      else if truthy (cv_host_user_id conv)
      then (case resolveHostDisplayName identity (the (cv_host_user_id conv)) db of None \<Rightarrow> ''Host'' | Some n \<Rightarrow> n)
      else ''Host'')"

definition prepareCustomerSupportSend :: "conversation \<Rightarrow> uuid \<Rightarrow> support_db \<Rightarrow> support_ticket option result" where
  "prepareCustomerSupportSend conv senderUserId db =
     (if cv_type conv \<noteq> ''SUPPORT'' then Inr None
      else if cv_guest_user_id conv = Some senderUserId \<or> cv_host_user_id conv = Some senderUserId
      then lockTicketForCustomerSend (cv_id conv) db
      else Inr None)"

text \<open>The name of the sender in the event is computed by the same expression as the display name.\<close>

definition enqueueDeliveryEvents ::
    "(uuid \<Rightarrow> string option) \<Rightarrow> (nat \<Rightarrow> uuid) \<Rightarrow> time \<Rightarrow> conversation \<Rightarrow> message \<Rightarrow> uuid \<Rightarrow> string \<Rightarrow> stays_db \<Rightarrow> stays_db" where
  "enqueueDeliveryEvents identity gen now conv m userId preview db =
     (let refreshed = find_conversation (cv_id conv) db;
          from_guest = (cv_guest_user_id conv = Some userId);
          recipientId = (if from_guest then cv_host_user_id conv else cv_guest_user_id conv);
          version = (case refreshed of None \<Rightarrow> cv_conversation_version conv + 1 | Some c \<Rightarrow> cv_conversation_version c);
          db1 = (if truthy recipientId
                 then enqueue (gen 1) now ''EVENTS.MESSAGE_RECEIVED''
                   [(''messageId'', JStr (mg_id m)), (''conversationId'', JStr (cv_id conv)),
                    (''recipientUserId'', null_or_str recipientId), (''senderUserId'', JStr userId),
                    (''senderName'', JStr (resolveSenderDisplayName identity conv userId db)),
                    (''preview'', JStr (take 120 preview)), (''bookingId'', null_or_str (cv_booking_id conv)),
                    (''conversationVersion'', JNum (of_int version)), (''lastMessageId'', JStr (mg_id m)),
                    (''lastMessageSequence'', JNum (of_int (mg_conversation_sequence m))),
                    (''listingTitle'', JStr (case json_string (map_of (cv_reservation_snapshot conv) ''listingTitle'') of
                       None \<Rightarrow> [] | Some s \<Rightarrow> s))] db
                 else db);
          db2 = enqueue (gen 2) now ''EVENTS.MESSAGE_SENT''
            [(''messageId'', JStr (mg_id m)), (''conversationId'', JStr (cv_id conv)), (''senderUserId'', JStr userId)] db1
      in update_conversation (cv_id conv)
           (\<lambda>c. if from_guest then (if cv_host_visibility c = V_ARCHIVED then c\<lparr>cv_host_visibility := V_ACTIVE\<rparr> else c)
                else (if cv_guest_visibility c = V_ARCHIVED then c\<lparr>cv_guest_visibility := V_ACTIVE\<rparr> else c)) db2)"

definition text_meta :: metadata where
  "text_meta = [(''source'', JStr ''USER''), (''schemaVersion'', JNum 1), (''cardVersion'', JNum 1), (''presentationVersion'', JNum 1)]"

text \<open>\<open>send_check\<close> is what \<^verbatim>\<open>sendText\<close> reads first: the conversation, and the message a retry finds.\<close>

definition send_check :: "uuid \<Rightarrow> uuid \<Rightarrow> string \<Rightarrow> uuid option \<Rightarrow> stays_db \<Rightarrow> (conversation \<times> message option) result" where
  "send_check conversationId userId trimmed clientMessageId db =
     (if trimmed = [] then Inl (Bad_Request ''Message body required'')
      else if length trimmed > 2000 then Inl (Bad_Request ''Message too long'')
      else (case getParticipantConversation conversationId userId db of
              Inl e \<Rightarrow> Inl e
            | Inr conv \<Rightarrow>
                if \<not> canSend (resolve conv userId False False) then Inl (Forbidden_Err ''Cannot send messages'')
                else Inr (conv, if truthy clientMessageId
                  then find_where (\<lambda>m. mg_conversation_id m = cv_id conv \<and> mg_client_message_id m = clientMessageId) (messages db)
                  else None)))"

definition send_body_text ::
    "(uuid \<Rightarrow> string option) \<Rightarrow> (nat \<Rightarrow> uuid) \<Rightarrow> time \<Rightarrow> conversation \<Rightarrow> uuid \<Rightarrow> string \<Rightarrow> uuid option \<Rightarrow> support_db
     \<Rightarrow> message result \<times> support_db" where
  "send_body_text identity gen now conv userId trimmed clientMessageId db =
     (case prepareCustomerSupportSend conv userId db of
        Inl e \<Rightarrow> (Inl e, db)
      | Inr supportTicket \<Rightarrow>
          (case on_stays (insertMessage (gen 0) now conv
                  \<lparr>sd_type = M_TEXT, sd_body = Some trimmed, sd_metadata = text_meta\<rparr> (Some userId) clientMessageId
                  (Some (resolveSenderDisplayName identity conv userId (sp_stays db)))) db of
             (Inl e, db1) \<Rightarrow> (Inl e, db1)
           | (Inr m, db1) \<Rightarrow>
               let db2 = db1\<lparr>sp_stays := enqueueDeliveryEvents identity gen now conv m userId trimmed (sp_stays db1)\<rparr>
               in (Inr m, case supportTicket of
                     None \<Rightarrow> db2 | Some t \<Rightarrow> applyCustomerSupportMessageEffects now t trimmed db2)))"

definition sendText ::
    "(uuid \<Rightarrow> string option) \<Rightarrow> (nat \<Rightarrow> uuid) \<Rightarrow> time \<Rightarrow> uuid \<Rightarrow> uuid \<Rightarrow> string \<Rightarrow> uuid option \<Rightarrow> rate_buckets \<times> support_db
     \<Rightarrow> message result \<times> rate_buckets \<times> support_db" where
  "sendText identity gen now conversationId userId body clientMessageId st =
     (let (buckets, db) = st; trimmed = js_trim body
      in case send_check conversationId userId trimmed clientMessageId (sp_stays db) of
           Inl e \<Rightarrow> (Inl e, buckets, db)
         | Inr (conv, Some existing) \<Rightarrow> (Inr existing, buckets, db)
         | Inr (conv, None) \<Rightarrow>
             (case assertCanSend now userId (cv_id conv) trimmed buckets of
                (Inl e, buckets1) \<Rightarrow> (Inl e, buckets1, db)
              | (Inr _, buckets1) \<Rightarrow>
                  (case support_transaction (send_body_text identity gen now conv userId trimmed clientMessageId) db of
                     (r, db1) \<Rightarrow> (r, buckets1, db1))))"

section \<open>Marking as read\<close>

text \<open>\<open>read_view\<close> is read before the transaction: the conversation and the id of its last message, if that exists.\<close>

definition read_view :: "uuid \<Rightarrow> uuid \<Rightarrow> stays_db \<Rightarrow> (conversation \<times> uuid option) result" where
  "read_view conversationId userId db =
     (case getParticipantConversation conversationId userId db of
        Inl e \<Rightarrow> Inl e
      | Inr conv \<Rightarrow>
          Inr (conv, if truthy (cv_last_message_id conv)
                     then map_option mg_id (find_where (\<lambda>m. Some (mg_id m) = cv_last_message_id conv) (messages db)) else None))"

definition unread_of_other :: "uuid \<Rightarrow> uuid \<Rightarrow> message \<Rightarrow> bool" where
  "unread_of_other conversationId userId m \<longleftrightarrow>
     mg_conversation_id m = conversationId \<and> mg_sender_id m \<notin> {None, Some userId} \<and> mg_read_at m = None"

definition mark_read_commit :: "uuid \<Rightarrow> time \<Rightarrow> conversation \<times> uuid option \<Rightarrow> uuid \<Rightarrow> stays_db \<Rightarrow> stays_db" where
  "mark_read_commit new_id now view userId db =
     (let (conv, lastMsg) = view;
          nextVersion = cv_conversation_version conv + 1;
          db1 = update_conversation (cv_id conv)
            (\<lambda>c. if cv_guest_user_id conv = Some userId
                 then c\<lparr>cv_guest_last_read_at := Some now, cv_guest_last_read_message_id := lastMsg,
                        cv_unread_guest := 0, cv_conversation_version := nextVersion\<rparr>
                 else c\<lparr>cv_host_last_read_at := Some now, cv_host_last_read_message_id := lastMsg,
                        cv_unread_host := 0, cv_conversation_version := nextVersion\<rparr>) db;
          db2 = db1\<lparr>messages := update_where (unread_of_other (cv_id conv) userId)
                   (\<lambda>m. m\<lparr>mg_status := S_READ, mg_read_at := Some now\<rparr>) (messages db1)\<rparr>
      in enqueue new_id now ''EVENTS.MESSAGE_READ''
           [(''conversationId'', JStr (cv_id conv)), (''readerUserId'', JStr userId)] db2)"

definition markRead :: "uuid \<Rightarrow> time \<Rightarrow> uuid \<Rightarrow> uuid \<Rightarrow> stays_db \<Rightarrow> int result \<times> stays_db" where
  "markRead new_id now conversationId userId db =
     (case read_view conversationId userId db of
        Inl e \<Rightarrow> (Inl e, db)
      | Inr view \<Rightarrow> (Inr (cv_conversation_version (fst view) + 1), mark_read_commit new_id now view userId db))"

section \<open>Pages of a conversation\<close>

definition client_page :: "time \<Rightarrow> uuid \<Rightarrow> uuid \<Rightarrow> int \<Rightarrow> stays_db \<Rightarrow> int option \<Rightarrow> message list \<times> int option" where
  "client_page now conversationId userId limit db beforeSequence =
     (case fst (listMessages now conversationId userId limit beforeSequence db) of
        Inl e \<Rightarrow> ([], None)
      | Inr (slice, hasMore) \<Rightarrow> (rev slice, if hasMore then Some (mg_conversation_sequence (hd slice)) else None))"

lemma page_take_pos [simp]: "0 < page_take limit"
  by (simp add: page_take_def)

lemma listMessages_rows:
  assumes "getParticipantConversation i u db = Inr conv" and "rows = message_rows conv limit before db"
  shows "client_page now i u limit db before =
    (if length rows \<le> page_take limit then (rows, None)
     else (take (page_take limit) rows, Some (mg_conversation_sequence (rows ! (page_take limit - 1)))))"
proof -
  have "hd (rev (take (page_take limit) rows)) = rows ! (page_take limit - 1)" if "page_take limit < length rows"
    using that page_take_pos [of limit] last_conv_nth [of "take (page_take limit) rows"]
    by (cases rows) (simp_all add: hd_rev min_def)
  then show ?thesis using assms by (simp add: client_page_def listMessages_def Let_def)
qed

text \<open>
  C21: Reading a conversation from the newest message back, each time with the sequence number of the oldest
  message seen, gives every message that is shown exactly once, newest first, whatever the page size asked for.
\<close>

theorem message_pages_exact:
  assumes "find_conversation i db = Some conv" and "isParticipant conv u False"
    and "keyed sequence_key (messages db)" and "length (messages db) < n"
  shows "\<exists>ps. walk n (client_page now i u limit db) None = (ps, True) \<and>
    mset (concat ps) = mset (shown_messages conv db) \<and>
    sorted_wrt (\<lambda>x y. mg_conversation_sequence x > mg_conversation_sequence y) (concat ps)"
proof -
  let ?o = "newest_first (shown_messages conv db)" and ?l = "page_take limit"
  let ?after = "\<lambda>sq m. mg_conversation_sequence m < sq"
  have p: "getParticipantConversation i u db = Inr conv" using assms(1,2) by (simp add: getParticipantConversation_def)
  have "distinct (map sequence_key (shown_messages conv db))"
    using assms(3) by (simp add: keyed_def shown_messages_def distinct_map_filter)
  then have "distinct (map mg_conversation_sequence (shown_messages conv db))"
    by (simp add: distinct_map inj_on_def sequence_key_def shown_messages_def)
  then have sorted: "sorted_wrt (by_key (>) mg_conversation_sequence) ?o"
    unfolding newest_first_def by (rule desc.sorted_order_by)
  have len: "length ?o < n" using assms(4) length_filter_le [of _ "messages db"]
    unfolding newest_first_def length_order_by shown_messages_def by (rule le_less_trans [rotated])
  have "\<exists>ps. walk n (client_page now i u limit db) None = (ps, True) \<and> concat ps = ?o"
  proof (rule desc.walk_exact [where after = ?after and limit = ?l and cur = mg_conversation_sequence, OF sorted _ len])
    show "client_page now i u limit db c = (fetch ?after ?l c ?o, None)" if "length (fetch ?after ?l c ?o) \<le> ?l" for c
      using that listMessages_rows [OF p refl, of now limit c] by (simp add: message_rows_def)
    show "client_page now i u limit db c = (take ?l (fetch ?after ?l c ?o), Some (mg_conversation_sequence (fetch ?after ?l c ?o ! (?l - 1))))"
      if "?l < length (fetch ?after ?l c ?o)" for c
      using that listMessages_rows [OF p refl, of now limit c] by (simp add: message_rows_def)
  qed (simp_all add: by_key_def)
  then obtain ps where ps: "walk n (client_page now i u limit db) None = (ps, True)" "concat ps = ?o" by blast
  have "sorted_wrt (\<lambda>x y. mg_conversation_sequence x > mg_conversation_sequence y) ?o"
    using sorted by (rule sorted_wrt_mono_rel [rotated]) (simp add: by_key_def)
  then show ?thesis using ps by (auto simp: newest_first_def)
qed

section \<open>What a send leaves alone\<close>

definition same_access :: "conversation \<Rightarrow> conversation \<Rightarrow> bool" where
  "same_access c d \<longleftrightarrow>
     cv_id d = cv_id c \<and> cv_type d = cv_type c \<and> cv_messaging_state d = cv_messaging_state c \<and>
     cv_guest_user_id d = cv_guest_user_id c \<and> cv_host_user_id d = cv_host_user_id c \<and>
     cv_blocked_by_guest d = cv_blocked_by_guest c \<and> cv_blocked_by_host d = cv_blocked_by_host c"

lemma same_access_canSend: "same_access c d \<Longrightarrow> canSend (resolve d u a k) = canSend (resolve c u a k)"
  by (simp add: same_access_def resolve_def read_only_state_def denied_def Let_def)

lemma same_access_participant: "same_access c d \<Longrightarrow> isParticipant d u a = isParticipant c u a"
  by (simp add: same_access_def isParticipant_def)

lemma same_access_trans: "same_access b c \<Longrightarrow> same_access c d \<Longrightarrow> same_access b d"
  by (simp add: same_access_def)

lemma after_message_access: "same_access c (after_message now l m nm c)"
  by (simp add: same_access_def after_message_def Let_def)

lemma delivery_events_stays:
  assumes "find_conversation (cv_id conv) db = Some c"
  shows "\<exists>d. find_conversation (cv_id conv) (enqueueDeliveryEvents identity gen now conv m u p db) = Some d \<and>
    same_access c d \<and> cv_last_message_id d = cv_last_message_id c \<and> cv_conversation_version d = cv_conversation_version c"
    "messages (enqueueDeliveryEvents identity gen now conv m u p db) = messages db"
proof -
  have e: "find_conversation i (enqueue k t ev pl db') = find_conversation i db'" for i k t ev pl db'
    by (simp add: find_conversation_def)
  show "\<exists>d. find_conversation (cv_id conv) (enqueueDeliveryEvents identity gen now conv m u p db) = Some d \<and>
    same_access c d \<and> cv_last_message_id d = cv_last_message_id c \<and> cv_conversation_version d = cv_conversation_version c"
    unfolding enqueueDeliveryEvents_def Let_def
    by (subst find_update_conversation [where c = c]) (simp_all add: e assms same_access_def)
  show "messages (enqueueDeliveryEvents identity gen now conv m u p db) = messages db"
    by (simp add: enqueueDeliveryEvents_def Let_def)
qed

lemma customer_effects_stays [simp]:
  "sp_stays (applyCustomerSupportMessageEffects now t p db) = sp_stays db"
  by (simp add: applyCustomerSupportMessageEffects_def update_ticket_def)

text \<open>A text that is stored is the last row, and the conversation it is in keeps its participants and its state.\<close>

lemma send_body_text_ok:
  assumes "send_body_text identity gen now conv u txt cid db = (Inr m, db1)"
  obtains c d where "find_conversation (cv_id conv) (sp_stays db) = Some c"
    and "m = message_row (gen 0) now c (next_sequence c (sp_stays db)) \<lparr>sd_type = M_TEXT, sd_body = Some txt, sd_metadata = text_meta\<rparr> (Some u) cid"
    and "messages (sp_stays db1) = messages (sp_stays db) @ [m]"
    and "find_conversation (cv_id conv) (sp_stays db1) = Some d" and "same_access c d"
    and "cv_last_message_id d = Some (mg_id m)" and "cv_conversation_version d = cv_conversation_version c + 1"
proof -
  let ?sd = "\<lparr>sd_type = M_TEXT, sd_body = Some txt, sd_metadata = text_meta\<rparr>"
  obtain t where t: "prepareCustomerSupportSend conv u db = Inr t"
    using assms by (auto simp: send_body_text_def split: sum.splits)
  show thesis
  proof (cases "find_conversation (cv_id conv) (sp_stays db)")
    case None
    then show thesis using assms t by (simp add: send_body_text_def on_stays_def insertMessage_None)
  next
    case (Some c)
    let ?m = "message_row (gen 0) now c (next_sequence c (sp_stays db)) ?sd (Some u) cid"
    let ?nm = "Some (resolveSenderDisplayName identity conv u (sp_stays db))"
    let ?base = "(sp_stays db)\<lparr>messages := messages (sp_stays db) @ [?m]\<rparr>"
    let ?s = "update_conversation (cv_id c) (after_message now c ?m ?nm) ?base"
    let ?e = "enqueueDeliveryEvents identity gen now conv ?m u txt ?s"
    have i: "insertMessage (gen 0) now conv ?sd (Some u) cid ?nm (sp_stays db) = (Inr ?m, ?s)"
      by (rule insertMessage_eq [OF Some])
    have send: "send_body_text identity gen now conv u txt cid db = (Inr ?m, case t of None \<Rightarrow> db\<lparr>sp_stays := ?e\<rparr>
        | Some tk \<Rightarrow> applyCustomerSupportMessageEffects now tk txt (db\<lparr>sp_stays := ?e\<rparr>))"
      unfolding send_body_text_def t sum.case on_stays_def i prod.case Let_def by (cases t) simp_all
    have m: "m = ?m" and db1: "sp_stays db1 = ?e"
      using assms unfolding send by (auto split: option.splits)
    have "find_conversation (cv_id conv) ?base = Some c" using Some by (simp add: find_conversation_def)
    then have f: "find_conversation (cv_id conv) ?s = Some (after_message now c ?m ?nm c)"
      unfolding find_conversation_id [OF Some] by (intro find_update_conversation) simp_all
    obtain d where d: "find_conversation (cv_id conv) ?e = Some d" "same_access (after_message now c ?m ?nm c) d"
      "cv_last_message_id d = cv_last_message_id (after_message now c ?m ?nm c)"
      "cv_conversation_version d = cv_conversation_version (after_message now c ?m ?nm c)"
      using delivery_events_stays(1) [OF f] by blast
    show thesis
    proof (rule that [OF Some m])
      show "messages (sp_stays db1) = messages (sp_stays db) @ [m]"
        using delivery_events_stays(2) [OF f] by (simp add: db1 m)
      show "find_conversation (cv_id conv) (sp_stays db1) = Some d" using d(1) by (simp add: db1)
      show "same_access c d" using after_message_access d(2) by (rule same_access_trans)
      show "cv_last_message_id d = Some (mg_id m)" "cv_conversation_version d = cv_conversation_version c + 1"
        using d(3,4) by (simp_all add: after_message_def Let_def m)
    qed
  qed
qed

lemma send_check_ok:
  assumes "send_check i u txt cid db = Inr (conv, r)"
  shows "txt \<noteq> []" "length txt \<le> 2000" "find_conversation i db = Some conv" "isParticipant conv u False" "cv_id conv = i"
    "canSend (resolve conv u False False)"
    "r = (if truthy cid then find_where (\<lambda>m. mg_conversation_id m = i \<and> mg_client_message_id m = cid) (messages db) else None)"
proof -
  have "find_conversation i db = Some conv" using assms
    by (auto simp: send_check_def getParticipantConversation_def split: if_splits option.splits sum.splits)
  note e = find_conversation_id [OF this]
  show "txt \<noteq> []" "length txt \<le> 2000" "find_conversation i db = Some conv" "isParticipant conv u False" "cv_id conv = i"
    "canSend (resolve conv u False False)"
    "r = (if truthy cid then find_where (\<lambda>m. mg_conversation_id m = i \<and> mg_client_message_id m = cid) (messages db) else None)"
    using assms e by (auto simp: send_check_def getParticipantConversation_def split: if_splits option.splits sum.splits)
qed

lemma send_check_intro:
  assumes "txt \<noteq> []" "length txt \<le> 2000" "find_conversation i db = Some conv" "isParticipant conv u False"
    "canSend (resolve conv u False False)"
  shows "send_check i u txt cid db =
    Inr (conv, if truthy cid then find_where (\<lambda>m. mg_conversation_id m = i \<and> mg_client_message_id m = cid) (messages db) else None)"
  using assms find_conversation_id [OF assms(3)] by (simp add: send_check_def getParticipantConversation_def)

lemma sendText_ok:
  assumes "sendText identity gen now i u body cid (bk, db) = (Inr m, bk1, db1)"
  obtains conv where "send_check i u (js_trim body) cid (sp_stays db) = Inr (conv, Some m)" and "db1 = db" and "bk1 = bk"
  | conv where "send_check i u (js_trim body) cid (sp_stays db) = Inr (conv, None)"
    and "send_body_text identity gen now conv u (js_trim body) cid db = (Inr m, db1)"
  using assms
  by (auto simp: sendText_def support_transaction_def Let_def split: sum.splits option.splits prod.splits)


section \<open>Retries\<close>

text \<open>
  C22: A client may repeat a text it is not sure about: with the client id of a text that went through, the same
  request gives the message stored then and changes nothing, at any later time, whatever the rate limits say.
\<close>

theorem retry_returns_same_message:
  assumes "sendText identity gen now i u body cid (bk, db) = (Inr m, bk1, db1)" and "truthy cid"
  shows "sendText identity2 gen2 now2 i u body cid (bk2, db1) = (Inr m, bk2, db1)"
proof -
  have "\<exists>conv. send_check i u (js_trim body) cid (sp_stays db1) = Inr (conv, Some m)"
    using assms(1)
  proof (cases rule: sendText_ok)
    case (1 conv)
    then show ?thesis by blast
  next
    case (2 conv)
    note chk = send_check_ok [OF 2(1)]
    obtain c d where c: "find_conversation i (sp_stays db) = Some c"
      and m: "m = message_row (gen 0) now c (next_sequence c (sp_stays db))
        \<lparr>sd_type = M_TEXT, sd_body = Some (js_trim body), sd_metadata = text_meta\<rparr> (Some u) cid"
      and ms: "messages (sp_stays db1) = messages (sp_stays db) @ [m]"
      and d: "find_conversation i (sp_stays db1) = Some d" "same_access c d"
      using send_body_text_ok [OF 2(2)] chk(5) by metis
    have "mg_conversation_id m = i" "mg_client_message_id m = cid"
      using find_conversation_id [OF c] by (simp_all add: m message_row_def)
    then have "find_where (\<lambda>x. mg_conversation_id x = i \<and> mg_client_message_id x = cid) (messages (sp_stays db1)) = Some m"
      using chk(7) assms(2) by (simp add: ms find_where_append)
    moreover have "isParticipant d u False" "canSend (resolve d u False False)"
      using chk(3,4,6) c same_access_participant [OF d(2)] same_access_canSend [OF d(2)] by simp_all
    ultimately show ?thesis using send_check_intro [OF chk(1,2) d(1)] assms(2) by simp
  qed
  then show ?thesis by (auto simp: sendText_def)
qed

section \<open>Closed tickets\<close>

text \<open>
  A customer's text never reaches a closed ticket: while the ticket of a support conversation is closed,
  a send changes nothing in the data base, even if the conversation itself has been made active again, and it
  fails unless it repeats a text that was stored before.
\<close>

theorem closed_ticket_refuses_texts:
  assumes "find_conversation i (sp_stays db) = Some conv" and "cv_type conv = ''SUPPORT''"
    and "find_where (\<lambda>t. tk_conversation_id t = i) (sp_tickets db) = Some t" and "tk_status t = TS_CLOSED"
  shows "snd (snd (sendText identity gen now i u body cid (bk, db))) = db \<and>
    (is_ok (fst (sendText identity gen now i u body cid (bk, db))) \<longrightarrow>
      (\<exists>m\<in>set (messages (sp_stays db)). truthy cid \<and> mg_conversation_id m = i \<and> mg_client_message_id m = cid))"
proof -
  note i = find_conversation_id [OF assms(1)]
  have closed: "send_body_text identity gen now conv u x cid db = (Inl (Conflict_Err CLOSED_SUPPORT_TICKET_MESSAGE), db)"
    if "isParticipant conv u False" for x
    using that assms(2-4) by (auto simp: send_body_text_def prepareCustomerSupportSend_def isParticipant_def
        lockTicketForCustomerSend_def i split: if_splits)
  show ?thesis
  proof (cases "send_check i u (js_trim body) cid (sp_stays db)")
    case (Inr r)
    then obtain e where r: "send_check i u (js_trim body) cid (sp_stays db) = Inr (conv, e)"
      using send_check_ok(3) assms(1) by (cases r) fastforce
    note chk = send_check_ok [OF r]
    show ?thesis
    proof (cases e)
      case None
      have "support_transaction (send_body_text identity gen now conv u (js_trim body) cid) db =
          (Inl (Conflict_Err CLOSED_SUPPORT_TICKET_MESSAGE), db)"
        by (simp add: support_transaction_def closed [OF chk(4)])
      then show ?thesis by (simp add: sendText_def Let_def r None split: prod.splits sum.splits)
    next
      case (Some m)
      then have "truthy cid" and "find_where (\<lambda>m. mg_conversation_id m = i \<and> mg_client_message_id m = cid) (messages (sp_stays db)) = Some m"
        using chk(7) by (simp_all split: if_splits)
      moreover have "sendText identity gen now i u body cid (bk, db) = (Inr m, bk, db)" using r Some by (simp add: sendText_def)
      ultimately show ?thesis by (auto dest!: find_where_Some)
    qed
  qed (simp add: sendText_def)
qed

section \<open>Marking as read\<close>

text \<open>
  C23: Marking as read covers messages the reader has not been shown. A text the other side sends between
  the moment \<^verbatim>\<open>markRead\<close> reads the conversation and its update is stored as read, with the counter of unread
  messages back at zero, although the row says that the reader has read up to an earlier message.
\<close>

theorem late_message_marked_read:
  assumes "read_view i u (sp_stays db) = Inr view"
    and "sendText identity gen now i other body None (bk, db) = (Inr m, bk1, db1)" and "other \<noteq> u"
    and "gen 0 \<notin> mg_id ` set (messages (sp_stays db))"
  shows "\<exists>c. find_conversation i (mark_read_commit k now2 view u (sp_stays db1)) = Some c \<and>
    cv_last_message_id c = Some (mg_id m) \<and>
    (if cv_guest_user_id c = Some u then cv_unread_guest c = 0 \<and> cv_guest_last_read_message_id c \<noteq> Some (mg_id m)
     else cv_unread_host c = 0 \<and> cv_host_last_read_message_id c \<noteq> Some (mg_id m)) \<and>
    m\<lparr>mg_status := S_READ, mg_read_at := Some now2\<rparr> \<in> set (messages (mark_read_commit k now2 view u (sp_stays db1)))"
proof -
  obtain conv where "send_check i other (js_trim body) None (sp_stays db) = Inr (conv, None)"
    and b: "send_body_text identity gen now conv other (js_trim body) None db = (Inr m, db1)"
    using assms(2) by (cases rule: sendText_ok) (auto simp: truthy_def dest!: send_check_ok(7))
  note chk = send_check_ok [OF this(1)]
  obtain c d where c: "find_conversation i (sp_stays db) = Some c"
    and m: "m = message_row (gen 0) now c (next_sequence c (sp_stays db))
      \<lparr>sd_type = M_TEXT, sd_body = Some (js_trim body), sd_metadata = text_meta\<rparr> (Some other) None"
    and ms: "messages (sp_stays db1) = messages (sp_stays db) @ [m]"
    and d: "find_conversation i (sp_stays db1) = Some d" "same_access c d" "cv_last_message_id d = Some (mg_id m)"
    using send_body_text_ok [OF b] chk(5) by metis
  have fresh: "mg_id x \<noteq> gen 0" if "x \<in> set (messages (sp_stays db))" for x using assms(4) that by force
  have v: "fst view = c" "snd view \<noteq> Some (mg_id m)" "cv_id c = i"
    using assms(1) c find_conversation_id [OF c]
    by (auto simp: read_view_def getParticipantConversation_def m message_row_def
        split: if_splits dest!: find_where_Some fresh)
  have row: "unread_of_other i u m" using assms(3) v(3) by (simp add: unread_of_other_def m message_row_def)
  let ?f = "\<lambda>c'. if cv_guest_user_id c = Some u
    then c'\<lparr>cv_guest_last_read_at := Some now2, cv_guest_last_read_message_id := snd view, cv_unread_guest := 0,
            cv_conversation_version := cv_conversation_version c + 1\<rparr>
    else c'\<lparr>cv_host_last_read_at := Some now2, cv_host_last_read_message_id := snd view, cv_unread_host := 0,
            cv_conversation_version := cv_conversation_version c + 1\<rparr>"
  have f: "find_conversation i (update_conversation i ?f (sp_stays db1)) = Some (?f d)"
    by (rule find_update_conversation) (simp_all add: d(1))
  have "find_conversation i (mark_read_commit k now2 view u (sp_stays db1)) = Some (?f d)"
    using f v(1,3) by (cases view; cases "cv_guest_user_id c = Some u") (simp_all add: mark_read_commit_def Let_def find_conversation_def)
  moreover have "m\<lparr>mg_status := S_READ, mg_read_at := Some now2\<rparr> \<in> set (messages (mark_read_commit k now2 view u (sp_stays db1)))"
    using row v(1,3) by (cases view) (auto simp: mark_read_commit_def Let_def ms set_update_where)
  ultimately show ?thesis using d(2,3) v(2) by (auto simp: same_access_def)
qed


section \<open>Examples\<close>

definition a_chat :: support_db where
  "a_chat = a_desk\<lparr>sp_stays := no_rows\<lparr>conversations := [sample_conversation ''c1'' ''b1'']\<rparr>\<rparr>"

definition key_ids :: "nat \<Rightarrow> uuid" where
  "key_ids n = ''k'' @ nat_str n"

lemma a_chat_send:
  obtains m bk db where "sendText (\<lambda>_. None) key_ids 5 ''c1'' ''g1'' ''hi'' cid (Map.empty, a_chat) = (Inr m, bk, db)"
proof -
  have f: "find_conversation ''c1'' (sp_stays a_chat) = Some (sample_conversation ''c1'' ''b1'')" by code_simp
  have p: "isParticipant (sample_conversation ''c1'' ''b1'') ''g1'' False"
    "canSend (resolve (sample_conversation ''c1'' ''b1'') ''g1'' False False)" by code_simp+
  have t: "js_trim ''hi'' = ''hi''" "cv_id (sample_conversation ''c1'' ''b1'') = ''c1''" "messages (sp_stays a_chat) = []"
    by code_simp+
  have chk: "send_check ''c1'' ''g1'' ''hi'' cid (sp_stays a_chat) = Inr (sample_conversation ''c1'' ''b1'', None)"
    using send_check_intro [OF _ _ f p, of "''hi''"] by (simp add: t)
  have "fst (assertCanSend 5 ''g1'' ''c1'' ''hi'' Map.empty) = Inr ()" by code_simp
  then obtain bk where bk: "assertCanSend 5 ''g1'' ''c1'' ''hi'' Map.empty = (Inr (), bk)" by (cases "assertCanSend 5 ''g1'' ''c1'' ''hi'' Map.empty") simp
  have "is_ok (fst (send_body_text (\<lambda>_. None) key_ids 5 (sample_conversation ''c1'' ''b1'') ''g1'' ''hi'' cid a_chat))"
    using insertMessage_eq [of "sample_conversation ''c1'' ''b1''" "sp_stays a_chat"] f
    by (simp add: send_body_text_def prepareCustomerSupportSend_def on_stays_def Let_def t) (simp add: sample_conversation_def)
  then obtain m db where "send_body_text (\<lambda>_. None) key_ids 5 (sample_conversation ''c1'' ''b1'') ''g1'' ''hi'' cid a_chat = (Inr m, db)"
    by (cases "send_body_text (\<lambda>_. None) key_ids 5 (sample_conversation ''c1'' ''b1'') ''g1'' ''hi'' cid a_chat")
      (auto simp: is_ok_def split: sum.splits)
  then have "sendText (\<lambda>_. None) key_ids 5 ''c1'' ''g1'' ''hi'' cid (Map.empty, a_chat) = (Inr m, bk, db)"
    by (simp add: sendText_def t chk bk support_transaction_def)
  then show thesis by (rule that)
qed

theorem retry_returns_same_message_witness:
  "\<exists>m bk db. sendText (\<lambda>_. None) key_ids 5 ''c1'' ''g1'' ''hi'' (Some ''k'') (Map.empty, a_chat) = (Inr m, bk, db) \<and>
     sendText (\<lambda>_. None) key_ids 6 ''c1'' ''g1'' ''hi'' (Some ''k'') (bk, db) = (Inr m, bk, db)"
proof -
  obtain m bk db where s: "sendText (\<lambda>_. None) key_ids 5 ''c1'' ''g1'' ''hi'' (Some ''k'') (Map.empty, a_chat) = (Inr m, bk, db)"
    by (rule a_chat_send)
  show ?thesis using retry_returns_same_message [OF s] s by (auto simp: truthy_def)
qed

theorem late_message_marked_read_witness:
  "\<exists>m bk db view. read_view ''c1'' ''h1'' (sp_stays a_chat) = Inr view \<and>
     sendText (\<lambda>_. None) key_ids 5 ''c1'' ''g1'' ''hi'' None (Map.empty, a_chat) = (Inr m, bk, db) \<and>
     m\<lparr>mg_status := S_READ, mg_read_at := Some 9\<rparr> \<in> set (messages (mark_read_commit ''r'' 9 view ''h1'' (sp_stays db)))"
proof -
  obtain m bk db where s: "sendText (\<lambda>_. None) key_ids 5 ''c1'' ''g1'' ''hi'' None (Map.empty, a_chat) = (Inr m, bk, db)"
    by (rule a_chat_send)
  have v: "read_view ''c1'' ''h1'' (sp_stays a_chat) = Inr (sample_conversation ''c1'' ''b1'', None)" by code_simp
  have "key_ids 0 \<notin> mg_id ` set (messages (sp_stays a_chat))" by (simp add: a_chat_def no_rows_def)
  then show ?thesis using late_message_marked_read [OF v s, of "''r''" 9] s v by auto
qed

theorem closed_ticket_refuses_texts_witness:
  "let db = a_chat\<lparr>sp_stays := no_rows\<lparr>conversations := [(sample_conversation ''c1'' ''b1'')\<lparr>cv_type := ''SUPPORT''\<rparr>]\<rparr>,
       sp_tickets := [(a_ticket ''1'')\<lparr>tk_conversation_id := ''c1'', tk_status := TS_CLOSED\<rparr>]\<rparr>
   in snd (snd (sendText (\<lambda>_. None) key_ids 5 ''c1'' ''g1'' ''hi'' None (Map.empty, db))) = db"
proof -
  let ?db = "a_chat\<lparr>sp_stays := no_rows\<lparr>conversations := [(sample_conversation ''c1'' ''b1'')\<lparr>cv_type := ''SUPPORT''\<rparr>]\<rparr>,
       sp_tickets := [(a_ticket ''1'')\<lparr>tk_conversation_id := ''c1'', tk_status := TS_CLOSED\<rparr>]\<rparr>"
  have "find_conversation ''c1'' (sp_stays ?db) = Some ((sample_conversation ''c1'' ''b1'')\<lparr>cv_type := ''SUPPORT''\<rparr>)"
    "cv_type ((sample_conversation ''c1'' ''b1'')\<lparr>cv_type := ''SUPPORT''\<rparr>) = ''SUPPORT''"
    "find_where (\<lambda>t. tk_conversation_id t = ''c1'') (sp_tickets ?db) = Some ((a_ticket ''1'')\<lparr>tk_conversation_id := ''c1'', tk_status := TS_CLOSED\<rparr>)"
    "tk_status ((a_ticket ''1'')\<lparr>tk_conversation_id := ''c1'', tk_status := TS_CLOSED\<rparr>) = TS_CLOSED"
    by (simp_all add: find_conversation_def sample_conversation_def)
  from closed_ticket_refuses_texts [OF this] show ?thesis by (simp add: Let_def)
qed

theorem message_pages_exact_witness:
  "let db = no_rows\<lparr>conversations := [sample_conversation ''c1'' ''b1''],
       messages := [message_row ''m1'' 5 (sample_conversation ''c1'' ''b1'') 1 sample_text (Some ''g1'') None,
                    message_row ''m2'' 6 (sample_conversation ''c1'' ''b1'') 2 sample_text (Some ''h1'') None]\<rparr>
   in \<exists>ps. walk 3 (client_page 9 ''c1'' ''g1'' 1 db) None = (ps, True) \<and> length (concat ps) = 2"
proof -
  let ?db = "no_rows\<lparr>conversations := [sample_conversation ''c1'' ''b1''],
       messages := [message_row ''m1'' 5 (sample_conversation ''c1'' ''b1'') 1 sample_text (Some ''g1'') None,
                    message_row ''m2'' 6 (sample_conversation ''c1'' ''b1'') 2 sample_text (Some ''h1'') None]\<rparr>"
  have h: "find_conversation ''c1'' ?db = Some (sample_conversation ''c1'' ''b1'')"
    "isParticipant (sample_conversation ''c1'' ''b1'') ''g1'' False" "keyed sequence_key (messages ?db)" "length (messages ?db) < 3"
    by (simp_all add: find_conversation_def sample_conversation_def isParticipant_def keyed_def sequence_key_def message_row_def)
  obtain ps where ps: "walk 3 (client_page 9 ''c1'' ''g1'' 1 ?db) None = (ps, True)"
    "mset (concat ps) = mset (shown_messages (sample_conversation ''c1'' ''b1'') ?db)"
    using message_pages_exact [OF h, of 9 1] by blast
  have "length (concat ps) = length (shown_messages (sample_conversation ''c1'' ''b1'') ?db)"
    using mset_eq_length [OF ps(2)] .
  also have "\<dots> = 2" by (simp add: shown_messages_def message_row_def sample_text_def)
  finally show ?thesis using ps(1) by (simp add: Let_def)
qed

end
