(* ===== verification/SupportDesk.thy ===== *)
theory SupportDesk
  imports Messages
begin

text \<open>
  The support desk as one state machine: everything that customers, agents, administrators and the automatic
  assignment do to tickets, as steps between states of \<open>support_db\<close>, and what holds of every ticket in every
  state these steps reach.
\<close>

section \<open>What a ticket keeps\<close>

datatype desk_event =
  Opened | Patched | Reopened | Staff_Replied | Customer_Wrote | Assigned | Rated | Noted | Reported | Escalated

definition ticket_ok :: "support_ticket \<Rightarrow> bool" where
  "ticket_ok t \<longleftrightarrow>
     (tk_status t = TS_CLOSED \<longleftrightarrow> tk_closed_at t \<noteq> None) \<and>
     (tk_status t \<in> {TS_RESOLVED, TS_CLOSED} \<longrightarrow> tk_resolved_at t \<noteq> None)"

definition kept :: "'a option \<Rightarrow> 'a option \<Rightarrow> bool" where
  "kept a b \<longleftrightarrow> a \<noteq> None \<longrightarrow> b = a"

text \<open>
  \<open>ticket_moves ev t t'\<close>: what identifies a ticket stays, the times of the first answer and of the first
  resolution stay once they are set, and only reopening takes a closed ticket out of its state.
\<close>

definition ticket_moves :: "desk_event \<Rightarrow> support_ticket \<Rightarrow> support_ticket \<Rightarrow> bool" where
  "ticket_moves ev t t' \<longleftrightarrow>
     tk_id t' = tk_id t \<and> tk_ticket_number t' = tk_ticket_number t \<and> tk_requester_user_id t' = tk_requester_user_id t \<and>
     tk_party t' = tk_party t \<and> tk_conversation_id t' = tk_conversation_id t \<and> tk_created_at t' = tk_created_at t \<and>
     kept (tk_first_admin_response_at t) (tk_first_admin_response_at t') \<and>
     kept (tk_resolved_at t) (tk_resolved_at t') \<and> kept (tk_review_agent_id t) (tk_review_agent_id t') \<and>
     (ticket_ok t \<longrightarrow> ticket_ok t' \<and>
       (tk_status t = TS_CLOSED \<and> ev \<noteq> Reopened \<longrightarrow> tk_status t' = TS_CLOSED \<and> tk_closed_at t' = tk_closed_at t))"

lemma ticket_moves_refl [simp]: "ticket_moves ev t t"
  by (simp add: ticket_moves_def kept_def)

lemma ticket_moves_trans: "ticket_moves ev a b \<Longrightarrow> ticket_moves ev b c \<Longrightarrow> ticket_moves ev a c"
  by (auto simp: ticket_moves_def kept_def)

lemma ticket_moves_id: "ticket_moves ev t t' \<Longrightarrow> tk_id t' = tk_id t"
  by (simp add: ticket_moves_def)

definition evolves :: "desk_event \<Rightarrow> support_ticket list \<Rightarrow> support_ticket list \<Rightarrow> bool" where
  "evolves ev ts ts' \<longleftrightarrow>
     keyed tk_id ts' \<and> (\<forall>t\<in>set ts. \<exists>t'\<in>set ts'. ticket_moves ev t t') \<and>
     ((\<forall>t\<in>set ts. ticket_ok t) \<longrightarrow> (\<forall>t\<in>set ts'. ticket_ok t))"

lemma evolves_refl: "keyed tk_id ts \<Longrightarrow> evolves ev ts ts"
  by (auto simp: evolves_def intro: ticket_moves_refl)

lemma evolves_keyed: "evolves ev ts ts' \<Longrightarrow> keyed tk_id ts'"
  by (simp add: evolves_def)

lemma evolves_trans: "evolves ev a b \<Longrightarrow> evolves ev b c \<Longrightarrow> evolves ev a c"
  unfolding evolves_def by (meson ticket_moves_trans)

lemma evolves_update:
  assumes "keyed tk_id ts" and "find_where (\<lambda>x. tk_id x = i) ts = Some t" and "ticket_moves ev t (f t)"
  shows "evolves ev ts (update_where (\<lambda>x. tk_id x = i) f ts)"
proof -
  have t: "t \<in> set ts" "tk_id t = i" using find_where_Some [OF assms(2)] by auto
  have one: "x = t" if "x \<in> set ts" "tk_id x = i" for x using keyed_inj [OF assms(1) that(1) t(1)] that(2) t(2) by simp
  define g where "g = (\<lambda>x. if tk_id x = i then f x else x)"
  have g: "ticket_moves ev x (g x)" if "x \<in> set ts" for x using one [OF that] assms(3) by (auto simp: g_def)
  have u: "update_where (\<lambda>x. tk_id x = i) f ts = map g ts" by (simp add: update_where_def g_def)
  have "tk_id (g x) = tk_id x" if "x \<in> set ts" for x using ticket_moves_id [OF g [OF that]] .
  then have "map tk_id (map g ts) = map tk_id ts" by simp
  then have "keyed tk_id (map g ts)" using assms(1) by (simp only: keyed_def)
  moreover have "ticket_ok (g x)" if "x \<in> set ts" "ticket_ok x" for x using g [OF that(1)] that(2) by (simp add: ticket_moves_def)
  ultimately show ?thesis using g by (auto simp: evolves_def u)
qed

lemma evolves_append: "keyed tk_id ts \<Longrightarrow> tk_id t \<notin> tk_id ` set ts \<Longrightarrow> ticket_ok t \<Longrightarrow> evolves ev ts (ts @ [t])"
  by (auto simp: evolves_def keyed_def intro: ticket_moves_refl)

section \<open>What the operations do to tickets\<close>

definition desk_evolves :: "desk_event \<Rightarrow> support_db \<Rightarrow> support_db \<Rightarrow> bool" where
  "desk_evolves ev db db' \<longleftrightarrow> evolves ev (sp_tickets db) (sp_tickets db') \<and> sp_csats db' = sp_csats db"

lemma desk_same: "keyed tk_id (sp_tickets db) \<Longrightarrow> sp_tickets db' = sp_tickets db \<Longrightarrow> sp_csats db' = sp_csats db \<Longrightarrow> desk_evolves ev db db'"
  by (simp add: desk_evolves_def evolves_refl)

lemma desk_trans: "desk_evolves ev a b \<Longrightarrow> desk_evolves ev b c \<Longrightarrow> desk_evolves ev a c"
  using evolves_trans by (fastforce simp: desk_evolves_def)

lemma desk_saved:
  assumes "keyed tk_id (sp_tickets db)" and "find_ticket i db = Some t" and "ticket_moves ev t t'"
    and "sp_tickets db' = sp_tickets (save_ticket t' db)" and "sp_csats db' = sp_csats db"
  shows "desk_evolves ev db db'"
  using evolves_update [OF assms(1) assms(2) [unfolded find_ticket_def], of ev "\<lambda>_. t'"] assms(3-5)
    ticket_moves_id [OF assms(3)] find_where_Some [OF assms(2) [unfolded find_ticket_def]]
  by (simp add: desk_evolves_def save_ticket_def)

lemma desk_updated:
  assumes "keyed tk_id (sp_tickets db)" and "t \<in> set (sp_tickets db)" and "ticket_moves ev t (f t)"
    and "sp_tickets db' = sp_tickets (update_ticket (tk_id t) f db)" and "sp_csats db' = sp_csats db"
  shows "desk_evolves ev db db'"
  using evolves_update [where f = f, OF assms(1) keyed_find_where [OF assms(1,2)] assms(3)] assms(4,5)
  by (simp add: desk_evolves_def update_ticket_def)

lemma support_audit_frame [simp]:
  "sp_tickets (support_audit now a r et ei ac m db) = sp_tickets db" "sp_csats (support_audit now a r et ei ac m db) = sp_csats db"
  "sp_stays (support_audit now a r et ei ac m db) = sp_stays db"
  by (simp_all add: support_audit_def)

lemma patch_audits_keep [simp]:
  "sp_tickets (patch_audits now u p b s db) = sp_tickets db" "sp_csats (patch_audits now u p b s db) = sp_csats db"
  by (simp_all add: patch_audits_def Let_def)

lemma update_ticket_frame [simp]: "sp_csats (update_ticket i f db) = sp_csats db" "sp_stays (update_ticket i f db) = sp_stays db"
  by (simp_all add: update_ticket_def)

lemma inert_moves [simp]:
  "ticket_moves ev t (t\<lparr>tk_assigned_admin_id := a\<rparr>)" "ticket_moves ev t (t\<lparr>tk_priority := p\<rparr>)"
  "ticket_moves ev t (t\<lparr>tk_resolution_type := r\<rparr>)" "ticket_moves ev t (t\<lparr>tk_updated_at := u\<rparr>)"
  by (simp_all add: ticket_moves_def kept_def ticket_ok_def)

lemma close_moves: "ticket_moves ev t (close_ticket profile now (t\<lparr>tk_status := TS_CLOSED\<rparr>))"
  by (cases "tk_closed_at t"; cases "tk_resolved_at t"; cases "tk_review_agent_id t")
    (simp_all add: close_ticket_def ticket_moves_def ticket_ok_def kept_def or_else_def Let_def)

lemma set_status_moves:
  assumes "tk_status t = TS_CLOSED \<longrightarrow> status \<in> {None, Some TS_CLOSED}"
  shows "ticket_moves ev t (set_status profile now status t)"
proof (cases status)
  case (Some s)
  show ?thesis
  proof (cases "s = TS_CLOSED")
    case True
    then show ?thesis using close_moves [of ev t profile now] by (simp add: set_status_def Some)
  next
    case False
    then have "tk_status t \<noteq> TS_CLOSED" using assms Some by auto
    then show ?thesis
      using False by (cases s; cases "tk_resolved_at t")
        (simp_all add: Some set_status_def ticket_moves_def ticket_ok_def kept_def or_else_def)
  qed
qed (simp add: set_status_def)

lemma access_found: "assertCanAccessTicket x actor = Inr t \<Longrightarrow> x = Some t"
  by (auto simp: assertCanAccessTicket_def split: option.splits if_splits)

lemma patch_moves:
  assumes "tk_status t = TS_CLOSED \<longrightarrow> pt_status p \<in> {None, Some TS_CLOSED}"
  shows "ticket_moves ev t (patch_ticket profile now p t)"
proof -
  define t1 where "t1 = (case pt_assigned_admin_id p of None \<Rightarrow> t | Some a \<Rightarrow> t\<lparr>tk_assigned_admin_id := a\<rparr>)"
  define t2 where "t2 = set_status profile now (pt_status p) t1"
  define t3 where "t3 = (case pt_priority p of None \<Rightarrow> t2 | Some x \<Rightarrow> t2\<lparr>tk_priority := x\<rparr>)"
  define t4 where "t4 = (case pt_resolution_type p of None \<Rightarrow> t3 | Some r \<Rightarrow> t3\<lparr>tk_resolution_type := r\<rparr>)"
  have 1: "ticket_moves ev t t1" "tk_status t1 = tk_status t" by (simp_all add: t1_def split: option.split)
  have 2: "ticket_moves ev t1 t2" using assms 1(2) unfolding t2_def by (intro set_status_moves) simp
  have 3: "ticket_moves ev t2 t3" "ticket_moves ev t3 t4" by (simp_all add: t3_def t4_def split: option.split)
  have "ticket_moves ev t (t4\<lparr>tk_updated_at := now\<rparr>)"
    using ticket_moves_trans [OF ticket_moves_trans [OF 1(1) 2] ticket_moves_trans [OF 3]] inert_moves(4) by (rule ticket_moves_trans)
  then show ?thesis by (simp only: patch_ticket_def Let_def t4_def t3_def t2_def t1_def)
qed

lemma patch_evolves:
  assumes "keyed tk_id (sp_tickets db)"
  shows "desk_evolves ev db (snd (patchForAdmin authz profile now i p u actor db))"
proof -
  have "desk_evolves ev db (snd (patch_body profile now i p actor db))"
  proof (cases "patch_body profile now i p actor db")
    case (Pair r db1)
    show ?thesis
    proof (cases r)
      case (Inl e)
      then have "db1 = db" using Pair by (auto simp: patch_body_def Let_def split: sum.splits if_splits)
      then show ?thesis using Pair by (simp add: desk_same assms)
    next
      case (Inr x)
      then obtain t where t: "find_ticket i db = Some t" "tk_status t = TS_CLOSED \<longrightarrow> pt_status p \<in> {None, Some TS_CLOSED}"
        and db1: "sp_tickets db1 = sp_tickets (save_ticket (patch_ticket profile now p t) db)" "sp_csats db1 = sp_csats db"
        using Pair by (auto simp: patch_body_def assertCanAccessTicket_def Let_def save_ticket_def split: sum.splits if_splits option.splits)
      show ?thesis using desk_saved [OF assms t(1) patch_moves [OF t(2)] db1] Pair by simp
    qed
  qed
  then show ?thesis
    by (auto simp: patchForAdmin_def support_transaction_def desk_same assms desk_evolves_def evolves_refl
        split: sum.splits option.splits prod.splits)
qed

lemma reopen_evolves:
  assumes "keyed tk_id (sp_tickets db)"
  shows "desk_evolves Reopened db (snd (reopenForAdmin now i u why actor db))"
proof -
  have m: "ticket_moves Reopened t (t\<lparr>tk_status := (if truthy (tk_assigned_admin_id t) then TS_IN_PROGRESS else TS_OPEN),
      tk_closed_at := None, tk_updated_at := now\<rparr>)" for t
    by (simp add: ticket_moves_def kept_def ticket_ok_def)
  have "desk_evolves Reopened db (snd (reopen_body now i db))"
  proof (cases "find_ticket i db")
    case (Some t)
    show ?thesis
    proof (cases "tk_status t = TS_CLOSED")
      case True
      show ?thesis
        by (rule desk_saved [OF assms Some m]) (simp_all add: reopen_body_def Some True Let_def save_ticket_def)
    qed (simp add: reopen_body_def Some desk_same assms)
  qed (simp add: reopen_body_def desk_same assms)
  then show ?thesis
    by (auto simp: reopenForAdmin_def support_transaction_def desk_evolves_def evolves_refl assms
        split: sum.splits prod.splits)
qed

lemma reply_moves: "tk_status t \<noteq> TS_CLOSED \<Longrightarrow> ticket_moves ev t (after_reply now u wr t t)"
  by (auto simp: ticket_moves_def kept_def ticket_ok_def after_reply_def or_else_def split: option.split)

lemma staff_reply_evolves:
  assumes "keyed tk_id (sp_tickets db)"
  shows "desk_evolves ev db (snd (sendAdminMessage gen now i u body actor db))"
proof -
  let ?b = "send_body (gen 0) now i u (js_trim body) actor"
  have "desk_evolves ev db (snd (?b db))" if ok: "fst (?b db) = Inr x" for x
  proof -
    obtain t where a: "assertCanAccessTicket (find_ticket i db) actor = Inr t"
      using ok by (auto simp: send_body_def split: sum.splits)
    have "tk_status t \<noteq> TS_CLOSED" using ok by (auto simp: send_body_def a split: if_splits)
    note t = access_found [OF a] this
    obtain conv where c: "find_conversation (tk_conversation_id t) (sp_stays db) = Some conv"
      using ok t(2) by (auto simp: send_body_def a split: option.splits)
    obtain s1 where s: "snd (?b db) = update_ticket (tk_id t) (after_reply now u (js_trim body) t) (db\<lparr>sp_stays := s1\<rparr>)"
      using ok t(2) by (auto simp: send_body_def a c on_stays_def split: sum.splits prod.splits)
    have "t \<in> set (sp_tickets db)" using t(1) unfolding find_ticket_def by (auto dest: find_where_Some)
    then show ?thesis
      by (rule desk_updated [where f = "after_reply now u (js_trim body) t", OF assms _ reply_moves [OF t(2)]])
        (simp_all add: s update_ticket_def)
  qed
  then have "desk_evolves ev db (snd (support_transaction ?b db))"
    by (cases "?b db"; cases "fst (?b db)") (auto simp: support_transaction_def desk_same assms)
  then show ?thesis
    by (auto simp: sendAdminMessage_def Let_def assms desk_evolves_def evolves_refl split: sum.splits prod.splits)
qed

lemma customer_moves: "tk_status t \<noteq> TS_CLOSED \<Longrightarrow> ticket_moves ev t (t\<lparr>tk_unread_for_support := True,
    tk_last_message_preview := pv, tk_status := nextStatusAfterCustomerMessage (tk_status t) (tk_party t), tk_updated_at := now\<rparr>)"
  by (cases "tk_status t") (auto simp: ticket_moves_def kept_def ticket_ok_def)

lemma customer_text_evolves:
  assumes "keyed tk_id (sp_tickets db)"
  shows "desk_evolves ev db (snd (snd (sendText identity gen now i u body cid (bk, db))))"
proof -
  have b: "desk_evolves ev db (snd (send_body_text identity gen now conv u wr cid db))"
    if ok: "fst (send_body_text identity gen now conv u wr cid db) = Inr x" for conv wr x
  proof (cases "prepareCustomerSupportSend conv u db")
    case (Inl e)
    then show ?thesis using ok by (simp add: send_body_text_def)
  next
    case (Inr r)
    have "\<exists>s. snd (send_body_text identity gen now conv u wr cid db) = (case r of
        None \<Rightarrow> db\<lparr>sp_stays := s\<rparr> | Some t \<Rightarrow> applyCustomerSupportMessageEffects now t wr (db\<lparr>sp_stays := s\<rparr>))"
      using ok by (cases r) (auto simp: send_body_text_def Inr on_stays_def Let_def split: prod.splits sum.splits)
    then obtain s where s: "snd (send_body_text identity gen now conv u wr cid db) = (case r of
        None \<Rightarrow> db\<lparr>sp_stays := s\<rparr> | Some t \<Rightarrow> applyCustomerSupportMessageEffects now t wr (db\<lparr>sp_stays := s\<rparr>))" ..
    show ?thesis
    proof (cases r)
      case None
      then show ?thesis by (simp add: s desk_same assms)
    next
      case (Some t)
      then have t: "t \<in> set (sp_tickets db)" "tk_status t \<noteq> TS_CLOSED"
        using Inr by (auto simp: prepareCustomerSupportSend_def lockTicketForCustomerSend_def
            split: if_splits option.splits dest: find_where_Some)
      show ?thesis
        by (rule desk_updated [where f = "\<lambda>x. x\<lparr>tk_unread_for_support := True, tk_last_message_preview := Some (take 200 wr),
              tk_status := nextStatusAfterCustomerMessage (tk_status t) (tk_party t), tk_updated_at := now\<rparr>",
              OF assms t(1) customer_moves [OF t(2)]])
          (simp_all add: s Some applyCustomerSupportMessageEffects_def update_ticket_def)
    qed
  qed
  have tr: "desk_evolves ev db (snd (support_transaction (send_body_text identity gen now conv u wr cid) db))" for conv wr
    using b [of conv wr] by (cases "send_body_text identity gen now conv u wr cid db"; cases "fst (send_body_text identity gen now conv u wr cid db)")
      (auto simp: support_transaction_def desk_same assms)
  show ?thesis
    using tr by (auto simp: sendText_def Let_def desk_same assms split: sum.splits prod.splits option.splits) (metis snd_conv)+
qed


lemma assign_evolves:
  assumes "keyed tk_id (sp_tickets db)"
  shows "desk_evolves ev db (attemptAutoAssignment coll env roster authz now i db)"
proof -
  have "desk_evolves ev db (snd (assignLocked coll env rows authz now i db))" for rows
  proof (cases "find_ticket i db")
    case (Some t)
    show ?thesis
    proof (cases "assign_choice coll env (eligible_roster rows) authz now t db")
      case (Some c)
      obtain w st n where "c = (w, st, n)" by (cases c)
      then have "snd (assignLocked coll env rows authz now i db) = db \<or>
          sp_tickets (snd (assignLocked coll env rows authz now i db)) =
            sp_tickets (save_ticket (t\<lparr>tk_assigned_admin_id := Some w, tk_updated_at := now\<rparr>) db) \<and>
          sp_csats (snd (assignLocked coll env rows authz now i db)) = sp_csats db"
        by (simp add: assignLocked_def \<open>find_ticket i db = Some t\<close> Some Let_def) (simp add: save_ticket_def)
      moreover have "ticket_moves ev t (t\<lparr>tk_assigned_admin_id := Some w, tk_updated_at := now\<rparr>)"
        by (rule ticket_moves_trans [OF inert_moves(1) inert_moves(4)])
      ultimately show ?thesis
        using desk_saved [OF assms \<open>find_ticket i db = Some t\<close>] desk_same [OF assms] by metis
    qed (simp add: assignLocked_def Some desk_same assms Let_def)
  qed (simp add: assignLocked_def desk_same assms Let_def)
  then show ?thesis by (simp add: attemptAutoAssignment_def desk_same assms split: option.split)
qed

lemma insert_ticket_ok:
  assumes "fst (insert_ticket gen now u party dto opts links ident db) = Inr t"
  shows "sp_tickets (snd (insert_ticket gen now u party dto opts links ident db)) = sp_tickets db @ [t]"
    and "sp_csats (snd (insert_ticket gen now u party dto opts links ident db)) = sp_csats db"
    and "tk_id t = gen 1" and "ticket_ok t"
proof -
  obtain n db1 where a: "allocateTicketNumber now db = (n, db1)" by (cases "allocateTicketNumber now db")
  then have f: "sp_tickets db1 = sp_tickets db" "sp_csats db1 = sp_csats db" by (auto simp: allocateTicketNumber_def Let_def)
  let ?t = "new_ticket (gen 1) (gen 0) now n u party dto opts links ident"
  have t: "t = ?t" "sp_tickets (snd (insert_ticket gen now u party dto opts links ident db)) = sp_tickets db @ [?t]"
    "sp_csats (snd (insert_ticket gen now u party dto opts links ident db)) = sp_csats db"
    using assms by (auto simp: insert_ticket_def a Let_def on_stays_def insert_row_def f split: prod.splits sum.splits)
  show "sp_tickets (snd (insert_ticket gen now u party dto opts links ident db)) = sp_tickets db @ [t]"
    "sp_csats (snd (insert_ticket gen now u party dto opts links ident db)) = sp_csats db"
    using t by simp_all
  show "tk_id t = gen 1" "ticket_ok t" by (simp_all add: t(1) new_ticket_def ticket_ok_def)
qed

lemma create_evolves:
  assumes "keyed tk_id (sp_tickets db)" and "gen 1 \<notin> tk_id ` set (sp_tickets db)"
  shows "desk_evolves ev db (snd (createTicketForUser profile gen now u dto opts db))"
proof -
  have "desk_evolves ev db (snd (support_transaction (insert_ticket gen now u party dto opts links ident) db))" for party links ident
  proof (cases "insert_ticket gen now u party dto opts links ident db")
    case (Pair r db1)
    show ?thesis
    proof (cases r)
      case (Inl e)
      then show ?thesis by (simp add: support_transaction_def Pair desk_same assms(1))
    next
      case (Inr t)
      note i = insert_ticket_ok [of gen now u party dto opts links ident db t]
      have "sp_tickets db1 = sp_tickets db @ [t]" "sp_csats db1 = sp_csats db" "tk_id t = gen 1" "ticket_ok t"
        using i Pair Inr by simp_all
      then show ?thesis
        using assms evolves_append [of "sp_tickets db" t ev] by (simp add: support_transaction_def Pair Inr desk_evolves_def)
    qed
  qed
  then show ?thesis
    by (auto simp: createTicketForUser_def Let_def desk_same assms(1) split: option.split sum.split)
qed

lemma ensured_state: "snd (ensured r) = snd r"
  by (auto simp: ensured_def split: prod.split sum.split option.split)

lemma ensure_report_evolves:
  assumes "keyed tk_id (sp_tickets db)" and "gen 1 \<notin> tk_id ` set (sp_tickets db)"
  shows "desk_evolves ev db (snd (ensureTicketForReport profile gen now r c db))" (is ?report)
    and "desk_evolves ev db (snd (ensureTicketForSafetyIssue profile gen now r c db))" (is ?safety)
proof -
  show ?report
    by (cases "find_where (\<lambda>t. tk_report_id t = Some (rp_id r)) (sp_tickets db)")
      (simp_all only: ensureTicketForReport_def Let_def option.case ensured_state snd_conv create_evolves [where gen = gen, OF assms]
        desk_same [OF assms(1)])
  show ?safety
    by (cases "find_where (\<lambda>t. tk_safety_issue_id t = Some (rp_id r)) (sp_tickets db)")
      (simp_all only: ensureTicketForSafetyIssue_def Let_def option.case ensured_state snd_conv create_evolves [where gen = gen, OF assms]
        desk_same [OF assms(1)])
qed

lemma transaction_evolves:
  assumes "keyed tk_id (sp_tickets db)" and "desk_evolves ev db (snd (body db))"
  shows "desk_evolves ev db (snd (support_transaction body db))"
  using assms by (cases "body db"; cases "fst (body db)") (auto simp: support_transaction_def desk_same)

lemma report_evolves:
  assumes "keyed tk_id (sp_tickets db)" and "gen 1 \<notin> tk_id ` set (sp_tickets db)"
  shows "desk_evolves ev db (snd (provisionReportWithTicket profile gen now input c db))"
    and "desk_evolves ev db (snd (provisionSafetyIssueWithTicket profile gen now input c db))"
proof -
  have e: "desk_evolves ev db db2 = desk_evolves ev db1 db2" if "sp_tickets db1 = sp_tickets db" "sp_csats db1 = sp_csats db" for db1 db2
    using that by (simp add: desk_evolves_def)
  have r: "desk_evolves ev db (snd (ensureTicketForReport profile gen now r c db1))"
    "desk_evolves ev db (snd (ensureTicketForSafetyIssue profile gen now r c db1))"
    if "sp_tickets db1 = sp_tickets db" "sp_csats db1 = sp_csats db" for db1 r
    using ensure_report_evolves [of db1 gen ev profile now r c] e [OF that] that assms by simp_all
  have p: "snd (case q of (Inl e, d) \<Rightarrow> (Inl e, d) | (Inr t, d) \<Rightarrow> (Inr (x, t), d)) = snd q"
    for q :: "support_ticket result \<times> support_db" and x :: trust_report
    by (cases q; cases "fst q") auto
  show "desk_evolves ev db (snd (provisionReportWithTicket profile gen now input c db))"
    unfolding provisionReportWithTicket_def
    by (rule transaction_evolves [OF assms(1)]) (simp add: createReport_def Let_def p r(1))
  show "desk_evolves ev db (snd (provisionSafetyIssueWithTicket profile gen now input c db))"
    unfolding provisionSafetyIssueWithTicket_def
    by (rule transaction_evolves [OF assms(1)]) (simp add: createSafetyIssue_def Let_def p r(2))
qed

lemma desk_updated_all:
  assumes "keyed tk_id (sp_tickets db)" and "\<And>t. ticket_moves ev t (f t)"
  shows "desk_evolves ev db (update_ticket i f db)"
proof (cases "find_where (\<lambda>x. tk_id x = i) (sp_tickets db)")
  case (Some t)
  show ?thesis using evolves_update [where f = f, OF assms(1) Some assms(2)] by (simp add: desk_evolves_def update_ticket_def)
next
  case None
  then have "update_where (\<lambda>x. tk_id x = i) f (sp_tickets db) = sp_tickets db"
    by (auto simp: update_where_def find_where_None intro: map_idI)
  then show ?thesis using assms(1) by (simp add: update_ticket_def desk_same)
qed

lemma update_report_frame [simp]:
  "sp_tickets (update_report safety i st db) = sp_tickets db" "sp_csats (update_report safety i st db) = sp_csats db"
  by (simp_all add: update_report_def)

lemma escalate_evolves:
  assumes "keyed tk_id (sp_tickets db)" and "gen 1 \<notin> tk_id ` set (sp_tickets db)"
  shows "desk_evolves ev db (snd (patchReportForAdmin profile gen now i safety st u db))"
proof -
  have e: "desk_evolves ev db (snd (escalate_body profile gen now safety row db))" for row
  proof -
    define q where "q = (case ticket_about safety (rp_id row) db of
              Some t \<Rightarrow> (Inr t, db)
            | None \<Rightarrow>
                (case find_conversation (rp_conversation_id row) (sp_stays db) of
                   None \<Rightarrow> (Inl (Server_Error ''Failed to ensure support ticket.''), db)
                 | Some conv \<Rightarrow>
                     if safety then ensureTicketForSafetyIssue profile gen now row conv db
                     else ensureTicketForReport profile gen now row conv db))"
    have q: "desk_evolves ev db (snd q)"
      using ensure_report_evolves [where gen = gen, OF assms]
      by (simp add: q_def desk_same assms(1) split: option.split)
    define raised where "raised = (\<lambda>(t :: support_ticket) d. update_report safety (rp_id row) ''ESCALATED''
        (if tk_priority t = TP_URGENT then d
         else update_ticket (tk_id t) (\<lambda>x. x\<lparr>tk_priority := TP_HIGH, tk_updated_at := now\<rparr>) d))"
    have k: "keyed tk_id (sp_tickets (snd q))" using q by (auto simp: desk_evolves_def dest: evolves_keyed)
    have "ticket_moves ev x (x\<lparr>tk_priority := TP_HIGH, tk_updated_at := now\<rparr>)" for x
      by (rule ticket_moves_trans [OF inert_moves(2) inert_moves(4)])
    then have "desk_evolves ev (snd q) (raised t (snd q))" for t
      using desk_updated_all [OF k, of ev] desk_same [OF k, of "snd q" ev] by (simp add: raised_def desk_evolves_def)
    then have m: "desk_evolves ev db (raised t (snd q))" for t by (rule desk_trans [OF q])
    have "snd (escalate_body profile gen now safety row db) = (case fst q of Inl _ \<Rightarrow> snd q | Inr t \<Rightarrow> raised t (snd q))"
      unfolding escalate_body_def q_def [symmetric] raised_def Let_def by (simp split: prod.split sum.split)
    then show ?thesis using m q by (simp split: sum.split)
  qed
  have t: "desk_evolves ev db (snd (support_transaction (escalate_body profile gen now safety row) db))" for row
    by (rule transaction_evolves [where body = "escalate_body profile gen now safety row", OF assms(1) e])
  have "desk_evolves ev db (snd (applyTrustStatus profile gen now safety row st u db))" for row
    using t [of row] by (auto simp: applyTrustStatus_def Let_def desk_same assms(1) desk_evolves_def evolves_refl split: prod.splits sum.splits)
  then show ?thesis
    by (cases "find_where (\<lambda>r. rp_id r = i) (if safety then sp_safety_issues db else sp_reports db)")
      (simp_all only: patchReportForAdmin_def option.case snd_conv desk_same [OF assms(1)])
qed

lemma note_tickets:
  "sp_tickets (snd (createNoteForAdmin n now i u body actor db)) = sp_tickets db"
  "sp_csats (snd (createNoteForAdmin n now i u body actor db)) = sp_csats db"
  by (simp_all add: createNoteForAdmin_def Let_def split: sum.split)

lemma rating_tickets: "sp_tickets (snd (submitCsatForUser u i input db)) = sp_tickets db"
  by (simp add: submitCsatForUser_def Let_def split: sum.split option.split)

lemma rating_row:
  assumes "sp_csats (snd (submitCsatForUser u i input db)) \<noteq> sp_csats db"
  obtains row t where "sp_csats (snd (submitCsatForUser u i input db)) = sp_csats db @ [row]"
    and "cs_ticket_id row \<notin> cs_ticket_id ` set (sp_csats db)" and "t \<in> set (sp_tickets db)" and "tk_id t = cs_ticket_id row"
    and "tk_status t = TS_CLOSED"
proof -
  let ?t = "find_where (\<lambda>t. tk_id t = i \<and> tk_requester_user_id t = u) (sp_tickets db)"
  obtain rating where g: "parseCsatRating (ci_rating input) ''Rating'' = Inr rating"
    using assms by (cases "parseCsatRating (ci_rating input) ''Rating''") (simp_all add: submitCsatForUser_def)
  obtain t where t: "?t = Some t"
    using assms by (cases ?t) (simp_all add: submitCsatForUser_def Let_def g split: if_splits)
  have c: "tk_status t = TS_CLOSED" using assms by (simp add: submitCsatForUser_def Let_def g t split: if_splits)
  have n: "find_where (\<lambda>c. cs_ticket_id c = i) (sp_csats db) = None"
    using assms by (cases "find_where (\<lambda>c. cs_ticket_id c = i) (sp_csats db)") (simp_all add: submitCsatForUser_def Let_def g t c split: sum.splits if_splits)
  have "\<exists>row. sp_csats (snd (submitCsatForUser u i input db)) = sp_csats db @ [row] \<and> cs_ticket_id row = i"
    using assms by (cases "ci_agent_rating input") (auto simp: submitCsatForUser_def Let_def insert_row_def g t c n split: sum.splits if_splits)
  then obtain row where r: "sp_csats (snd (submitCsatForUser u i input db)) = sp_csats db @ [row]" "cs_ticket_id row = i" by blast
  show ?thesis
    by (rule that [OF r(1) _ _ _ c]) (use r(2) n find_where_Some [OF t] in \<open>auto simp: find_where_None\<close>)
qed

section \<open>Steps and runs\<close>

inductive desk_step :: "desk_event \<Rightarrow> support_db \<Rightarrow> support_db \<Rightarrow> bool" where
  opened: "gen 1 \<notin> tk_id ` set (sp_tickets db) \<Longrightarrow> desk_step Opened db (snd (createTicketForUser profile gen now u dto opts db))"
| patched: "desk_step Patched db (snd (patchForAdmin authz profile now i p u actor db))"
| reopened: "desk_step Reopened db (snd (reopenForAdmin now i u why actor db))"
| staff_replied: "desk_step Staff_Replied db (snd (sendAdminMessage gen now i u body actor db))"
| customer_wrote: "desk_step Customer_Wrote db (snd (snd (sendText identity gen now i u body cid (bk, db))))"
| assigned: "desk_step Assigned db (attemptAutoAssignment coll env roster authz now i db)"
| rated: "desk_step Rated db (snd (submitCsatForUser u i input db))"
| noted: "desk_step Noted db (snd (createNoteForAdmin n now i u body actor db))"
| reported: "gen 1 \<notin> tk_id ` set (sp_tickets db) \<Longrightarrow>
    desk_step Reported db (snd (provisionReportWithTicket profile gen now report c db))"
| safety_reported: "gen 1 \<notin> tk_id ` set (sp_tickets db) \<Longrightarrow>
    desk_step Reported db (snd (provisionSafetyIssueWithTicket profile gen now report c db))"
| escalated: "gen 1 \<notin> tk_id ` set (sp_tickets db) \<Longrightarrow>
    desk_step Escalated db (snd (patchReportForAdmin profile gen now i safety st u db))"

inductive desk_run :: "desk_event list \<Rightarrow> support_db \<Rightarrow> support_db \<Rightarrow> bool" where
  no_event: "desk_run [] db db"
| one_more: "desk_run evs db db1 \<Longrightarrow> desk_step ev db1 db2 \<Longrightarrow> desk_run (evs @ [ev]) db db2"

lemma step_evolves: "desk_step ev db db' \<Longrightarrow> keyed tk_id (sp_tickets db) \<Longrightarrow> evolves ev (sp_tickets db) (sp_tickets db')"
  by (induction rule: desk_step.induct)
    (use create_evolves patch_evolves reopen_evolves staff_reply_evolves customer_text_evolves assign_evolves report_evolves
       escalate_evolves in \<open>auto simp: desk_evolves_def note_tickets rating_tickets evolves_refl\<close>)

lemma step_ratings:
  assumes "desk_step ev db db'" and "keyed tk_id (sp_tickets db)" and "sp_csats db' \<noteq> sp_csats db"
  obtains row t where "sp_csats db' = sp_csats db @ [row]" and "cs_ticket_id row \<notin> cs_ticket_id ` set (sp_csats db)"
    and "t \<in> set (sp_tickets db)" and "tk_id t = cs_ticket_id row" and "tk_status t = TS_CLOSED"
  using assms
proof (induction rule: desk_step.induct)
  case (rated db u i input)
  show ?case by (rule rating_row [OF rated(3)]) (rule rated(1))
qed (use create_evolves patch_evolves reopen_evolves staff_reply_evolves customer_text_evolves assign_evolves report_evolves
       escalate_evolves in \<open>auto simp: desk_evolves_def note_tickets\<close>)

text \<open>Reopening allows every change the other events make, and those events allow the same.\<close>

definition run_event :: "desk_event list \<Rightarrow> desk_event" where
  "run_event evs = (if Reopened \<in> set evs then Reopened else Patched)"

lemma evolves_weaken: "evolves ev a b \<Longrightarrow> (ev = Reopened \<Longrightarrow> ev' = Reopened) \<Longrightarrow> evolves ev' a b"
proof -
  assume a: "evolves ev a b" "ev = Reopened \<Longrightarrow> ev' = Reopened"
  have "ticket_moves ev t t' \<Longrightarrow> ticket_moves ev' t t'" for t t' using a(2) by (auto simp: ticket_moves_def)
  then show ?thesis using a(1) unfolding evolves_def by blast
qed

lemma run_evolves: "desk_run evs db db' \<Longrightarrow> keyed tk_id (sp_tickets db) \<Longrightarrow> evolves (run_event evs) (sp_tickets db) (sp_tickets db')"
proof (induction rule: desk_run.induct)
  case (no_event db)
  then show ?case by (rule evolves_refl)
next
  case (one_more evs db db1 ev db2)
  have "evolves (run_event (evs @ [ev])) (sp_tickets db) (sp_tickets db1)"
    using one_more by (intro evolves_weaken [OF one_more.IH]) (auto simp: run_event_def split: if_splits)
  moreover have "evolves (run_event (evs @ [ev])) (sp_tickets db1) (sp_tickets db2)"
    using evolves_keyed [OF one_more.IH] one_more.prems
    by (intro evolves_weaken [OF step_evolves [OF one_more.hyps(2)]]) (auto simp: run_event_def)
  ultimately show ?case by (rule evolves_trans)
qed

definition ratings_ok :: "support_db \<Rightarrow> bool" where
  "ratings_ok db \<longleftrightarrow> keyed cs_ticket_id (sp_csats db) \<and>
     (\<forall>c\<in>set (sp_csats db). \<exists>t\<in>set (sp_tickets db). tk_id t = cs_ticket_id c \<and> tk_resolved_at t \<noteq> None)"

lemma step_ratings_ok:
  assumes s: "desk_step ev db db'" and k: "keyed tk_id (sp_tickets db)" and t: "\<forall>t\<in>set (sp_tickets db). ticket_ok t" and r: "ratings_ok db"
  shows "ratings_ok db'"
proof -
  note e = step_evolves [OF s k]
  have later: "\<exists>t'\<in>set (sp_tickets db'). tk_id t' = i \<and> tk_resolved_at t' \<noteq> None"
    if "\<exists>t\<in>set (sp_tickets db). tk_id t = i \<and> tk_resolved_at t \<noteq> None" for i
    using that e unfolding evolves_def ticket_moves_def kept_def by metis
  show ?thesis
  proof (cases "sp_csats db' = sp_csats db")
    case True
    then show ?thesis using r later by (simp add: ratings_ok_def)
  next
    case False
    obtain row t0 where c: "sp_csats db' = sp_csats db @ [row]" "cs_ticket_id row \<notin> cs_ticket_id ` set (sp_csats db)"
      "t0 \<in> set (sp_tickets db)" "tk_id t0 = cs_ticket_id row" "tk_status t0 = TS_CLOSED"
      by (rule step_ratings [OF s k False])
    have "tk_resolved_at t0 \<noteq> None" using t c(3,5) by (auto simp: ticket_ok_def)
    then show ?thesis using r later c(1-4) by (auto simp: ratings_ok_def keyed_def)
  qed
qed

lemma run_ratings_ok:
  "desk_run evs db db' \<Longrightarrow> keyed tk_id (sp_tickets db) \<Longrightarrow> \<forall>t\<in>set (sp_tickets db). ticket_ok t \<Longrightarrow> ratings_ok db \<Longrightarrow> ratings_ok db'"
proof (induction rule: desk_run.induct)
  case (one_more evs db db1 ev db2)
  have "keyed tk_id (sp_tickets db1)" "\<forall>t\<in>set (sp_tickets db1). ticket_ok t"
    using run_evolves [OF one_more.hyps(1) one_more.prems(1)] one_more.prems(2) by (simp_all add: evolves_def)
  then show ?case using one_more by (intro step_ratings_ok [OF one_more.hyps(2)]) auto
qed

section \<open>Properties\<close>

text \<open>
  C13: Whatever customers, agents, administrators and the automatic assignment do, and in whatever order, no two
  tickets share an id, exactly the closed tickets have a closing time, resolved and closed ones a resolution
  time, no ticket is rated twice and every rated ticket exists and was once resolved.
\<close>

theorem desk_tickets_consistent:
  assumes "sp_tickets db0 = []" and "sp_csats db0 = []" and "desk_run evs db0 db"
  shows "keyed tk_id (sp_tickets db) \<and>
    (\<forall>t\<in>set (sp_tickets db).
      (tk_status t = TS_CLOSED \<longleftrightarrow> tk_closed_at t \<noteq> None) \<and>
      (tk_status t \<in> {TS_RESOLVED, TS_CLOSED} \<longrightarrow> tk_resolved_at t \<noteq> None)) \<and>
    keyed cs_ticket_id (sp_csats db) \<and>
    (\<forall>c\<in>set (sp_csats db). \<exists>t\<in>set (sp_tickets db). tk_id t = cs_ticket_id c \<and> tk_resolved_at t \<noteq> None)"
proof -
  have k: "keyed tk_id (sp_tickets db0)" "ratings_ok db0" using assms(1,2) by (simp_all add: keyed_def ratings_ok_def)
  have "evolves (run_event evs) (sp_tickets db0) (sp_tickets db)" by (rule run_evolves [OF assms(3) k(1)])
  then have "keyed tk_id (sp_tickets db)" "\<forall>t\<in>set (sp_tickets db). ticket_ok t" using assms(1) by (simp_all add: evolves_def)
  moreover have "ratings_ok db" using run_ratings_ok [OF assms(3) k(1) _ k(2)] assms(1) by simp
  ultimately show ?thesis by (simp add: ratings_ok_def ticket_ok_def)
qed

text \<open>
  C14: In every run the ticket of a customer stays that customer's, with its number, side and conversation; the times of
  its first answer and of its first resolution and the agent who is rated for it stay once they are set; and a
  closed ticket stays closed, with its closing time, until an administrator reopens it.
\<close>

theorem ticket_history_kept:
  assumes "sp_tickets db0 = []" and "desk_run before db0 db" and "desk_run after db db'" and "t \<in> set (sp_tickets db)"
  shows "\<exists>t'\<in>set (sp_tickets db'). tk_id t' = tk_id t \<and>
    tk_ticket_number t' = tk_ticket_number t \<and> tk_requester_user_id t' = tk_requester_user_id t \<and> tk_party t' = tk_party t \<and>
    tk_conversation_id t' = tk_conversation_id t \<and>
    (\<forall>x. tk_first_admin_response_at t = Some x \<longrightarrow> tk_first_admin_response_at t' = Some x) \<and>
    (\<forall>x. tk_resolved_at t = Some x \<longrightarrow> tk_resolved_at t' = Some x) \<and>
    (\<forall>x. tk_review_agent_id t = Some x \<longrightarrow> tk_review_agent_id t' = Some x) \<and>
    (tk_status t = TS_CLOSED \<and> Reopened \<notin> set after \<longrightarrow> tk_status t' = TS_CLOSED \<and> tk_closed_at t' = tk_closed_at t)"
proof -
  have "evolves (run_event before) (sp_tickets db0) (sp_tickets db)"
    by (rule run_evolves [OF assms(2)]) (simp add: keyed_def assms(1))
  then have d: "keyed tk_id (sp_tickets db)" "ticket_ok t" using assms(1,4) by (simp_all add: evolves_def)
  obtain t' where t': "t' \<in> set (sp_tickets db')" "ticket_moves (run_event after) t t'"
    using run_evolves [OF assms(3) d(1)] assms(4) by (auto simp: evolves_def)
  show ?thesis
    by (rule bexI [OF _ t'(1)]) (use t'(2) d(2) in \<open>simp add: ticket_moves_def kept_def run_event_def split: if_splits\<close>)
qed

lemma foreign_access:
  assumes "ac_role actor = Staff_Agent" and "\<forall>t. find_ticket i db = Some t \<longrightarrow> tk_assigned_admin_id t \<noteq> Some (ac_user_id actor)"
  shows "assertCanAccessTicket (find_ticket i db) actor = Inl no_ticket"
  using assms by (cases "find_ticket i db") (auto simp: assertCanAccessTicket_def no_ticket_def)

text \<open>
  C17: An agent who is not assigned to a ticket cannot change it, answer in it, add a note to it or reopen it: nothing
  is written, and each answer is the one for a ticket that does not exist, so it does not tell whether this one does.
\<close>

theorem agents_only_own:
  assumes "ac_role actor = Staff_Agent" and "find_ticket i db = Some t" and "tk_assigned_admin_id t \<noteq> Some (ac_user_id actor)"
    and "find_ticket missing db = None"
  shows "(\<exists>e. patchForAdmin authz profile now i p u actor db = (Inl e, db) \<and> patchForAdmin authz profile now missing p u actor db = (Inl e, db)) \<and>
    (\<exists>e. sendAdminMessage gen now i u body actor db = (Inl e, db) \<and> sendAdminMessage gen now missing u body actor db = (Inl e, db)) \<and>
    (\<exists>e. createNoteForAdmin n now i u body actor db = (Inl e, db) \<and> createNoteForAdmin n now missing u body actor db = (Inl e, db)) \<and>
    (\<exists>e. reopenForAdmin now i u why actor db = (Inl e, db) \<and> reopenForAdmin now missing u why actor db = (Inl e, db))"
proof (intro conjI)
  have a: "assertCanAccessTicket (find_ticket j db) actor = Inl no_ticket" if "j \<in> {i, missing}" for j
    using that assms(2-4) by (intro foreign_access [OF assms(1)]) auto
  have b: "support_transaction (patch_body profile now j p actor) db = (Inl no_ticket, db)"
    "support_transaction (send_body (gen 0) now j u (js_trim body) actor) db = (Inl no_ticket, db)" if "j \<in> {i, missing}" for j
    by (simp_all add: support_transaction_def patch_body_def send_body_def a [OF that])
  show "\<exists>e. patchForAdmin authz profile now i p u actor db = (Inl e, db) \<and> patchForAdmin authz profile now missing p u actor db = (Inl e, db)"
    by (simp add: patchForAdmin_def b split: sum.split option.split)
  show "\<exists>e. sendAdminMessage gen now i u body actor db = (Inl e, db) \<and> sendAdminMessage gen now missing u body actor db = (Inl e, db)"
    by (simp add: sendAdminMessage_def Let_def b)
  show "\<exists>e. createNoteForAdmin n now i u body actor db = (Inl e, db) \<and> createNoteForAdmin n now missing u body actor db = (Inl e, db)"
    by (simp add: createNoteForAdmin_def Let_def a)
  show "\<exists>e. reopenForAdmin now i u why actor db = (Inl e, db) \<and> reopenForAdmin now missing u why actor db = (Inl e, db)"
    by (simp add: reopenForAdmin_def assms(1))
qed

section \<open>Examples\<close>

text \<open>A guest asks, an administrator closes the ticket, and the guest rates the answer.\<close>

definition the_admin :: staff_actor where
  "the_admin = \<lparr>ac_user_id = ''root'', ac_role = Staff_Admin\<rparr>"

definition closing :: ticket_patch where
  "closing = \<lparr>pt_status = Some TS_CLOSED, pt_priority = None, pt_assigned_admin_id = None, pt_resolution_type = None\<rparr>"

definition a_question :: create_ticket_dto where
  "a_question = \<lparr>ct_category = TC_PAYMENT, ct_subject = ''s'', ct_message = ''m'', ct_booking_id = None, ct_listing_id = None,
     ct_report_id = None, ct_safety_issue_id = None, ct_client_request_id = None\<rparr>"

definition empty_desk :: support_db where
  "empty_desk = a_desk\<lparr>sp_tickets := []\<rparr>"

definition asked_desk :: support_db where
  "asked_desk = snd (createTicketForUser (\<lambda>_. None) key_ids 5 ''g1'' a_question
     \<lparr>to_party = None, to_customer_name = None, to_priority = None\<rparr> empty_desk)"

definition closed_desk :: support_db where
  "closed_desk = snd (patchForAdmin (authz_only []) (\<lambda>_. None) 6 ''k1'' closing ''root'' the_admin asked_desk)"

definition rated_desk :: support_db where
  "rated_desk = snd (submitCsatForUser ''g1'' ''k1''
     \<lparr>ci_rating = Some 5, ci_comment = None, ci_agent_rating = None, ci_problem_solved = True\<rparr> closed_desk)"

lemma desk_runs:
  "desk_run [] empty_desk empty_desk" "desk_run [Opened] empty_desk asked_desk"
  "desk_run [Opened, Patched] empty_desk closed_desk" "desk_run [Rated] closed_desk rated_desk"
  "desk_run [Opened, Patched, Rated] empty_desk rated_desk"
proof -
  show 0: "desk_run [] empty_desk empty_desk" by (rule no_event)
  have "desk_step Opened empty_desk asked_desk" unfolding asked_desk_def by (rule opened) (simp add: empty_desk_def)
  from one_more [OF 0 this] show 1: "desk_run [Opened] empty_desk asked_desk" by simp
  have "desk_step Patched asked_desk closed_desk" unfolding closed_desk_def by (rule patched)
  from one_more [OF 1 this] show 2: "desk_run [Opened, Patched] empty_desk closed_desk" by simp
  have r: "desk_step Rated closed_desk rated_desk" unfolding rated_desk_def by (rule rated)
  from one_more [OF no_event this] show "desk_run [Rated] closed_desk rated_desk" by simp
  from one_more [OF 2 r] show "desk_run [Opened, Patched, Rated] empty_desk rated_desk" by simp
qed

theorem desk_tickets_consistent_witness:
  "map cs_ticket_id (sp_csats rated_desk) = [''k1''] \<and> (\<exists>t\<in>set (sp_tickets rated_desk). tk_id t = ''k1'' \<and> tk_resolved_at t \<noteq> None)"
proof -
  have c: "map cs_ticket_id (sp_csats rated_desk) = [''k1'']" by code_simp
  have e: "sp_tickets empty_desk = []" "sp_csats empty_desk = []" by (simp_all add: empty_desk_def a_desk_def)
  have "\<forall>c\<in>set (sp_csats rated_desk). \<exists>t\<in>set (sp_tickets rated_desk). tk_id t = cs_ticket_id c \<and> tk_resolved_at t \<noteq> None"
    using desk_tickets_consistent [OF e desk_runs(5)] by blast
  then show ?thesis using c by fastforce
qed

theorem ticket_history_kept_witness:
  "\<exists>t\<in>set (sp_tickets rated_desk). tk_status t = TS_CLOSED \<and> tk_closed_at t = Some 6"
proof -
  have "map (\<lambda>t. (tk_status t, tk_closed_at t)) (sp_tickets closed_desk) = [(TS_CLOSED, Some 6)]" by code_simp
  then obtain t where t: "t \<in> set (sp_tickets closed_desk)" "tk_status t = TS_CLOSED" "tk_closed_at t = Some 6" by auto
  have e: "sp_tickets empty_desk = []" by (simp add: empty_desk_def)
  show ?thesis using ticket_history_kept [OF e desk_runs(3,4) t(1)] t(2,3) by auto
qed

theorem agents_only_own_witness:
  "\<exists>e. sendAdminMessage key_ids 5 ''1'' ''a'' ''hi'' \<lparr>ac_user_id = ''a'', ac_role = Staff_Agent\<rparr> a_desk = (Inl e, a_desk)"
proof -
  have "find_ticket ''1'' a_desk = Some (a_ticket ''1'')" "find_ticket ''2'' a_desk = None" by code_simp+
  then show ?thesis
    using agents_only_own [of "\<lparr>ac_user_id = ''a'', ac_role = Staff_Agent\<rparr>" "''1''" a_desk "a_ticket ''1''" "''2''"]
    by (simp add: a_ticket_def) blast
qed

end
