(* ===== verification/ConversationRepair.thy ===== *)
theory ConversationRepair
  imports Messages
begin

text \<open>
  \<^verbatim>\<open>messaging/conversation-repair.service.ts\<close>: what opening the inbox repairs. Messages whose conversation is
  gone are given one again or joined to the thread of their booking, several threads of a booking are merged
  into the oldest, and confirmed bookings without a thread get one. Tables are kept in the order their rows
  were created, which is the order \<^verbatim>\<open>created_at\<close> of conversations.
\<close>

section \<open>Merging two threads\<close>

definition thread :: "uuid \<Rightarrow> stays_db \<Rightarrow> message list" where
  "thread i db = sort_key mg_conversation_sequence (filter (\<lambda>m. mg_conversation_id m = i) (messages db))"

fun renumber :: "uuid \<Rightarrow> int \<Rightarrow> message list \<Rightarrow> message list \<Rightarrow> message list" where
  "renumber target n [] rows = rows"
| "renumber target n (m # ms) rows =
     renumber target (n + 1) ms
       (update_where (\<lambda>r. mg_id r = mg_id m) (\<lambda>r. r\<lparr>mg_conversation_id := target, mg_conversation_sequence := n + 1\<rparr>) rows)"

definition touch_last :: "uuid \<Rightarrow> stays_db \<Rightarrow> stays_db" where
  "touch_last i db =
     (case latest mg_conversation_sequence (filter (\<lambda>m. mg_conversation_id m = i) (messages db)) of
        None \<Rightarrow> db
      | Some l \<Rightarrow> update_conversation i
          (\<lambda>c. c\<lparr>cv_last_message_id := Some (mg_id l), cv_last_message_sequence := mg_conversation_sequence l,
                 cv_last_message_preview := Some (formatInboxPreview (mg_type l) (mg_body l) (mg_metadata l) None None),
                 cv_last_message_at := Some (mg_created_at l)\<rparr>) db)"

definition delete_conversation :: "uuid \<Rightarrow> stays_db \<Rightarrow> stays_db" where
  "delete_conversation i db = db\<lparr>conversations := delete_where (\<lambda>c. cv_id c = i) (conversations db)\<rparr>"

definition mergeMessagesIntoConversation :: "uuid \<Rightarrow> uuid \<Rightarrow> stays_db \<Rightarrow> stays_db" where
  "mergeMessagesIntoConversation fromConversationId toConversationId db =
     (let orphanMessages = thread fromConversationId db
      in if orphanMessages = [] then delete_conversation fromConversationId db
         else delete_conversation fromConversationId (touch_last toConversationId
           (db\<lparr>messages := renumber toConversationId (max_sequence toConversationId db) orphanMessages (messages db)\<rparr>)))"

section \<open>Several threads of one booking\<close>

definition mine :: "uuid \<Rightarrow> conversation \<Rightarrow> bool" where
  "mine userId c \<longleftrightarrow> cv_guest_user_id c = Some userId \<or> cv_host_user_id c = Some userId"

definition booking_threads :: "uuid \<Rightarrow> uuid \<Rightarrow> conversation list \<Rightarrow> uuid list" where
  "booking_threads userId b rows = map cv_id (filter (\<lambda>c. cv_booking_id c = Some b \<and> mine userId c) rows)"

definition duplicate_bookings :: "uuid \<Rightarrow> conversation list \<Rightarrow> uuid list" where
  "duplicate_bookings userId rows =
     filter (\<lambda>b. length (booking_threads userId b rows) > 1)
       (remdups (List.map_filter cv_booking_id (filter (mine userId) rows)))"

definition merge_all :: "uuid list \<Rightarrow> stays_db \<Rightarrow> stays_db" where
  "merge_all ids db = fold (\<lambda>dropId. mergeMessagesIntoConversation dropId (hd ids)) (tl ids) db"

definition dedupeDuplicateBookingThreads :: "uuid \<Rightarrow> stays_db \<Rightarrow> stays_db" where
  "dedupeDuplicateBookingThreads userId db =
     fold (\<lambda>ids. merge_all ids)
       (map (\<lambda>b. booking_threads userId b (conversations db)) (duplicate_bookings userId (conversations db))) db"

section \<open>Messages without a conversation\<close>

definition is_hex_dash :: "char \<Rightarrow> bool" where
  "is_hex_dash c \<longleftrightarrow> c = CHR ''-'' \<or> js_lower_char c \<in> set ''0123456789abcdef''"

text \<open>
  \<^verbatim>\<open>/<pre>([0-9a-f-]{36})<post>/i.exec(s)\<close>: the 36 characters after the first place where the pattern matches.
\<close>

definition id_here :: "string \<Rightarrow> string \<Rightarrow> string \<Rightarrow> string option" where
  "id_here pre post s =
     (let i = take 36 (drop (length pre) s)
      in if js_lower (take (length pre) s) = pre \<and> length i = 36 \<and> list_all is_hex_dash i \<and>
            take (length post) (drop (length pre + 36) s) = post
         then Some i else None)"

fun exec_id :: "string \<Rightarrow> string \<Rightarrow> string \<Rightarrow> string option" where
  "exec_id pre post [] = None"
| "exec_id pre post (c # s) = (case id_here pre post (c # s) of Some i \<Rightarrow> Some i | None \<Rightarrow> exec_id pre post s)"

fun first_some :: "('a \<Rightarrow> 'b option) \<Rightarrow> 'a list \<Rightarrow> 'b option" where
  "first_some f [] = None"
| "first_some f (x # xs) = (case f x of Some y \<Rightarrow> Some y | None \<Rightarrow> first_some f xs)"

definition action_booking :: "json \<Rightarrow> string option" where
  "action_booking a =
     (case a of
        JObj fs \<Rightarrow>
          (case map_of fs ''url'' of Some (JStr url) \<Rightarrow> exec_id ''/bookings/'' [] url | _ \<Rightarrow> None)
      | _ \<Rightarrow> None)"

definition resolveBookingIdFromMessages :: "message list \<Rightarrow> uuid option" where
  "resolveBookingIdFromMessages ms =
     (case first_some (\<lambda>m. case map_of (mg_metadata m) ''bookingId'' of
              Some (JStr s) \<Rightarrow> if s \<noteq> [] then Some s else None | _ \<Rightarrow> None) ms of
        Some b \<Rightarrow> Some b
      | None \<Rightarrow> first_some (\<lambda>m. case map_of (mg_metadata m) ''actions'' of
              Some (JArr actions) \<Rightarrow> first_some action_booking actions | _ \<Rightarrow> None) ms)"

definition listing_in_message :: "message \<Rightarrow> string option" where
  "listing_in_message m =
     (case map_of (mg_metadata m) ''listingId'' of
        Some (JStr s) \<Rightarrow> Some s
      | _ \<Rightarrow>
          (case map_of (mg_metadata m) ''snapshot'' of
             Some (JObj snapshot) \<Rightarrow>
               (case map_of snapshot ''primaryPhotoUrl'' of Some (JStr url) \<Rightarrow> exec_id ''/listings/'' ''/'' url | _ \<Rightarrow> None)
           | _ \<Rightarrow> None))"

definition resolveBookingIdFromParticipants :: "message list \<Rightarrow> stays_db \<Rightarrow> uuid option" where
  "resolveBookingIdFromParticipants ms db =
     (let senderIds = unique_ids (List.map_filter mg_sender_id ms);
          listingId = first_some listing_in_message ms
      in if senderIds = [] \<or> \<not> truthy listingId then None
         else let candidates = take 20 (sort_key (\<lambda>b. - bk_created_at b)
                    (filter (\<lambda>b. Some (bk_listing_id b) = listingId) (bookings db)))
              in first_some (\<lambda>s. map_option bk_id (find_where
                   (\<lambda>b. bk_status b \<in> set MESSAGEABLE_BOOKING_STATUSES \<and> bk_guest_user_id b = s) candidates)) senderIds)"

text \<open>The \<^verbatim>\<open>INSERT\<close> names no counters, levels or block flags: they take the defaults of their columns.\<close>

definition recovered_conversation :: "uuid \<Rightarrow> booking \<Rightarrow> listing \<Rightarrow> reservation_snapshot \<Rightarrow> message \<Rightarrow> conversation" where
  "recovered_conversation i b l snapshot lastMessage =
     (new_conversation i b l snapshot)
       \<lparr>cv_last_message_id := Some (mg_id lastMessage),
        cv_last_message_sequence := mg_conversation_sequence lastMessage,
        cv_last_message_preview :=
          Some (formatInboxPreview (mg_type lastMessage) (mg_body lastMessage) (mg_metadata lastMessage) None None),
        cv_last_message_at := Some (mg_created_at lastMessage)\<rparr>"

definition recover_thread ::
    "(uuid \<Rightarrow> string option) \<Rightarrow> uuid \<Rightarrow> booking \<Rightarrow> listing \<Rightarrow> stays_db \<Rightarrow> stays_db" where
  "recover_thread identity conversationId b l db =
     (let hostName = resolveHostDisplayName identity (ls_host_user_id l) db;
          guestName = resolveGuestDisplayName identity (bk_id b) None db;
          row = recovered_conversation conversationId b l (buildSnapshot b l hostName guestName) (last (thread conversationId db))
      in if find_conversation conversationId db = None
         then db\<lparr>conversations := insert_row row (conversations db)\<rparr> else db)"

definition repairOrphanThread :: "(uuid \<Rightarrow> string option) \<Rightarrow> uuid \<Rightarrow> uuid \<Rightarrow> stays_db \<Rightarrow> stays_db" where
  "repairOrphanThread identity conversationId userId db =
     (let ms = thread conversationId db
      in if ms = [] then db
         else (case or_else (resolveBookingIdFromMessages ms) (resolveBookingIdFromParticipants ms db) of
           None \<Rightarrow> db
         | Some bookingId \<Rightarrow>
             if bookingId = [] then db
             else (case find_booking bookingId db of
               None \<Rightarrow> db
             | Some b \<Rightarrow>
                 (case find_listing (bk_listing_id b) db of
                    None \<Rightarrow> db
                  | Some l \<Rightarrow>
                      if ls_host_user_id l = [] then db
                      else if bk_guest_user_id b \<noteq> userId \<and> ls_host_user_id l \<noteq> userId then db
                      else (case conversation_of_booking bookingId db of
                        Some existing \<Rightarrow>
                          if cv_id existing \<noteq> conversationId
                          then mergeMessagesIntoConversation conversationId (cv_id existing) db else db
                      | None \<Rightarrow> recover_thread identity conversationId b l db)))))"

definition orphan_ids :: "stays_db \<Rightarrow> uuid list" where
  "orphan_ids db =
     remdups (filter (\<lambda>i. find_conversation i db = None) (map mg_conversation_id (messages db)))"

definition repairOrphanedThreads :: "(uuid \<Rightarrow> string option) \<Rightarrow> uuid \<Rightarrow> stays_db \<Rightarrow> stays_db" where
  "repairOrphanedThreads identity userId db =
     fold (\<lambda>i. repairOrphanThread identity i userId) (orphan_ids db) db"

section \<open>Bookings without a thread\<close>

definition messageable_bookings :: "uuid \<Rightarrow> stays_db \<Rightarrow> uuid list" where
  "messageable_bookings userId db =
     (let hostListingIds = map ls_id (filter (\<lambda>l. ls_host_user_id l = userId) (listings db));
          guestBookings = filter (\<lambda>b. bk_guest_user_id b = userId) (bookings db);
          hostBookings = filter (\<lambda>b. bk_listing_id b \<in> set hostListingIds) (bookings db)
      in map bk_id (filter (\<lambda>b. bk_status b \<in> set MESSAGEABLE_BOOKING_STATUSES) (guestBookings @ hostBookings)))"

text \<open>\<open>gen k\<close> are the ids of the rows the \<open>k\<close>-th booking needs; a failure is only logged.\<close>

fun ensure_each ::
    "(uuid \<Rightarrow> string option) \<Rightarrow> (nat \<Rightarrow> nat \<Rightarrow> uuid) \<Rightarrow> time \<Rightarrow> uuid \<Rightarrow> nat \<Rightarrow> uuid list \<Rightarrow> stays_db \<Rightarrow> stays_db" where
  "ensure_each identity gen now userId k [] db = db"
| "ensure_each identity gen now userId k (b # bs) db =
     ensure_each identity gen now userId (Suc k) bs (snd (ensureForBooking identity (gen k) now b userId db))"

definition ensureMissingBookingThreads ::
    "(uuid \<Rightarrow> string option) \<Rightarrow> (nat \<Rightarrow> nat \<Rightarrow> uuid) \<Rightarrow> time \<Rightarrow> uuid \<Rightarrow> stays_db \<Rightarrow> stays_db" where
  "ensureMissingBookingThreads identity gen now userId db =
     ensure_each identity gen now userId 0
       (filter (\<lambda>b. b \<notin> set (List.map_filter cv_booking_id (conversations db))) (messageable_bookings userId db)) db"

definition repairForUser ::
    "(uuid \<Rightarrow> string option) \<Rightarrow> (nat \<Rightarrow> nat \<Rightarrow> uuid) \<Rightarrow> time \<Rightarrow> uuid \<Rightarrow> stays_db \<Rightarrow> stays_db" where
  "repairForUser identity gen now userId db =
     ensureMissingBookingThreads identity gen now userId
       (dedupeDuplicateBookingThreads userId (repairOrphanedThreads identity userId db))"

section \<open>What a merge does to the messages\<close>

text \<open>What a message says: everything but the thread it is in and its place there.\<close>

definition content :: "message \<Rightarrow> message" where
  "content m = m\<lparr>mg_conversation_id := [], mg_conversation_sequence := 0\<rparr>"

fun moved :: "uuid \<Rightarrow> int \<Rightarrow> message list \<Rightarrow> message list" where
  "moved target n [] = []"
| "moved target n (m # ms) = m\<lparr>mg_conversation_id := target, mg_conversation_sequence := n + 1\<rparr> # moved target (n + 1) ms"

lemma moved_facts:
  "map mg_id (moved target n ms) = map mg_id ms"
  "r \<in> set (moved target n ms) \<Longrightarrow> n < mg_conversation_sequence r"
  by (induction ms arbitrary: n) force+

lemma moved_sorted: "sorted_wrt (<) (map mg_conversation_sequence (moved target n ms))"
  by (induction ms arbitrary: n) (auto dest: moved_facts(2))

lemma sort_key_unique:
  fixes f :: "'a \<Rightarrow> 'b :: linorder"
  assumes "mset ys = mset xs" and "sorted_wrt (<) (map f ys)"
  shows "sort_key f xs = ys"
proof (rule properties_for_sort_key [OF assms(1)])
  show "sorted (map f ys)" using assms(2) by (rule strict_sorted_imp_sorted)
  have d: "distinct (map f ys)" using assms(2) by (simp add: strict_sorted_iff)
  have dx: "distinct (map f xs)" using d assms(1) by (metis mset_eq_imp_distinct_iff mset_map)
  have one: "filter (\<lambda>x. f k = f x) zs = [k]" if "k \<in> set zs" "distinct (map f zs)" for k zs
    using that by (induction zs) (auto simp: filter_empty_conv image_iff)
  show "filter (\<lambda>x. f k = f x) ys = filter (\<lambda>x. f k = f x) xs" if "k \<in> set ys" for k
    using one [OF that d] one [OF _ dx, of k] that assms(1) by (metis set_mset_mset)
qed

lemma update_one:
  assumes "keyed mg_id rows" and "m \<in> set rows" and "\<And>r. mg_id (f r) = mg_id r"
  obtains xs ys where "rows = xs @ m # ys" and "update_where (\<lambda>r. mg_id r = mg_id m) f rows = xs @ f m # ys"
    and "\<And>r. r \<in> set xs \<union> set ys \<Longrightarrow> mg_id r \<noteq> mg_id m"
proof -
  obtain xs ys where r: "rows = xs @ m # ys" using assms(2) by (auto dest: split_list)
  have n: "mg_id r \<noteq> mg_id m" if "r \<in> set xs \<union> set ys" for r using assms(1) that by (auto simp: keyed_def r image_iff)
  have "update_where (\<lambda>r. mg_id r = mg_id m) f zs = zs" if "\<And>r. r \<in> set zs \<Longrightarrow> mg_id r \<noteq> mg_id m" for zs
    using that by (rule update_where_none)
  then have "update_where (\<lambda>r. mg_id r = mg_id m) f rows = xs @ f m # ys"
    using n by (simp add: r update_where_def)
  then show thesis using r n by (intro that)
qed

lemma renumber_rows:
  assumes "keyed mg_id rows" and "set ms \<subseteq> set rows" and "distinct (map mg_id ms)"
    and "\<forall>m\<in>set ms. mg_conversation_id m \<noteq> target"
  shows "map content (renumber target n ms rows) = map content rows \<and>
    mset (filter (\<lambda>r. mg_conversation_id r = target) (renumber target n ms rows)) =
      mset (filter (\<lambda>r. mg_conversation_id r = target) rows) + mset (moved target n ms) \<and>
    (\<forall>i. i \<noteq> target \<longrightarrow> filter (\<lambda>r. mg_conversation_id r = i) (renumber target n ms rows) =
      filter (\<lambda>r. mg_conversation_id r = i \<and> r \<notin> set ms) rows)"
  using assms
proof (induction ms arbitrary: n rows)
  case (Cons m ms)
  let ?f = "\<lambda>r. r\<lparr>mg_conversation_id := target, mg_conversation_sequence := n + 1\<rparr>"
  obtain xs ys where r: "rows = xs @ m # ys" and u: "update_where (\<lambda>r. mg_id r = mg_id m) ?f rows = xs @ ?f m # ys"
    and o: "\<And>r. r \<in> set xs \<union> set ys \<Longrightarrow> mg_id r \<noteq> mg_id m"
    using Cons.prems by (elim update_one [where f = ?f]) auto
  have k: "keyed mg_id (xs @ ?f m # ys)" using Cons.prems(1) by (simp add: keyed_def r)
  have s: "set ms \<subseteq> set (xs @ ?f m # ys)" using Cons.prems(2,3) by (auto simp: r)
  have d: "distinct (map mg_id ms)" "\<forall>m\<in>set ms. mg_conversation_id m \<noteq> target" "mg_conversation_id m \<noteq> target"
    using Cons.prems(3,4) by auto
  note IH = Cons.IH [OF k s d(1,2), of "n + 1"]
  have mn: "m \<notin> set xs \<union> set ys" using o by blast
  have "filter (\<lambda>r. mg_conversation_id r = i \<and> r \<notin> set ms) zs = filter (\<lambda>r. mg_conversation_id r = i \<and> r \<notin> set (m # ms)) zs"
    if "m \<notin> set zs" for zs i using that by (intro filter_cong) auto
  then have rest: "filter (\<lambda>r. mg_conversation_id r = i \<and> r \<notin> set ms) (xs @ ?f m # ys) =
      filter (\<lambda>r. mg_conversation_id r = i \<and> r \<notin> set (m # ms)) rows" if "i \<noteq> target" for i
    using that mn by (simp add: r)
  have c: "map content (xs @ ?f m # ys) = map content rows" by (simp add: r content_def)
  have t: "mset (filter (\<lambda>r. mg_conversation_id r = target) (xs @ ?f m # ys)) =
      mset (filter (\<lambda>r. mg_conversation_id r = target) rows) + {#?f m#}"
    using d(3) by (simp add: r)
  show ?case unfolding renumber.simps u using IH rest by (simp only: c t) simp
qed simp

lemma content_ids: "map content a = map content b \<Longrightarrow> map mg_id a = map mg_id b"
proof -
  have "mg_id = mg_id \<circ> content" by (auto simp: content_def)
  then show "map content a = map content b \<Longrightarrow> map mg_id a = map mg_id b" by (metis map_map)
qed

lemma thread_sorted:
  assumes "keyed sequence_key (messages db)"
  shows "sorted_wrt (<) (map mg_conversation_sequence (thread i db))"
proof -
  have "distinct (map sequence_key (filter (\<lambda>m. mg_conversation_id m = i) (messages db)))"
    using assms by (simp add: keyed_def distinct_map_filter)
  then have "inj_on mg_conversation_sequence (set (filter (\<lambda>m. mg_conversation_id m = i) (messages db)))"
    "distinct (filter (\<lambda>m. mg_conversation_id m = i) (messages db))"
    by (auto simp: distinct_map inj_on_def sequence_key_def)
  then have "distinct (map mg_conversation_sequence (thread i db))" by (simp add: thread_def distinct_map)
  then show ?thesis by (simp add: strict_sorted_iff thread_def)
qed

lemma thread_mset: "mset (thread i db) = mset (filter (\<lambda>m. mg_conversation_id m = i) (messages db))"
  by (simp add: thread_def)

lemma thread_set: "set (thread i db) = {m \<in> set (messages db). mg_conversation_id m = i}"
  by (auto simp: thread_def)

lemma merge_messages:
  "messages (mergeMessagesIntoConversation a b db) = renumber b (max_sequence b db) (thread a db) (messages db)"
  by (auto simp: mergeMessagesIntoConversation_def delete_conversation_def touch_last_def Let_def split: option.split)

lemma keyed_sequences:
  "keyed sequence_key ms \<longleftrightarrow> distinct ms \<and>
     (\<forall>i. distinct (map mg_conversation_sequence (filter (\<lambda>m. mg_conversation_id m = i) ms)))"
  by (auto simp: keyed_def distinct_map inj_on_def sequence_key_def)

definition well_numbered :: "stays_db \<Rightarrow> bool" where
  "well_numbered db \<longleftrightarrow> keyed mg_id (messages db) \<and> keyed sequence_key (messages db)"

lemma merge_threads:
  assumes "well_numbered db" and "a \<noteq> b"
  defines "db' \<equiv> mergeMessagesIntoConversation a b db"
  shows "thread b db' = thread b db @ moved b (max_sequence b db) (thread a db)"
    and "thread a db' = []"
    and "i \<noteq> a \<Longrightarrow> i \<noteq> b \<Longrightarrow> thread i db' = thread i db"
    and "map content (messages db') = map content (messages db)"
    and "well_numbered db'"
proof -
  let ?n = "max_sequence b db" and ?t = "thread a db"
  have w: "keyed mg_id (messages db)" "keyed sequence_key (messages db)" using assms(1) by (auto simp: well_numbered_def)
  have "distinct (map mg_id ?t)"
    using w(1) thread_mset [of a db] by (metis distinct_map_filter keyed_def mset_eq_imp_distinct_iff mset_map)
  then have h: "set ?t \<subseteq> set (messages db)" "distinct (map mg_id ?t)" "\<forall>m\<in>set ?t. mg_conversation_id m \<noteq> b"
    using assms(2) by (auto simp: thread_set)
  note rows = renumber_rows [OF w(1) h, of "max_sequence b db"]
  note r = rows [THEN conjunct1] rows [THEN conjunct2, THEN conjunct1] rows [THEN conjunct2, THEN conjunct2, rule_format]
  have m: "messages db' = renumber b ?n ?t (messages db)" by (simp add: db'_def merge_messages)
  have below: "mg_conversation_sequence x < mg_conversation_sequence y" if "x \<in> set (thread b db)" "y \<in> set (moved b ?n ?t)" for x y
    using that max_sequence_ge [of x db b] moved_facts(2) [of y b ?n ?t] by (auto simp: thread_set)
  show b: "thread b db' = thread b db @ moved b ?n ?t"
    unfolding thread_def [of b db'] m
    by (rule sort_key_unique)
      (use r(2) thread_sorted [OF w(2)] moved_sorted below in \<open>auto simp: thread_mset sorted_wrt_append\<close>)
  show "thread a db' = []" using r(3) [of a] assms(2) by (simp add: thread_def m thread_set)
  show o: "thread i db' = thread i db" if "i \<noteq> a" "i \<noteq> b" for i
  proof -
    have "filter (\<lambda>r. mg_conversation_id r = i \<and> r \<notin> set ?t) (messages db) = filter (\<lambda>r. mg_conversation_id r = i) (messages db)"
      using that(1) by (intro filter_cong) (auto simp: thread_set)
    then show ?thesis using r(3) [OF that(2)] by (simp add: thread_def m)
  qed
  show c: "map content (messages db') = map content (messages db)" using r(1) by (simp add: m)
  have ids: "map mg_id (messages db') = map mg_id (messages db)" using content_ids [OF c] .
  then have k: "keyed mg_id (messages db')" using w(1) by (simp add: keyed_def)
  have "distinct (map mg_conversation_sequence (thread i db'))" for i
  proof -
    have "sorted_wrt (<) (map mg_conversation_sequence (thread b db @ moved b ?n ?t))"
      using thread_sorted [OF w(2)] moved_sorted below by (auto simp: sorted_wrt_append)
    then show ?thesis using b o [of i] \<open>thread a db' = []\<close> thread_sorted [OF w(2), of i]
      by (cases "i = b"; cases "i = a") (simp_all add: strict_sorted_iff)
  qed
  then have "distinct (map mg_conversation_sequence (filter (\<lambda>m. mg_conversation_id m = i) (messages db')))" for i
    using thread_mset [of i db'] by (metis mset_eq_imp_distinct_iff mset_map)
  moreover have "distinct (messages db')" using k by (auto simp: keyed_def distinct_map)
  ultimately show "well_numbered db'" using k by (simp add: well_numbered_def keyed_sequences)
qed


section \<open>One thread per booking\<close>

definition place :: "conversation \<Rightarrow> uuid \<times> uuid option \<times> uuid option \<times> uuid option" where
  "place c = (cv_id c, cv_booking_id c, cv_guest_user_id c, cv_host_user_id c)"

lemma delete_rows: "map f (delete_where p rows) = map f (filter (\<lambda>r. \<not> p r) rows)"
  by (simp add: delete_where_def)

lemma merge_places:
  "map place (conversations (mergeMessagesIntoConversation a b db)) =
   filter (\<lambda>(i, _). i \<noteq> a) (map place (conversations db))"
proof -
  have d: "map place (conversations (delete_conversation a db')) = filter (\<lambda>(i, _). i \<noteq> a) (map place (conversations db'))" for db'
    by (simp add: delete_conversation_def delete_where_def filter_map comp_def place_def)
  have t: "map place (conversations (touch_last b db')) = map place (conversations db')" for db'
    by (simp add: touch_last_def map_update_conversation place_def split: option.split)
  show ?thesis by (simp add: mergeMessagesIntoConversation_def Let_def d t)
qed

lemma booking_threads_places:
  "booking_threads u b rows =
   map fst (filter (\<lambda>(i, bk, g, h). bk = Some b \<and> (g = Some u \<or> h = Some u)) (map place rows))"
  by (simp add: booking_threads_def filter_map comp_def place_def mine_def)

lemma merge_booking_threads:
  "booking_threads u b (conversations (mergeMessagesIntoConversation a k db)) =
   filter (\<lambda>i. i \<noteq> a) (booking_threads u b (conversations db))"
  by (simp add: booking_threads_places merge_places filter_map comp_def case_prod_unfold conj_commute)

definition merged_into :: "uuid \<Rightarrow> uuid list \<Rightarrow> stays_db \<Rightarrow> stays_db \<Rightarrow> bool" where
  "merged_into k drops db db' \<longleftrightarrow>
     well_numbered db' \<and> map content (messages db') = map content (messages db) \<and>
     map content (thread k db') = map content (concat (map (\<lambda>i. thread i db) (k # drops))) \<and>
     (\<forall>i. i \<noteq> k \<longrightarrow> thread i db' = (if i \<in> set drops then [] else thread i db)) \<and>
     (\<forall>u b. booking_threads u b (conversations db') = filter (\<lambda>i. i \<notin> set drops) (booking_threads u b (conversations db)))"

lemma content_moved: "map content (moved b n ms) = map content ms"
  by (induction ms arbitrary: n) (simp_all add: content_def)

lemma fold_merged:
  assumes "well_numbered db" and "k \<notin> set drops" and "distinct drops"
  shows "merged_into k drops db (fold (\<lambda>d. mergeMessagesIntoConversation d k) drops db)"
  using assms
proof (induction drops arbitrary: db)
  case (Cons d drops)
  let ?db = "mergeMessagesIntoConversation d k db"
  have dk: "d \<noteq> k" using Cons.prems(2) by auto
  note m = merge_threads [OF Cons.prems(1) dk]
  have IH: "merged_into k drops ?db (fold (\<lambda>d. mergeMessagesIntoConversation d k) drops ?db)"
    using Cons.IH m(5) Cons.prems(2,3) by simp
  have "thread i ?db = thread i db" if "i \<in> set drops" for i
    using m(3) [of i] that Cons.prems(2,3) by auto
  then have e: "map (\<lambda>i. thread i ?db) drops = map (\<lambda>i. thread i db) drops" by simp
  have "map content (thread k (fold (\<lambda>d. mergeMessagesIntoConversation d k) drops ?db)) =
      map content (concat (map (\<lambda>i. thread i ?db) (k # drops)))"
    using IH unfolding merged_into_def by blast
  then have "map content (thread k (fold (\<lambda>d. mergeMessagesIntoConversation d k) drops ?db)) =
      map content (concat (map (\<lambda>i. thread i db) (k # d # drops)))"
    unfolding list.map concat.simps e m(1) by (simp add: content_moved)
  moreover have "thread i (fold (\<lambda>d. mergeMessagesIntoConversation d k) drops ?db) =
      (if i \<in> set (d # drops) then [] else thread i db)" if "i \<noteq> k" for i
    using IH m(2) m(3) [of i] that by (simp add: merged_into_def)
  moreover have "booking_threads u b (conversations (fold (\<lambda>d. mergeMessagesIntoConversation d k) drops ?db)) =
      filter (\<lambda>i. i \<notin> set (d # drops)) (booking_threads u b (conversations db))" for u b
    using IH by (simp add: merged_into_def merge_booking_threads conj_commute)
  ultimately show ?case
    using IH m(4) by (simp add: merged_into_def)
qed (simp add: merged_into_def)

lemma merge_all_merged:
  assumes "well_numbered db" and "distinct ids" and "ids \<noteq> []"
  shows "merged_into (hd ids) (tl ids) db (merge_all ids db)"
  using fold_merged [of db "hd ids" "tl ids"] assms by (cases ids) (simp_all add: merge_all_def)


text \<open>The threads a run drops, and the thread each booking keeps.\<close>

definition dropped :: "uuid \<Rightarrow> uuid list \<Rightarrow> stays_db \<Rightarrow> uuid set" where
  "dropped u bs db = (\<Union>b\<in>set bs. set (tl (booking_threads u b (conversations db))))"

lemma booking_threads_in:
  "i \<in> set (booking_threads u b rows) \<longleftrightarrow> (\<exists>c\<in>set rows. cv_id c = i \<and> cv_booking_id c = Some b \<and> mine u c)"
  by (auto simp: booking_threads_def)

lemma booking_threads_unique:
  assumes "keyed cv_id (conversations db)"
    and "i \<in> set (booking_threads u b (conversations db))" and "i \<in> set (booking_threads u b2 (conversations db))"
  shows "b = b2"
proof -
  obtain c c2 where c: "c \<in> set (conversations db)" "cv_id c = i" "cv_booking_id c = Some b"
    and c2: "c2 \<in> set (conversations db)" "cv_id c2 = i" "cv_booking_id c2 = Some b2"
    using assms(2,3) by (auto simp: booking_threads_in)
  have "inj_on cv_id (set (conversations db))" using assms(1) by (simp add: keyed_def distinct_map)
  then have "c = c2" using c c2 by (auto dest: inj_onD)
  then show ?thesis using c(3) c2(3) by simp
qed

lemma booking_in_rows:
  assumes "booking_threads u b rows \<noteq> []"
  shows "b \<in> set (List.map_filter cv_booking_id (filter (mine u) rows))"
proof -
  obtain c where "c \<in> set rows" "cv_booking_id c = Some b" "mine u c"
    using assms by (auto simp: booking_threads_def filter_empty_conv)
  then show ?thesis by (force simp: map_filter_def)
qed

lemma booking_threads_distinct: "keyed cv_id (conversations db) \<Longrightarrow> distinct (booking_threads u b (conversations db))"
  by (simp add: booking_threads_def keyed_def distinct_map_filter)

definition deduped :: "uuid \<Rightarrow> uuid list \<Rightarrow> stays_db \<Rightarrow> stays_db \<Rightarrow> bool" where
  "deduped u bs db db' \<longleftrightarrow>
     well_numbered db' \<and> map content (messages db') = map content (messages db) \<and>
     (\<forall>b\<in>set bs. booking_threads u b (conversations db) \<noteq> [] \<longrightarrow>
        map content (thread (hd (booking_threads u b (conversations db))) db') =
        map content (concat (map (\<lambda>i. thread i db) (booking_threads u b (conversations db))))) \<and>
     (\<forall>i. (\<forall>b\<in>set bs. i \<notin> set (booking_threads u b (conversations db))) \<longrightarrow> thread i db' = thread i db) \<and>
     (\<forall>v b. booking_threads v b (conversations db') =
        filter (\<lambda>i. i \<notin> dropped u bs db) (booking_threads v b (conversations db)))"

lemma fold_deduped:
  assumes "well_numbered db" and "keyed cv_id (conversations db)" and "distinct bs"
    and "\<And>b. b \<in> set bs \<Longrightarrow> booking_threads u b (conversations db) \<noteq> []"
  shows "deduped u bs db (fold (\<lambda>ids. merge_all ids) (map (\<lambda>b. booking_threads u b (conversations db)) bs) db)"
  using assms(3,4)
proof (induction bs rule: rev_induct)
  case Nil
  then show ?case using assms(1) by (simp add: deduped_def dropped_def)
next
  case (snoc b bs)
  let ?t = "\<lambda>b. booking_threads u b (conversations db)"
  let ?db = "fold (\<lambda>ids. merge_all ids) (map ?t bs) db"
  have IH: "deduped u bs db ?db" using snoc by simp
  have b: "?t b \<noteq> []" "b \<notin> set bs" using snoc.prems by auto
  have d: "distinct (?t b)" using booking_threads_distinct [OF assms(2)] .
  have m: "merged_into (hd (?t b)) (tl (?t b)) ?db (merge_all (?t b) ?db)"
    using merge_all_merged [OF _ d b(1)] IH by (simp add: deduped_def)
  have same: "thread i ?db = thread i db" if "i \<in> set (?t b)" for i
  proof -
    have "\<forall>c\<in>set bs. i \<notin> set (?t c)" using that b(2) booking_threads_unique [OF assms(2)] by blast
    moreover have "\<forall>i. (\<forall>c\<in>set bs. i \<notin> set (?t c)) \<longrightarrow> thread i ?db = thread i db" using IH unfolding deduped_def by blast
    ultimately show ?thesis by blast
  qed
  have new: "map content (thread (hd (?t b)) (merge_all (?t b) ?db)) = map content (concat (map (\<lambda>i. thread i db) (?t b)))"
  proof -
    have e: "map (\<lambda>i. thread i ?db) (?t b) = map (\<lambda>i. thread i db) (?t b)" using same by simp
    have "map content (thread (hd (?t b)) (merge_all (?t b) ?db)) = map content (concat (map (\<lambda>i. thread i ?db) (hd (?t b) # tl (?t b))))"
      using m unfolding merged_into_def by blast
    then show ?thesis unfolding list.collapse [OF b(1)] e .
  qed
  have old: "thread i (merge_all (?t b) ?db) = thread i ?db" if "i \<notin> set (?t b)" for i
    using m that b(1) by (cases "?t b") (auto simp: merged_into_def)
  have kept: "map content (thread (hd (?t c)) (merge_all (?t b) ?db)) = map content (concat (map (\<lambda>i. thread i db) (?t c)))"
    if "c \<in> set bs" "?t c \<noteq> []" for c
  proof -
    have "b \<noteq> c" using that(1) b(2) by blast
    then have "hd (?t c) \<notin> set (?t b)" using booking_threads_unique [OF assms(2)] hd_in_set [OF that(2)] by blast
    then show ?thesis using IH that by (simp add: old deduped_def)
  qed
  have "booking_threads v c (conversations (merge_all (?t b) ?db)) =
      filter (\<lambda>i. i \<notin> dropped u (bs @ [b]) db) (booking_threads v c (conversations db))" for v c
    using IH m by (simp add: deduped_def merged_into_def dropped_def conj_commute)
  moreover have "thread i (merge_all (?t b) ?db) = thread i db" if "\<forall>c\<in>set (bs @ [b]). i \<notin> set (?t c)" for i
    using IH that by (simp add: old deduped_def)
  ultimately show ?case
    using IH m new kept by (simp add: deduped_def merged_into_def)
qed

lemma dedupe_result:
  assumes "well_numbered db" and "keyed cv_id (conversations db)"
  shows "let db' = dedupeDuplicateBookingThreads u db in
    (\<forall>b. booking_threads u b (conversations db') = take 1 (booking_threads u b (conversations db))) \<and>
    (\<forall>b i. booking_threads u b (conversations db') = [i] \<longrightarrow>
       map content (thread i db') = map content (concat (map (\<lambda>j. thread j db) (booking_threads u b (conversations db))))) \<and>
    map content (messages db') = map content (messages db) \<and> well_numbered db'"
proof -
  let ?t = "\<lambda>b. booking_threads u b (conversations db)" and ?bs = "duplicate_bookings u (conversations db)"
  let ?db = "dedupeDuplicateBookingThreads u db"
  have bs: "distinct ?bs" "b \<in> set ?bs \<Longrightarrow> ?t b \<noteq> []" for b by (auto simp: duplicate_bookings_def)
  have dup: "b \<in> set ?bs \<longleftrightarrow> length (?t b) > 1" for b
    using booking_in_rows [of u b "conversations db"] by (cases "?t b") (auto simp: duplicate_bookings_def)
  have D: "deduped u ?bs db ?db" unfolding dedupeDuplicateBookingThreads_def by (rule fold_deduped [OF assms bs])
  have drop: "i \<in> dropped u ?bs db \<longleftrightarrow> i \<in> set (tl (?t b))" if "i \<in> set (?t b)" for i b
  proof -
    have "c = b" if "i \<in> set (tl (?t c))" for c
    proof -
      have "i \<in> set (?t c)" using that by (cases "?t c") auto
      then show ?thesis using booking_threads_unique [OF assms(2)] \<open>i \<in> set (?t b)\<close> by blast
    qed
    moreover have "b \<in> set ?bs" if "i \<in> set (tl (?t b))"
      unfolding dup using that by (cases "?t b"; cases "tl (?t b)") simp_all
    ultimately show ?thesis unfolding dropped_def by blast
  qed
  have one: "booking_threads u b (conversations ?db) = take 1 (?t b)" for b
  proof -
    have "booking_threads u b (conversations ?db) = filter (\<lambda>i. i \<notin> set (tl (?t b))) (?t b)"
      using D drop by (simp add: deduped_def cong: filter_cong)
    then show ?thesis using booking_threads_distinct [OF assms(2), of u b] by (cases "?t b") (auto simp: filter_empty_conv)
  qed
  have "map content (thread i ?db) = map content (concat (map (\<lambda>j. thread j db) (?t b)))" if i: "take 1 (?t b) = [i]" for b i
  proof -
    obtain r where t: "?t b = i # r" using i by (cases "?t b") auto
    show ?thesis
    proof (cases "b \<in> set ?bs")
      case True
      then show ?thesis using D t by (fastforce simp: deduped_def)
    next
      case False
      then have r: "r = []" using dup [of b] t by (cases r) auto
      have "i \<notin> set (?t c)" if "c \<in> set ?bs" for c
        using that False booking_threads_unique [OF assms(2), of i u b c] t by auto
      then show ?thesis using D t r by (simp add: deduped_def)
    qed
  qed
  then show ?thesis using one D by (simp add: Let_def deduped_def)
qed

lemma dedupe_facts:
  assumes "well_numbered db" and "keyed cv_id (conversations db)"
  shows "length (booking_threads u b (conversations (dedupeDuplicateBookingThreads u db))) \<le> 1"
  using dedupe_result [OF assms, of u] by (simp add: Let_def)


section \<open>All repairs together\<close>

definition repairable :: "stays_db \<Rightarrow> bool" where
  "repairable db \<longleftrightarrow> well_numbered db \<and> keyed cv_id (conversations db)"

lemma place_ids: "map cv_id rows = map fst (map place rows)"
  by (simp add: place_def)

lemma repairable_merge:
  assumes "repairable db" and "a \<noteq> b"
  shows "repairable (mergeMessagesIntoConversation a b db)"
  using assms merge_threads(5) [of db a b] distinct_map_filter [of fst "map place (conversations db)"]
  by (simp add: repairable_def keyed_def place_ids merge_places del: map_map)

lemma repairable_recover: "repairable db \<Longrightarrow> repairable (recover_thread nm i b l db)"
  using find_conversation_ids [of i db]
  by (auto simp: repairable_def well_numbered_def recover_thread_def Let_def keyed_def insert_row_def
      recovered_conversation_def new_conversation_def)

lemma repairable_orphan: "repairable db \<Longrightarrow> repairable (repairOrphanThread nm i u db)"
  by (simp add: repairOrphanThread_def Let_def repairable_merge repairable_recover split: option.split)

lemma repairable_orphans: "repairable db \<Longrightarrow> repairable (repairOrphanedThreads nm u db)"
proof -
  have "repairable db \<Longrightarrow> repairable (fold (\<lambda>i. repairOrphanThread nm i u) is db)" for "is"
    by (induction "is" arbitrary: db) (simp_all add: repairable_orphan)
  then show "repairable db \<Longrightarrow> repairable (repairOrphanedThreads nm u db)" by (simp add: repairOrphanedThreads_def)
qed

lemma insertMessage_places: "map place (conversations (snd (insertMessage i now conv sd sid cid nm db))) = map place (conversations db)"
  by (cases "find_conversation (cv_id conv) db")
    (simp_all add: insertMessage_None insertMessage_eq map_update_conversation place_def after_message_def Let_def)

lemma insert_seeds_places: "map place (conversations (snd (insert_seeds gen now conv k sds db))) = map place (conversations db)"
proof (induction sds arbitrary: k db)
  case (Cons sd sds)
  show ?case
    using Cons.IH insertMessage_places [of "gen k" now conv sd None None None db]
    by (auto split: prod.splits sum.splits) (metis snd_conv)+
qed simp

text \<open>Providing a booking with a thread adds one at most, and only to a booking that has none.\<close>

definition adds_thread :: "uuid \<Rightarrow> stays_db \<Rightarrow> stays_db \<Rightarrow> bool" where
  "adds_thread b db db' \<longleftrightarrow>
     map place (conversations db') = map place (conversations db) \<or>
     conversation_of_booking b db = None \<and>
     (\<exists>i g h. map place (conversations db') = map place (conversations db) @ [(i, Some b, g, h)])"

lemma provision_places: "adds_thread (bk_id b) db (snd (provisionWithinTransaction nm gen now b l p pid db))"
proof (cases "conversation_of_booking (bk_id b) db")
  case none: None
  show ?thesis
  proof (cases "find_listing l db")
    case (Some x)
    let ?sn = "buildSnapshot b x (resolveHostDisplayName nm (ls_host_user_id x) db) (resolveGuestDisplayName nm (bk_id b) None db)"
    let ?c = "new_conversation (gen 0) b x ?sn"
    let ?seeds = "seedBookingConfirmed gen now ?c ?sn x (db\<lparr>conversations := insert_row ?c (conversations db)\<rparr>)"
    have "map place (conversations (snd ?seeds)) = map place (conversations db) @ [place ?c]"
      unfolding seedBookingConfirmed_def insert_seeds_places by (simp add: insert_row_def)
    moreover have "place ?c = (gen 0, Some (bk_id b), Some (bk_guest_user_id b), Some (ls_host_user_id x))"
      by (simp add: place_def new_conversation_def)
    moreover have "ls_host_user_id x \<noteq> [] \<Longrightarrow>
        conversations (snd (provisionWithinTransaction nm gen now b l p pid db)) = conversations (snd ?seeds)"
      by (simp add: provisionWithinTransaction_def none Some Let_def split: prod.split sum.split)
    ultimately show ?thesis
      using none by (cases "ls_host_user_id x = []") (simp_all add: adds_thread_def provisionWithinTransaction_def Some)
  qed (simp add: provisionWithinTransaction_def none adds_thread_def)
qed (simp add: provisionWithinTransaction_def adds_thread_def)

lemma adds_thread_same: "conversations db' = conversations db \<Longrightarrow> adds_thread b db db'"
  by (simp add: adds_thread_def)

lemma ensure_places: "adds_thread b db (snd (ensureForBooking nm gen now b u db))"
proof -
  have fb: "find_booking b db = Some x \<Longrightarrow> bk_id x = b" for x
    by (auto simp: find_booking_def dest: find_where_Some)
  have p: "adds_thread b db db'" if "find_booking b db = Some x"
    "provisionWithinTransaction nm gen now x l p pid db = (r, db')" for x l p pid r db'
    using provision_places [of x db nm gen now l p pid] that fb by auto
  have e: "adds_thread b db (enqueue k t ev pl db') = adds_thread b db db'" for k t ev pl db' by (simp add: adds_thread_def)
  show ?thesis
    by (auto simp: ensureForBooking_def transaction_def Let_def enqueueDirect_def e adds_thread_same rollback_def
        split: option.splits prod.splits sum.splits if_splits dest: p)
qed

definition single_threads :: "uuid \<Rightarrow> stays_db \<Rightarrow> bool" where
  "single_threads u db \<longleftrightarrow> (\<forall>b. length (booking_threads u b (conversations db)) \<le> 1)"

lemma single_threads_adds:
  assumes "single_threads u db" and "adds_thread b db db'"
  shows "single_threads u db'"
proof -
  have "length (booking_threads u c (conversations db')) \<le> 1" for c
  proof (cases "map place (conversations db') = map place (conversations db)")
    case True
    then have "booking_threads u c (conversations db') = booking_threads u c (conversations db)"
      by (simp only: booking_threads_places)
    then show ?thesis using assms(1) by (simp add: single_threads_def)
  next
    case False
    then obtain i g h where none: "conversation_of_booking b db = None"
      and p: "map place (conversations db') = map place (conversations db) @ [(i, Some b, g, h)]"
      using assms(2) by (auto simp: adds_thread_def)
    have z: "booking_threads u b (conversations db) = []"
      using none by (auto simp: conversation_of_booking_None booking_threads_def filter_empty_conv image_iff)
    have "booking_threads u c (conversations db') = booking_threads u c (conversations db) @
        (if c = b \<and> (g = Some u \<or> h = Some u) then [i] else [])"
      unfolding booking_threads_places p filter_append map_append by simp
    then show ?thesis using z assms(1) by (cases "c = b") (simp_all add: single_threads_def)
  qed
  then show ?thesis by (simp add: single_threads_def)
qed

lemma ensure_each_single: "single_threads u db \<Longrightarrow> single_threads u (ensure_each nm gen now u k bs db)"
  by (induction bs arbitrary: k db) (simp_all add: single_threads_adds [OF _ ensure_places])

text \<open>
  Whatever the state of the threads, after the repairs that opening the inbox runs every booking has at
  most one thread in which the user takes part.
\<close>

theorem inbox_repair_single:
  assumes "well_numbered db" and "keyed cv_id (conversations db)"
  shows "length (booking_threads u b (conversations (repairForUser nm gen now u db))) \<le> 1"
proof -
  have "repairable (repairOrphanedThreads nm u db)" using assms by (intro repairable_orphans) (simp add: repairable_def)
  then have "single_threads u (dedupeDuplicateBookingThreads u (repairOrphanedThreads nm u db))"
    using dedupe_facts by (simp add: repairable_def single_threads_def)
  then show ?thesis
    using ensure_each_single by (simp add: repairForUser_def ensureMissingBookingThreads_def single_threads_def)
qed


section \<open>Examples\<close>

definition two_threads :: stays_db where
  "two_threads = no_rows\<lparr>conversations := [sample_conversation ''c1'' ''b1'', sample_conversation ''c2'' ''b1''],
     messages := [message_row ''m1'' 5 (sample_conversation ''c2'' ''b1'') 1 sample_text (Some ''g1'') None,
                  message_row ''m2'' 6 (sample_conversation ''c1'' ''b1'') 1 sample_text (Some ''h1'') None]\<rparr>"

lemma two_threads_fine: "well_numbered two_threads" "keyed cv_id (conversations two_threads)"
  "booking_threads ''g1'' ''b1'' (conversations two_threads) = [''c1'', ''c2'']"
  by (simp_all add: two_threads_def well_numbered_def keyed_def sequence_key_def message_row_def sample_conversation_def
      booking_threads_def mine_def)


theorem inbox_repair_single_witness:
  "length (booking_threads ''g1'' ''b1'' (conversations (repairForUser (\<lambda>_. None) (\<lambda>_. key_ids) 9 ''g1'' two_threads))) \<le> 1"
  by (rule inbox_repair_single [OF two_threads_fine(1,2)])

end
