(* ===== verification/OutboxWorker.thy ===== *)
theory OutboxWorker
  imports Timeline
begin

text \<open>
  \<^verbatim>\<open>outbox.worker.ts\<close> and \<^verbatim>\<open>snapshot-repair.service.ts\<close>: the worker that delivers the outbox rows the
  messaging handlers wrote. One SQL statement is one step; the event bus, which is not in the repository,
  answers by the function \<open>bus\<close>. Several instances of the service run a worker each on the same table:
  \<open>outbox_step\<close> interleaves them, with crashes, and keeps a log of the answers the bus gave.
\<close>

section \<open>Repair of a snapshot\<close>

definition text_of :: "metadata \<Rightarrow> string \<Rightarrow> string" where
  "text_of m k = (case map_of m k of Some (JStr s) \<Rightarrow> s | _ \<Rightarrow> [])"

definition isSnapshotIncomplete :: "metadata \<Rightarrow> bool" where
  "isSnapshotIncomplete s \<longleftrightarrow>
     text_of s ''listingTitle'' = [] \<or> text_of s ''listingId'' = [] \<or>
     text_of s ''checkinDate'' = [] \<or> text_of s ''checkoutDate'' = [] \<or>
     (text_of s ''coverMediaId'' = [] \<and> text_of s ''primaryPhotoUrl'' = [])"

definition repairConversation :: "uuid \<Rightarrow> stays_db \<Rightarrow> bool \<times> stays_db" where
  "repairConversation conversationId db =
     (case find_where (\<lambda>c. cv_id c = conversationId) (conversations db) of
        None \<Rightarrow> (False, db)
      | Some conv \<Rightarrow>
          if \<not> isSnapshotIncomplete (cv_reservation_snapshot conv) then (False, db)
          else (case (cv_booking_id conv, cv_listing_id conv) of
                  (Some bookingId, Some listingId) \<Rightarrow>
                    (case (find_booking bookingId db, find_listing listingId db) of
                       (Some b, Some l) \<Rightarrow>
                         (True, update_conversation conversationId (\<lambda>_. conv
                            \<lparr>cv_reservation_snapshot := snapshot_json (buildSnapshot b l None None),
                             cv_snapshot_version := cv_snapshot_version conv + 1\<rparr>) db)
                     | _ \<Rightarrow> (False, db))
                | _ \<Rightarrow> (False, db)))"

section \<open>Delivering one row\<close>

definition MAX_OUTBOX_ATTEMPTS :: nat where
  "MAX_OUTBOX_ATTEMPTS = 5"

definition string_prefix :: "string \<Rightarrow> string \<Rightarrow> bool" where
  "string_prefix p s \<longleftrightarrow> take (length p) s = p"

definition isMessagingInternalEvent :: "string \<Rightarrow> bool" where
  "isMessagingInternalEvent eventType \<longleftrightarrow>
     eventType \<noteq> [] \<and> (eventType = SNAPSHOT_REPAIR_REQUESTED \<or> string_prefix ''conversation.'' eventType)"

definition resolveProviderIntentId :: "string \<Rightarrow> string option \<Rightarrow> string option \<Rightarrow> string" where
  "resolveProviderIntentId bookingId providerIntentId paymentIntentId =
     (let candidate = js_trim (case or_else providerIntentId paymentIntentId of None \<Rightarrow> [] | Some s \<Rightarrow> s)
      in if candidate = [] then ''booking-'' @ bookingId else candidate)"

definition string_field :: "metadata \<Rightarrow> string \<Rightarrow> string option" where
  "string_field m k = (case map_of m k of Some (JStr s) \<Rightarrow> Some s | _ \<Rightarrow> None)"

definition normalizePayload :: "string \<Rightarrow> metadata \<Rightarrow> metadata" where
  "normalizePayload eventType payload =
     (if eventType = ''EVENTS.PAYMENT_SUCCEEDED'' \<and> truthy (string_field payload ''bookingId'')
      then obj_spread payload
        [(''providerIntentId'', JStr (resolveProviderIntentId (text_of payload ''bookingId'')
            (string_field payload ''providerIntentId'') (string_field payload ''paymentIntentId'')))]
      else payload)"

text \<open>What a delivery ends in: nothing thrown, an \<^verbatim>\<open>EventValidationError\<close>, or any other error.\<close>

datatype delivery = Delivered | Invalid_Event | Transport_Failure

definition handleInternalEvent :: "string \<Rightarrow> metadata \<Rightarrow> stays_db \<Rightarrow> delivery \<times> stays_db" where
  "handleInternalEvent eventType payload db =
     (if eventType = SNAPSHOT_REPAIR_REQUESTED
      then (if text_of payload ''conversationId'' = [] then (Transport_Failure, db)
            else (Delivered, snd (repairConversation (text_of payload ''conversationId'') db)))
      else (Transport_Failure, db))"

type_synonym bus = "string \<Rightarrow> metadata \<Rightarrow> delivery"

definition deliver :: "bus \<Rightarrow> outbox_row \<Rightarrow> stays_db \<Rightarrow> delivery \<times> stays_db" where
  "deliver bus row db =
     (let payload = normalizePayload (ob_event_type row) (ob_payload row)
      in if isMessagingInternalEvent (ob_event_type row)
         then handleInternalEvent (ob_event_type row) payload db
         else (case bus (ob_event_type row) payload of
                 Delivered \<Rightarrow> (Delivered, publish (ob_event_type row) payload db)
               | v \<Rightarrow> (v, db)))"

definition update_outbox :: "uuid \<Rightarrow> (outbox_row \<Rightarrow> outbox_row) \<Rightarrow> stays_db \<Rightarrow> stays_db" where
  "update_outbox i f db = db\<lparr>outbox := update_where (\<lambda>r. ob_id r = i) f (outbox db)\<rparr>"

definition retry_delay :: "nat \<Rightarrow> int" where
  "retry_delay attempts = min 60000 (1000 * 2 ^ attempts)"

text \<open>The update after a delivery: it is by id, with the values of the row as it was claimed.\<close>

definition settle_row :: "delivery \<Rightarrow> time \<Rightarrow> outbox_row \<Rightarrow> outbox_row \<Rightarrow> outbox_row" where
  "settle_row v now row r =
     (if v = Delivered then r\<lparr>ob_status := O_DONE, ob_processed_at := Some now\<rparr>
      else
        let attempts = ob_attempts row + 1;
            isPermanentFailure = (v = Invalid_Event \<or> attempts \<ge> MAX_OUTBOX_ATTEMPTS)
        in r\<lparr>ob_status := (if isPermanentFailure then O_FAILED else O_PENDING), ob_attempts := attempts,
             ob_next_retry_at := (if isPermanentFailure then ob_next_retry_at row else now + retry_delay attempts)\<rparr>)"

definition skipped :: "outbox_row \<Rightarrow> bool" where
  "skipped row \<longleftrightarrow> ob_id row = [] \<or> ob_event_type row = []"

definition process_row :: "bus \<Rightarrow> time \<Rightarrow> outbox_row \<Rightarrow> stays_db \<Rightarrow> stays_db" where
  "process_row bus now row db =
     (if skipped row then db
      else (case deliver bus row db of (v, db1) \<Rightarrow> update_outbox (ob_id row) (settle_row v now row) db1))"

section \<open>One run of the worker\<close>

definition stale :: "time \<Rightarrow> outbox_row \<Rightarrow> bool" where
  "stale now r \<longleftrightarrow> ob_status r = O_PROCESSING \<and> ob_processed_at r = None \<and> ob_created_at r < now - 60000"

definition recoverStaleProcessingRows :: "time \<Rightarrow> stays_db \<Rightarrow> stays_db" where
  "recoverStaleProcessingRows now db =
     db\<lparr>outbox := update_where (stale now) (\<lambda>r. r\<lparr>ob_status := O_PENDING, ob_next_retry_at := now\<rparr>) (outbox db)\<rparr>"

definition due :: "time \<Rightarrow> outbox_row \<Rightarrow> bool" where
  "due now r \<longleftrightarrow> ob_status r = O_PENDING \<and> ob_next_retry_at r \<le> now"

definition claim_ids :: "time \<Rightarrow> nat \<Rightarrow> outbox_row list \<Rightarrow> uuid list" where
  "claim_ids now limit rows = map ob_id (take limit (sort_key ob_created_at (filter (due now) rows)))"

text \<open>One statement: the rows of the subquery become \<^verbatim>\<open>PROCESSING\<close> and are returned as updated.\<close>

definition claimPendingRows :: "time \<Rightarrow> nat \<Rightarrow> stays_db \<Rightarrow> outbox_row list \<times> stays_db" where
  "claimPendingRows now limit db =
     (let claimed = (\<lambda>r. ob_id r \<in> set (claim_ids now limit (outbox db)));
          rows = update_where claimed (\<lambda>r. r\<lparr>ob_status := O_PROCESSING\<rparr>) (outbox db)
      in (filter claimed rows, db\<lparr>outbox := rows\<rparr>))"

text \<open>A run without other instances; the clock is read anew for every row.\<close>

definition processOutbox :: "bus \<Rightarrow> time \<Rightarrow> (uuid \<Rightarrow> time) \<Rightarrow> stays_db \<Rightarrow> stays_db" where
  "processOutbox bus now clock db =
     (case claimPendingRows now 20 (recoverStaleProcessingRows now db) of
        (rows, db1) \<Rightarrow> fold (\<lambda>row. process_row bus (clock (ob_id row)) row) rows db1)"

section \<open>Several instances\<close>

text \<open>
  \<open>os_todo w\<close> are the rows instance \<open>w\<close> has claimed and not yet settled; its flag \<^verbatim>\<open>processing\<close> is set
  while there are any. \<open>os_sent w\<close> is the answer to the delivery of the first of them, when it is not yet
  written to the row. The log is the sequence of all answers. Rows are enqueued with a fresh id and a
  constant event type, so none is skipped. A crash loses what the instance held.
\<close>

record outbox_system =
  os_db :: stays_db
  os_todo :: "nat \<Rightarrow> outbox_row list"
  os_sent :: "nat \<Rightarrow> delivery option"
  os_log :: "(uuid \<times> delivery) list"

datatype outbox_event =
  Enqueue uuid time string metadata | Tick nat time | Send nat bus | Settle nat time | Crash nat

fun outbox_exec :: "outbox_event \<Rightarrow> outbox_system \<Rightarrow> outbox_system option" where
  "outbox_exec (Enqueue i now ty payload) s =
     (if i = [] \<or> ty = [] \<or> i \<in> ob_id ` set (outbox (os_db s)) then None
      else Some (s\<lparr>os_db := enqueue i now ty payload (os_db s)\<rparr>))"
| "outbox_exec (Tick w now) s =
     (if os_todo s w \<noteq> [] then None
      else (case claimPendingRows now 20 (recoverStaleProcessingRows now (os_db s)) of
              (rows, db1) \<Rightarrow> Some (s\<lparr>os_db := db1, os_todo := (os_todo s)(w := rows)\<rparr>)))"
| "outbox_exec (Send w bus) s =
     (case (os_todo s w, os_sent s w) of
        (row # rest, None) \<Rightarrow>
          (case deliver bus row (os_db s) of
             (v, db1) \<Rightarrow> Some (s\<lparr>os_db := db1, os_sent := (os_sent s)(w := Some v), os_log := os_log s @ [(ob_id row, v)]\<rparr>))
      | _ \<Rightarrow> None)"
| "outbox_exec (Settle w now) s =
     (case (os_todo s w, os_sent s w) of
        (row # rest, Some v) \<Rightarrow>
          Some (s\<lparr>os_db := update_outbox (ob_id row) (settle_row v now row) (os_db s),
                  os_todo := (os_todo s)(w := rest), os_sent := (os_sent s)(w := None)\<rparr>)
      | _ \<Rightarrow> None)"
| "outbox_exec (Crash w) s = Some (s\<lparr>os_todo := (os_todo s)(w := []), os_sent := (os_sent s)(w := None)\<rparr>)"

inductive outbox_reachable :: "(outbox_event \<Rightarrow> bool) \<Rightarrow> outbox_system \<Rightarrow> bool" for allowed where
  start: "outbox (os_db s) = [] \<Longrightarrow> os_todo s = (\<lambda>w. []) \<Longrightarrow> os_sent s = (\<lambda>w. None) \<Longrightarrow> os_log s = []
    \<Longrightarrow> outbox_reachable allowed s"
| step: "outbox_reachable allowed s \<Longrightarrow> allowed e \<Longrightarrow> outbox_exec e s = Some s' \<Longrightarrow> outbox_reachable allowed s'"

text \<open>One instance, numbered 0, that does not crash.\<close>

fun solo :: "outbox_event \<Rightarrow> bool" where
  "solo (Enqueue i now ty payload) = True"
| "solo (Tick w now) = (w = 0)"
| "solo (Send w bus) = (w = 0)"
| "solo (Settle w now) = (w = 0)"
| "solo (Crash w) = False"

section \<open>What the operations do to the rows\<close>

lemma outbox_deliver [simp]: "outbox (snd (deliver bus row db)) = outbox db"
  by (auto simp: deliver_def handleInternalEvent_def repairConversation_def publish_def update_conversation_def Let_def
      split: delivery.splits option.splits prod.splits)

lemma outbox_update_outbox [simp]: "outbox (update_outbox i f db) = update_where (\<lambda>r. ob_id r = i) f (outbox db)"
  by (simp add: update_outbox_def)

lemma settle_row_fields [simp]:
  "ob_id (settle_row v now row r) = ob_id r" "ob_event_type (settle_row v now row r) = ob_event_type r"
  "ob_payload (settle_row v now row r) = ob_payload r" "ob_created_at (settle_row v now row r) = ob_created_at r"
  by (simp_all add: settle_row_def Let_def)

lemma claim_ids_due:
  "i \<in> set (claim_ids now limit rows) \<Longrightarrow> \<exists>r\<in>set rows. ob_id r = i \<and> due now r"
  by (auto simp: claim_ids_def dest!: in_set_takeD)

lemma claimPendingRows_simps:
  "fst (claimPendingRows now limit db) = filter (\<lambda>r. ob_id r \<in> set (claim_ids now limit (outbox db)))
     (map (\<lambda>r. if ob_id r \<in> set (claim_ids now limit (outbox db)) then r\<lparr>ob_status := O_PROCESSING\<rparr> else r) (outbox db))"
  "outbox (snd (claimPendingRows now limit db)) =
     map (\<lambda>r. if ob_id r \<in> set (claim_ids now limit (outbox db)) then r\<lparr>ob_status := O_PROCESSING\<rparr> else r) (outbox db)"
  by (simp_all add: claimPendingRows_def Let_def update_where_def)

lemma outbox_recover [simp]:
  "outbox (recoverStaleProcessingRows now db) =
     map (\<lambda>r. if stale now r then r\<lparr>ob_status := O_PENDING, ob_next_retry_at := now\<rparr> else r) (outbox db)"
  by (simp add: recoverStaleProcessingRows_def update_where_def)

definition same_message :: "outbox_row \<Rightarrow> outbox_row \<Rightarrow> bool" where
  "same_message r r' \<longleftrightarrow> ob_id r' = ob_id r \<and> ob_event_type r' = ob_event_type r \<and> ob_payload r' = ob_payload r"

text \<open>A run of a worker keeps the rows in place; what it changes is their status.\<close>

definition tick_row :: "time \<Rightarrow> uuid set \<Rightarrow> outbox_row \<Rightarrow> outbox_row" where
  "tick_row now claimed r =
     (let r1 = (if stale now r then r\<lparr>ob_status := O_PENDING, ob_next_retry_at := now\<rparr> else r)
      in if ob_id r \<in> claimed then r1\<lparr>ob_status := O_PROCESSING\<rparr> else r1)"

definition tick_ids :: "time \<Rightarrow> stays_db \<Rightarrow> uuid set" where
  "tick_ids now db = set (claim_ids now 20 (outbox (recoverStaleProcessingRows now db)))"

lemma tick_row_simps [simp]:
  "ob_id (tick_row now c r) = ob_id r" "ob_attempts (tick_row now c r) = ob_attempts r"
  "same_message r (tick_row now c r)" "ob_created_at (tick_row now c r) = ob_created_at r"
  by (simp_all add: tick_row_def same_message_def Let_def)

lemma exec_tick:
  assumes "outbox_exec (Tick w now) s = Some s'"
  shows "os_todo s w = []" and "outbox (os_db s') = map (tick_row now (tick_ids now (os_db s))) (outbox (os_db s))"
    and "os_todo s' = (os_todo s)(w := filter (\<lambda>r. ob_id r \<in> tick_ids now (os_db s)) (outbox (os_db s')))"
    and "os_sent s' = os_sent s" and "os_log s' = os_log s"
proof -
  show "os_todo s w = []" using assms by (simp split: if_splits)
  obtain rows db1 where c: "claimPendingRows now 20 (recoverStaleProcessingRows now (os_db s)) = (rows, db1)"
    by (cases "claimPendingRows now 20 (recoverStaleProcessingRows now (os_db s))")
  have s': "s' = s\<lparr>os_db := db1, os_todo := (os_todo s)(w := rows)\<rparr>" using assms c by (simp split: if_splits)
  have rows: "rows = fst (claimPendingRows now 20 (recoverStaleProcessingRows now (os_db s)))"
    and db1: "db1 = snd (claimPendingRows now 20 (recoverStaleProcessingRows now (os_db s)))" by (simp_all add: c)
  show o: "outbox (os_db s') = map (tick_row now (tick_ids now (os_db s))) (outbox (os_db s))"
    unfolding s' by (auto simp: db1 claimPendingRows_simps tick_row_def tick_ids_def Let_def)
  have "rows = filter (\<lambda>r. ob_id r \<in> tick_ids now (os_db s)) (outbox db1)"
    unfolding rows db1 claimPendingRows_simps tick_ids_def ..
  then show "os_todo s' = (os_todo s)(w := filter (\<lambda>r. ob_id r \<in> tick_ids now (os_db s)) (outbox (os_db s')))"
    by (simp add: s')
  show "os_sent s' = os_sent s" "os_log s' = os_log s" by (simp_all add: s')
qed

lemma tick_ids_row:
  assumes "keyed ob_id (outbox db)" and "r \<in> set (outbox db)" and "ob_id r \<in> tick_ids now db"
  shows "ob_status r = O_PENDING \<or> stale now r"
proof -
  obtain r' where r': "r' \<in> set (outbox db)" "ob_id r' = ob_id r"
    "due now (if stale now r' then r'\<lparr>ob_status := O_PENDING, ob_next_retry_at := now\<rparr> else r')"
    using claim_ids_due [of "ob_id r" now 20] assms(3) by (fastforce simp: tick_ids_def split: if_splits)
  have "r' = r" using keyed_inj [OF assms(1) r'(1) assms(2) r'(2)] .
  then show ?thesis using r'(3) by (auto simp: due_def split: if_splits)
qed

lemma exec_send:
  assumes "outbox_exec (Send w bus) s = Some s'"
  obtains row rest v where "os_todo s w = row # rest" and "os_sent s w = None" and "outbox (os_db s') = outbox (os_db s)"
    and "os_todo s' = os_todo s" and "os_sent s' = (os_sent s)(w := Some v)" and "os_log s' = os_log s @ [(ob_id row, v)]"
proof -
  obtain row rest where t: "os_todo s w = row # rest" "os_sent s w = None"
    using assms by (auto split: list.splits option.splits)
  obtain v db1 where d: "deliver bus row (os_db s) = (v, db1)" by (cases "deliver bus row (os_db s)")
  have "outbox db1 = outbox (os_db s)" using outbox_deliver [of bus row "os_db s"] d by simp
  then show thesis using that [of row rest v] assms t d by auto
qed

lemma exec_settle:
  assumes "outbox_exec (Settle w now) s = Some s'"
  obtains row rest v where "os_todo s w = row # rest" and "os_sent s w = Some v"
    and "outbox (os_db s') = update_where (\<lambda>r. ob_id r = ob_id row) (settle_row v now row) (outbox (os_db s))"
    and "os_todo s' = (os_todo s)(w := rest)" and "os_sent s' = (os_sent s)(w := None)" and "os_log s' = os_log s"
  using assms by (auto split: list.splits option.splits)

section \<open>No message is lost\<close>

definition outcome_ok :: "outbox_system \<Rightarrow> outbox_row \<Rightarrow> bool" where
  "outcome_ok s r \<longleftrightarrow>
     ob_attempts r \<le> MAX_OUTBOX_ATTEMPTS \<and>
     (ob_status r = O_DONE \<longrightarrow> (ob_id r, Delivered) \<in> set (os_log s)) \<and>
     (ob_status r = O_FAILED \<longrightarrow> ob_attempts r = MAX_OUTBOX_ATTEMPTS \<or> (ob_id r, Invalid_Event) \<in> set (os_log s)) \<and>
     (ob_status r \<in> {O_PENDING, O_PROCESSING} \<longrightarrow> ob_attempts r < MAX_OUTBOX_ATTEMPTS)"

definition outbox_inv :: "outbox_system \<Rightarrow> bool" where
  "outbox_inv s \<longleftrightarrow>
     keyed ob_id (outbox (os_db s)) \<and> (\<forall>r\<in>set (outbox (os_db s)). outcome_ok s r) \<and>
     (\<forall>w. \<forall>row\<in>set (os_todo s w). ob_attempts row < MAX_OUTBOX_ATTEMPTS) \<and>
     (\<forall>w v. os_sent s w = Some v \<longrightarrow> (\<exists>row rest. os_todo s w = row # rest \<and> (ob_id row, v) \<in> set (os_log s)))"

lemma outcome_ok_log:
  "outcome_ok s r \<Longrightarrow> set (os_log s) \<subseteq> set (os_log s') \<Longrightarrow> outcome_ok s' r"
  by (auto simp: outcome_ok_def)

lemma outcome_ok_tick: "outcome_ok s r \<Longrightarrow> ob_id r \<in> c \<longrightarrow> ob_status r = O_PENDING \<or> stale now r \<Longrightarrow> outcome_ok s (tick_row now c r)"
  by (auto simp: outcome_ok_def tick_row_def stale_def Let_def)

lemma outcome_ok_settle:
  assumes "outcome_ok s r" and "ob_attempts row < MAX_OUTBOX_ATTEMPTS" and "(ob_id row, v) \<in> set (os_log s)" and "ob_id r = ob_id row"
  shows "outcome_ok s (settle_row v now row r)"
  using assms by (cases v) (auto simp: outcome_ok_def settle_row_def Let_def)

lemma outbox_inv_step:
  assumes inv: "outbox_inv s" and e: "outbox_exec e s = Some s'"
  shows "outbox_inv s'"
proof (cases e)
  case (Enqueue i now ty payload)
  then have s': "s' = s\<lparr>os_db := enqueue i now ty payload (os_db s)\<rparr>" "i \<notin> ob_id ` set (outbox (os_db s))"
    using e by (auto split: if_splits)
  then show ?thesis using inv
    by (auto simp: outbox_inv_def outcome_ok_def enqueue_def keyed_insert_row MAX_OUTBOX_ATTEMPTS_def) (auto simp: insert_row_def)
next
  case (Tick w now)
  note t = exec_tick [OF e [unfolded Tick]]
  have k: "keyed ob_id (outbox (os_db s))" using inv by (simp add: outbox_inv_def)
  have ok: "outcome_ok s' r" if r: "r \<in> set (outbox (os_db s'))" for r
  proof -
    obtain r0 where r0: "r0 \<in> set (outbox (os_db s))" "r = tick_row now (tick_ids now (os_db s)) r0" using r t(2) by auto
    have "outcome_ok s r" unfolding r0(2)
      using inv r0(1) tick_ids_row [OF k r0(1)] by (intro outcome_ok_tick) (auto simp: outbox_inv_def)
    then show ?thesis using t(5) by (simp add: outcome_ok_def)
  qed
  have "ob_attempts row < MAX_OUTBOX_ATTEMPTS" if "row \<in> set (os_todo s' w')" for w' row
  proof (cases "w' = w")
    case True
    then have "row \<in> set (outbox (os_db s'))" "ob_id row \<in> tick_ids now (os_db s)" using that t(3) by auto
    then have "outcome_ok s' row" "ob_status row = O_PROCESSING" using ok t(2) by (auto simp: tick_row_def Let_def)
    then show ?thesis by (simp add: outcome_ok_def)
  next
    case False
    then show ?thesis using that t(3) inv by (auto simp: outbox_inv_def)
  qed
  moreover have "keyed ob_id (outbox (os_db s'))" using k t(2) by (simp add: keyed_def comp_def)
  moreover have "\<exists>row rest. os_todo s' w' = row # rest \<and> (ob_id row, v) \<in> set (os_log s')" if "os_sent s' w' = Some v" for w' v
  proof -
    have "\<exists>row rest. os_todo s w' = row # rest \<and> (ob_id row, v) \<in> set (os_log s)" using that inv t(4) by (simp add: outbox_inv_def)
    moreover from this have "w' \<noteq> w" using t(1) by auto
    ultimately show ?thesis using t(3,5) by simp
  qed
  ultimately show ?thesis using ok by (simp add: outbox_inv_def)
next
  case (Send w bus)
  obtain row rest v where t: "os_todo s w = row # rest" "os_sent s w = None" "outbox (os_db s') = outbox (os_db s)"
    "os_todo s' = os_todo s" "os_sent s' = (os_sent s)(w := Some v)" "os_log s' = os_log s @ [(ob_id row, v)]"
    by (rule exec_send [OF e [unfolded Send]])
  have "outcome_ok s' r" if "r \<in> set (outbox (os_db s))" for r
  proof -
    have "outcome_ok s r" using inv that by (simp add: outbox_inv_def)
    then show ?thesis by (rule outcome_ok_log) (auto simp: t(6))
  qed
  moreover have "\<exists>row rest. os_todo s w' = row # rest \<and> (ob_id row, v') \<in> set (os_log s')" if "os_sent s' w' = Some v'" for w' v'
  proof (cases "w' = w")
    case True
    then show ?thesis using that t(1,5,6) by simp
  next
    case False
    then have "os_sent s w' = Some v'" using that t(5) by simp
    then have "\<exists>row rest. os_todo s w' = row # rest \<and> (ob_id row, v') \<in> set (os_log s)" using inv by (simp add: outbox_inv_def)
    then show ?thesis using t(6) by auto
  qed
  ultimately show ?thesis using inv by (simp add: outbox_inv_def t(3,4))
next
  case (Settle w now)
  obtain row rest v where t: "os_todo s w = row # rest" "os_sent s w = Some v"
    "outbox (os_db s') = update_where (\<lambda>r. ob_id r = ob_id row) (settle_row v now row) (outbox (os_db s))"
    "os_todo s' = (os_todo s)(w := rest)" "os_sent s' = (os_sent s)(w := None)" "os_log s' = os_log s"
    by (rule exec_settle [OF e [unfolded Settle]])
  have "row \<in> set (os_todo s w)" by (simp add: t(1))
  then have row: "ob_attempts row < MAX_OUTBOX_ATTEMPTS" using inv by (simp add: outbox_inv_def)
  have "\<exists>row rest. os_todo s w = row # rest \<and> (ob_id row, v) \<in> set (os_log s)" using inv t(2) by (simp add: outbox_inv_def)
  then have logged: "(ob_id row, v) \<in> set (os_log s)" using t(1) by simp
  have "outcome_ok s' r" if r: "r \<in> set (outbox (os_db s'))" for r
  proof -
    obtain r0 where r0: "r0 \<in> set (outbox (os_db s))" "r = (if ob_id r0 = ob_id row then settle_row v now row r0 else r0)"
      using r t(3) by (auto simp: set_update_where)
    have "outcome_ok s r" using r0 inv outcome_ok_settle [OF _ row logged] by (auto simp: outbox_inv_def)
    then show ?thesis using t(6) by (simp add: outcome_ok_def)
  qed
  moreover have "keyed ob_id (outbox (os_db s'))" unfolding t(3) using inv by (intro keyed_update_where) (auto simp: outbox_inv_def)
  moreover have "\<exists>row rest. os_todo s' w' = row # rest \<and> (ob_id row, v') \<in> set (os_log s')" if v': "os_sent s' w' = Some v'" for w' v'
  proof -
    have w': "w' \<noteq> w" "os_sent s w' = Some v'" using v' t(5) by (auto split: if_splits)
    then have "\<exists>row rest. os_todo s w' = row # rest \<and> (ob_id row, v') \<in> set (os_log s)" using inv by (simp add: outbox_inv_def)
    then show ?thesis using t(4,6) w'(1) by simp
  qed
  moreover have "ob_attempts x < MAX_OUTBOX_ATTEMPTS" if x: "x \<in> set (os_todo s' w')" for w' x
  proof -
    have "x \<in> set (os_todo s w')" using x t(1,4) by (auto split: if_splits)
    then show ?thesis using inv by (auto simp: outbox_inv_def)
  qed
  ultimately show ?thesis by (simp add: outbox_inv_def)
next
  case (Crash w)
  then have s': "s' = s\<lparr>os_todo := (os_todo s)(w := []), os_sent := (os_sent s)(w := None)\<rparr>" using e by simp
  then show ?thesis using inv by (auto simp: outbox_inv_def outcome_ok_def split: if_splits)
qed

lemma reachable_outbox_inv: "outbox_reachable allowed s \<Longrightarrow> outbox_inv s"
proof (induction rule: outbox_reachable.induct)
  case (start s)
  then show ?case by (simp add: outbox_inv_def keyed_def)
qed (rule outbox_inv_step)

lemma exec_keeps_rows:
  assumes "outbox_exec e s = Some s'" and "r \<in> set (outbox (os_db s))"
  shows "\<exists>r'\<in>set (outbox (os_db s')). same_message r r'"
proof (cases e)
  case (Enqueue i now ty payload)
  then show ?thesis using assms by (auto simp: enqueue_def insert_row_def same_message_def split: if_splits)
next
  case (Tick w now)
  have "tick_row now (tick_ids now (os_db s)) r \<in> set (outbox (os_db s'))"
    unfolding exec_tick(2) [OF assms(1) [unfolded Tick]] using assms(2) by simp
  then show ?thesis by (rule bexI [rotated]) simp
next
  case (Send w bus)
  then show ?thesis using assms exec_send [of w bus s s'] by (metis same_message_def)
next
  case (Settle w now)
  obtain row rest v where "outbox (os_db s') = update_where (\<lambda>r. ob_id r = ob_id row) (settle_row v now row) (outbox (os_db s))"
    using assms(1) exec_settle [of w now s s'] Settle by metis
  then have "(if ob_id r = ob_id row then settle_row v now row r else r) \<in> set (outbox (os_db s'))"
    using assms(2) by (simp add: set_update_where)
  then show ?thesis by (rule bexI [rotated]) (simp add: same_message_def)
next
  case (Crash w)
  then show ?thesis using assms by (auto simp: same_message_def)
qed

inductive outbox_run :: "(outbox_event \<Rightarrow> bool) \<Rightarrow> outbox_system \<Rightarrow> outbox_system \<Rightarrow> bool" for allowed where
  here: "outbox_run allowed s s"
| more: "outbox_run allowed s s' \<Longrightarrow> allowed e \<Longrightarrow> outbox_exec e s' = Some s'' \<Longrightarrow> outbox_run allowed s s''"

lemma outbox_run_reachable: "outbox_run allowed s s' \<Longrightarrow> outbox_reachable allowed s \<Longrightarrow> outbox_reachable allowed s'"
  by (induction rule: outbox_run.induct) (auto intro: outbox_reachable.step)

lemma outbox_run_keeps_rows:
  "outbox_run allowed s s' \<Longrightarrow> r \<in> set (outbox (os_db s)) \<Longrightarrow> \<exists>r'\<in>set (outbox (os_db s')). same_message r r'"
proof (induction rule: outbox_run.induct)
  case (here s)
  then show ?case by (auto simp: same_message_def)
next
  case (more s s' e s'')
  then obtain r1 where r1: "r1 \<in> set (outbox (os_db s'))" "same_message r r1" by blast
  obtain r2 where "r2 \<in> set (outbox (os_db s''))" "same_message r1 r2" using exec_keeps_rows [OF more.hyps(3) r1(1)] by blast
  then show ?case using r1(2) by (auto simp: same_message_def)
qed

text \<open>
  C38: no message is lost, whatever number of instances share the outbox, in whatever order their steps
  come and whenever they crash. A message written once keeps its row for ever, with its event and its
  payload; a row is marked done only after the bus took the event, and given up only after five attempts
  or when the bus refused it as malformed.
\<close>

theorem messages_not_lost:
  assumes "outbox_reachable allowed s" and "r \<in> set (outbox (os_db s))" and "outbox_run allowed s s'"
  shows "\<exists>r'\<in>set (outbox (os_db s')). same_message r r' \<and> ob_attempts r' \<le> 5 \<and>
    (ob_status r' = O_DONE \<longrightarrow> (ob_id r, Delivered) \<in> set (os_log s')) \<and>
    (ob_status r' = O_FAILED \<longrightarrow> ob_attempts r' = 5 \<or> (ob_id r, Invalid_Event) \<in> set (os_log s'))"
proof -
  obtain r' where r': "r' \<in> set (outbox (os_db s'))" "same_message r r'" using outbox_run_keeps_rows [OF assms(3,2)] by blast
  have "outbox_inv s'" by (rule reachable_outbox_inv [OF outbox_run_reachable [OF assms(3,1)]])
  then have "outcome_ok s' r'" using r'(1) by (simp add: outbox_inv_def)
  then show ?thesis using r' by (intro bexI [of _ r']) (auto simp: outcome_ok_def same_message_def MAX_OUTBOX_ATTEMPTS_def)
qed

section \<open>One instance delivers once\<close>

definition history :: "outbox_system \<Rightarrow> uuid \<Rightarrow> delivery list" where
  "history s i = map snd (filter (\<lambda>p. fst p = i) (os_log s))"

definition unsettled :: "outbox_system \<Rightarrow> uuid \<Rightarrow> delivery list" where
  "unsettled s i = (case os_sent s 0 of None \<Rightarrow> [] | Some v \<Rightarrow> if ob_id (hd (os_todo s 0)) = i then [v] else [])"

definition settled_history :: "outbox_row \<Rightarrow> delivery list \<Rightarrow> bool" where
  "settled_history r h \<longleftrightarrow>
     (if ob_status r = O_DONE
      then \<exists>xs. h = xs @ [Delivered] \<and> Delivered \<notin> set xs \<and> length xs = ob_attempts r \<and> length xs < MAX_OUTBOX_ATTEMPTS
      else Delivered \<notin> set h \<and> length h = ob_attempts r)"

definition solo_inv :: "outbox_system \<Rightarrow> bool" where
  "solo_inv s \<longleftrightarrow>
     keyed ob_id (os_todo s 0) \<and>
     set (os_todo s 0) = {r \<in> set (outbox (os_db s)). ob_status r = O_PROCESSING} \<and>
     (os_sent s 0 \<noteq> None \<longrightarrow> os_todo s 0 \<noteq> []) \<and>
     (\<forall>p\<in>set (os_log s). fst p \<in> ob_id ` set (outbox (os_db s))) \<and>
     (\<forall>r\<in>set (outbox (os_db s)). \<exists>h. settled_history r h \<and> history s (ob_id r) = h @ unsettled s (ob_id r))"

lemma history_append: "os_log s' = os_log s @ [(j, v)] \<Longrightarrow> history s' i = history s i @ (if i = j then [v] else [])"
  by (auto simp: history_def)

lemma solo_enqueue:
  assumes inv: "solo_inv s" and new: "ob_id new \<notin> ob_id ` set (outbox (os_db s))" "ob_status new = O_PENDING" "ob_attempts new = 0"
    and s': "outbox (os_db s') = outbox (os_db s) @ [new]" "os_todo s' = os_todo s" "os_sent s' = os_sent s" "os_log s' = os_log s"
  shows "solo_inv s'"
proof -
  have "history s (ob_id new) = []" using inv new(1) by (force simp: history_def filter_empty_conv solo_inv_def)
  moreover have "unsettled s (ob_id new) = []"
  proof (cases "os_sent s 0")
    case (Some v)
    then have "os_todo s 0 \<noteq> []" using inv by (simp add: solo_inv_def)
    then have "hd (os_todo s 0) \<in> set (os_todo s 0)" by (rule hd_in_set)
    then have "hd (os_todo s 0) \<in> set (outbox (os_db s))" using inv by (simp add: solo_inv_def)
    then have "ob_id (hd (os_todo s 0)) \<noteq> ob_id new" using new(1) by (metis image_eqI)
    then show ?thesis using Some by (simp add: unsettled_def)
  qed (simp add: unsettled_def)
  moreover have f: "history s' j = history s j" "unsettled s' j = unsettled s j" for j
    by (simp_all add: history_def unsettled_def s' split: option.splits)
  ultimately have "settled_history new [] \<and> history s' (ob_id new) = [] @ unsettled s' (ob_id new)"
    by (simp add: settled_history_def new)
  then have "\<exists>h. settled_history new h \<and> history s' (ob_id new) = h @ unsettled s' (ob_id new)" by blast
  moreover have "\<forall>r\<in>set (outbox (os_db s)). \<exists>h. settled_history r h \<and> history s' (ob_id r) = h @ unsettled s' (ob_id r)"
    using inv by (simp add: solo_inv_def f)
  ultimately show ?thesis using inv new(2) by (simp add: solo_inv_def s') auto
qed

lemma solo_tick:
  assumes inv: "solo_inv s" and k: "keyed ob_id (outbox (os_db s))" and e: "outbox_exec (Tick 0 now) s = Some s'"
  shows "solo_inv s'"
proof -
  note t = exec_tick [OF e]
  let ?c = "tick_ids now (os_db s)"
  have sent: "os_sent s 0 = None" using inv t(1) by (auto simp: solo_inv_def)
  have idle: "ob_status r \<noteq> O_PROCESSING" if "r \<in> set (outbox (os_db s))" for r using inv t(1) that by (auto simp: solo_inv_def)
  have row: "tick_row now ?c r = (if ob_id r \<in> ?c then r\<lparr>ob_status := O_PROCESSING\<rparr> else r)" if "r \<in> set (outbox (os_db s))" for r
    using idle [OF that] by (simp add: tick_row_def stale_def)
  have pend: "ob_status r = O_PENDING" if "r \<in> set (outbox (os_db s))" "ob_id r \<in> ?c" for r
    using tick_ids_row [OF k that] idle [OF that(1)] by (auto simp: stale_def)
  have hist: "history s' i = history s i" "unsettled s' i = []" "unsettled s i = []" for i
    using t(4,5) sent by (simp_all add: history_def unsettled_def)
  have "settled_history (tick_row now ?c r) h \<longleftrightarrow> settled_history r h" if "r \<in> set (outbox (os_db s))" for r h
    using pend [OF that] by (auto simp: row [OF that] settled_history_def)
  then have "\<forall>r\<in>set (outbox (os_db s')). \<exists>h. settled_history r h \<and> history s' (ob_id r) = h @ unsettled s' (ob_id r)"
    using inv unfolding t(2) by (auto simp: solo_inv_def hist)
  moreover have "keyed ob_id (os_todo s' 0)" using k by (simp add: t(2,3) keyed_def distinct_map_filter comp_def)
  moreover have "\<forall>r\<in>set (outbox (os_db s')). ob_status r = O_PROCESSING \<longrightarrow> ob_id r \<in> ?c"
    unfolding t(2) using idle row by (auto split: if_splits)
  moreover have "\<forall>r\<in>set (outbox (os_db s')). ob_id r \<in> ?c \<longrightarrow> ob_status r = O_PROCESSING"
    unfolding t(2) by (auto simp: tick_row_def Let_def)
  moreover have "\<forall>p\<in>set (os_log s'). fst p \<in> ob_id ` set (outbox (os_db s'))"
    using inv unfolding t(2,5) by (auto simp: solo_inv_def image_image)
  ultimately show ?thesis using sent t(3,4) by (auto simp: solo_inv_def)
qed

lemma solo_send:
  assumes inv: "solo_inv s" and e: "outbox_exec (Send 0 bus) s = Some s'"
  shows "solo_inv s'"
proof -
  obtain row rest v where t: "os_todo s 0 = row # rest" "os_sent s 0 = None" "outbox (os_db s') = outbox (os_db s)"
    "os_todo s' = os_todo s" "os_sent s' = (os_sent s)(0 := Some v)" "os_log s' = os_log s @ [(ob_id row, v)]"
    by (rule exec_send [OF e])
  have "unsettled s i = []" "unsettled s' i = (if i = ob_id row then [v] else [])" for i
    using t by (simp_all add: unsettled_def)
  then have h: "history s' i = history s i @ (if i = ob_id row then [v] else [])" "unsettled s i = []"
      "unsettled s' i = (if i = ob_id row then [v] else [])" for i
    using history_append [OF t(6)] by simp_all
  have "row \<in> set (os_todo s 0)" by (simp add: t(1))
  then have "row \<in> set (outbox (os_db s))" using inv unfolding solo_inv_def by blast
  then have log: "\<forall>p\<in>set (os_log s'). fst p \<in> ob_id ` set (outbox (os_db s'))"
    using inv by (simp add: t(3,6) solo_inv_def)
  have hist: "\<forall>r\<in>set (outbox (os_db s')). \<exists>h. settled_history r h \<and> history s' (ob_id r) = h @ unsettled s' (ob_id r)"
    using inv by (simp add: solo_inv_def t(3) h)
  show ?thesis using inv log hist t(1) by (simp add: solo_inv_def t(3,4))
qed

lemma settled_settle:
  assumes "settled_history r h" and "ob_status r \<noteq> O_DONE" and "ob_attempts r < MAX_OUTBOX_ATTEMPTS"
  shows "settled_history (settle_row v now r r) (h @ [v])"
  using assms by (cases v) (auto simp: settled_history_def settle_row_def Let_def)

lemma settled_not_processing: "ob_status (settle_row v now row r) \<noteq> O_PROCESSING"
  by (simp add: settle_row_def Let_def)

lemma solo_settle:
  assumes inv: "solo_inv s" and oi: "outbox_inv s" and e: "outbox_exec (Settle 0 now) s = Some s'"
  shows "solo_inv s'"
proof -
  obtain row rest v where t: "os_todo s 0 = row # rest" "os_sent s 0 = Some v"
    "outbox (os_db s') = update_where (\<lambda>r. ob_id r = ob_id row) (settle_row v now row) (outbox (os_db s))"
    "os_todo s' = (os_todo s)(0 := rest)" "os_sent s' = (os_sent s)(0 := None)" "os_log s' = os_log s"
    by (rule exec_settle [OF e])
  have k: "keyed ob_id (outbox (os_db s))" using oi by (simp add: outbox_inv_def)
  have todo: "set (row # rest) = {r \<in> set (outbox (os_db s)). ob_status r = O_PROCESSING}" "keyed ob_id (row # rest)"
    using inv by (simp_all add: solo_inv_def t(1) [symmetric])
  have row: "row \<in> set (outbox (os_db s))" "ob_status row = O_PROCESSING" using todo(1) by auto
  have att: "ob_attempts row < MAX_OUTBOX_ATTEMPTS" using oi row by (auto simp: outbox_inv_def outcome_ok_def)
  have same: "r = row" if "r \<in> set (outbox (os_db s))" "ob_id r = ob_id row" for r using keyed_inj [OF k that(1) row(1) that(2)] .
  have h: "history s' i = history s i" "unsettled s' i = []" "unsettled s i = (if i = ob_id row then [v] else [])" for i
    using t by (simp_all add: history_def unsettled_def)
  have hist: "\<exists>h. settled_history (if ob_id r = ob_id row then settle_row v now row r else r) h \<and> history s' (ob_id r) = h"
    if r: "r \<in> set (outbox (os_db s))" for r
  proof -
    obtain h where hr: "settled_history r h" "history s (ob_id r) = h @ unsettled s (ob_id r)" using inv r by (auto simp: solo_inv_def)
    show ?thesis
    proof (cases "ob_id r = ob_id row")
      case True
      then have "r = row" using same r by simp
      then show ?thesis using hr settled_settle [of row h v now] row(2) att by (auto simp: h)
    qed (use hr in \<open>simp add: h\<close>)
  qed
  have "set rest = {r \<in> set (outbox (os_db s')). ob_status r = O_PROCESSING}"
  proof -
    have "row \<notin> set rest" using todo(2) by (auto simp: keyed_def)
    then have "set rest = {r \<in> set (outbox (os_db s)). ob_status r = O_PROCESSING} - {row}" using todo(1) by auto
    also have "\<dots> = {r \<in> set (outbox (os_db s')). ob_status r = O_PROCESSING}"
      unfolding t(3) set_update_where using same row(2) settled_not_processing by (auto split: if_splits) metis
    finally show ?thesis .
  qed
  moreover have "\<forall>r\<in>set (outbox (os_db s')). \<exists>h. settled_history r h \<and> history s' (ob_id r) = h @ unsettled s' (ob_id r)"
    unfolding t(3) set_update_where
  proof (intro ballI, elim imageE)
    fix x r
    assume "x = (if ob_id r = ob_id row then settle_row v now row r else r)" and r: "r \<in> set (outbox (os_db s))"
    then show "\<exists>h. settled_history x h \<and> history s' (ob_id x) = h @ unsettled s' (ob_id x)" using hist [OF r] by (auto simp: h)
  qed
  moreover have "\<forall>p\<in>set (os_log s'). fst p \<in> ob_id ` set (outbox (os_db s'))"
  proof -
    have "ob_id ` set (outbox (os_db s')) = ob_id ` set (outbox (os_db s))"
      unfolding t(3) set_update_where image_image by (intro image_cong) auto
    then show ?thesis using inv by (simp add: solo_inv_def t(6))
  qed
  ultimately show ?thesis using todo(2) by (simp add: solo_inv_def t(4,5) keyed_def)
qed

lemma solo_reachable_inv: "outbox_reachable solo s \<Longrightarrow> solo_inv s"
proof (induction rule: outbox_reachable.induct)
  case (start s)
  then show ?case by (simp add: solo_inv_def keyed_def)
next
  case (step s e s')
  have oi: "outbox_inv s" by (rule reachable_outbox_inv [OF step.hyps(1)])
  show ?case
  proof (cases e)
    case (Enqueue i now ty payload)
    then show ?thesis using step.hyps(3) solo_enqueue [OF step.IH, of "\<lparr>ob_id = i, ob_event_type = ty, ob_payload = payload,
       ob_status = O_PENDING, ob_attempts = 0, ob_next_retry_at = now, ob_created_at = now, ob_processed_at = None\<rparr>" s']
      by (auto simp: enqueue_def insert_row_def split: if_splits)
  next
    case (Tick w now)
    then show ?thesis using step oi solo_tick [OF step.IH, of now s'] by (simp add: outbox_inv_def)
  next
    case (Send w bus)
    then show ?thesis using step solo_send [OF step.IH, of bus s'] by simp
  next
    case (Settle w now)
    then show ?thesis using step solo_settle [OF step.IH oi, of now s'] by simp
  next
    case (Crash w)
    then show ?thesis using step by simp
  qed
qed

text \<open>
  A lone worker that does not crash delivers every message at most once and tries at most five times:
  whatever the bus answered so far for a message, there are at most five answers and only the last can
  be an acceptance, after which the message is never sent again.
\<close>

theorem lone_worker_delivers_once:
  assumes "outbox_reachable solo s" and "r \<in> set (outbox (os_db s))"
  shows "length (history s (ob_id r)) \<le> 5 \<and> Delivered \<notin> set (butlast (history s (ob_id r)))"
proof -
  have inv: "solo_inv s" and oi: "outbox_inv s" using solo_reachable_inv reachable_outbox_inv assms(1) by blast+
  obtain h where h: "settled_history r h" "history s (ob_id r) = h @ unsettled s (ob_id r)" using inv assms(2) by (auto simp: solo_inv_def)
  have le: "ob_attempts r \<le> MAX_OUTBOX_ATTEMPTS" using oi assms(2) by (auto simp: outbox_inv_def outcome_ok_def)
  show ?thesis
  proof (cases "unsettled s (ob_id r)")
    case Nil
    then show ?thesis using h le
      by (auto simp: settled_history_def MAX_OUTBOX_ATTEMPTS_def butlast_append dest: in_set_butlastD split: if_splits)
  next
    case (Cons v vs)
    then obtain v' where sent: "os_sent s 0 = Some v'" "ob_id (hd (os_todo s 0)) = ob_id r" "vs = []"
      by (auto simp: unsettled_def split: option.splits if_splits)
    then have "hd (os_todo s 0) \<in> set (os_todo s 0)" using inv by (intro hd_in_set) (simp add: solo_inv_def)
    then have hd: "hd (os_todo s 0) \<in> set (outbox (os_db s))" "ob_status (hd (os_todo s 0)) = O_PROCESSING"
      using inv unfolding solo_inv_def by blast+
    have "hd (os_todo s 0) = r" using keyed_inj [OF _ hd(1) assms(2) sent(2)] oi by (simp add: outbox_inv_def)
    then have "ob_status r = O_PROCESSING" "ob_attempts r < MAX_OUTBOX_ATTEMPTS"
      using hd oi by (auto simp: outbox_inv_def outcome_ok_def)
    then show ?thesis using h Cons sent(3) by (simp add: settled_history_def MAX_OUTBOX_ATTEMPTS_def)
  qed
qed

section \<open>A run refines a queue of jobs\<close>

text \<open>What a row promises, without the bookkeeping: a job waits, has been finished or is given up.\<close>

datatype job = Waiting nat | Finished | Given_Up

fun job_step :: "delivery \<Rightarrow> job \<Rightarrow> job" where
  "job_step Delivered (Waiting n) = Finished"
| "job_step Invalid_Event (Waiting n) = Given_Up"
| "job_step Transport_Failure (Waiting n) = (if n < 4 then Waiting (n + 1) else Given_Up)"
| "job_step v j = j"

definition abs_row :: "outbox_row \<Rightarrow> job" where
  "abs_row r =
     (case ob_status r of O_DONE \<Rightarrow> Finished | O_FAILED \<Rightarrow> Given_Up | _ \<Rightarrow> Waiting (ob_attempts r))"

definition verdict :: "bus \<Rightarrow> outbox_row \<Rightarrow> delivery" where
  "verdict bus row =
     (let payload = normalizePayload (ob_event_type row) (ob_payload row)
      in if isMessagingInternalEvent (ob_event_type row)
         then (if ob_event_type row = SNAPSHOT_REPAIR_REQUESTED \<and> text_of payload ''conversationId'' \<noteq> []
               then Delivered else Transport_Failure)
         else bus (ob_event_type row) payload)"

lemma fst_deliver: "fst (deliver bus row db) = verdict bus row"
  by (auto simp: deliver_def verdict_def handleInternalEvent_def Let_def split: delivery.splits)

lemma verdict_same: "same_message r r' \<Longrightarrow> verdict bus r' = verdict bus r"
  by (simp add: verdict_def same_message_def cong: if_cong)

lemma abs_settle_row:
  "abs_row (settle_row v now row r) = job_step v (Waiting (ob_attempts row))"
  by (cases v) (auto simp: abs_row_def settle_row_def Let_def MAX_OUTBOX_ATTEMPTS_def)

lemma outbox_process_row:
  assumes "\<not> skipped row"
  shows "outbox (process_row bus now row db) =
    map (\<lambda>r. if ob_id r = ob_id row then settle_row (verdict bus row) now row r else r) (outbox db)"
proof -
  obtain v db1 where d: "deliver bus row db = (v, db1)" by (cases "deliver bus row db")
  then have "v = verdict bus row" "outbox db1 = outbox db"
    using fst_deliver [of bus row db] outbox_deliver [of bus row db] by simp_all
  then show ?thesis using assms d by (simp add: process_row_def update_where_def)
qed

lemma outbox_process_rows:
  assumes "keyed ob_id rows" and "\<forall>row\<in>set rows. \<not> skipped row"
  shows "outbox (fold (\<lambda>row. process_row bus (clock (ob_id row)) row) rows db) =
    map (\<lambda>r. case find_where (\<lambda>row. ob_id row = ob_id r) rows of None \<Rightarrow> r
      | Some row \<Rightarrow> settle_row (verdict bus row) (clock (ob_id row)) row r) (outbox db)"
  using assms
proof (induction rows arbitrary: db)
  case (Cons row rows)
  have fresh: "find_where (\<lambda>x. ob_id x = ob_id row) rows = None"
    using Cons.prems(1) by (auto simp: find_where_None keyed_def) (metis image_eqI)
  have "outbox (fold (\<lambda>row. process_row bus (clock (ob_id row)) row) (row # rows) db) =
      map (\<lambda>r. case find_where (\<lambda>x. ob_id x = ob_id r) rows of None \<Rightarrow> r
        | Some x \<Rightarrow> settle_row (verdict bus x) (clock (ob_id x)) x r)
      (outbox (process_row bus (clock (ob_id row)) row db))"
    using Cons by (simp add: keyed_def)
  also have "\<dots> = map (\<lambda>r. case find_where (\<lambda>x. ob_id x = ob_id r) (row # rows) of None \<Rightarrow> r
        | Some x \<Rightarrow> settle_row (verdict bus x) (clock (ob_id x)) x r) (outbox db)"
    using Cons.prems(2) fresh by (subst outbox_process_row) (auto intro!: map_cong split: option.splits)
  finally show ?case .
qed simp

text \<open>
  C39: a run of the worker implements one round of an abstract queue of jobs. When no other instance holds
  rows, exactly the jobs the run claims (the oldest twenty that are due, with those a crash left behind)
  take one step of the job by the answer of the bus, and every other job stays what it was.
\<close>

theorem run_refines_queue:
  assumes "keyed ob_id (outbox db)" and "\<forall>r\<in>set (outbox db). \<not> skipped r"
    and "\<forall>r\<in>set (outbox db). ob_status r = O_PROCESSING \<longrightarrow> stale now r"
  shows "map abs_row (outbox (processOutbox bus now clock db)) =
    map (\<lambda>r. if ob_id r \<in> tick_ids now db then job_step (verdict bus r) (abs_row r) else abs_row r) (outbox db)"
proof -
  let ?c = "tick_ids now db"
  let ?t = "map (tick_row now ?c) (outbox db)"
  obtain rows db1 where c: "claimPendingRows now 20 (recoverStaleProcessingRows now db) = (rows, db1)"
    by (cases "claimPendingRows now 20 (recoverStaleProcessingRows now db)")
  have o: "outbox db1 = ?t"
    using claimPendingRows_simps(2) [of now 20 "recoverStaleProcessingRows now db"] c
    by (auto simp: tick_row_def tick_ids_def Let_def)
  have "rows = fst (claimPendingRows now 20 (recoverStaleProcessingRows now db))"
    "db1 = snd (claimPendingRows now 20 (recoverStaleProcessingRows now db))" by (simp_all add: c)
  then have "rows = filter (\<lambda>r. ob_id r \<in> ?c) (outbox db1)" by (simp only: claimPendingRows_simps tick_ids_def)
  then have rows: "rows = filter (\<lambda>r. ob_id r \<in> ?c) ?t" by (simp only: o)
  have kt: "keyed ob_id ?t" using assms(1) by (simp add: keyed_def comp_def)
  have k: "keyed ob_id rows" using kt by (simp add: rows keyed_def distinct_map_filter)
  have ns: "\<forall>row\<in>set rows. \<not> skipped row"
  proof -
    have "skipped (tick_row now ?c r) = skipped r" for r using tick_row_simps(3) by (simp add: skipped_def same_message_def)
    then show ?thesis using assms(2) by (auto simp: rows)
  qed
  have run: "outbox (processOutbox bus now clock db) = map (\<lambda>r. case find_where (\<lambda>row. ob_id row = ob_id r) rows of None \<Rightarrow> r
      | Some row \<Rightarrow> settle_row (verdict bus row) (clock (ob_id row)) row r) ?t"
    by (simp add: processOutbox_def c outbox_process_rows [OF k ns] o)
  have "abs_row (case find_where (\<lambda>row. ob_id row = ob_id r) rows of None \<Rightarrow> tick_row now ?c r
      | Some row \<Rightarrow> settle_row (verdict bus row) (clock (ob_id row)) row (tick_row now ?c r)) =
      (if ob_id r \<in> ?c then job_step (verdict bus r) (abs_row r) else abs_row r)" if r: "r \<in> set (outbox db)" for r
  proof (cases "ob_id r \<in> ?c")
    case True
    then have "tick_row now ?c r \<in> set rows" using r by (simp add: rows)
    then have f: "find_where (\<lambda>row. ob_id row = ob_id r) rows = Some (tick_row now ?c r)"
      using keyed_find_where [OF k, of "tick_row now ?c r"] by simp
    have "ob_status r = O_PENDING \<or> stale now r" by (rule tick_ids_row [OF assms(1) r True])
    then have "abs_row r = Waiting (ob_attempts r)" by (auto simp: abs_row_def stale_def)
    then show ?thesis using True by (simp add: f abs_settle_row verdict_same [OF tick_row_simps(3)])
  next
    case False
    then have f: "find_where (\<lambda>row. ob_id row = ob_id r) rows = None" by (auto simp: rows find_where_None)
    have "abs_row (tick_row now ?c r) = abs_row r" using False by (auto simp: tick_row_def abs_row_def stale_def Let_def)
    then show ?thesis using False by (simp add: f)
  qed
  then show ?thesis unfolding run by simp
qed

section \<open>A slow delivery is repeated\<close>

fun outbox_execs :: "outbox_event list \<Rightarrow> outbox_system \<Rightarrow> outbox_system option" where
  "outbox_execs [] s = Some s"
| "outbox_execs (e # es) s = (case outbox_exec e s of None \<Rightarrow> None | Some s' \<Rightarrow> outbox_execs es s')"

text \<open>
  C40: with two instances a message can be delivered twice and delivered again after it is done. A row is
  taken back when it is a minute old, not when it was claimed a minute ago: for a message written more
  than a minute ago the second instance takes the row while the first is delivering it. Both deliver it,
  and when the first one's attempt fails its late update puts the finished message back into the queue.
\<close>

theorem slow_delivery_repeated:
  assumes "outbox (os_db s) = [r]" and "ob_status r = O_PENDING" and "ob_next_retry_at r \<le> t" and "ob_processed_at r = None"
    and "ob_created_at r < t' - 60000" and "ob_attempts r < 4" and "\<not> isMessagingInternalEvent (ob_event_type r)"
    and "os_todo s = (\<lambda>w. [])" and "os_sent s = (\<lambda>w. None)"
  shows "\<exists>s'. outbox_execs [Tick 0 t, Send 0 (\<lambda>_ _. v), Tick 1 t', Send 1 (\<lambda>_ _. Delivered), Settle 1 t', Settle 0 t''] s = Some s' \<and>
    os_log s' = os_log s @ [(ob_id r, v), (ob_id r, Delivered)] \<and>
    (v = Transport_Failure \<longrightarrow> map ob_status (outbox (os_db s')) = [O_PENDING])"
proof -
  have d0: "deliver (\<lambda>_ _. u) row db = (u, if u = Delivered then publish (ob_event_type row)
      (normalizePayload (ob_event_type row) (ob_payload row)) db else db)" if "ob_event_type row = ob_event_type r" for u row db
    using assms(7) that by (cases u) (simp_all add: deliver_def Let_def)
  show ?thesis using assms(1-6,8,9)
    by (cases v) (simp_all add: d0 claimPendingRows_def recoverStaleProcessingRows_def stale_def claim_ids_def due_def Let_def
        publish_def update_outbox_def settle_row_def MAX_OUTBOX_ATTEMPTS_def)
qed

section \<open>Witnesses\<close>

definition idle_system :: "outbox_row list \<Rightarrow> outbox_system" where
  "idle_system rows = \<lparr>os_db = no_rows\<lparr>outbox := rows\<rparr>, os_todo = (\<lambda>w. []), os_sent = (\<lambda>w. None), os_log = []\<rparr>"

definition sample_row :: "time \<Rightarrow> outbox_row" where
  "sample_row created = \<lparr>ob_id = ''m1'', ob_event_type = ''EVENTS.MESSAGE_SENT'', ob_payload = [], ob_status = O_PENDING,
     ob_attempts = 0, ob_next_retry_at = created, ob_created_at = created, ob_processed_at = None\<rparr>"

lemma one_message: "outbox_exec (Enqueue ''m1'' 0 ''EVENTS.MESSAGE_SENT'' []) (idle_system []) = Some (idle_system [sample_row 0])"
  by (simp add: idle_system_def sample_row_def enqueue_def insert_row_def no_rows_def)

lemma idle_reachable: "outbox_reachable solo (idle_system [sample_row 0])"
  by (rule outbox_reachable.step [OF outbox_reachable.start _ one_message]) (simp_all add: idle_system_def)

lemma outbox_execs_run:
  "outbox_execs es s = Some s' \<Longrightarrow> list_all allowed es \<Longrightarrow> outbox_reachable allowed s \<Longrightarrow> outbox_run allowed s s'"
proof (induction es arbitrary: s' rule: rev_induct)
  case (snoc e es)
  have "outbox_execs (es @ es') s0 = (case outbox_execs es s0 of None \<Rightarrow> None | Some s1 \<Rightarrow> outbox_execs es' s1)" for es' s0
    by (induction es arbitrary: s0) (simp_all split: option.splits)
  then obtain s1 where "outbox_execs es s = Some s1" "outbox_exec e s1 = Some s'"
    using snoc.prems(1) by (auto split: option.splits)
  then show ?case using snoc by (auto intro: outbox_run.more)
qed (auto intro: outbox_run.here)

definition delivered_system :: outbox_system where
  "delivered_system = the (outbox_execs [Tick 0 0, Send 0 (\<lambda>_ _. Delivered), Settle 0 5] (idle_system [sample_row 0]))"

lemma delivered_execs:
  "outbox_execs [Tick 0 0, Send 0 (\<lambda>_ _. Delivered), Settle 0 5] (idle_system [sample_row 0]) = Some delivered_system"
  "os_log delivered_system = [(''m1'', Delivered)]"
  "outbox (os_db delivered_system) = [(sample_row 0)\<lparr>ob_status := O_DONE, ob_processed_at := Some 5\<rparr>]"
  by (simp_all add: delivered_system_def idle_system_def sample_row_def claimPendingRows_def recoverStaleProcessingRows_def
      stale_def claim_ids_def due_def Let_def deliver_def publish_def update_outbox_def settle_row_def no_rows_def
      isMessagingInternalEvent_def string_prefix_def SNAPSHOT_REPAIR_REQUESTED_def)

lemma delivered_run: "outbox_run solo (idle_system [sample_row 0]) delivered_system"
  by (rule outbox_execs_run [OF delivered_execs(1) _ idle_reachable]) simp

theorem messages_not_lost_witness:
  "\<exists>r'\<in>set (outbox (os_db delivered_system)). same_message (sample_row 0) r' \<and> ob_attempts r' \<le> 5"
  using messages_not_lost [OF idle_reachable _ delivered_run, of "sample_row 0"] by (auto simp: idle_system_def)

theorem lone_worker_delivers_once_witness:
  "length (history delivered_system ''m1'') \<le> 5 \<and> history delivered_system ''m1'' = [Delivered]"
  using lone_worker_delivers_once [OF outbox_run_reachable [OF delivered_run idle_reachable],
      of "(sample_row 0)\<lparr>ob_status := O_DONE, ob_processed_at := Some 5\<rparr>"]
  by (simp add: delivered_execs history_def sample_row_def)

theorem run_refines_queue_witness:
  "map abs_row (outbox (processOutbox (\<lambda>_ _. Transport_Failure) 0 (\<lambda>i. 7) (no_rows\<lparr>outbox := [sample_row 0, (sample_row 0)\<lparr>ob_id := ''m2'', ob_next_retry_at := 9\<rparr>]\<rparr>))) =
     [Waiting 1, Waiting 0]"
  using run_refines_queue [of "no_rows\<lparr>outbox := [sample_row 0, (sample_row 0)\<lparr>ob_id := ''m2'', ob_next_retry_at := 9\<rparr>]\<rparr>" 0
      "\<lambda>_ _. Transport_Failure" "\<lambda>i. 7"]
  by (simp add: keyed_def sample_row_def skipped_def tick_ids_def claim_ids_def due_def stale_def abs_row_def verdict_def Let_def
      isMessagingInternalEvent_def string_prefix_def SNAPSHOT_REPAIR_REQUESTED_def)

theorem slow_delivery_repeated_witness:
  "\<exists>s'. outbox_execs [Tick 0 70000, Send 0 (\<lambda>_ _. Transport_Failure), Tick 1 71000, Send 1 (\<lambda>_ _. Delivered), Settle 1 71000, Settle 0 80000]
     (idle_system [sample_row 0]) = Some s' \<and> os_log s' = [(''m1'', Transport_Failure), (''m1'', Delivered)] \<and>
     map ob_status (outbox (os_db s')) = [O_PENDING]"
  using slow_delivery_repeated [of "idle_system [sample_row 0]" "sample_row 0" 70000 71000 Transport_Failure 80000]
  by (simp add: idle_system_def sample_row_def isMessagingInternalEvent_def string_prefix_def SNAPSHOT_REPAIR_REQUESTED_def)

end
