(* ===== verification/Conversations.thy ===== *)
theory Conversations
  imports ConversationRepair OutboxWorker KeysetPages
begin

text \<open>
  \<^verbatim>\<open>messaging/conversations.service.ts\<close> and what it uses of \<^verbatim>\<open>conversation-presentation.service.ts\<close>: the inbox,
  its unread badge, a single conversation, and what a participant can do to one. Avatars, cover images and
  the chip with localised dates of a row are not part of the rows here. \<open>profile\<close> and \<open>identity\<close> are the identity service.
\<close>

section \<open>Rows of the inbox\<close>

record conversation_domain =
  dm_id :: uuid
  dm_type :: string
  dm_booking_id :: "uuid option"
  dm_listing_id :: "uuid option"
  dm_messaging_state :: messaging_state
  dm_visibility :: participant_visibility
  dm_post_stay_ends_at :: "time option"
  dm_auto_archive_disabled :: bool
  dm_archive_reason :: "string option"

definition toDomain :: "conversation \<Rightarrow> uuid \<Rightarrow> conversation_domain" where
  "toDomain conv userId =
     \<lparr>dm_id = cv_id conv, dm_type = cv_type conv, dm_booking_id = cv_booking_id conv, dm_listing_id = cv_listing_id conv,
      dm_messaging_state = cv_messaging_state conv, dm_visibility = visibilityFor conv userId,
      dm_post_stay_ends_at = cv_post_stay_ends_at conv, dm_auto_archive_disabled = cv_auto_archive_disabled conv,
      dm_archive_reason = cv_archive_reason conv\<rparr>"

record sync_meta =
  sy_conversation_version :: int
  sy_snapshot_version :: int
  sy_attachment_version :: int
  sy_last_message_id :: "uuid option"
  sy_unread_count :: int
  sy_last_read_message_id :: "uuid option"
  sy_last_read_at :: "time option"

definition buildSyncMeta :: "conversation \<Rightarrow> uuid \<Rightarrow> sync_meta" where
  "buildSyncMeta conv viewerUserId =
     (let isGuest = (cv_guest_user_id conv = Some viewerUserId)
      in \<lparr>sy_conversation_version = cv_conversation_version conv, sy_snapshot_version = cv_snapshot_version conv,
          sy_attachment_version = cv_attachment_version conv, sy_last_message_id = cv_last_message_id conv,
          sy_unread_count = (if isGuest then cv_unread_guest conv else cv_unread_host conv),
          sy_last_read_message_id = (if isGuest then cv_guest_last_read_message_id conv else cv_host_last_read_message_id conv),
          sy_last_read_at = (if isGuest then cv_guest_last_read_at conv else cv_host_last_read_at conv)\<rparr>)"

fun bookingLifecycleSubtitle :: "booking_status option \<Rightarrow> messaging_state \<Rightarrow> string" where
  "bookingLifecycleSubtitle status ARCHIVED = ''Archived''"
| "bookingLifecycleSubtitle (Some COMPLETED) st = ''Stay completed''"
| "bookingLifecycleSubtitle (Some CHECKED_IN) st = ''Current Stay''"
| "bookingLifecycleSubtitle (Some CONFIRMED) st = ''Upcoming Stay''"
| "bookingLifecycleSubtitle (Some CANCELLED_BY_GUEST) st = ''Cancelled''"
| "bookingLifecycleSubtitle (Some CANCELLED_BY_HOST) st = ''Cancelled''"
| "bookingLifecycleSubtitle (Some EXPIRED) st = ''Expired''"
| "bookingLifecycleSubtitle status st = ''Stay''"

definition resolveCounterpartIdentity ::
    "(uuid \<Rightarrow> string option) \<Rightarrow> uuid \<Rightarrow> uuid option \<Rightarrow> uuid option \<Rightarrow> bool \<Rightarrow> stays_db \<Rightarrow> string" where
  "resolveCounterpartIdentity identity hostUserId guestUserId bookingId viewerIsGuest db =
     (if viewerIsGuest
      then (case resolveHostDisplayName identity hostUserId db of
              Some n \<Rightarrow> n | None \<Rightarrow> if truthy bookingId then ''Your host'' else ''Host'')
      else (case (if truthy guestUserId \<and> truthy bookingId
                  then resolveGuestDisplayName identity (the bookingId) guestUserId db
                  else if truthy bookingId then resolveGuestDisplayName identity (the bookingId) None db
                  else if truthy guestUserId then identity (the guestUserId)
                  else None) of
              Some n \<Rightarrow> n | None \<Rightarrow> ''Guest''))"

record presentation =
  ps_title :: string
  ps_subtitle :: string
  ps_counterpart_id :: uuid
  ps_counterpart_name :: string

definition snapshot_text :: "conversation \<Rightarrow> string \<Rightarrow> string option" where
  "snapshot_text conv k = json_string (map_of (cv_reservation_snapshot conv) k)"

definition buildPresentation ::
    "(uuid \<Rightarrow> profile_summary option) \<Rightarrow> (uuid \<Rightarrow> string option) \<Rightarrow> conversation \<Rightarrow> uuid \<Rightarrow> booking_status option \<Rightarrow> stays_db
     \<Rightarrow> presentation" where
  "buildPresentation profile identity conv viewerUserId bookingStatus db =
     (if cv_type conv = ''SUPPORT''
      then \<lparr>ps_title = ''Nexa Support'',
            ps_subtitle = (case trim_or_none (snapshot_text conv ''bookingReference'') of None \<Rightarrow> ''Support'' | Some r \<Rightarrow> r),
            ps_counterpart_id = [], ps_counterpart_name = ''Nexa Support''\<rparr>
      else
        let isGuest = (cv_guest_user_id conv = Some viewerUserId);
            counterpartId = (if isGuest then cv_host_user_id conv else cv_guest_user_id conv);
            displayName = resolveCounterpartIdentity identity (case cv_host_user_id conv of None \<Rightarrow> [] | Some h \<Rightarrow> h)
              (cv_guest_user_id conv) (cv_booking_id conv) isGuest db;
            summary = (if truthy counterpartId then profile (the counterpartId) else None);
            name = (case summary of None \<Rightarrow> displayName
                    | Some p \<Rightarrow> (case pf_full_name p of None \<Rightarrow> displayName | Some n \<Rightarrow> n))
        in \<lparr>ps_title = name, ps_subtitle = bookingLifecycleSubtitle bookingStatus (cv_messaging_state conv),
            ps_counterpart_id = (case counterpartId of None \<Rightarrow> [] | Some c \<Rightarrow> c), ps_counterpart_name = name\<rparr>)"

definition loadLastMessage :: "uuid option \<Rightarrow> stays_db \<Rightarrow> message option" where
  "loadLastMessage messageId db =
     (if truthy messageId then find_where (\<lambda>m. Some (mg_id m) = messageId) (messages db) else None)"

definition closedConversationIds :: "uuid list \<Rightarrow> support_db \<Rightarrow> uuid set" where
  "closedConversationIds ids db =
     set (map tk_conversation_id (filter (\<lambda>t. tk_conversation_id t \<in> set ids \<and> tk_status t = TS_CLOSED) (sp_tickets db)))"

record conversation_row =
  cr_conversation :: conversation_domain
  cr_presentation :: presentation
  cr_sync :: sync_meta
  cr_preview :: "string option"
  cr_at :: "time option"
  cr_permissions :: conversation_permissions

definition booking_status_of :: "conversation \<Rightarrow> stays_db \<Rightarrow> booking_status option" where
  "booking_status_of conv db =
     (if truthy (cv_booking_id conv) then map_option bk_status (find_booking (the (cv_booking_id conv)) db) else None)"

definition toListResponse ::
    "(uuid \<Rightarrow> profile_summary option) \<Rightarrow> (uuid \<Rightarrow> string option) \<Rightarrow> support_db \<Rightarrow> uuid \<Rightarrow> message option \<Rightarrow> conversation
     \<Rightarrow> conversation_row" where
  "toListResponse profile identity db userId lastMessage conv =
     (let p = buildPresentation profile identity conv userId (booking_status_of conv (sp_stays db)) (sp_stays db);
          ticketClosed = (cv_type conv = ''SUPPORT'' \<and> cv_id conv \<in> closedConversationIds [cv_id conv] db);
          perms = resolve conv userId False ticketClosed
      in \<lparr>cr_conversation = toDomain conv userId, cr_presentation = p, cr_sync = buildSyncMeta conv userId,
          cr_preview = (case lastMessage of
              None \<Rightarrow> cv_last_message_preview conv
            | Some m \<Rightarrow> Some (formatInboxPreview (mg_type m) (mg_body m) (mg_metadata m)
                (resolveInboxSenderLabel (mg_sender_id m) userId (cv_guest_user_id conv) (cv_host_user_id conv)
                   (snapshot_text conv ''hostDisplayName'') (snapshot_text conv ''guestDisplayName'')
                   (Some (ps_counterpart_name p)))
                (Some (viewerRole perms)))),
          cr_at = cv_last_message_at conv, cr_permissions = perms\<rparr>)"

section \<open>The inbox\<close>

definition unread_for :: "uuid \<Rightarrow> conversation \<Rightarrow> bool" where
  "unread_for u c \<longleftrightarrow> cv_guest_user_id c = Some u \<and> cv_unread_guest c > 0 \<or> cv_host_user_id c = Some u \<and> cv_unread_host c > 0"

definition booking_active :: "day \<Rightarrow> time \<Rightarrow> conversation \<Rightarrow> booking \<Rightarrow> bool" where
  "booking_active today now c b \<longleftrightarrow>
     (bk_status b \<in> {CONFIRMED, CHECKED_IN} \<and> bk_checkout_date b \<ge> today) \<or>
     (bk_status b = COMPLETED \<and> (case cv_post_stay_ends_at c of None \<Rightarrow> False | Some t \<Rightarrow> t > now))"

definition filter_admits :: "day \<Rightarrow> time \<Rightarrow> uuid \<Rightarrow> string \<Rightarrow> stays_db \<Rightarrow> conversation \<Rightarrow> bool" where
  "filter_admits today now u flt db c =
     (if flt = ''unread'' then unread_for u c
      else if flt = ''active''
      then cv_type c = ''BOOKING'' \<and>
        exists_where (\<lambda>b. Some (bk_id b) = cv_booking_id c \<and> booking_active today now c b) (bookings db)
      else if flt = ''archived''
      then cv_messaging_state c = ARCHIVED \<or> (cv_guest_user_id c = Some u \<and> cv_guest_visibility c = V_ARCHIVED) \<or>
        (cv_host_user_id c = Some u \<and> cv_host_visibility c = V_ARCHIVED)
      else if flt = ''hosts'' then cv_type c = ''BOOKING''
      else if flt = ''support'' then cv_type c = ''SUPPORT'' \<and> cv_messaging_state c \<noteq> ARCHIVED
      else True)"

definition search_admits :: "string option \<Rightarrow> stays_db \<Rightarrow> conversation \<Rightarrow> bool" where
  "search_admits q db c =
     (case trim_or_none q of
        None \<Rightarrow> True
      | Some s \<Rightarrow>
          let like = (\<lambda>x. case x of None \<Rightarrow> False | Some t \<Rightarrow> sql_like (''%'' @ js_lower s @ ''%'') (js_lower t))
          in like (cv_last_message_preview c) \<or>
             list_ex (\<lambda>k. like (snapshot_text c k))
               [''listingTitle'', ''hostDisplayName'', ''guestDisplayName'', ''bookingReference'', ''listingReference'',
                ''city'', ''country''] \<or>
             exists_where (\<lambda>m. mg_conversation_id m = cv_id c \<and> mg_deleted_at m = None \<and> mg_type m = M_TEXT \<and> like (mg_body m))
               (messages db))"

definition inbox_key :: "uuid \<Rightarrow> conversation \<Rightarrow> nat \<times> nat \<times> int \<times> nat" where
  "inbox_key u c =
     (if unread_for u c then 0 else 1,
      case cv_last_message_at c of None \<Rightarrow> 1 | Some _ \<Rightarrow> 0,
      case cv_last_message_at c of None \<Rightarrow> 0 | Some t \<Rightarrow> - t,
      if cv_messaging_state c = ARCHIVED then 1 else 0)"

text \<open>The winner of a booking is the first of its rows with the newest message.\<close>

definition last_time :: "conversation \<Rightarrow> time" where
  "last_time c = (case cv_last_message_at c of None \<Rightarrow> 0 | Some t \<Rightarrow> t)"

definition note_winner :: "conversation \<Rightarrow> (uuid \<Rightarrow> conversation option) \<Rightarrow> uuid \<Rightarrow> conversation option" where
  "note_winner row w =
     (if \<not> truthy (cv_booking_id row) then w
      else case w (the (cv_booking_id row)) of
             None \<Rightarrow> w(the (cv_booking_id row) \<mapsto> row)
           | Some e \<Rightarrow> if last_time row > last_time e then w(the (cv_booking_id row) \<mapsto> row) else w)"

definition dedupeByBookingId :: "conversation list \<Rightarrow> conversation list" where
  "dedupeByBookingId rows =
     (let w = fold note_winner rows Map.empty
      in filter (\<lambda>row. if \<not> truthy (cv_booking_id row) then True
                       else map_option cv_id (w (the (cv_booking_id row))) = Some (cv_id row)) rows)"

definition inbox_conversations :: "day \<Rightarrow> time \<Rightarrow> uuid \<Rightarrow> string \<Rightarrow> string option \<Rightarrow> stays_db \<Rightarrow> conversation list" where
  "inbox_conversations today now u flt q db =
     filter (\<lambda>c. visibilityFor c u \<noteq> V_DELETED \<and> \<not> (flt = ''active'' \<and> visibilityFor c u = V_ARCHIVED))
       (dedupeByBookingId (sort_key (inbox_key u)
         (filter (\<lambda>c. mine u c \<and> filter_admits today now u flt db c \<and> search_admits q db c) (conversations db))))"

fun request_snapshot_repairs :: "(nat \<Rightarrow> uuid) \<Rightarrow> time \<Rightarrow> nat \<Rightarrow> conversation list \<Rightarrow> stays_db \<Rightarrow> stays_db" where
  "request_snapshot_repairs gen now k [] db = db"
| "request_snapshot_repairs gen now k (c # cs) db =
     request_snapshot_repairs gen now (Suc k) cs
       (if cv_type c \<noteq> ''SUPPORT'' \<and> isSnapshotIncomplete (cv_reservation_snapshot c)
        then enqueueDirect (gen k) now SNAPSHOT_REPAIR_REQUESTED [(''conversationId'', JStr (cv_id c))] db else db)"

definition listConversations ::
    "(uuid \<Rightarrow> profile_summary option) \<Rightarrow> (uuid \<Rightarrow> string option) \<Rightarrow> (nat \<Rightarrow> nat \<Rightarrow> uuid) \<Rightarrow> (nat \<Rightarrow> uuid) \<Rightarrow> day \<Rightarrow> time
     \<Rightarrow> uuid \<Rightarrow> string \<Rightarrow> string option \<Rightarrow> support_db \<Rightarrow> conversation_row list \<times> support_db" where
  "listConversations profile identity gen ids today now userId flt q db =
     (let db1 = db\<lparr>sp_stays := repairForUser identity gen now userId (sp_stays db)\<rparr>;
          filtered = inbox_conversations today now userId flt q (sp_stays db1);
          db2 = db1\<lparr>sp_stays := request_snapshot_repairs ids now 0 filtered (sp_stays db1)\<rparr>
      in (map (\<lambda>c. toListResponse profile identity db2 userId (loadLastMessage (cv_last_message_id c) (sp_stays db2)) c) filtered,
          db2))"

definition getUnreadCount :: "uuid \<Rightarrow> stays_db \<Rightarrow> int" where
  "getUnreadCount userId db =
     (\<Sum>c\<leftarrow>filter (mine userId) (conversations db).
        if visibilityFor c userId = V_DELETED then 0
        else if cv_guest_user_id c = Some userId then cv_unread_guest c
        else if cv_host_user_id c = Some userId then cv_unread_host c
        else 0)"

section \<open>One conversation\<close>

definition getConversationByBooking ::
    "(uuid \<Rightarrow> profile_summary option) \<Rightarrow> (uuid \<Rightarrow> string option) \<Rightarrow> uuid \<Rightarrow> uuid \<Rightarrow> support_db \<Rightarrow> conversation_row option" where
  "getConversationByBooking profile identity bookingId userId db =
     (case conversation_of_booking bookingId (sp_stays db) of
        None \<Rightarrow> None
      | Some conv \<Rightarrow>
          if \<not> isParticipant conv userId False \<or> visibilityFor conv userId = V_DELETED then None
          else Some (toListResponse profile identity db userId (loadLastMessage (cv_last_message_id conv) (sp_stays db)) conv))"

definition ensureConversationForBooking ::
    "(uuid \<Rightarrow> profile_summary option) \<Rightarrow> (uuid \<Rightarrow> string option) \<Rightarrow> (nat \<Rightarrow> uuid) \<Rightarrow> time \<Rightarrow> uuid \<Rightarrow> uuid \<Rightarrow> support_db
     \<Rightarrow> conversation_row result \<times> support_db" where
  "ensureConversationForBooking profile identity gen now bookingId userId db =
     (case on_stays (ensureForBooking identity gen now bookingId userId) db of
        (Inl e, db1) \<Rightarrow> (Inl e, db1)
      | (Inr conv, db1) \<Rightarrow>
          (Inr (toListResponse profile identity db1 userId (loadLastMessage (cv_last_message_id conv) (sp_stays db1)) conv), db1))"

record conversation_detail =
  cd_row :: conversation_row
  cd_timeline :: "message list"
  cd_has_more :: bool
  cd_booking_status :: "booking_status option"

definition getConversation ::
    "(uuid \<Rightarrow> profile_summary option) \<Rightarrow> (uuid \<Rightarrow> string option) \<Rightarrow> (nat \<Rightarrow> uuid) \<Rightarrow> time \<Rightarrow> uuid \<Rightarrow> uuid \<Rightarrow> int option
     \<Rightarrow> support_db \<Rightarrow> conversation_detail result \<times> support_db" where
  "getConversation profile identity ids now conversationId userId beforeSequence db =
     (case find_conversation conversationId (sp_stays db) of
        None \<Rightarrow> (Inl (Not_Found ''Conversation not found''), db)
      | Some conv \<Rightarrow>
          if \<not> isParticipant conv userId False \<or> visibilityFor conv userId = V_DELETED
          then (Inl (Not_Found ''Conversation not found''), db)
          else
            let db1 = db\<lparr>sp_stays := request_snapshot_repairs ids now 0 [conv] (sp_stays db)\<rparr>
            in (case on_stays (listMessages now conversationId userId 30 beforeSequence) db1 of
                  (Inl e, db2) \<Rightarrow> (Inl e, db2)
                | (Inr (ms, hasMore), db2) \<Rightarrow>
                    (Inr \<lparr>cd_row = toListResponse profile identity db2 userId
                              (loadLastMessage (cv_last_message_id conv) (sp_stays db2)) conv,
                          cd_timeline = ms, cd_has_more = hasMore,
                          cd_booking_status = booking_status_of conv (sp_stays db2)\<rparr>, db2)))"

section \<open>What a participant does to a conversation\<close>

record chat_audit =
  ca_action :: string
  ca_conversation_id :: "uuid option"
  ca_actor_user_id :: "uuid option"
  ca_metadata :: metadata

text \<open>The audit log of messaging is a table of its own beside those of the support desk.\<close>

record chat_db =
  ch_desk :: support_db
  ch_audit :: "chat_audit list"

definition audit_chat :: "string \<Rightarrow> uuid \<Rightarrow> uuid \<Rightarrow> metadata \<Rightarrow> chat_db \<Rightarrow> chat_db" where
  "audit_chat action conversationId userId meta s =
     s\<lparr>ch_audit := insert_row \<lparr>ca_action = action, ca_conversation_id = Some conversationId,
       ca_actor_user_id = Some userId, ca_metadata = meta\<rparr> (ch_audit s)\<rparr>"

definition chat_conversation :: "uuid \<Rightarrow> uuid \<Rightarrow> chat_db \<Rightarrow> conversation result" where
  "chat_conversation conversationId userId s =
     (case find_conversation conversationId (sp_stays (ch_desk s)) of
        None \<Rightarrow> Inl (Not_Found ''Conversation not found'')
      | Some conv \<Rightarrow> if isParticipant conv userId False then Inr conv else Inl (Not_Found ''Conversation not found''))"

definition update_chat :: "uuid \<Rightarrow> (conversation \<Rightarrow> conversation) \<Rightarrow> chat_db \<Rightarrow> chat_db" where
  "update_chat i f s = s\<lparr>ch_desk := (ch_desk s)\<lparr>sp_stays := update_conversation i f (sp_stays (ch_desk s))\<rparr>\<rparr>"

datatype visibility_action = Archive_Chat | Delete_Chat | Restore_Chat

fun visibility_value :: "visibility_action \<Rightarrow> participant_visibility" where
  "visibility_value Archive_Chat = V_ARCHIVED"
| "visibility_value Delete_Chat = V_DELETED"
| "visibility_value Restore_Chat = V_ACTIVE"

fun visibility_texts :: "visibility_action \<Rightarrow> string \<times> string" where
  "visibility_texts Archive_Chat = (''archive'', ''ARCHIVED'')"
| "visibility_texts Delete_Chat = (''delete'', ''DELETED'')"
| "visibility_texts Restore_Chat = (''restore'', ''ACTIVE'')"

definition updateVisibility :: "uuid \<Rightarrow> uuid \<Rightarrow> visibility_action \<Rightarrow> chat_db \<Rightarrow> int result \<times> chat_db" where
  "updateVisibility conversationId userId action s =
     (case chat_conversation conversationId userId s of
        Inl e \<Rightarrow> (Inl e, s)
      | Inr conv \<Rightarrow>
          let perms = resolve conv userId False False
          in if action = Archive_Chat \<and> \<not> canArchive perms then (Inl (Forbidden_Err ''Forbidden''), s)
             else if action = Delete_Chat \<and> \<not> canDelete perms then (Inl (Forbidden_Err ''Forbidden''), s)
             else
               let isGuest = (cv_guest_user_id conv = Some userId);
                   v = visibility_value action;
                   nextVersion = cv_conversation_version conv + 1
               in (Inr nextVersion,
                   audit_chat (''visibility_'' @ fst (visibility_texts action)) (cv_id conv) userId
                     [(''field'', JStr (if isGuest then ''guest_visibility'' else ''host_visibility'')),
                      (''value'', JStr (snd (visibility_texts action)))]
                     (update_chat (cv_id conv)
                       (\<lambda>c. (if isGuest then c\<lparr>cv_guest_visibility := v\<rparr> else c\<lparr>cv_host_visibility := v\<rparr>)
                              \<lparr>cv_conversation_version := nextVersion\<rparr>) s)))"

definition block :: "time \<Rightarrow> uuid \<Rightarrow> uuid \<Rightarrow> chat_db \<Rightarrow> unit result \<times> chat_db" where
  "block now conversationId userId s =
     (case chat_conversation conversationId userId s of
        Inl e \<Rightarrow> (Inl e, s)
      | Inr conv \<Rightarrow>
          let isGuest = (cv_guest_user_id conv = Some userId)
          in (Inr (), audit_chat ''user_blocked'' (cv_id conv) userId []
                (update_chat (cv_id conv)
                  (\<lambda>c. (if isGuest then c\<lparr>cv_blocked_by_guest := True\<rparr> else c\<lparr>cv_blocked_by_host := True\<rparr>)
                         \<lparr>cv_messaging_state := LOCKED, cv_locked_at := Some now,
                          cv_conversation_version := cv_conversation_version conv + 1\<rparr>) s)))"

definition reopen_options :: "string option \<Rightarrow> bool option \<Rightarrow> metadata" where
  "reopen_options reason disableAutoArchive =
     opt_field ''reason'' reason @
     (case disableAutoArchive of None \<Rightarrow> [] | Some b \<Rightarrow> [(''disableAutoArchive'', JBool b)])"

definition reopenByParticipant ::
    "(uuid \<Rightarrow> profile_summary option) \<Rightarrow> (uuid \<Rightarrow> string option) \<Rightarrow> env \<Rightarrow> int \<Rightarrow> uuid \<Rightarrow> uuid \<Rightarrow> string option \<Rightarrow> bool option
     \<Rightarrow> chat_db \<Rightarrow> conversation_row result \<times> chat_db" where
  "reopenByParticipant profile identity env off conversationId userId reason disableAutoArchive s =
     (case chat_conversation conversationId userId s of
        Inl e \<Rightarrow> (Inl e, s)
      | Inr conv \<Rightarrow>
          (case on_stays (reopenConversation env off conversationId reason disableAutoArchive) (ch_desk s) of
             (Inl e, d) \<Rightarrow> (Inl e, s\<lparr>ch_desk := d\<rparr>)
           | (Inr updated, d) \<Rightarrow>
               (Inr (toListResponse profile identity d userId (loadLastMessage (cv_last_message_id updated) (sp_stays d)) updated),
                audit_chat ''conversation_reopened'' (cv_id updated) userId (reopen_options reason disableAutoArchive)
                  (s\<lparr>ch_desk := d\<rparr>))))"

text \<open>The other side of the conversation, for reports; reports with attachments need their files.\<close>

definition reported_user :: "conversation \<Rightarrow> uuid \<Rightarrow> uuid option" where
  "reported_user conv userId =
     (if cv_guest_user_id conv = Some userId then cv_host_user_id conv
      else if cv_host_user_id conv = Some userId then cv_guest_user_id conv else None)"

definition report ::
    "(uuid \<Rightarrow> profile_summary option) \<Rightarrow> (nat \<Rightarrow> uuid) \<Rightarrow> time \<Rightarrow> uuid \<Rightarrow> uuid \<Rightarrow> string option \<Rightarrow> chat_db
     \<Rightarrow> (trust_report \<times> support_ticket) result \<times> chat_db" where
  "report profile gen now conversationId userId reason s =
     (case chat_conversation conversationId userId s of
        Inl e \<Rightarrow> (Inl e, s)
      | Inr conv \<Rightarrow>
          if cv_type conv = ''SUPPORT'' then (Inl (Not_Found ''Conversation not found''), s)
          else (case provisionReportWithTicket profile gen now
                  \<lparr>ri_reporter_user_id = userId, ri_text = reason, ri_category = None, ri_booking_id = cv_booking_id conv,
                   ri_listing_id = cv_listing_id conv, ri_reported_user_id = reported_user conv userId\<rparr> conv (ch_desk s) of
                  (Inl e, d) \<Rightarrow> (Inl e, s\<lparr>ch_desk := d\<rparr>)
                | (Inr (r, t), d) \<Rightarrow>
                    (Inr (r, t), audit_chat ''conversation_reported'' (cv_id conv) userId
                       [(''reason'', JStr (case reason of None \<Rightarrow> [] | Some x \<Rightarrow> x)), (''reportId'', JStr (rp_id r))]
                       (s\<lparr>ch_desk := d\<rparr>))))"

definition safety ::
    "(uuid \<Rightarrow> profile_summary option) \<Rightarrow> (nat \<Rightarrow> uuid) \<Rightarrow> time \<Rightarrow> uuid \<Rightarrow> uuid \<Rightarrow> string \<Rightarrow> string option \<Rightarrow> chat_db
     \<Rightarrow> (trust_report \<times> support_ticket) result \<times> chat_db" where
  "safety profile gen now conversationId userId category details s =
     (case chat_conversation conversationId userId s of
        Inl e \<Rightarrow> (Inl e, s)
      | Inr conv \<Rightarrow>
          if cv_type conv = ''SUPPORT'' then (Inl (Not_Found ''Conversation not found''), s)
          else (case provisionSafetyIssueWithTicket profile gen now
                  \<lparr>ri_reporter_user_id = userId, ri_text = details, ri_category = Some category, ri_booking_id = cv_booking_id conv,
                   ri_listing_id = cv_listing_id conv, ri_reported_user_id = reported_user conv userId\<rparr> conv (ch_desk s) of
                  (Inl e, d) \<Rightarrow> (Inl e, s\<lparr>ch_desk := d\<rparr>)
                | (Inr (r, t), d) \<Rightarrow>
                    (Inr (r, t), audit_chat ''safety_issue'' (cv_id conv) userId
                       ([(''category'', JStr category)] @ opt_field ''details'' (trim_or_none details) @
                        [(''safetyIssueId'', JStr (rp_id r))])
                       (s\<lparr>ch_desk := d\<rparr>))))"

section \<open>The inbox and its badge\<close>

lemma request_repairs_frame [simp]:
  "conversations (request_snapshot_repairs gen now k cs db) = conversations db"
  by (induction cs arbitrary: k db) (simp_all add: enqueueDirect_def enqueue_def)

definition one_per_booking :: "conversation list \<Rightarrow> bool" where
  "one_per_booking rows \<longleftrightarrow> (\<forall>b. length (filter (\<lambda>c. cv_booking_id c = Some b) rows) \<le> 1)"

lemma winners:
  "one_per_booking rows \<Longrightarrow>
     fold note_winner rows Map.empty = (\<lambda>b. if b = [] then None else find_where (\<lambda>c. cv_booking_id c = Some b) rows)"
proof (induction rows rule: rev_induct)
  case (snoc r rows)
  have one: "length (filter (\<lambda>c. cv_booking_id c = Some b) rows) + (if cv_booking_id r = Some b then 1 else 0) \<le> 1" for b
    using snoc.prems by (auto simp: one_per_booking_def dest: spec [of _ b])
  have "one_per_booking rows" unfolding one_per_booking_def by (intro allI le_trans [OF le_add1 one])
  note IH = snoc.IH [OF this]
  have new: "find_where (\<lambda>c. cv_booking_id c = Some b) rows = None" if "cv_booking_id r = Some b" for b
    using one [of b] that by (simp add: find_where_None filter_empty_conv)
  have app: "find_where p (rows @ [r]) = (case find_where p rows of None \<Rightarrow> if p r then Some r else None | Some x \<Rightarrow> Some x)" for p
    by (induction rows) auto
  have fold: "fold note_winner (rows @ [r]) Map.empty =
      note_winner r (\<lambda>b. if b = [] then None else find_where (\<lambda>c. cv_booking_id c = Some b) rows)"
    by (simp add: IH)
  show ?case
  proof (cases "truthy (cv_booking_id r)")
    case False
    then have "find_where (\<lambda>c. cv_booking_id c = Some b) (rows @ [r]) = find_where (\<lambda>c. cv_booking_id c = Some b) rows" if "b \<noteq> []" for b
      using that by (auto simp: app truthy_def split: option.split)
    then show ?thesis unfolding fold using False by (auto simp: note_winner_def fun_eq_iff)
  next
    case True
    then obtain b0 where b0: "cv_booking_id r = Some b0" "b0 \<noteq> []" by (auto simp: truthy_def split: option.splits)
    have at: "find_where (\<lambda>c. cv_booking_id c = Some b) (rows @ [r]) =
        (if b = b0 then Some r else find_where (\<lambda>c. cv_booking_id c = Some b) rows)" for b
      using new [OF b0(1)] by (auto simp: app b0(1) split: option.split)
    show ?thesis unfolding fold using True b0 new [OF b0(1)] by (simp add: note_winner_def fun_eq_iff at)
  qed
qed (simp add: fun_eq_iff)

lemma one_per_booking_eq:
  assumes "one_per_booking rows" and "r \<in> set rows" and "x \<in> set rows" and "cv_booking_id r = Some b" and "cv_booking_id x = Some b"
  shows "x = r"
proof -
  have "r \<in> set (filter (\<lambda>c. cv_booking_id c = Some b) rows)" "x \<in> set (filter (\<lambda>c. cv_booking_id c = Some b) rows)"
    using assms by auto
  moreover have "length (filter (\<lambda>c. cv_booking_id c = Some b) rows) \<le> 1" using assms(1) by (simp add: one_per_booking_def)
  ultimately show ?thesis by (cases "filter (\<lambda>c. cv_booking_id c = Some b) rows") auto
qed

lemma dedupe_same:
  assumes "one_per_booking rows"
  shows "dedupeByBookingId rows = rows"
proof -
  have "map_option cv_id (find_where (\<lambda>c. cv_booking_id c = Some b) rows) = Some (cv_id r)"
    if r: "r \<in> set rows" "cv_booking_id r = Some b" for r b
  proof -
    obtain x where x: "find_where (\<lambda>c. cv_booking_id c = Some b) rows = Some x"
      using r by (cases "find_where (\<lambda>c. cv_booking_id c = Some b) rows") (auto simp: find_where_None)
    show ?thesis using one_per_booking_eq [OF assms r(1) _ r(2)] find_where_Some [OF x] x by auto
  qed
  then show ?thesis unfolding dedupeByBookingId_def winners [OF assms]
    by (auto simp: Let_def truthy_def intro!: filter_True split: option.splits)
qed

lemma one_per_booking_filter: "one_per_booking rows \<Longrightarrow> one_per_booking (filter p rows)"
  unfolding one_per_booking_def
proof
  fix b assume "\<forall>b. length (filter (\<lambda>c. cv_booking_id c = Some b) rows) \<le> 1"
  then have "length (filter (\<lambda>c. cv_booking_id c = Some b) rows) \<le> 1" ..
  moreover have "filter (\<lambda>c. cv_booking_id c = Some b) (filter p rows) = filter p (filter (\<lambda>c. cv_booking_id c = Some b) rows)"
    by (simp add: conj_commute)
  ultimately show "length (filter (\<lambda>c. cv_booking_id c = Some b) (filter p rows)) \<le> 1"
    using length_filter_le [of p "filter (\<lambda>c. cv_booking_id c = Some b) rows"] by simp
qed

lemma one_per_booking_mset: "mset a = mset b \<Longrightarrow> one_per_booking a = one_per_booking b"
  unfolding one_per_booking_def by (metis mset_filter size_mset)

lemma repaired_one_per_booking:
  assumes "well_numbered db" and "keyed cv_id (conversations db)"
  shows "one_per_booking (filter (mine u) (conversations (repairForUser nm gen now u db)))"
  using inbox_repair_single [OF assms, of u]
  by (simp add: one_per_booking_def booking_threads_def conj_commute)

text \<open>What is in the inbox once the repairs have run.\<close>

lemma inbox_rows:
  assumes "one_per_booking (filter (mine u) (conversations db))"
  shows "mset (inbox_conversations today now u flt q db) =
    mset (filter (\<lambda>c. mine u c \<and> filter_admits today now u flt db c \<and> search_admits q db c \<and>
      visibilityFor c u \<noteq> V_DELETED \<and> \<not> (flt = ''active'' \<and> visibilityFor c u = V_ARCHIVED)) (conversations db))"
proof -
  let ?f = "filter (\<lambda>c. mine u c \<and> filter_admits today now u flt db c \<and> search_admits q db c) (conversations db)"
  have "?f = filter (\<lambda>c. filter_admits today now u flt db c \<and> search_admits q db c) (filter (mine u) (conversations db))"
    by (simp add: conj_commute conj_left_commute)
  then have "one_per_booking ?f" using one_per_booking_filter [OF assms] by simp
  then have "one_per_booking (sort_key (inbox_key u) ?f)" using one_per_booking_mset [of "sort_key (inbox_key u) ?f" ?f] by simp
  note d = dedupe_same [OF this]
  show ?thesis unfolding inbox_conversations_def d by (simp add: filter_filter_mset conj_ac)
qed

lemma distinct_bookings: "one_per_booking rows \<Longrightarrow> distinct (filter (\<lambda>b. b \<noteq> None) (map cv_booking_id rows))"
proof (induction rows)
  case (Cons c rows)
  have le: "length (filter (\<lambda>x. cv_booking_id x = Some b) rows) \<le> 1" and no: "cv_booking_id c = Some b \<Longrightarrow>
      filter (\<lambda>x. cv_booking_id x = Some b) rows = []" for b
    using Cons.prems by (auto simp: one_per_booking_def dest!: spec [of _ b] split: if_splits)
  have "one_per_booking rows" using le by (simp add: one_per_booking_def)
  moreover have "cv_booking_id c \<notin> set (filter (\<lambda>b. b \<noteq> None) (map cv_booking_id rows))"
    using no by (cases "cv_booking_id c") (auto simp: filter_empty_conv)
  ultimately show ?case using Cons.IH by (cases "cv_booking_id c") simp_all
qed simp

lemma row_fields [simp]:
  "dm_id (cr_conversation (toListResponse profile identity db u m c)) = cv_id c"
  "dm_booking_id (cr_conversation (toListResponse profile identity db u m c)) = cv_booking_id c"
  "sy_unread_count (cr_sync (toListResponse profile identity db u m c)) =
     (if cv_guest_user_id c = Some u then cv_unread_guest c else cv_unread_host c)"
  "cr_permissions (toListResponse profile identity db u m c) =
     resolve c u False (cv_type c = ''SUPPORT'' \<and> cv_id c \<in> closedConversationIds [cv_id c] db)"
  by (simp_all add: toListResponse_def Let_def toDomain_def buildSyncMeta_def)

text \<open>
  C26: The list of all conversations shows what the user takes part in and has not deleted, each conversation once
  and no booking twice, and the badge is the sum of the unread counters it shows.
\<close>

theorem badge_counts_inbox:
  assumes "well_numbered (sp_stays db)" and "keyed cv_id (conversations (sp_stays db))"
    and "flt \<notin> {''unread'', ''active'', ''archived'', ''hosts'', ''support''}" and "trim_or_none q = None"
    and "listConversations profile identity gen ids today now u flt q db = (rows, db')"
  shows "mset (map (\<lambda>r. dm_id (cr_conversation r)) rows) =
      mset (map cv_id (filter (\<lambda>c. mine u c \<and> visibilityFor c u \<noteq> V_DELETED) (conversations (sp_stays db')))) \<and>
    distinct (filter (\<lambda>b. b \<noteq> None) (map (\<lambda>r. dm_booking_id (cr_conversation r)) rows)) \<and>
    getUnreadCount u (sp_stays db') = (\<Sum>r\<leftarrow>rows. sy_unread_count (cr_sync r))"
proof -
  define rep where "rep = repairForUser identity gen now u (sp_stays db)"
  define shown where "shown = inbox_conversations today now u flt q rep"
  define kept where "kept = filter (\<lambda>c. mine u c \<and> visibilityFor c u \<noteq> V_DELETED) (conversations rep)"
  let ?n = "\<lambda>c. if cv_guest_user_id c = Some u then cv_unread_guest c else cv_unread_host c"
  have cs: "conversations (sp_stays db') = conversations rep"
    and rows: "map (\<lambda>r. dm_id (cr_conversation r)) rows = map cv_id shown"
      "map (\<lambda>r. dm_booking_id (cr_conversation r)) rows = map cv_booking_id shown"
      "map (\<lambda>r. sy_unread_count (cr_sync r)) rows = map ?n shown"
    using assms(5) by (auto simp: listConversations_def Let_def rep_def shown_def)
  have one: "one_per_booking (filter (mine u) (conversations rep))" unfolding rep_def by (rule repaired_one_per_booking [OF assms(1,2)])
  have "filter_admits today now u flt rep c" "search_admits q rep c" for c
    using assms(3,4) by (auto simp: filter_admits_def search_admits_def)
  then have m: "mset shown = mset kept"
    using inbox_rows [OF one, of today now flt q] assms(3) by (simp add: shown_def kept_def)
  have "kept = filter (\<lambda>c. visibilityFor c u \<noteq> V_DELETED) (filter (mine u) (conversations rep))"
    by (simp add: kept_def conj_commute)
  then have "one_per_booking shown" using one_per_booking_mset [OF m] one_per_booking_filter [OF one] by simp
  note d = distinct_bookings [OF this]
  have "getUnreadCount u (sp_stays db') = (\<Sum>c\<leftarrow>filter (mine u) (conversations rep). if visibilityFor c u = V_DELETED then 0 else ?n c)"
    unfolding getUnreadCount_def cs by (intro arg_cong [where f = sum_list] map_cong refl) (auto simp: mine_def)
  also have "\<dots> = (\<Sum>c\<leftarrow>kept. ?n c)"
  proof -
    have "(\<Sum>c\<leftarrow>filter (mine u) cs. if visibilityFor c u = V_DELETED then 0 else ?n c) =
        (\<Sum>c\<leftarrow>filter (\<lambda>c. mine u c \<and> visibilityFor c u \<noteq> V_DELETED) cs. ?n c)" for cs
      by (induction cs) auto
    then show ?thesis unfolding kept_def .
  qed
  also have "\<dots> = (\<Sum>c\<leftarrow>shown. ?n c)"
    by (simp only: sum_mset_sum_list [symmetric] mset_map m)
  finally have "getUnreadCount u (sp_stays db') = (\<Sum>r\<leftarrow>rows. sy_unread_count (cr_sync r))" by (simp only: rows)
  moreover have "mset (map cv_id shown) = mset (map cv_id kept)" by (simp only: mset_map m)
  ultimately show ?thesis using d by (simp only: rows cs kept_def)
qed

section \<open>Blocking and reopening\<close>

lemma chat_conversation_ok:
  "chat_conversation i u s = Inr conv \<longleftrightarrow>
     find_conversation i (sp_stays (ch_desk s)) = Some conv \<and> isParticipant conv u False"
  by (auto simp: chat_conversation_def split: option.splits)

lemma find_update_other:
  assumes "\<And>c. cv_id (f c) = cv_id c"
  shows "find_conversation i (update_conversation j f db) = (if i = j then map_option f (find_conversation i db) else find_conversation i db)"
proof -
  have "find_where (\<lambda>c. cv_id c = i) (update_where (\<lambda>c. cv_id c = j) f rows) =
      (if i = j then map_option f (find_where (\<lambda>c. cv_id c = i) rows) else find_where (\<lambda>c. cv_id c = i) rows)" for rows
    using assms by (induction rows) auto
  then show ?thesis by (simp add: find_conversation_def update_conversation_def)
qed

datatype chat_action = Reopen "string option" "bool option" | Visibility visibility_action | Block

fun chat_do ::
    "(uuid \<Rightarrow> profile_summary option) \<Rightarrow> (uuid \<Rightarrow> string option) \<Rightarrow> env \<Rightarrow> int \<Rightarrow> time \<times> uuid \<times> uuid \<times> chat_action \<Rightarrow> chat_db \<Rightarrow> chat_db" where
  "chat_do profile identity env off (now, i, u, Reopen why disable) s =
     snd (reopenByParticipant profile identity env off i u why disable s)"
| "chat_do profile identity env off (now, i, u, Visibility a) s = snd (updateVisibility i u a s)"
| "chat_do profile identity env off (now, i, u, Block) s = snd (block now i u s)"

text \<open>Nobody changes sides and no block is taken back.\<close>

definition blocks_kept :: "conversation \<Rightarrow> conversation \<Rightarrow> bool" where
  "blocks_kept c c' \<longleftrightarrow> cv_guest_user_id c' = cv_guest_user_id c \<and> cv_host_user_id c' = cv_host_user_id c \<and>
     (cv_blocked_by_guest c \<longrightarrow> cv_blocked_by_guest c') \<and> (cv_blocked_by_host c \<longrightarrow> cv_blocked_by_host c')"

definition keeps_blocks :: "stays_db \<Rightarrow> stays_db \<Rightarrow> bool" where
  "keeps_blocks db db' \<longleftrightarrow>
     (\<forall>i c. find_conversation i db = Some c \<longrightarrow> (\<exists>c'. find_conversation i db' = Some c' \<and> blocks_kept c c'))"

lemma keeps_blocks_refl [simp]: "keeps_blocks db db"
  by (simp add: keeps_blocks_def blocks_kept_def)

lemma keeps_blocks_trans: "keeps_blocks a b \<Longrightarrow> keeps_blocks b c \<Longrightarrow> keeps_blocks a c"
  unfolding keeps_blocks_def blocks_kept_def by (metis (no_types, lifting))

lemma keeps_blocks_update:
  assumes "\<And>c. cv_id (f c) = cv_id c" and "\<And>c. blocks_kept c (f c)"
  shows "keeps_blocks db (update_conversation i f db)"
  using assms by (auto simp: keeps_blocks_def find_update_other blocks_kept_def)

lemma reopen_keeps: "keeps_blocks db (snd (reopenConversation env off i why disable db))"
proof (cases "find_conversation i db")
  case (Some conv)
  have "keeps_blocks db (update_conversation (cv_id conv) (reopened_row ends d w conv) db)" for ends d w
    by (rule keeps_blocks_update) (simp_all add: reopened_row_def blocks_kept_def)
  then show ?thesis by (simp add: reopenConversation_def Some Let_def split: option.split)
qed (simp add: reopenConversation_def)

lemma do_keeps_blocks: "keeps_blocks (sp_stays (ch_desk s)) (sp_stays (ch_desk (chat_do profile identity env off x s)))"
proof -
  obtain now j u a where x: "x = (now, j, u, a)" by (cases x)
  show ?thesis
  proof (cases a)
    case (Reopen why disable)
    show ?thesis using reopen_keeps [of "sp_stays (ch_desk s)" env off j why disable]
      by (cases "reopenConversation env off j why disable (sp_stays (ch_desk s))")
        (simp add: x Reopen reopenByParticipant_def on_stays_def audit_chat_def split: sum.split)
  next
    case (Visibility v)
    show ?thesis
      by (simp add: x Visibility updateVisibility_def Let_def audit_chat_def update_chat_def split: sum.split)
        (auto intro!: keeps_blocks_update simp: blocks_kept_def)
  next
    case Block
    show ?thesis
      by (simp add: x Block block_def Let_def audit_chat_def update_chat_def split: sum.split)
        (auto intro!: keeps_blocks_update simp: blocks_kept_def)
  qed
qed

lemma acts_keep_blocks: "keeps_blocks (sp_stays (ch_desk s)) (sp_stays (ch_desk (fold (chat_do profile identity env off) xs s)))"
  by (induction xs arbitrary: s) (auto intro: keeps_blocks_trans do_keeps_blocks)

text \<open>
  C25: A block lasts. After a participant has blocked the other one, that one can never write in the conversation
  again, whatever the two do with it: reopen it, archive, delete or restore it, or block in turn.
\<close>

theorem block_lasts:
  assumes "find_conversation i (sp_stays (ch_desk s)) = Some conv" and "block now i u s = (Inr (), s1)"
    and "other = (if cv_guest_user_id conv = Some u then cv_host_user_id conv else cv_guest_user_id conv)" and "other = Some v"
    and "find_conversation i (sp_stays (ch_desk (fold (chat_do profile identity env off) acts s1))) = Some c"
  shows "\<not> canSend (resolve c v False ticket_closed)"
proof -
  have "isParticipant conv u False" using assms(1,2) by (auto simp: block_def chat_conversation_def Let_def split: if_splits)
  then have s1: "s1 = snd (block now i u s)" "chat_conversation i u s = Inr conv" using assms(1,2) by (simp_all add: chat_conversation_ok)
  have id: "cv_id conv = i" using assms(1) by (simp add: find_conversation_id)
  obtain c1 where c1: "find_conversation i (sp_stays (ch_desk s1)) = Some c1"
    "cv_guest_user_id c1 = cv_guest_user_id conv" "cv_host_user_id c1 = cv_host_user_id conv"
    "if cv_guest_user_id conv = Some u then cv_blocked_by_guest c1 else cv_blocked_by_host c1"
    using assms(1) by (simp add: s1 block_def Let_def audit_chat_def update_chat_def find_update_other id)
  have "blocks_kept c1 c"
    using acts_keep_blocks [of s1 profile identity env off acts, unfolded keeps_blocks_def, rule_format, OF c1(1)] assms(5) by auto
  then show ?thesis using c1 assms(3,4) by (auto simp: canSend_iff blocks_kept_def split: if_splits)
qed

text \<open>
  C27: The lock of a cancelled booking does not last: cancelling locks its conversation, but the operation described as
  \<^verbatim>\<open>Reopen an archived conversation\<close> asks neither for an archived conversation nor for a staff member, so
  whoever could write before the cancellation makes it active again and may write.
\<close>

theorem cancelled_chat_reopened:
  assumes "find_booking b (sp_stays (ch_desk s)) = Some bk" and "bk_status bk \<in> {CANCELLED_BY_GUEST, CANCELLED_BY_HOST}"
    and "conversation_of_booking b (sp_stays (ch_desk s)) = Some conv" and "keyed cv_id (conversations (sp_stays (ch_desk s)))"
    and "cv_type conv \<noteq> ''SUPPORT''" and "canSend (resolve conv u False False)"
    and "syncFromBooking env off gen now b (sp_stays (ch_desk s)) = (r, locked)"
  shows "(\<exists>c. find_conversation (cv_id conv) locked = Some c \<and> \<not> canSend (resolve c u False False)) \<and>
    (\<exists>row. fst (reopenByParticipant profile identity env off (cv_id conv) u why disable
        (s\<lparr>ch_desk := (ch_desk s)\<lparr>sp_stays := locked\<rparr>\<rparr>)) = Inr row \<and> canSend (cr_permissions row))"
proof -
  let ?db = "sp_stays (ch_desk s)"
  have conv: "conv \<in> set (conversations ?db)" "cv_booking_id conv = Some b"
    using find_where_Some [OF assms(3) [unfolded conversation_of_booking_def]] by auto
  have here: "find_conversation (cv_id conv) ?db = Some conv"
    unfolding find_conversation_def by (rule keyed_find_where [OF assms(4) conv(1)])
  have locked: "locked = update_conversation (cv_id conv) (locked_row now conv) ?db"
    using assms(1-3,7) by (auto simp: syncFromBooking_def)
  define c where "c = locked_row now conv conv"
  have c: "find_conversation (cv_id conv) locked = Some c" by (simp add: locked find_update_other here locked_row_def c_def)
  have p: "isParticipant conv u False" "\<not> (cv_guest_user_id conv = Some u \<and> cv_blocked_by_host conv)"
    "\<not> (cv_host_user_id conv = Some u \<and> cv_blocked_by_guest conv)"
    using assms(6) by (simp_all add: canSend_iff)
  have "booking_of c locked \<in> {None, Some bk}"
    using assms(1) by (simp add: booking_of_def c_def locked_row_def conv(2) locked update_conversation_def find_booking_def)
  then have open_again: "reopenConversation env off (cv_id conv) why disable locked =
      (Inr (reopened_row (cv_post_stay_ends_at c) disable why c c),
       update_conversation (cv_id conv) (reopened_row (cv_post_stay_ends_at c) disable why c) locked)"
    using assms(2) by (auto simp: reopenConversation_def c Let_def find_update_other reopened_row_def c_def locked_row_def)
  have "cv_guest_user_id conv = Some u \<or> cv_host_user_id conv = Some u" using p(1) by (auto simp: isParticipant_def split: if_splits)
  then have part: "isParticipant c u False" by (simp add: isParticipant_def c_def locked_row_def)
  have "isParticipant (reopened_row (cv_post_stay_ends_at c) disable why c c) u False"
    using part by (simp add: isParticipant_def reopened_row_def split: if_splits)
  then have "canSend (resolve (reopened_row (cv_post_stay_ends_at c) disable why c c) u False False)"
    using p(2,3) by (simp add: canSend_iff reopened_row_def c_def locked_row_def)
  moreover have "cv_type (reopened_row (cv_post_stay_ends_at c) disable why c c) \<noteq> ''SUPPORT''"
    using assms(5) by (simp add: reopened_row_def c_def locked_row_def)
  ultimately have "\<exists>row. fst (reopenByParticipant profile identity env off (cv_id conv) u why disable
        (s\<lparr>ch_desk := (ch_desk s)\<lparr>sp_stays := locked\<rparr>\<rparr>)) = Inr row \<and> canSend (cr_permissions row)"
    using c part by (simp add: reopenByParticipant_def chat_conversation_def on_stays_def open_again)
  moreover have "\<not> canSend (resolve c u False False)" by (simp add: canSend_iff c_def locked_row_def)
  ultimately show ?thesis using c by blast
qed

section \<open>Examples\<close>

definition a_chat_db :: chat_db where
  "a_chat_db = \<lparr>ch_desk = a_chat, ch_audit = []\<rparr>"

lemma a_chat_here: "find_conversation ''c1'' (sp_stays (ch_desk a_chat_db)) = Some (sample_conversation ''c1'' ''b1'')"
  by (simp add: a_chat_db_def a_chat_def find_conversation_def sample_conversation_def)

theorem block_lasts_witness:
  "\<exists>c. find_conversation ''c1'' (sp_stays (ch_desk (chat_do (\<lambda>_. None) (\<lambda>_. None) Map.empty 0
        (8, ''c1'', ''g1'', Reopen None None) (snd (block 7 ''c1'' ''h1'' a_chat_db))))) = Some c \<and>
     cv_messaging_state c = ACTIVE \<and> \<not> canSend (resolve c ''g1'' False False)"
proof -
  let ?s1 = "snd (block 7 ''c1'' ''h1'' a_chat_db)"
  have b: "block 7 ''c1'' ''h1'' a_chat_db = (Inr (), ?s1)"
    by (simp add: block_def chat_conversation_def a_chat_here isParticipant_def sample_conversation_def Let_def)
  let ?acts = "[(8, ''c1'', ''g1'', Reopen None None)]"
  have "map_option cv_messaging_state (find_conversation ''c1'' (sp_stays (ch_desk
      (fold (chat_do (\<lambda>_. None) (\<lambda>_. None) Map.empty 0) ?acts ?s1)))) = Some ACTIVE"
    by code_simp
  then obtain c where c: "find_conversation ''c1'' (sp_stays (ch_desk
      (fold (chat_do (\<lambda>_. None) (\<lambda>_. None) Map.empty 0) ?acts ?s1))) = Some c" "cv_messaging_state c = ACTIVE" by auto
  have "\<not> canSend (resolve c ''g1'' False False)"
    by (rule block_lasts [OF a_chat_here b refl _ c(1)]) (simp add: sample_conversation_def)
  then show ?thesis using c by auto
qed

theorem cancelled_chat_reopened_witness:
  "\<exists>row. fst (reopenByParticipant (\<lambda>_. None) (\<lambda>_. None) Map.empty 0 ''c1'' ''g1'' None None
     (a_chat_db\<lparr>ch_desk := a_chat\<lparr>sp_stays := snd (syncFromBooking Map.empty 0 key_ids 5 ''b1''
        ((sp_stays a_chat)\<lparr>bookings := [sample_booking ''b1'' CANCELLED_BY_GUEST]\<rparr>))\<rparr>\<rparr>)) = Inr row \<and> canSend (cr_permissions row)"
proof -
  let ?s = "a_chat_db\<lparr>ch_desk := a_chat\<lparr>sp_stays := (sp_stays a_chat)\<lparr>bookings := [sample_booking ''b1'' CANCELLED_BY_GUEST]\<rparr>\<rparr>\<rparr>"
  let ?c = "sample_conversation ''c1'' ''b1''"
  have h: "find_booking ''b1'' (sp_stays (ch_desk ?s)) = Some (sample_booking ''b1'' CANCELLED_BY_GUEST)"
    "bk_status (sample_booking ''b1'' CANCELLED_BY_GUEST) \<in> {CANCELLED_BY_GUEST, CANCELLED_BY_HOST}"
    "conversation_of_booking ''b1'' (sp_stays (ch_desk ?s)) = Some ?c" "keyed cv_id (conversations (sp_stays (ch_desk ?s)))"
    "cv_type ?c \<noteq> ''SUPPORT''" "canSend (resolve ?c ''g1'' False False)"
    by (simp_all add: find_booking_def conversation_of_booking_def a_chat_def sample_booking_def sample_conversation_def
        keyed_def canSend_iff isParticipant_def)
  have i: "cv_id ?c = ''c1''" by (simp add: sample_conversation_def)
  show ?thesis
    using cancelled_chat_reopened [OF h surjective_pairing, THEN conjunct2] by (simp add: i)
qed

theorem badge_counts_inbox_witness:
  "\<exists>rows db'. listConversations (\<lambda>_. None) (\<lambda>_. None) (\<lambda>_. key_ids) key_ids 20000 9 ''g1'' ''all'' None
      (a_chat\<lparr>sp_stays := two_threads\<rparr>) = (rows, db') \<and>
    getUnreadCount ''g1'' (sp_stays db') = (\<Sum>r\<leftarrow>rows. sy_unread_count (cr_sync r))"
proof -
  obtain rows db' where l: "listConversations (\<lambda>_. None) (\<lambda>_. None) (\<lambda>_. key_ids) key_ids 20000 9 ''g1'' ''all'' None
      (a_chat\<lparr>sp_stays := two_threads\<rparr>) = (rows, db')" by (metis surj_pair)
  have "well_numbered (sp_stays (a_chat\<lparr>sp_stays := two_threads\<rparr>))"
    "keyed cv_id (conversations (sp_stays (a_chat\<lparr>sp_stays := two_threads\<rparr>)))" using two_threads_fine(1,2) by simp_all
  from badge_counts_inbox [OF this _ _ l] l show ?thesis by (auto simp: trim_or_none_def)
qed

end
