(* ===== verification/MoneyIdempotency.thy ===== *)
theory MoneyIdempotency
  imports StaysData "HOL-Library.Multiset" "HOL-Library.List_Lexorder" "HOL-Library.Product_Lexorder" "HOL-Library.Char_ord"
begin

text \<open>
  \<^verbatim>\<open>common/idempotency\<close>: a movement of money runs once for each idempotency key. \<^verbatim>\<open>runInTransaction\<close> takes a lock
  on the key, so the requests of one key follow each other; a request is one step. The state is the table of
  records, the other tables \<open>'w\<close> that the work writes in the same transaction, and what the work does outside
  the data base (\<open>'x\<close>, for example the payments a provider has taken), which no rollback undoes.
\<close>

section \<open>canonical-request-hash.ts\<close>

text \<open>
  Assigning \<^verbatim>\<open>__proto__\<close> gives an object no property, and properties whose name is an array index come first,
  by value; the others stay in the order of assignment, which is the sorted one.
\<close>

definition array_index :: "string \<Rightarrow> bool" where
  "array_index k \<longleftrightarrow> k = ''0'' \<or> (k \<noteq> [] \<and> hd k \<noteq> CHR ''0'' \<and> list_all is_digit k \<and> digits_val k < 2 ^ 32 - 1)"

definition property_place :: "string \<Rightarrow> nat \<times> nat \<times> string" where
  "property_place k = (if array_index k then (0, digits_val k, k) else (1, 0, k))"

definition own_keys :: "metadata \<Rightarrow> metadata" where
  "own_keys kvs = filter (\<lambda>(k, v). k \<noteq> ''idempotency_key'' \<and> k \<noteq> ''__proto__'') kvs"

fun canonicalizeForIdempotency :: "json \<Rightarrow> json" where
  "canonicalizeForIdempotency (JArr vs) = JArr (map canonicalizeForIdempotency vs)"
| "canonicalizeForIdempotency (JObj kvs) =
     JObj (sort_key (\<lambda>(k, v). property_place k)
       (own_keys (map (\<lambda>(k, v). (k, canonicalizeForIdempotency v)) kvs)))"
| "canonicalizeForIdempotency v = v"

text \<open>\<^verbatim>\<open>JSON.stringify\<close>; \<open>num_text\<close> is how the engine writes a number.\<close>

definition hex_char :: "nat \<Rightarrow> char" where
  "hex_char n = ''0123456789abcdef'' ! n"

definition json_char :: "char \<Rightarrow> string" where
  "json_char c =
     (let n = of_char c :: nat
      in if n = 34 \<or> n = 92 then [CHR 92, c]
         else if n = 8 then [CHR 92, CHR ''b''] else if n = 12 then [CHR 92, CHR ''f'']
         else if n = 10 then [CHR 92, CHR ''n''] else if n = 13 then [CHR 92, CHR ''r'']
         else if n = 9 then [CHR 92, CHR ''t'']
         else if n < 32 then [CHR 92, CHR ''u'', CHR ''0'', CHR ''0'', hex_char (n div 16), hex_char (n mod 16)]
         else [c])"

definition json_quote :: "string \<Rightarrow> string" where
  "json_quote s = CHR 34 # concat (map json_char s) @ [CHR 34]"

fun commas :: "string list \<Rightarrow> string" where
  "commas [] = []"
| "commas [s] = s"
| "commas (s # t # ss) = s @ '','' @ commas (t # ss)"

fun json_text :: "(rat \<Rightarrow> string) \<Rightarrow> json \<Rightarrow> string" where
  "json_text num_text JNull = ''null''"
| "json_text num_text (JBool b) = (if b then ''true'' else ''false'')"
| "json_text num_text (JNum r) = num_text r"
| "json_text num_text (JStr s) = json_quote s"
| "json_text num_text (JArr vs) = ''['' @ commas (map (json_text num_text) vs) @ '']''"
| "json_text num_text (JObj kvs) = ''{'' @ commas (map (\<lambda>(k, v). json_quote k @ '':'' @ json_text num_text v) kvs) @ ''}''"

text \<open>\<open>sha256\<close> is the digest of Node's \<^verbatim>\<open>crypto\<close> module, in hexadecimal.\<close>

definition canonicalRequestHash :: "(string \<Rightarrow> string) \<Rightarrow> (rat \<Rightarrow> string) \<Rightarrow> json \<Rightarrow> string" where
  "canonicalRequestHash sha256 num_text payload = sha256 (json_text num_text (canonicalizeForIdempotency payload))"

section \<open>The key of a request\<close>

definition key_char :: "char \<Rightarrow> bool" where
  "key_char c \<longleftrightarrow> (CHR ''a'' \<le> c \<and> c \<le> CHR ''z'') \<or> (CHR ''A'' \<le> c \<and> c \<le> CHR ''Z'') \<or> is_digit c \<or>
     c \<in> {CHR ''.'', CHR ''_'', CHR ''-''}"

definition en_dash :: string where
  "en_dash = [CHR 0xE2, CHR 0x80, CHR 0x93]"

text \<open>The headers \<^verbatim>\<open>idempotency-key\<close> and \<^verbatim>\<open>x-idempotency-key\<close>; \<open>scope\<close> is the decoration of the route.\<close>

definition moneyKeyGuard :: "string option \<Rightarrow> string option \<Rightarrow> string option \<Rightarrow> string option result" where
  "moneyKeyGuard scope header xheader =
     (if (case scope of None \<Rightarrow> True | Some s \<Rightarrow> s = []) then Inr None
      else (case (case header of None \<Rightarrow> xheader | Some h \<Rightarrow> Some h) of
              None \<Rightarrow> Inl (Bad_Request ''Idempotency-Key header is required for this money movement operation.'')
            | Some raw \<Rightarrow>
                let key = js_trim raw
                in if key = [] then Inl (Bad_Request ''Idempotency-Key header is required for this money movement operation.'')
                   else if 8 \<le> length key \<and> length key \<le> 128 \<and> list_all key_char key then Inr (Some key)
                   else Inl (Bad_Request (''Idempotency-Key must be 8'' @ en_dash @ ''128 characters [a-zA-Z0-9._-].''))))"

section \<open>money-movement-idempotency.service.ts\<close>

datatype money_status = IN_FLIGHT | MONEY_COMPLETED | MONEY_FAILED | UNCERTAIN

datatype money_scope =
  P2P_TRANSFER | QR_PAYMENT | NFC_PAYMENT | TOPUP | WITHDRAW | REFUND_SCOPE | ADMIN_TRANSACTION_REVERSAL
  | STAYS_WALLET_PAYMENT | SUBSCRIPTION_PRO

record money_record =
  mr_id :: uuid
  mr_scope :: money_scope
  mr_actor_user_id :: uuid
  mr_idempotency_key :: string
  mr_request_hash :: string
  mr_status :: money_status
  mr_response_contract_version :: "nat option"
  mr_http_status :: "nat option"
  mr_response_json :: "json option"
  mr_error_json :: "json option"
  mr_ledger_transaction_id :: "uuid option"
  mr_app_transaction_id :: "uuid option"
  mr_updated_at :: time
  mr_expires_at :: time

text \<open>What the work throws: an \<^verbatim>\<open>HttpException\<close> with its status and response, or something else, perhaps with a message.\<close>

datatype failure = Http_Failure nat json | Other_Failure "string option"

definition money_error :: "nat \<Rightarrow> string \<Rightarrow> metadata \<Rightarrow> failure" where
  "money_error status code details = Http_Failure status (JObj ((''code'', JStr code) # details))"

definition serializeUnknownError :: "string option \<Rightarrow> json" where
  "serializeUnknownError message =
     JObj [(''statusCode'', JNum 500),
       (''error'', JObj [(''code'', JStr ''INTERNAL_OR_UNKNOWN''),
          (''message'', JStr (case message of None \<Rightarrow> ''Unknown error'' | Some m \<Rightarrow> m))])]"

definition serializeHttpException :: "nat \<Rightarrow> json \<Rightarrow> json" where
  "serializeHttpException status body =
     JObj [(''statusCode'', JNum (of_nat status)),
       (''error'', case body of JObj _ \<Rightarrow> body | JArr _ \<Rightarrow> body | _ \<Rightarrow> JObj [(''message'', body)])]"

definition json_field :: "json option \<Rightarrow> string \<Rightarrow> json option" where
  "json_field v k =
     (case v of Some (JObj kvs) \<Rightarrow> (case map_of kvs k of Some JNull \<Rightarrow> None | x \<Rightarrow> x) | _ \<Rightarrow> None)"

definition toHttpException :: "money_record \<Rightarrow> failure" where
  "toHttpException row =
     Http_Failure
       (case json_field (mr_error_json row) ''statusCode'' of
          Some (JNum s) \<Rightarrow> nat \<lfloor>s\<rfloor>
        | _ \<Rightarrow> (case mr_http_status row of None \<Rightarrow> 409 | Some s \<Rightarrow> s))
       (case json_field (mr_error_json row) ''error'' of
          None \<Rightarrow> JObj [(''message'', JStr ''Request failed'')] | Some e \<Rightarrow> e)"

definition isStaleInFlight :: "time \<Rightarrow> int \<Rightarrow> money_record \<Rightarrow> bool" where
  "isStaleInFlight now staleMinutes row \<longleftrightarrow> mr_updated_at row < now - staleMinutes * 60 * 1000"

definition text_field :: "json \<Rightarrow> string \<Rightarrow> string option" where
  "text_field v k = (case v of JObj kvs \<Rightarrow> (case map_of kvs k of Some (JStr s) \<Rightarrow> Some s | _ \<Rightarrow> None) | _ \<Rightarrow> None)"

definition extractLedgerMeta :: "json \<Rightarrow> uuid option \<times> uuid option" where
  "extractLedgerMeta v =
     (text_field v ''ledger_transaction_id'',
      case text_field v ''transaction_id'' of None \<Rightarrow> text_field v ''id'' | Some i \<Rightarrow> Some i)"

text \<open>What a record found under the key answers; \<open>None\<close> is an in-flight record that may be reclaimed.\<close>

definition existing_answer :: "time \<Rightarrow> int \<Rightarrow> string \<Rightarrow> money_record \<Rightarrow> (failure + json) option" where
  "existing_answer now staleMinutes requestHash row =
     (if mr_request_hash row \<noteq> requestHash then Some (Inl (money_error 409 ''IDEMPOTENCY_KEY_REUSE_DIFFERENT_REQUEST''
        [(''message'', JStr ''Idempotency-Key was already used with a different request payload for this actor and scope.'')]))
      else (case mr_status row of
              MONEY_COMPLETED \<Rightarrow>
                (case mr_response_json row of
                   None \<Rightarrow> Some (Inl (money_error 409 ''IDEMPOTENCY_CORRUPT_ROW''
                     [(''message'', JStr ''Idempotency replay row is missing cached response.'')]))
                 | Some v \<Rightarrow> Some (Inr v))
            | MONEY_FAILED \<Rightarrow>
                (case mr_error_json row of
                   None \<Rightarrow> Some (Inl (money_error 409 ''IDEMPOTENCY_CORRUPT_ROW''
                     [(''message'', JStr ''Idempotency replay row is missing cached error.'')]))
                 | Some _ \<Rightarrow> Some (Inl (toHttpException row)))
            | UNCERTAIN \<Rightarrow> Some (Inl (money_error 503 ''IDEMPOTENCY_OUTCOME_UNCERTAIN''
                [(''message'', JStr (''Prior attempt has no confirmed outcome (server/PSP ambiguity). '' @
                    ''Do not repeat money movement with the same Idempotency-Key until reconciliation.'')),
                 (''idempotency_record_id'', JStr (mr_id row))]))
            | IN_FLIGHT \<Rightarrow>
                if isStaleInFlight now staleMinutes row then None
                else Some (Inl (money_error 409 ''IDEMPOTENCY_IN_PROGRESS''
                  [(''message'', JStr ''A request with this Idempotency-Key is still being processed. Retry with backoff.''),
                   (''retry_after_ms'', JNum 750)]))))"

record money_request =
  mq_scope :: money_scope
  mq_actor_user_id :: uuid
  mq_idempotency_key :: string
  mq_request_hash :: string
  mq_ttl_hours :: int
  mq_stale_minutes :: int

definition same_key :: "money_request \<Rightarrow> money_record \<Rightarrow> bool" where
  "same_key rq r \<longleftrightarrow> mr_scope r = mq_scope rq \<and> mr_actor_user_id r = mq_actor_user_id rq \<and>
     mr_idempotency_key r = mq_idempotency_key rq"

definition in_flight_row :: "uuid \<Rightarrow> time \<Rightarrow> money_request \<Rightarrow> money_record" where
  "in_flight_row i now rq =
     \<lparr>mr_id = i, mr_scope = mq_scope rq, mr_actor_user_id = mq_actor_user_id rq,
      mr_idempotency_key = mq_idempotency_key rq, mr_request_hash = mq_request_hash rq, mr_status = IN_FLIGHT,
      mr_response_contract_version = None, mr_http_status = None, mr_response_json = None, mr_error_json = None,
      mr_ledger_transaction_id = None, mr_app_transaction_id = None, mr_updated_at = now,
      mr_expires_at = now + mq_ttl_hours rq * 3600 * 1000\<rparr>"

definition settled_record :: "time \<Rightarrow> json \<Rightarrow> money_record \<Rightarrow> money_record" where
  "settled_record now v r =
     r\<lparr>mr_status := MONEY_COMPLETED, mr_http_status := Some 200,
       mr_response_json := (if v = JNull then None else Some v), mr_response_contract_version := Some 1,
       mr_ledger_transaction_id := fst (extractLedgerMeta v), mr_app_transaction_id := snd (extractLedgerMeta v),
       mr_updated_at := now, mr_expires_at := now + 365 * 24 * 3600 * 1000\<rparr>"

text \<open>The \<^verbatim>\<open>catch\<close> block; \<open>allowDelete\<close> is \<^verbatim>\<open>IDEMPOTENCY_DELETE_ROW_ON_SERVER_ERROR\<close>.\<close>

definition record_failure :: "bool \<Rightarrow> time \<Rightarrow> uuid \<Rightarrow> failure \<Rightarrow> money_record list \<Rightarrow> money_record list" where
  "record_failure allowDelete now i err rows =
     (let mark = (\<lambda>st status body. update_where (\<lambda>r. mr_id r = i)
            (\<lambda>r. r\<lparr>mr_status := st, mr_http_status := Some status, mr_error_json := Some body, mr_updated_at := now\<rparr>) rows);
          drop_row = delete_where (\<lambda>r. mr_id r = i) rows
      in (case err of
            Http_Failure status body \<Rightarrow>
              if 400 \<le> status \<and> status < 500 then mark MONEY_FAILED status (serializeHttpException status body)
              else if allowDelete then drop_row
              else mark UNCERTAIN status (serializeHttpException status body)
          | Other_Failure message \<Rightarrow>
              if allowDelete then drop_row else mark UNCERTAIN 500 (serializeUnknownError message)))"

type_synonym ('w, 'x) money_state = "money_record list \<times> 'w \<times> 'x"
type_synonym ('w, 'x) money_work = "'w \<times> 'x \<Rightarrow> (failure + json) \<times> 'w \<times> 'x"

definition money_body ::
    "bool \<Rightarrow> uuid \<Rightarrow> time \<Rightarrow> money_request \<Rightarrow> ('w, 'x) money_work \<Rightarrow> ('w, 'x) money_state
     \<Rightarrow> (failure + json) \<times> ('w, 'x) money_state" where
  "money_body allowDelete new_id now rq work s =
     (case s of (rows, w, x) \<Rightarrow>
        let existing = find_where (same_key rq) rows
        in (case (case existing of None \<Rightarrow> None
                  | Some row \<Rightarrow> existing_answer now (mq_stale_minutes rq) (mq_request_hash rq) row) of
              Some r \<Rightarrow> (r, s)
            | None \<Rightarrow>
                let kept = (case existing of None \<Rightarrow> rows | Some row \<Rightarrow> delete_where (\<lambda>r. mr_id r = mr_id row) rows);
                    reserved = insert_row (in_flight_row new_id now rq) kept
                in (case work (w, x) of
                      (Inr v, w1, x1) \<Rightarrow> (Inr v, update_where (\<lambda>r. mr_id r = new_id) (settled_record now v) reserved, w1, x1)
                    | (Inl err, w1, x1) \<Rightarrow> (Inl err, record_failure allowDelete now new_id err reserved, w1, x1))))"

text \<open>
  \<^verbatim>\<open>dataSource.transaction\<close>: when the body throws, everything it wrote to the data base is rolled back, the
  record of the failure with it; what happened outside stays.
\<close>

definition runInTransaction ::
    "bool \<Rightarrow> uuid \<Rightarrow> time \<Rightarrow> money_request \<Rightarrow> ('w, 'x) money_work \<Rightarrow> ('w, 'x) money_state
     \<Rightarrow> (failure + json) \<times> ('w, 'x) money_state" where
  "runInTransaction allowDelete new_id now rq work s =
     (case money_body allowDelete new_id now rq work s of
        (Inr v, s1) \<Rightarrow> (Inr v, s1)
      | (Inl err, rows1, w1, x1) \<Rightarrow> (Inl err, fst s, fst (snd s), x1))"

definition money_request_of ::
    "(string \<Rightarrow> string) \<Rightarrow> (rat \<Rightarrow> string) \<Rightarrow> money_scope \<Rightarrow> uuid \<Rightarrow> string \<Rightarrow> json \<Rightarrow> int option \<Rightarrow> int option \<Rightarrow> money_request" where
  "money_request_of sha256 num_text scope actorUserId idempotencyKey payload ttlHours staleInFlightMinutes =
     \<lparr>mq_scope = scope, mq_actor_user_id = actorUserId, mq_idempotency_key = idempotencyKey,
      mq_request_hash = canonicalRequestHash sha256 num_text payload,
      mq_ttl_hours = (case ttlHours of None \<Rightarrow> 24 | Some h \<Rightarrow> h),
      mq_stale_minutes = (case staleInFlightMinutes of None \<Rightarrow> 15 | Some m \<Rightarrow> m)\<rparr>"

section \<open>Which requests are the same\<close>

text \<open>
  Two payloads are the same request when they differ in the order of properties and in their
  \<^verbatim>\<open>idempotency_key\<close> only, at any depth (or in a property \<^verbatim>\<open>__proto__\<close>, which the canonical form loses).
\<close>

inductive same_payload :: "json \<Rightarrow> json \<Rightarrow> bool" where
  same_refl: "same_payload v v"
| same_array: "list_all2 same_payload vs ws \<Longrightarrow> same_payload (JArr vs) (JArr ws)"
| same_object: "distinct (map fst kvs) \<Longrightarrow> mset (own_keys kvs) = mset ms \<Longrightarrow>
    list_all2 (\<lambda>a b. fst a = fst b \<and> same_payload (snd a) (snd b)) ms (own_keys lws) \<Longrightarrow>
    same_payload (JObj kvs) (JObj lws)"

lemma own_keys_map: "own_keys (map (\<lambda>(k, v). (k, f v)) kvs) = map (\<lambda>(k, v). (k, f v)) (own_keys kvs)"
  by (induction kvs) (auto simp: own_keys_def)

lemma sort_places_unique:
  assumes "mset xs = mset ys" and "distinct (map fst xs)"
  shows "sort_key (\<lambda>(k, v). property_place k) xs = sort_key (\<lambda>(k, v). property_place k) (ys :: metadata)"
proof (rule map_sorted_distinct_set_unique [where f = "\<lambda>(k, v). property_place k"])
  let ?f = "\<lambda>(k, v). property_place k" and ?s = "\<lambda>zs. sort_key (\<lambda>(k, v). property_place k) zs"
  have f: "?f a = ?f b \<longleftrightarrow> fst a = fst b" for a b :: "string \<times> json"
    by (cases a; cases b) (auto simp: property_place_def)
  have d: "distinct (map fst zs) \<Longrightarrow> distinct (map ?f zs)" for zs :: metadata
    by (auto simp: distinct_map inj_on_def f)
  have "mset (map fst (?s xs)) = mset (map fst xs)" "mset (map fst (?s ys)) = mset (map fst xs)"
    using assms(1) by (simp_all add: mset_map)
  then have dist: "distinct (map fst (?s xs))" "distinct (map fst (?s ys))" using assms(2) mset_eq_imp_distinct_iff by blast+
  then show "distinct (map ?f (?s xs))" "distinct (map ?f (?s ys))" by (blast intro: d)+
  have "set xs = set ys" using assms(1) by (rule mset_eq_setD)
  then show "set (?s xs) = set (?s ys)" by simp
  have "inj_on fst (set xs)" using assms(2) by (simp add: distinct_map)
  then show "inj_on ?f (set (?s xs) \<union> set (?s ys))" using \<open>set xs = set ys\<close> by (auto simp: inj_on_def f)
qed simp_all

lemma distinct_own: "distinct (map fst kvs) \<Longrightarrow> distinct (map fst (own_keys kvs))"
  by (simp add: own_keys_def distinct_map_filter)

lemma same_payload_canonical: "same_payload a b \<Longrightarrow> canonicalizeForIdempotency a = canonicalizeForIdempotency b"
proof (induction rule: same_payload.induct)
  case (same_array vs ws)
  then have "map canonicalizeForIdempotency vs = map canonicalizeForIdempotency ws"
    by (induction rule: list_all2_induct) auto
  then show ?case by simp
next
  case (same_object kvs ms lws)
  let ?g = "map (\<lambda>(k, v). (k, canonicalizeForIdempotency v))"
  have "?g ms = ?g (own_keys lws)" using same_object(3) by (induction rule: list_all2_induct) auto
  moreover have "mset (?g (own_keys kvs)) = mset (?g ms)" using same_object(2) by (simp only: mset_map)
  ultimately have m: "mset (?g (own_keys kvs)) = mset (?g (own_keys lws))" by simp
  have n: "map fst (?g xs) = map fst xs" for xs by (induction xs) auto
  have d: "distinct (map fst (?g (own_keys kvs)))" unfolding n by (rule distinct_own [OF same_object(1)])
  show ?case by (simp only: canonicalizeForIdempotency.simps own_keys_map sort_places_unique [OF m d])
qed simp

text \<open>
  The order of properties and the \<^verbatim>\<open>idempotency_key\<close> of the body, at any depth, do not change the hash, so that a
  retry written differently is the same request.
\<close>

theorem hash_ignores_order:
  assumes "same_payload a b"
  shows "canonicalRequestHash sha256 num_text a = canonicalRequestHash sha256 num_text b"
  using same_payload_canonical [OF assms] by (simp add: canonicalRequestHash_def)

section \<open>One movement for each key\<close>

inductive money_run :: "('w, 'x) money_state \<Rightarrow> ('w, 'x) money_state \<Rightarrow> bool" where
  no_request: "money_run s s"
| one_request: "money_run s t \<Longrightarrow> i \<notin> mr_id ` set (fst t) \<Longrightarrow> money_run s (snd (runInTransaction allowDelete i now rq work t))"

text \<open>What a request leaves: nothing in the data base when it fails; else a record it found or one more.\<close>

lemma run_failed:
  assumes "runInTransaction allowDelete i now rq work s = (Inl e, t)"
  shows "fst t = fst s \<and> fst (snd t) = fst (snd s)"
  using assms by (auto simp: runInTransaction_def split: prod.splits sum.splits)

lemma run_existing:
  assumes "find_where (same_key rq) (fst s) = Some row" and "existing_answer now (mq_stale_minutes rq) (mq_request_hash rq) row = Some r"
  shows "runInTransaction allowDelete i now rq work s = (r, s)"
  using assms by (cases s; cases r) (simp_all add: runInTransaction_def money_body_def)

lemma run_new:
  assumes "find_where (same_key rq) rows = None" and "i \<notin> mr_id ` set rows"
  shows "runInTransaction allowDelete i now rq work (rows, w, x) =
    (case work (w, x) of
       (Inr v, w1, x1) \<Rightarrow> (Inr v, rows @ [settled_record now v (in_flight_row i now rq)], w1, x1)
     | (Inl err, w1, x1) \<Rightarrow> (Inl err, rows, w, x1))"
proof -
  have "update_where (\<lambda>r. mr_id r = i) f rows = rows" for f using assms(2) by (intro update_where_none) auto
  moreover have "update_where p f (rows @ [r]) = update_where p f rows @ update_where p f [r]" for p f r
    by (simp add: update_where_def)
  ultimately show ?thesis
    by (auto simp: runInTransaction_def money_body_def Let_def assms(1) insert_row_def in_flight_row_def split: prod.splits sum.splits)
qed

definition settled_rows :: "money_record list \<Rightarrow> bool" where
  "settled_rows rows \<longleftrightarrow> (\<forall>r\<in>set rows. mr_status r = MONEY_COMPLETED)"

lemma settled_answer:
  "mr_status row = MONEY_COMPLETED \<Longrightarrow> \<exists>r. existing_answer now m h row = Some r"
  by (simp add: existing_answer_def split: option.split)

lemma run_appends:
  assumes "settled_rows (fst s)" and "i \<notin> mr_id ` set (fst s)"
  shows "\<exists>more. fst (snd (runInTransaction allowDelete i now rq work s)) = fst s @ more \<and> settled_rows more"
proof (cases "find_where (same_key rq) (fst s)")
  case (Some row)
  have "mr_status row = MONEY_COMPLETED" using find_where_Some [OF Some] assms(1) by (simp add: settled_rows_def)
  then obtain r where "existing_answer now (mq_stale_minutes rq) (mq_request_hash rq) row = Some r" using settled_answer by blast
  from run_existing [OF Some this] show ?thesis by (simp add: settled_rows_def)
next
  case None
  obtain rows w x where s: "s = (rows, w, x)" by (cases s)
  obtain r w1 x1 where work: "work (w, x) = (r, w1, x1)" by (cases "work (w, x)")
  show ?thesis using run_new [of rq rows i allowDelete now work w x] None assms(2)
    by (cases r) (auto simp: s settled_rows_def settled_record_def work)
qed

lemma money_run_appends:
  "money_run s t \<Longrightarrow> settled_rows (fst s) \<Longrightarrow> \<exists>more. fst t = fst s @ more \<and> settled_rows more"
proof (induction rule: money_run.induct)
  case (one_request s t i allowDelete now rq work)
  obtain more where m: "fst t = fst s @ more" "settled_rows more" using one_request by blast
  have "settled_rows (fst t)" using m one_request.prems by (auto simp: settled_rows_def)
  from run_appends [OF this one_request.hyps(2), of allowDelete now rq work] m show ?case by (auto simp: settled_rows_def)
qed (simp add: settled_rows_def)

text \<open>
  C11: A movement that went through is not made again. However many requests of anybody follow, the same request under
  the same key gets the stored answer and another request under that key is refused with a conflict; neither
  does anything, inside or outside the data base.
\<close>

theorem money_moved_once:
  assumes "money_run ([], w0, x0) s" and "i \<notin> mr_id ` set (fst s)"
    and "runInTransaction allowDelete i now rq work s = (Inr v, t)" and "v \<noteq> JNull" and "money_run t t'"
    and "mq_scope rq' = mq_scope rq" and "mq_actor_user_id rq' = mq_actor_user_id rq"
    and "mq_idempotency_key rq' = mq_idempotency_key rq"
  shows "\<exists>answer. runInTransaction allowDelete' j now' rq' work' t' = (answer, t') \<and>
    (if mq_request_hash rq' = mq_request_hash rq then answer = Inr v
     else \<exists>m. answer = Inl (money_error 409 ''IDEMPOTENCY_KEY_REUSE_DIFFERENT_REQUEST'' m))"
proof -
  have st: "settled_rows (fst s)" using money_run_appends [OF assms(1)] by (auto simp: settled_rows_def)
  obtain row where row: "find_where (same_key rq) (fst t) = Some row" "mr_request_hash row = mq_request_hash rq"
    "mr_status row = MONEY_COMPLETED" "mr_response_json row = Some v"
  proof (cases "find_where (same_key rq) (fst s)")
    case (Some r)
    have c: "mr_status r = MONEY_COMPLETED" using find_where_Some [OF Some] st by (simp add: settled_rows_def)
    then obtain a where a: "existing_answer now (mq_stale_minutes rq) (mq_request_hash rq) r = Some a" using settled_answer by blast
    have "a = Inr v" "t = s" using run_existing [OF Some a, of allowDelete i work] assms(3) by simp_all
    then show ?thesis using that [of r] Some a c by (auto simp: existing_answer_def split: if_splits option.splits)
  next
    case None
    obtain rows w x where s: "s = (rows, w, x)" by (cases s)
    have "fst t = rows @ [settled_record now v (in_flight_row i now rq)]"
      using run_new [of rq rows i allowDelete now work w x] None assms(2,3) by (auto simp: s split: prod.splits sum.splits)
    then have "find_where (same_key rq) (fst t) = Some (settled_record now v (in_flight_row i now rq))"
      using None by (simp add: s find_where_append same_key_def settled_record_def in_flight_row_def)
    then show ?thesis using that assms(4) by (simp add: settled_record_def in_flight_row_def)
  qed
  have "settled_rows (fst t)" using run_appends [OF st assms(2), of allowDelete now rq work] assms(3) st by (auto simp: settled_rows_def)
  then obtain more where "fst t' = fst t @ more" using money_run_appends [OF assms(5)] by blast
  moreover have "same_key rq' = same_key rq" by (simp add: fun_eq_iff same_key_def assms(6-8))
  ultimately have f: "find_where (same_key rq') (fst t') = Some row" using row(1) by (simp add: find_where_append)
  show ?thesis
  proof (cases "mq_request_hash rq' = mq_request_hash rq")
    case True
    then have "existing_answer now' (mq_stale_minutes rq') (mq_request_hash rq') row = Some (Inr v)"
      using row by (simp add: existing_answer_def)
    from run_existing [OF f this] True show ?thesis by simp
  next
    case False
    then obtain m where "existing_answer now' (mq_stale_minutes rq') (mq_request_hash rq') row =
        Some (Inl (money_error 409 ''IDEMPOTENCY_KEY_REUSE_DIFFERENT_REQUEST'' m))"
      using row(2) by (simp add: existing_answer_def)
    from run_existing [OF f this] False show ?thesis by auto
  qed
qed

text \<open>
  C12: A failed movement is forgotten. The \<^verbatim>\<open>catch\<close> block records it as \<^verbatim>\<open>FAILED\<close> or, when its outcome is
  not known, as \<^verbatim>\<open>UNCERTAIN\<close>, which is to keep the key from being tried again; but it then rethrows inside
  \<^verbatim>\<open>dataSource.transaction\<close>, whose rollback takes the record away. No state that is reached holds any
  record but completed ones, and the same request right after the failure does the work once more, with what
  the first attempt did outside the data base still in place.
\<close>

theorem failure_forgotten:
  assumes "money_run ([], w0, x0) (rows, w, x)" and "i \<notin> mr_id ` set rows" and "j \<notin> mr_id ` set rows"
    and "find_where (same_key rq) rows = None" and "work (w, x) = (Inl err, w1, x1)"
  shows "(\<forall>r\<in>set rows. mr_status r = MONEY_COMPLETED) \<and>
    runInTransaction allowDelete i now rq work (rows, w, x) = (Inl err, rows, w, x1) \<and>
    snd (snd (snd (runInTransaction allowDelete j now' rq work (rows, w, x1)))) = snd (snd (work (w, x1)))"
proof -
  have "settled_rows rows" using money_run_appends [OF assms(1)] by (auto simp: settled_rows_def)
  moreover have "runInTransaction allowDelete i now rq work (rows, w, x) = (Inl err, rows, w, x1)"
    by (simp add: run_new [OF assms(4,2)] assms(5))
  moreover have "snd (snd (snd (runInTransaction allowDelete j now' rq work (rows, w, x1)))) = snd (snd (work (w, x1)))"
    by (simp add: run_new [OF assms(4,3)] split: prod.split sum.split)
  ultimately show ?thesis by (simp add: settled_rows_def)
qed

section \<open>Examples\<close>

text \<open>A transfer that takes 5 from an account, and a payment whose provider charges and then does not answer.\<close>

definition a_transfer :: "money_request" where
  "a_transfer = money_request_of (\<lambda>s. s) (\<lambda>_. ''5'') P2P_TRANSFER ''u'' ''key-0001'' (JObj [(''amount'', JNum 5)]) None None"

definition take_five :: "(int, int list) money_work" where
  "take_five s = (Inr (JStr ''done''), fst s - 5, snd s)"

definition charge_and_time_out :: "(int, int list) money_work" where
  "charge_and_time_out s = (Inl (Http_Failure 504 (JStr ''timeout'')), fst s, 5 # snd s)"

theorem money_moved_once_witness:
  "\<exists>t. runInTransaction False ''r1'' 1 a_transfer take_five ([], 100, []) = (Inr (JStr ''done''), t) \<and>
     runInTransaction False ''r2'' 2 a_transfer take_five t = (Inr (JStr ''done''), t) \<and> fst (snd t) = 95"
proof -
  let ?r = "runInTransaction False ''r1'' 1 a_transfer take_five ([], 100, [])"
  have r: "fst ?r = Inr (JStr ''done'')" "fst (snd (snd ?r)) = 95"
    using run_new [of a_transfer "[]" "''r1''" False 1 take_five 100 "[]"] by (simp_all add: take_five_def find_where_def)
  then have e: "?r = (Inr (JStr ''done''), snd ?r)" by (metis prod.collapse)
  have "runInTransaction False ''r2'' 2 a_transfer take_five (snd ?r) = (Inr (JStr ''done''), snd ?r)"
    using money_moved_once [OF no_request _ e _ no_request refl refl refl, of False "''r2''" 2 take_five] by simp
  then show ?thesis using e r(2) by blast
qed

theorem failure_forgotten_witness:
  "snd (snd (snd (runInTransaction False ''r2'' 2 a_transfer charge_and_time_out ([], 100, [5])))) = [5, 5]"
  using failure_forgotten [OF no_request, where i = "''r1''" and j = "''r2''" and x = "[]" and w = 100 and rq = a_transfer
      and work = charge_and_time_out and now' = 2 and allowDelete = False]
  by (simp add: charge_and_time_out_def find_where_def)

theorem hash_ignores_order_witness:
  "canonicalRequestHash (\<lambda>s. s) (\<lambda>_. ''5'') (JObj [(''to'', JStr ''b''), (''amount'', JNum 5)]) =
   canonicalRequestHash (\<lambda>s. s) (\<lambda>_. ''5'') (JObj [(''idempotency_key'', JStr ''k''), (''amount'', JNum 5), (''to'', JStr ''b'')])"
proof (rule hash_ignores_order)
  let ?ms = "[(''amount'', JNum 5), (''to'', JStr ''b'')]"
  show "same_payload (JObj [(''to'', JStr ''b''), (''amount'', JNum 5)])
     (JObj [(''idempotency_key'', JStr ''k''), (''amount'', JNum 5), (''to'', JStr ''b'')])"
    by (rule same_object [where ms = ?ms]) (simp_all add: own_keys_def same_refl add_mset_commute)
qed

end
