(* ===== verification/Spec2Isabelle.thy ===== *)
theory Spec2Isabelle
  imports StaysSystem HostLists RefreshTokens PinSignIn SignInGuards SupportDesk Conversations MoneyIdempotency
begin

text \<open>
  A verification library for the stays service of the repository (\<^verbatim>\<open>src/stays/src\<close>): booking a
  stay, taking its payment, the host's calendar and listings, the conversation of a booking and the support
  desk; and for signing in at the identity service (\<^verbatim>\<open>src/identity/src/modules/auth\<close>).

  \<^bold>\<open>Parts and theories\<close>, in the order in which they build on each other:

  \<^item> \<open>Prelude\<close>: HTTP errors and the result type, JSON objects, the table operations of the
    repositories (find, update with a count, insert, delete, latest) and JavaScript strings.
  \<^item> \<open>JsNumber\<close>: JavaScript numbers as rationals rounded to 53 bits (\<open>fl\<close>), \<^verbatim>\<open>Math.round\<close>, decimal
    columns (\<open>num\<close> reads a column of cents, \<open>col2\<close> writes one) and \<^verbatim>\<open>Number(text)\<close>; the locale
    \<open>binary64_rounding\<close> is what the error bounds need of rounding.
  \<^item> \<open>JsDate\<close>: \<^verbatim>\<open>utils/booking-date.util.ts\<close>, \<^verbatim>\<open>utils/booking-reference.util.ts\<close> and the date texts of
    the availability service; a date column is a day number.
  \<^item> \<open>StaysData\<close>: the entities as records, the data base as one record of tables (\<open>stays_db\<close>), and
    \<open>transaction\<close>, which undoes what the handler's connection wrote. Settings, audit rows and events are
    written through other connections and survive.
  \<^item> \<open>PlatformFees\<close>: \<^verbatim>\<open>platform-settings.service.ts\<close>, \<^verbatim>\<open>financial-integrity.ts\<close>, \<^verbatim>\<open>financial-observability.ts\<close>.
  \<^item> \<open>Availability\<close>: \<^verbatim>\<open>stays-availability.service.ts\<close>; the locale \<open>inventory\<close> states when adding a row
    keeps a table free of conflicts.
  \<^item> \<open>Lifecycle\<close>: \<^verbatim>\<open>booking-lifecycle.service.ts\<close>, with the offset of the server's time zone as a parameter.
  \<^item> \<open>Timeline\<close>: \<^verbatim>\<open>timeline-seeder.service.ts\<close>, \<^verbatim>\<open>conversation-provision.service.ts\<close>, \<^verbatim>\<open>outbox.service.ts\<close>
    and the preview texts.
  \<^item> \<open>MessagingState\<close>: \<^verbatim>\<open>messaging-state.service.ts\<close>, \<^verbatim>\<open>permissions.service.ts\<close>, \<^verbatim>\<open>rate-limit.service.ts\<close>; the
    locale \<open>window_limiter\<close> turns a check at send time into a bound for every window.
  \<^item> \<open>PaymentConfig\<close>: \<^verbatim>\<open>payment-provider.config.ts\<close> and the CMI client.
  \<^item> \<open>Payments\<close>: \<^verbatim>\<open>stays-payments.service.ts\<close>.
  \<^item> \<open>Bookings\<close>: creation, reading and presentation of bookings and the host's blocks
    (\<^verbatim>\<open>stays.service.ts\<close>).
  \<^item> \<open>StaysCancellation\<close>: \<^verbatim>\<open>stays-cancellation.service.ts\<close>; who may cancel, the refund of each policy to the
    cent, the single refund entry and what follows the commit.
  \<^item> \<open>Scheduler\<close>: \<^verbatim>\<open>booking-lifecycle-scheduler.service.ts\<close>; the work on one candidate is an operation of
    its own, so that other operations can come between a job's read and its writes.
  \<^item> \<open>StaysSystem\<close>: all of these as one transition system (\<open>sys_step\<close>, \<open>reachable\<close>) over the data base and
    the candidates of a running completion job, with the invariants that hold in every reachable state.

  \<^item> \<open>PhoneNumbers\<close>: \<^verbatim>\<open>common/phone/phone-normalizer.ts\<close>.
  \<^item> \<open>ListingCompletion\<close>: \<^verbatim>\<open>listing-completion.ts\<close>, the gate of a listing's submission and its percentage.
  \<^item> \<open>HostOnboarding\<close>: \<^verbatim>\<open>host-onboarding.service.ts\<close>: applications, their review, who may list.
  \<^item> \<open>HostListings\<close>: \<^verbatim>\<open>host-listings.service.ts\<close> and the review of listings in \<^verbatim>\<open>admin-stays.service.ts\<close>,
    as one transition system (\<open>host_step\<close>, \<open>host_reachable\<close>) with the audit trail publication needs.
  \<^item> \<open>KeysetPages\<close>, \<open>HostLists\<close>: the paged lists of the host portal; the locale \<open>key_order\<close> holds what
    makes following cursors exact, \<open>HostLists\<close> applies it to bookings and listings.

  \<^item> \<open>OutboxWorker\<close>: \<^verbatim>\<open>outbox.worker.ts\<close>, \<^verbatim>\<open>snapshot-repair.service.ts\<close>: one run as a function that refines a
    queue of jobs, and several instances with crashes as a transition system (\<open>outbox_exec\<close>).
  \<^item> \<open>SupportRouting\<close>: \<^verbatim>\<open>support-sla.config.ts\<close>, \<^verbatim>\<open>support-routing.config.ts\<close>, \<^verbatim>\<open>support-assignment.service.ts\<close> and the
    SQL of service levels and workloads; the tables of the support desk beside those of the stays (\<open>support_db\<close>).
  \<^item> \<open>SupportTickets\<close>: the operations of \<^verbatim>\<open>support-tickets.service.ts\<close> on tickets, replies, notes, ratings and reports.
  \<^item> \<open>Messages\<close>: \<^verbatim>\<open>messages.service.ts\<close>: paging with the locale \<open>key_order\<close>, texts with retries and limits, marking as
    read with its read and its commit apart.
  \<^item> \<open>SupportDesk\<close>: all of the support desk as one transition system (\<open>desk_step\<close>, \<open>desk_run\<close>): what every reachable
    state satisfies and what every ticket keeps over a run.
  \<^item> \<open>ConversationRepair\<close>: \<^verbatim>\<open>conversation-repair.service.ts\<close>, which opening the inbox runs.
  \<^item> \<open>Conversations\<close>: \<^verbatim>\<open>conversations.service.ts\<close>: the inbox and its badge over the repaired tables, hiding,
    blocking, reopening and reporting a conversation.

  \<^item> \<open>MoneyIdempotency\<close>: \<^verbatim>\<open>common/idempotency\<close>, the record of each idempotency key around a movement of money; the
    legacy wallets of the identity service use the same class.

  \<^item> \<open>RefreshTokens\<close>, of the identity service (\<^verbatim>\<open>src/identity/src/modules/auth\<close>): issuing, rotating and revoking
    refresh tokens, with the reads and writes of a rotation as separate steps of several instances.
  \<^item> \<open>OtpSignIn\<close>, \<open>PinSignIn\<close>: sending and checking one-time codes and PINs with their lockouts, which
    interpret the locale \<open>window_limiter\<close> of \<open>MessagingState\<close>.
  \<^item> \<open>SignInGuards\<close>: the limit on sent codes and the cached version of an administrator's privilege.

  \<^bold>\<open>Reading the model.\<close> A handler takes its parameters, the clock (\<open>now\<close>), fresh identifiers and the
  data base, and returns an error or a value with the data base after it. Row locks serialise the
  transactions of one listing or booking, so a transaction is one step. What is not in the repository is a
  parameter: the environment, the payment gateway (\<open>cmi_world\<close>), free-form date parsing
  (\<open>date_engine\<close>), the answer of PostgreSQL to an insert (\<open>booking_env\<close>) and the names the
  identity service knows.

  \<^bold>\<open>Bounds.\<close> Money theorems hold for amounts up to 2^40 to 2^43 cents, where 53 bits leave at least a
  512th of a cent; date texts for the years 1000 to 9999; the only fuel counts
  the pages a client follows (\<open>walk\<close>), and one more than there are rows is enough;
  the one \<^verbatim>\<open>while\<close> loop terminates by its distance to the end.

  \<^bold>\<open>Not modelled\<close>: of the support desk the lists and details of the admin screens, presence, canned replies and
  the signals of \<^verbatim>\<open>operational-intelligence.service.ts\<close> (reports over aggregating SQL); messages with attachments and
  their upload sessions (file storage and scanners); listing search and the generated pages for search engines;
  dashboards; of the identity service accounts, profiles and compliance, which call external providers, and
  the retired wallets, taxi and delivery modules. The components of the manifest say it part by part.
\<close>

end
